(* ===== verification/Prelude.thy ===== *)
theory Prelude
  imports Main "HOL-Library.Char_ord" "HOL-Library.List_Lexorder"
begin

text \<open>
  Shared vocabulary of the development: Rust's \<open>Result\<close> with its combinators and the shape of a
  \<open>for\<close> loop whose body may leave with \<open>?\<close>, Rust's strings as their UTF-8 bytes with the character
  iterator that the code uses on them, and the generic list lemmas of the component theories.

  A Rust value of type \<open>Result<T, E>\<close> is \<open>Ok v\<close> or \<open>Err e\<close>.  The third constructor \<open>Panic\<close> stands for an
  abort of the computation (an arithmetic overflow with checks on, a failed \<open>expect\<close>), so that the
  absence of panics is a statement of the model.
\<close>

named_theorems result_simps \<open>unfolding of the combinators on results\<close>
named_theorems id_simps \<open>facts about identifiers and their strings\<close>

section \<open>Results\<close>

datatype ('a, 'e) result = Ok 'a | Err 'e | Panic

fun and_then :: "('a, 'e) result \<Rightarrow> ('a \<Rightarrow> ('b, 'e) result) \<Rightarrow> ('b, 'e) result" where
  "and_then (Ok a) f = f a"
| "and_then (Err e) f = Err e"
| "and_then Panic f = Panic"

fun map_err :: "('e \<Rightarrow> 'f) \<Rightarrow> ('a, 'e) result \<Rightarrow> ('a, 'f) result" where
  "map_err f (Ok a) = Ok a"
| "map_err f (Err e) = Err (f e)"
| "map_err f Panic = Panic"

fun is_ok :: "('a, 'e) result \<Rightarrow> bool" where
  "is_ok (Ok a) = True"
| "is_ok (Err e) = False"
| "is_ok Panic = False"

fun is_err :: "('a, 'e) result \<Rightarrow> bool" where
  "is_err (Err e) = True"
| "is_err (Ok a) = False"
| "is_err Panic = False"

fun ok_or :: "'a option \<Rightarrow> 'e \<Rightarrow> ('a, 'e) result" where
  "ok_or (Some a) e = Ok a"
| "ok_or None e = Err e"

text \<open>A loop \<open>for x in xs { body(x)?; }\<close> that keeps no state of its own.\<close>

fun try_each :: "('a \<Rightarrow> (unit, 'e) result) \<Rightarrow> 'a list \<Rightarrow> (unit, 'e) result" where
  "try_each f [] = Ok ()"
| "try_each f (x # xs) = and_then (f x) (\<lambda>_. try_each f xs)"

text \<open>A loop \<open>for x in xs { s = body(s, x)?; }\<close> over a state \<open>s\<close>.\<close>

fun try_fold :: "('s \<Rightarrow> 'a \<Rightarrow> ('s, 'e) result) \<Rightarrow> 's \<Rightarrow> 'a list \<Rightarrow> ('s, 'e) result" where
  "try_fold f s [] = Ok s"
| "try_fold f s (x # xs) = and_then (f s x) (\<lambda>s'. try_fold f s' xs)"

text \<open>\<open>iter.map(f).collect::<Result<Vec<_>, _>>()\<close>.\<close>

fun try_map :: "('a \<Rightarrow> ('b, 'e) result) \<Rightarrow> 'a list \<Rightarrow> ('b list, 'e) result" where
  "try_map f [] = Ok []"
| "try_map f (x # xs) =
     and_then (f x) (\<lambda>y. and_then (try_map f xs) (\<lambda>ys. Ok (y # ys)))"

lemma and_then_eq_Ok [simp, result_simps]:
  "and_then r f = Ok b \<longleftrightarrow> (\<exists>a. r = Ok a \<and> f a = Ok b)"
  by (cases r) auto

lemma and_then_eq_Err [result_simps]:
  "and_then r f = Err e \<longleftrightarrow> r = Err e \<or> (\<exists>a. r = Ok a \<and> f a = Err e)"
  by (cases r) auto

lemma and_then_eq_Panic [result_simps]:
  "and_then r f = Panic \<longleftrightarrow> r = Panic \<or> (\<exists>a. r = Ok a \<and> f a = Panic)"
  by (cases r) auto

lemma and_then_unit_Ok: "and_then r (\<lambda>_. q) = Ok b \<longleftrightarrow> r = Ok () \<and> q = Ok b"
  by (cases r) auto

lemma and_then_assoc: "and_then (and_then r f) g = and_then r (\<lambda>a. and_then (f a) g)"
  by (cases r) auto

lemma and_then_cong [fundef_cong]:
  "r = r' \<Longrightarrow> (\<And>a. r' = Ok a \<Longrightarrow> f a = g a) \<Longrightarrow> and_then r f = and_then r' g"
  by (cases r') auto

lemma map_err_eq_Ok [simp, result_simps]: "map_err f r = Ok a \<longleftrightarrow> r = Ok a"
  by (cases r) auto

lemma map_err_eq_Err [simp, result_simps]: "map_err f r = Err e \<longleftrightarrow> (\<exists>d. r = Err d \<and> e = f d)"
  by (cases r) auto

lemma map_err_eq_Panic [simp, result_simps]: "map_err f r = Panic \<longleftrightarrow> r = Panic"
  by (cases r) auto

lemma ok_or_eq_Ok [simp, result_simps]: "ok_or x e = Ok a \<longleftrightarrow> x = Some a"
  by (cases x) auto

lemma ok_or_eq_Err [simp, result_simps]: "ok_or x e = Err d \<longleftrightarrow> x = None \<and> d = e"
  by (cases x) auto

lemma ok_or_not_Panic [simp, result_simps]: "ok_or x e \<noteq> Panic"
  by (cases x) auto

lemma is_ok_iff: "is_ok r \<longleftrightarrow> (\<exists>a. r = Ok a)"
  by (cases r) auto

lemma is_err_iff: "is_err r \<longleftrightarrow> (\<exists>e. r = Err e)"
  by (cases r) auto

lemma result_cases_no_panic:
  "r \<noteq> Panic \<Longrightarrow> (\<And>a. r = Ok a \<Longrightarrow> P) \<Longrightarrow> (\<And>e. r = Err e \<Longrightarrow> P) \<Longrightarrow> P"
  by (cases r) auto

lemma try_each_Ok_iff [simp]: "try_each f xs = Ok u \<longleftrightarrow> (\<forall>x\<in>set xs. f x = Ok ())"
  by (induction xs) auto

lemma try_each_Err_iff:
  "try_each f xs = Err e \<longleftrightarrow>
     (\<exists>ps x ss. xs = ps @ x # ss \<and> (\<forall>p\<in>set ps. f p = Ok ()) \<and> f x = Err e)"
proof (induction xs)
  case Nil
  then show ?case by simp
next
  case (Cons y ys)
  have split: "(\<exists>ps x ss. y # ys = ps @ x # ss \<and> (\<forall>p\<in>set ps. f p = Ok ()) \<and> f x = Err e) \<longleftrightarrow>
      f y = Err e \<or>
      (f y = Ok () \<and> (\<exists>ps x ss. ys = ps @ x # ss \<and> (\<forall>p\<in>set ps. f p = Ok ()) \<and> f x = Err e))"
    (is "?L \<longleftrightarrow> ?R")
  proof
    assume ?L
    then obtain ps x ss where
      *: "y # ys = ps @ x # ss" "\<forall>p\<in>set ps. f p = Ok ()" "f x = Err e" by blast
    show ?R by (cases ps) (use * in auto)
  next
    assume ?R
    then show ?L
    proof
      assume "f y = Err e"
      then show ?L by (intro exI [of _ "[]"]) auto
    next
      assume "f y = Ok () \<and> (\<exists>ps x ss. ys = ps @ x # ss \<and> (\<forall>p\<in>set ps. f p = Ok ()) \<and> f x = Err e)"
      then obtain ps x ss where
        "f y = Ok ()" "ys = ps @ x # ss" "\<forall>p\<in>set ps. f p = Ok ()" "f x = Err e" by blast
      then show ?L by (intro exI [of _ "y # ps"] exI [of _ x] exI [of _ ss]) auto
    qed
  qed
  show ?case
    unfolding split using Cons.IH by (cases "f y") auto
qed

lemma try_each_no_panic: "(\<And>x. x \<in> set xs \<Longrightarrow> f x \<noteq> Panic) \<Longrightarrow> try_each f xs \<noteq> Panic"
  by (induction xs) (auto simp: and_then_eq_Panic)

lemma try_each_append:
  "try_each f (xs @ ys) = and_then (try_each f xs) (\<lambda>_. try_each f ys)"
  by (induction xs) (auto simp: and_then_assoc)

lemma try_fold_append:
  "try_fold f s (xs @ ys) = and_then (try_fold f s xs) (\<lambda>s'. try_fold f s' ys)"
  by (induction xs arbitrary: s) (auto simp: and_then_assoc)

lemma try_fold_no_panic: "(\<And>s x. x \<in> set xs \<Longrightarrow> f s x \<noteq> Panic) \<Longrightarrow> try_fold f s xs \<noteq> Panic"
  by (induction xs arbitrary: s) (auto simp: and_then_eq_Panic)

text \<open>The loop rule: an invariant of the body on the consumed prefix holds at the end.\<close>

lemma try_fold_invariant:
  assumes run: "try_fold f s xs = Ok s'"
    and start: "I [] s"
    and body: "\<And>ps x s s'. I ps s \<Longrightarrow> f s x = Ok s' \<Longrightarrow> x \<in> set xs \<Longrightarrow> I (ps @ [x]) s'"
  shows "I xs s'"
proof -
  have "I (ps @ ys) s'" if "try_fold f t ys = Ok s'" "I ps t" "set ys \<subseteq> set xs" for ps ys t
    using that
  proof (induction ys arbitrary: ps t)
    case (Cons y ys)
    from Cons.prems obtain t' where t': "f t y = Ok t'" "try_fold f t' ys = Ok s'" by auto
    with body [of ps t y t'] Cons.prems have "I (ps @ [y]) t'" by auto
    with Cons.IH [of t' "ps @ [y]"] t' Cons.prems show ?case by simp
  qed simp
  from this [OF run start] show ?thesis by simp
qed

lemma try_map_Ok_iff: "try_map f xs = Ok ys \<longleftrightarrow> list_all2 (\<lambda>x y. f x = Ok y) xs ys"
  by (induction xs arbitrary: ys) (auto simp: list_all2_Cons1)

lemma try_map_no_panic: "(\<And>x. x \<in> set xs \<Longrightarrow> f x \<noteq> Panic) \<Longrightarrow> try_map f xs \<noteq> Panic"
  by (induction xs) (auto simp: and_then_eq_Panic)

lemma try_map_Err:
  "try_map f xs = Err e \<Longrightarrow> \<exists>x\<in>set xs. f x = Err e"
  by (induction xs) (auto simp: and_then_eq_Err)

lemma try_map_total:
  "(\<And>x. x \<in> set xs \<Longrightarrow> f x = Ok (g x)) \<Longrightarrow> try_map f xs = Ok (map g xs)"
  by (induction xs) auto

section \<open>Strings\<close>

text \<open>
  A Rust \<open>String\<close> is the list of its UTF-8 bytes, so that \<open>len()\<close> is the length of the list and the
  derived order is the lexicographic order on bytes.  \<open>chars\<close> decodes the Unicode scalar values the
  way \<open>str::chars\<close> does on the (always valid) bytes of a \<open>str\<close>.
\<close>

definition byte :: "char \<Rightarrow> nat" where
  "byte c = of_char c"

fun chars :: "string \<Rightarrow> nat list" where
  "chars [] = []"
| "chars (a # s) =
     (if byte a < 224 then
        (if byte a < 192 then byte a # chars s
         else case s of b # s' \<Rightarrow> ((byte a - 192) * 64 + (byte b - 128)) # chars s' | [] \<Rightarrow> [])
      else if byte a < 240 then
        (case s of b # c # s' \<Rightarrow>
           ((byte a - 224) * 4096 + (byte b - 128) * 64 + (byte c - 128)) # chars s' | _ \<Rightarrow> [])
      else
        (case s of b # c # d # s' \<Rightarrow>
           ((byte a - 240) * 262144 + (byte b - 128) * 4096 + (byte c - 128) * 64 + (byte d - 128))
             # chars s' | _ \<Rightarrow> []))"

definition char_is_whitespace :: "nat \<Rightarrow> bool" where
  "char_is_whitespace c \<longleftrightarrow>
     (9 \<le> c \<and> c \<le> 13) \<or> c = 32 \<or> c = 133 \<or> c = 160 \<or> c = 5760 \<or> (8192 \<le> c \<and> c \<le> 8202) \<or>
     c = 8232 \<or> c = 8233 \<or> c = 8239 \<or> c = 8287 \<or> c = 12288"

definition char_is_control :: "nat \<Rightarrow> bool" where
  "char_is_control c \<longleftrightarrow> c \<le> 31 \<or> (127 \<le> c \<and> c \<le> 159)"

definition trim_chars :: "nat list \<Rightarrow> nat list" where
  "trim_chars cs = rev (dropWhile char_is_whitespace (rev (dropWhile char_is_whitespace cs)))"

lemma trim_chars_eq_Nil_iff: "trim_chars cs = [] \<longleftrightarrow> (\<forall>c\<in>set cs. char_is_whitespace c)"
proof
  assume "trim_chars cs = []"
  then have "\<forall>c\<in>set (dropWhile char_is_whitespace cs). char_is_whitespace c"
    by (simp add: trim_chars_def dropWhile_eq_Nil_conv)
  then have "dropWhile char_is_whitespace cs = []"
    by (metis hd_dropWhile list.set_sel(1))
  then show "\<forall>c\<in>set cs. char_is_whitespace c"
    by (simp add: dropWhile_eq_Nil_conv)
next
  assume "\<forall>c\<in>set cs. char_is_whitespace c"
  then have "dropWhile char_is_whitespace cs = []"
    by (simp add: dropWhile_eq_Nil_conv [THEN iffD2])
  then show "trim_chars cs = []" by (simp only: trim_chars_def) simp
qed

definition ascii_only :: "string \<Rightarrow> bool" where
  "ascii_only s \<longleftrightarrow> (\<forall>c\<in>set s. byte c < 128)"

lemma chars_ascii: "ascii_only s \<Longrightarrow> chars s = map byte s"
  by (induction s) (auto simp: ascii_only_def)

lemma ascii_only_append [simp]: "ascii_only (s @ t) \<longleftrightarrow> ascii_only s \<and> ascii_only t"
  by (auto simp: ascii_only_def)

section \<open>Lists\<close>

lemma distinct_snoc_iff: "distinct (xs @ [x]) \<longleftrightarrow> distinct xs \<and> x \<notin> set xs"
  by auto

lemma find_Some_split:
  "List.find P xs = Some x \<longleftrightarrow>
     (\<exists>ps ss. xs = ps @ x # ss \<and> P x \<and> (\<forall>p\<in>set ps. \<not> P p))"
proof
  assume "List.find P xs = Some x"
  then show "\<exists>ps ss. xs = ps @ x # ss \<and> P x \<and> (\<forall>p\<in>set ps. \<not> P p)"
  proof (induction xs)
    case (Cons y ys)
    show ?case
    proof (cases "P y")
      case True
      then show ?thesis using Cons.prems by (intro exI [of _ "[]"] exI [of _ ys]) auto
    next
      case False
      then obtain ps ss where "ys = ps @ x # ss" "P x" "\<forall>p\<in>set ps. \<not> P p"
        using Cons by auto
      then show ?thesis using False by (intro exI [of _ "y # ps"] exI [of _ ss]) auto
    qed
  qed simp
next
  assume "\<exists>ps ss. xs = ps @ x # ss \<and> P x \<and> (\<forall>p\<in>set ps. \<not> P p)"
  then obtain ps ss where *: "xs = ps @ x # ss" "P x" "\<forall>p\<in>set ps. \<not> P p" by blast
  then show "List.find P xs = Some x"
    by (induction ps arbitrary: xs) auto
qed

lemma find_in_set: "List.find P xs = Some x \<Longrightarrow> x \<in> set xs \<and> P x"
  by (auto simp: find_Some_iff)

lemma concat_map_eq_Nil: "concat (map f xs) = [] \<longleftrightarrow> (\<forall>x\<in>set xs. f x = [])"
  by (induction xs) auto

lemma map_of_eq_Some_iff_distinct:
  "distinct (map fst xs) \<Longrightarrow> map_of xs k = Some v \<longleftrightarrow> (k, v) \<in> set xs"
  by (rule map_of_eq_Some_iff)

end
