(* ===== verification/BTree.thy ===== *)
theory BTree
  imports Prelude
begin

text \<open>
  The ordered collections of Rust's standard library that the program uses everywhere:
  \<open>BTreeMap\<close> as an association list in strictly increasing key order and \<open>BTreeSet\<close> as a strictly
  increasing list.  Iteration order is list order; lookup is \<open>map_of\<close>.  The operations keep the
  order (\<open>bt_ok\<close>, \<open>bs_ok\<close>).  The locale \<open>ordered_map\<close> is the contract the clients rely on: \<open>BTreeMap\<close>
  and \<open>BTreeSet\<close> are interpretations of it.
\<close>

section \<open>Maps\<close>

type_synonym ('k, 'v) btree_map = "('k \<times> 'v) list"

abbreviation bt_keys :: "('k, 'v) btree_map \<Rightarrow> 'k list" where
  "bt_keys m \<equiv> map fst m"

definition bt_ok :: "('k::linorder, 'v) btree_map \<Rightarrow> bool" where
  "bt_ok m \<longleftrightarrow> sorted_wrt (<) (bt_keys m)"

fun bt_insert :: "'k::linorder \<Rightarrow> 'v \<Rightarrow> ('k, 'v) btree_map \<Rightarrow> ('k, 'v) btree_map" where
  "bt_insert k v [] = [(k, v)]"
| "bt_insert k v ((k', v') # m) =
     (if k < k' then (k, v) # (k', v') # m
      else if k = k' then (k, v) # m
      else (k', v') # bt_insert k v m)"

definition bt_remove :: "'k::linorder \<Rightarrow> ('k, 'v) btree_map \<Rightarrow> ('k, 'v) btree_map" where
  "bt_remove k m = filter (\<lambda>(k', _). k' \<noteq> k) m"

definition bt_from_list :: "('k::linorder \<times> 'v) list \<Rightarrow> ('k, 'v) btree_map" where
  "bt_from_list kvs = fold (\<lambda>(k, v) m. bt_insert k v m) kvs []"

lemma map_of_bt_insert [simp]: "map_of (bt_insert k v m) = (map_of m)(k \<mapsto> v)"
  by (induction m) (auto simp: fun_eq_iff)

lemma set_keys_bt_insert [simp]: "fst ` set (bt_insert k v m) = insert k (fst ` set m)"
  by (simp only: dom_map_of_conv_image_fst [symmetric] map_of_bt_insert dom_fun_upd) simp

lemma bt_ok_Nil [simp]: "bt_ok []"
  by (simp add: bt_ok_def)

lemma bt_insert_ok [simp]: "bt_ok m \<Longrightarrow> bt_ok (bt_insert k v m)"
proof (induction m)
  case (Cons kv m)
  obtain k' v' where kv: "kv = (k', v')" by force
  have m: "bt_ok m" "\<forall>x\<in>fst ` set m. k' < x"
    using Cons.prems by (auto simp: bt_ok_def kv)
  have "\<forall>x\<in>set (bt_keys (bt_insert k v m)). k' < x" if "k' < k"
    using m(2) that by (simp only: set_map set_keys_bt_insert) auto
  then show ?case
    using Cons m by (auto simp: bt_ok_def kv)
qed (simp add: bt_ok_def)

lemma bt_ok_distinct: "bt_ok m \<Longrightarrow> distinct (bt_keys m)"
  by (simp add: bt_ok_def strict_sorted_iff)

lemma bt_ok_sorted: "bt_ok m \<Longrightarrow> sorted (bt_keys m)"
  by (simp add: bt_ok_def strict_sorted_iff)

lemma bt_ok_eqI:
  assumes "bt_ok m" "bt_ok n" "map_of m = map_of n"
  shows "m = n"
proof -
  have "set m = set n"
    using assms by (metis bt_ok_distinct map_of_eq_Some_iff subrelI subset_antisym)
  moreover have "distinct m" "distinct n"
    using assms by (auto dest: bt_ok_distinct simp: distinct_map)
  moreover have "sorted (bt_keys m)" "sorted (bt_keys n)"
    using assms by (auto dest: bt_ok_sorted)
  moreover have "inj_on fst (set m \<union> set n)"
    using assms \<open>set m = set n\<close> by (auto dest: bt_ok_distinct simp: distinct_map)
  moreover have "distinct (bt_keys m)" "distinct (bt_keys n)"
    using assms by (auto dest: bt_ok_distinct)
  ultimately show ?thesis
    using map_sorted_distinct_set_unique [of fst m n] by blast
qed

lemma map_of_bt_remove [simp]: "map_of (bt_remove k m) = (map_of m)(k := None)"
  by (induction m) (auto simp: bt_remove_def fun_eq_iff)

lemma bt_remove_ok [simp]: "bt_ok m \<Longrightarrow> bt_ok (bt_remove k m)"
  unfolding bt_ok_def bt_remove_def
  by (induction m) auto

lemma bt_from_list_snoc:
  "bt_from_list (kvs @ [(k, v)]) = bt_insert k v (bt_from_list kvs)"
  by (simp add: bt_from_list_def)

lemma bt_from_list_ok [simp]: "bt_ok (bt_from_list kvs)"
  by (induction kvs rule: rev_induct) (auto simp: bt_from_list_snoc bt_from_list_def)

lemma map_of_bt_from_list: "map_of (bt_from_list kvs) = map_of (rev kvs)"
  by (induction kvs rule: rev_induct) (auto simp: bt_from_list_snoc bt_from_list_def)

lemma set_keys_bt_from_list [simp]: "fst ` set (bt_from_list kvs) = fst ` set kvs"
  by (metis dom_map_of_conv_image_fst map_of_bt_from_list set_rev)

lemma bt_from_list_lookup:
  assumes "distinct (map fst kvs)"
  shows "map_of (bt_from_list kvs) k = Some v \<longleftrightarrow> (k, v) \<in> set kvs"
proof -
  have "distinct (map fst (rev kvs))" using assms by (simp add: rev_map [symmetric])
  then have "map_of (rev kvs) k = Some v \<longleftrightarrow> (k, v) \<in> set (rev kvs)" by (rule map_of_eq_Some_iff)
  then show ?thesis by (simp add: map_of_bt_from_list)
qed

lemma bt_from_list_mem: "(k, v) \<in> set (bt_from_list kvs) \<longleftrightarrow> map_of (bt_from_list kvs) k = Some v"
  using map_of_eq_Some_iff [OF bt_ok_distinct [OF bt_from_list_ok, of kvs]] by blast

text \<open>Writing through \<open>get_mut\<close>: the entry is changed in place when the key is present.\<close>

definition bt_modify :: "'k \<Rightarrow> ('v \<Rightarrow> 'v) \<Rightarrow> ('k, 'v) btree_map \<Rightarrow> ('k, 'v) btree_map" where
  "bt_modify k f m = map (\<lambda>(k', v). (k', if k' = k then f v else v)) m"

lemma map_of_bt_modify [simp]:
  "map_of (bt_modify k f m) = (map_of m)(k := map_option f (map_of m k))"
  by (induction m) (auto simp: bt_modify_def fun_eq_iff)

lemma bt_keys_bt_modify [simp]: "bt_keys (bt_modify k f m) = bt_keys m"
  by (induction m) (auto simp: bt_modify_def)

lemma bt_modify_ok [simp]: "bt_ok (bt_modify k f m) \<longleftrightarrow> bt_ok m"
  by (simp add: bt_ok_def)

lemma bt_lookup_None_iff: "map_of m k = None \<longleftrightarrow> k \<notin> set (bt_keys m)"
  by (simp add: map_of_eq_None_iff)

section \<open>Sets\<close>

type_synonym 'k btree_set = "'k list"

definition bs_ok :: "('k::linorder) btree_set \<Rightarrow> bool" where
  "bs_ok s \<longleftrightarrow> sorted_wrt (<) s"

fun bs_insert :: "'k::linorder \<Rightarrow> 'k btree_set \<Rightarrow> 'k btree_set" where
  "bs_insert k [] = [k]"
| "bs_insert k (x # s) =
     (if k < x then k # x # s else if k = x then x # s else x # bs_insert k s)"

definition bs_from_list :: "('k::linorder) list \<Rightarrow> 'k btree_set" where
  "bs_from_list ks = fold bs_insert ks []"

lemma set_bs_insert [simp]: "set (bs_insert k s) = insert k (set s)"
  by (induction s) auto

lemma bs_ok_Nil [simp]: "bs_ok []"
  by (simp add: bs_ok_def)

lemma bs_ok_Cons [simp]: "bs_ok (x # s) \<longleftrightarrow> bs_ok s \<and> (\<forall>y\<in>set s. x < y)"
  by (auto simp: bs_ok_def)

lemma bs_insert_ok [simp]: "bs_ok s \<Longrightarrow> bs_ok (bs_insert k s)"
  by (induction s) auto

lemma bs_ok_distinct: "bs_ok s \<Longrightarrow> distinct s"
  by (simp add: bs_ok_def strict_sorted_iff)

lemma bs_insert_length: "bs_ok s \<Longrightarrow> length (bs_insert k s) = card (insert k (set s))"
  by (metis bs_insert_ok bs_ok_distinct distinct_card set_bs_insert)

lemma bs_insert_absorb: "bs_ok s \<Longrightarrow> k \<in> set s \<Longrightarrow> bs_insert k s = s"
  by (induction s) auto

lemma bs_ok_eqI: "bs_ok s \<Longrightarrow> bs_ok t \<Longrightarrow> set s = set t \<Longrightarrow> s = t"
  by (auto simp: bs_ok_def strict_sorted_iff intro: sorted_distinct_set_unique)

lemma bs_from_list_snoc: "bs_from_list (ks @ [k]) = bs_insert k (bs_from_list ks)"
  by (simp add: bs_from_list_def)

lemma set_bs_from_list [simp]: "set (bs_from_list ks) = set ks"
  by (induction ks rule: rev_induct) (auto simp: bs_from_list_snoc bs_from_list_def)

lemma bs_from_list_ok [simp]: "bs_ok (bs_from_list ks)"
  by (induction ks rule: rev_induct) (auto simp: bs_from_list_snoc bs_from_list_def)

lemma bs_from_list_cong: "set ks = set ls \<Longrightarrow> bs_from_list ks = bs_from_list ls"
  by (rule bs_ok_eqI) auto

lemma bs_ok_hd_least: "bs_ok (x # s) \<Longrightarrow> y \<in> set (x # s) \<Longrightarrow> x \<le> y"
  by auto

section \<open>The contract of ordered maps\<close>

text \<open>
  What the clients of the ordered collections rely on: an insertion is visible under its key and
  nowhere else, and a sequence of insertions ends in the same collection whenever it ends in the
  same lookups, whatever the order of the insertions was.
\<close>

locale ordered_map =
  fixes empty :: 'm
    and put :: "'k \<Rightarrow> 'v \<Rightarrow> 'm \<Rightarrow> 'm"
    and get :: "'m \<Rightarrow> 'k \<Rightarrow> 'v option"
    and ok :: "'m \<Rightarrow> bool"
  assumes empty_ok: "ok empty"
    and get_empty: "get empty k = None"
    and put_ok: "ok m \<Longrightarrow> ok (put k v m)"
    and get_put: "ok m \<Longrightarrow> get (put k v m) = (get m)(k \<mapsto> v)"
    and canonical: "ok m \<Longrightarrow> ok n \<Longrightarrow> get m = get n \<Longrightarrow> m = n"
begin

definition collect :: "('k \<times> 'v) list \<Rightarrow> 'm" where
  "collect kvs = fold (\<lambda>(k, v) m. put k v m) kvs empty"

lemma collect_snoc: "collect (kvs @ [(k, v)]) = put k v (collect kvs)"
  by (simp add: collect_def)

lemma collect_Nil: "collect [] = empty"
  by (simp add: collect_def)

lemma collect_ok: "ok (collect kvs)"
  by (induction kvs rule: rev_induct) (auto simp: collect_snoc collect_Nil empty_ok put_ok)

lemma get_collect: "get (collect kvs) = map_of (rev kvs)"
proof (induction kvs rule: rev_induct)
  case Nil
  show ?case by (simp add: collect_Nil get_empty fun_eq_iff)
next
  case (snoc kv kvs)
  then show ?case by (cases kv) (simp add: collect_snoc get_put collect_ok)
qed

lemma collect_order_irrelevant:
  assumes "distinct (map fst kvs)" "set kvs = set lvs" "distinct (map fst lvs)"
  shows "collect kvs = collect lvs"
proof (rule canonical [OF collect_ok collect_ok])
  have "map_of (rev kvs) = map_of (rev lvs)"
    using assms by (intro map_of_inject_set [THEN iffD2]) (auto simp: rev_map [symmetric])
  then show "get (collect kvs) = get (collect lvs)" by (simp add: get_collect)
qed

end

interpretation btmap: ordered_map "[]" bt_insert map_of bt_ok
  by unfold_locales (auto intro: bt_ok_eqI)

text \<open>A \<open>BTreeSet<K>\<close> is a \<open>BTreeMap<K, ()>\<close>.\<close>

definition bs_get :: "('k::linorder) btree_set \<Rightarrow> 'k \<Rightarrow> unit option" where
  "bs_get s k = (if k \<in> set s then Some () else None)"

interpretation btset: ordered_map "[]" "\<lambda>k (_::unit). bs_insert k" bs_get bs_ok
proof unfold_locales
  fix m n :: "'a btree_set"
  assume "bs_ok m" "bs_ok n" "bs_get m = bs_get n"
  moreover from this have "set m = set n"
    by (auto simp: bs_get_def fun_eq_iff split: if_splits)
  ultimately show "m = n" by (simp add: bs_ok_eqI)
qed (auto simp: bs_get_def)

lemma btmap_collect_from_list: "btmap.collect = bt_from_list"
  by (simp add: fun_eq_iff btmap.collect_def bt_from_list_def)

lemma bt_from_list_order_irrelevant:
  "distinct (map fst kvs) \<Longrightarrow> set kvs = set lvs \<Longrightarrow> distinct (map fst lvs) \<Longrightarrow>
   bt_from_list kvs = bt_from_list lvs"
  using btmap.collect_order_irrelevant by (simp add: btmap_collect_from_list)

section \<open>Duplicate detection\<close>

text \<open>
  The idiom \<open>for x in xs { if !seen.insert(key(x)) { return Err(dup(x)); } }\<close> with a \<open>BTreeSet\<close>, which
  the constructors of nodes, graphs, capabilities and contracts share.  The locale \<open>dup_checker\<close>
  states what such a loop promises; every constructor interprets it.
\<close>

fun reject_dups :: "('a \<Rightarrow> 'k::linorder) \<Rightarrow> ('a \<Rightarrow> 'e) \<Rightarrow> 'k btree_set \<Rightarrow> 'a list \<Rightarrow> (unit, 'e) result" where
  "reject_dups key dup seen [] = Ok ()"
| "reject_dups key dup seen (x # xs) =
     (if key x \<in> set seen then Err (dup x)
      else reject_dups key dup (bs_insert (key x) seen) xs)"

locale dup_checker =
  fixes check :: "'a list \<Rightarrow> (unit, 'e) result"
    and key :: "'a \<Rightarrow> 'k"
    and dup :: "'a \<Rightarrow> 'e"
  assumes check_Nil: "check [] = Ok ()"
    and check_snoc: "check (xs @ [x]) =
      and_then (check xs) (\<lambda>_. if key x \<in> key ` set xs then Err (dup x) else Ok ())"
begin

lemma check_no_panic: "check xs \<noteq> Panic"
  by (induction xs rule: rev_induct) (auto simp: check_Nil check_snoc and_then_eq_Panic)

lemma check_Ok_iff: "check xs = Ok () \<longleftrightarrow> distinct (map key xs)"
  by (induction xs rule: rev_induct) (auto simp: check_Nil check_snoc split: if_splits)

text \<open>The error is that of the first element that repeats an earlier one.\<close>

lemma check_Err_iff:
  "check xs = Err e \<longleftrightarrow>
     (\<exists>ps x ss. xs = ps @ x # ss \<and> distinct (map key ps) \<and> key x \<in> key ` set ps \<and> e = dup x)"
proof (induction xs rule: rev_induct)
  case Nil
  show ?case by (simp add: check_Nil)
next
  case (snoc y ys)
  have split: "(\<exists>ps x ss. ys @ [y] = ps @ x # ss \<and> distinct (map key ps) \<and> key x \<in> key ` set ps \<and> e = dup x)
    \<longleftrightarrow> (\<exists>ps x ss. ys = ps @ x # ss \<and> distinct (map key ps) \<and> key x \<in> key ` set ps \<and> e = dup x)
      \<or> (distinct (map key ys) \<and> key y \<in> key ` set ys \<and> e = dup y)" (is "?L \<longleftrightarrow> ?R")
  proof
    assume ?L
    then obtain ps x ss where
      *: "ys @ [y] = ps @ x # ss" "distinct (map key ps)" "key x \<in> key ` set ps" "e = dup x" by blast
    show ?R
      by (cases ss rule: rev_cases) (use * in auto)
  next
    assume ?R
    then show ?L
    proof
      assume "\<exists>ps x ss. ys = ps @ x # ss \<and> distinct (map key ps) \<and> key x \<in> key ` set ps \<and> e = dup x"
      then obtain ps x ss where
        "ys = ps @ x # ss" "distinct (map key ps)" "key x \<in> key ` set ps" "e = dup x" by blast
      then show ?L by (intro exI [of _ ps] exI [of _ x] exI [of _ "ss @ [y]"]) simp
    qed auto
  qed
  show ?case
    unfolding split check_snoc and_then_eq_Err snoc.IH using check_Ok_iff [of ys] by auto
qed

end

lemma reject_dups_seen_snoc:
  "reject_dups key dup seen (xs @ [x]) =
     and_then (reject_dups key dup seen xs)
       (\<lambda>_. if key x \<in> set seen \<union> key ` set xs then Err (dup x) else Ok ())"
  by (induction xs arbitrary: seen) auto

lemma reject_dups_dup_checker: "dup_checker (reject_dups key dup []) key dup"
  by unfold_locales (simp_all add: reject_dups_seen_snoc)

end
