(* ===== verification/Identifiers.thy ===== *)
theory Identifiers
  imports BTree
begin

text \<open>
  The crate \<open>pureflow-types\<close>: the five opaque identifier types and their common validation.  An
  identifier is a newtype over its string; the only way to build one in the code is \<open>new\<close> (or the
  conversions that call it), so a value of the type that the program holds satisfies
  \<open>valid_identifier\<close>.
\<close>

definition MAX_IDENTIFIER_LEN :: nat where
  "MAX_IDENTIFIER_LEN = 256"

datatype identifier_kind =
  WorkflowKind | ExecutionKind | MessageKind | NodeKind | PortKind

fun kind_label :: "identifier_kind \<Rightarrow> string" where
  "kind_label WorkflowKind = ''workflow id''"
| "kind_label ExecutionKind = ''execution id''"
| "kind_label MessageKind = ''message id''"
| "kind_label NodeKind = ''node id''"
| "kind_label PortKind = ''port id''"

datatype identifier_error =
  Empty identifier_kind
| Whitespace identifier_kind
| Control identifier_kind
| TooLong identifier_kind nat

definition validate_identifier :: "identifier_kind \<Rightarrow> string \<Rightarrow> (unit, identifier_error) result" where
  "validate_identifier kind value =
     (if length value > MAX_IDENTIFIER_LEN then Err (TooLong kind MAX_IDENTIFIER_LEN)
      else if trim_chars (chars value) = [] then Err (Empty kind)
      else if list_ex char_is_whitespace (chars value) then Err (Whitespace kind)
      else if list_ex char_is_control (chars value) then Err (Control kind)
      else Ok ())"

text \<open>The five instances of the macro \<open>id_type!\<close>.\<close>

datatype workflow_id = WorkflowId string
datatype execution_id = ExecutionId string
datatype message_id = MessageId string
datatype node_id = NodeId string
datatype port_id = PortId string

primrec workflow_id_str :: "workflow_id \<Rightarrow> string" where "workflow_id_str (WorkflowId s) = s"
primrec execution_id_str :: "execution_id \<Rightarrow> string" where "execution_id_str (ExecutionId s) = s"
primrec message_id_str :: "message_id \<Rightarrow> string" where "message_id_str (MessageId s) = s"
primrec node_id_str :: "node_id \<Rightarrow> string" where "node_id_str (NodeId s) = s"
primrec port_id_str :: "port_id \<Rightarrow> string" where "port_id_str (PortId s) = s"

definition new_id :: "identifier_kind \<Rightarrow> (string \<Rightarrow> 'i) \<Rightarrow> string \<Rightarrow> ('i, identifier_error) result" where
  "new_id kind mk value = and_then (validate_identifier kind value) (\<lambda>_. Ok (mk value))"

definition new_workflow_id :: "string \<Rightarrow> (workflow_id, identifier_error) result" where
  "new_workflow_id = new_id WorkflowKind WorkflowId"

definition new_execution_id :: "string \<Rightarrow> (execution_id, identifier_error) result" where
  "new_execution_id = new_id ExecutionKind ExecutionId"

definition new_message_id :: "string \<Rightarrow> (message_id, identifier_error) result" where
  "new_message_id = new_id MessageKind MessageId"

definition new_node_id :: "string \<Rightarrow> (node_id, identifier_error) result" where
  "new_node_id = new_id NodeKind NodeId"

definition new_port_id :: "string \<Rightarrow> (port_id, identifier_error) result" where
  "new_port_id = new_id PortKind PortId"

section \<open>Order\<close>

text \<open>The order derived by \<open>#[derive(PartialOrd, Ord)]\<close> is that of the underlying string.\<close>

instantiation node_id :: linorder
begin

definition less_eq_node_id :: "node_id \<Rightarrow> node_id \<Rightarrow> bool" where
  "a \<le> b \<longleftrightarrow> node_id_str a \<le> node_id_str b"

definition less_node_id :: "node_id \<Rightarrow> node_id \<Rightarrow> bool" where
  "a < b \<longleftrightarrow> node_id_str a < node_id_str b"

instance
proof
  fix x y z :: node_id
  show "(x < y) = (x \<le> y \<and> \<not> y \<le> x)"
    by (auto simp: less_eq_node_id_def less_node_id_def)
  show "x \<le> x" by (simp add: less_eq_node_id_def)
  show "x \<le> y \<Longrightarrow> y \<le> z \<Longrightarrow> x \<le> z" by (simp add: less_eq_node_id_def)
  show "x \<le> y \<Longrightarrow> y \<le> x \<Longrightarrow> x = y"
    by (cases x; cases y) (simp add: less_eq_node_id_def)
  show "x \<le> y \<or> y \<le> x" by (auto simp: less_eq_node_id_def)
qed

end

instantiation port_id :: linorder
begin

definition less_eq_port_id :: "port_id \<Rightarrow> port_id \<Rightarrow> bool" where
  "a \<le> b \<longleftrightarrow> port_id_str a \<le> port_id_str b"

definition less_port_id :: "port_id \<Rightarrow> port_id \<Rightarrow> bool" where
  "a < b \<longleftrightarrow> port_id_str a < port_id_str b"

instance
proof
  fix x y z :: port_id
  show "(x < y) = (x \<le> y \<and> \<not> y \<le> x)"
    by (auto simp: less_eq_port_id_def less_port_id_def)
  show "x \<le> x" by (simp add: less_eq_port_id_def)
  show "x \<le> y \<Longrightarrow> y \<le> z \<Longrightarrow> x \<le> z" by (simp add: less_eq_port_id_def)
  show "x \<le> y \<Longrightarrow> y \<le> x \<Longrightarrow> x = y"
    by (cases x; cases y) (simp add: less_eq_port_id_def)
  show "x \<le> y \<or> y \<le> x" by (auto simp: less_eq_port_id_def)
qed

end

lemma node_id_order_simps [simp, id_simps]:
  "NodeId s \<le> NodeId t \<longleftrightarrow> s \<le> t" "NodeId s < NodeId t \<longleftrightarrow> s < t"
  by (simp_all add: less_eq_node_id_def less_node_id_def)

lemma port_id_order_simps [simp, id_simps]:
  "PortId s \<le> PortId t \<longleftrightarrow> s \<le> t" "PortId s < PortId t \<longleftrightarrow> s < t"
  by (simp_all add: less_eq_port_id_def less_port_id_def)

section \<open>Validity\<close>

text \<open>What a valid identifier is, stated on the characters and bytes of the string.\<close>

definition valid_identifier :: "string \<Rightarrow> bool" where
  "valid_identifier s \<longleftrightarrow>
     chars s \<noteq> [] \<and> length s \<le> 256 \<and>
     (\<forall>c\<in>set (chars s). \<not> char_is_whitespace c \<and> \<not> char_is_control c)"

lemma validate_identifier_Ok_iff [id_simps]:
  "validate_identifier kind s = Ok () \<longleftrightarrow> valid_identifier s"
  by (auto simp: validate_identifier_def valid_identifier_def MAX_IDENTIFIER_LEN_def list_ex_iff
      trim_chars_eq_Nil_iff split: if_splits)

lemma validate_identifier_no_panic [simp]: "validate_identifier kind s \<noteq> Panic"
  by (simp add: validate_identifier_def)

text \<open>
  The interface every identifier type offers: a fallible constructor, the string view, and that
  both are inverse to each other on the valid strings.
\<close>

locale identifier_type =
  fixes new :: "string \<Rightarrow> ('i, identifier_error) result"
    and as_str :: "'i \<Rightarrow> string"
    and mk :: "string \<Rightarrow> 'i"
    and kind :: identifier_kind
  assumes new_eq: "new s = and_then (validate_identifier kind s) (\<lambda>_. Ok (mk s))"
    and str_mk: "as_str (mk s) = s"
    and mk_str: "mk (as_str i) = i"
begin

lemma new_Ok_iff: "new s = Ok i \<longleftrightarrow> valid_identifier s \<and> as_str i = s"
  using str_mk mk_str by (auto simp: new_eq validate_identifier_Ok_iff)

lemma new_Err_iff: "new s = Err e \<longleftrightarrow> validate_identifier kind s = Err e"
  by (auto simp: new_eq and_then_eq_Err)

lemma new_no_panic: "new s \<noteq> Panic"
  by (simp add: new_eq and_then_eq_Panic)

lemma round_trip: "valid_identifier (as_str i) \<Longrightarrow> new (as_str i) = Ok i"
  by (simp add: new_Ok_iff)

lemma new_inj: "new s = Ok i \<Longrightarrow> new t = Ok i \<Longrightarrow> s = t"
  by (simp add: new_Ok_iff)

end

lemmas new_id_defs = new_workflow_id_def new_execution_id_def new_message_id_def new_node_id_def
  new_port_id_def new_id_def

interpretation workflow_ident: identifier_type new_workflow_id workflow_id_str WorkflowId WorkflowKind
  by unfold_locales (auto simp: new_id_defs intro: workflow_id.exhaust, metis workflow_id.exhaust workflow_id_str.simps)

interpretation execution_ident: identifier_type new_execution_id execution_id_str ExecutionId ExecutionKind
  by unfold_locales (auto simp: new_id_defs, metis execution_id.exhaust execution_id_str.simps)

interpretation message_ident: identifier_type new_message_id message_id_str MessageId MessageKind
  by unfold_locales (auto simp: new_id_defs, metis message_id.exhaust message_id_str.simps)

interpretation node_ident: identifier_type new_node_id node_id_str NodeId NodeKind
  by unfold_locales (auto simp: new_id_defs, metis node_id.exhaust node_id_str.simps)

interpretation port_ident: identifier_type new_port_id port_id_str PortId PortKind
  by unfold_locales (auto simp: new_id_defs, metis port_id.exhaust port_id_str.simps)

lemma node_id_str_inject [simp]: "node_id_str a = node_id_str b \<longleftrightarrow> a = b"
  by (cases a; cases b) simp

lemma port_id_str_inject [simp]: "port_id_str a = port_id_str b \<longleftrightarrow> a = b"
  by (cases a; cases b) simp

text \<open>Evaluation of validity on ASCII strings, which the concrete inputs of the witnesses are.\<close>

definition ascii_graphic :: "string \<Rightarrow> bool" where
  "ascii_graphic s \<longleftrightarrow> s \<noteq> [] \<and> length s \<le> 256 \<and> list_all (\<lambda>c. 32 < byte c \<and> byte c < 127) s"

lemma valid_identifier_ascii: "ascii_graphic s \<Longrightarrow> valid_identifier s"
proof -
  assume a: "ascii_graphic s"
  then have "ascii_only s" by (auto simp: ascii_graphic_def ascii_only_def list_all_iff)
  then show ?thesis
    using a by (auto simp: valid_identifier_def ascii_graphic_def list_all_iff chars_ascii
        char_is_whitespace_def char_is_control_def)
qed

section \<open>Property\<close>

text \<open>
  the constructor of every identifier type accepts exactly the non-empty strings of at most 256
  bytes without white space and control characters, the identifier is the string itself, and each
  error is reported in exactly its case: too long first, then blank, then white space, then control
  characters.
\<close>

theorem new_id_spec:
  "new_id kind mk s =
     (if valid_identifier s then Ok (mk s)
      else if 256 < length s then Err (TooLong kind 256)
      else if list_all char_is_whitespace (chars s) then Err (Empty kind)
      else if list_ex char_is_whitespace (chars s) then Err (Whitespace kind)
      else Err (Control kind))"
  by (auto simp: new_id_def validate_identifier_def valid_identifier_def MAX_IDENTIFIER_LEN_def
      trim_chars_eq_Nil_iff list_ex_iff list_all_iff)

end
