(* ===== verification/Workflow.thy ===== *)
theory Workflow
  imports Identifiers
begin

text \<open>
  The data model of the crate \<open>pureflow-workflow\<close> (\<open>lib.rs\<close>): ports, edges, nodes, graphs and
  workflow definitions, and the structural half of the graph validation: \<open>GraphTopology::from_graph\<close>
  rejects duplicate nodes and edges with undeclared endpoints and builds the adjacency and indegree
  maps on which the ordering (theory \<open>Topology\<close>) runs.
\<close>

section \<open>Data\<close>

datatype port_direction = Input | Output

datatype edge_endpoint_role = Source | Target

datatype workflow_validation_error =
  DuplicateNode node_id
| DuplicatePort node_id port_id
| UnknownNode nat edge_endpoint_role node_id
| UnknownPort nat edge_endpoint_role node_id port_id port_direction
| CycleDetected "node_id list"

record edge_endpoint =
  endpoint_node_id :: node_id
  endpoint_port_id :: port_id

text \<open>A \<open>NonZeroUsize\<close> is a positive \<^typ>\<open>nat\<close>; \<open>capacity_ok\<close> below is the type's guarantee.\<close>

datatype edge_capacity = DefaultCapacity | Explicit nat

fun resolve_capacity :: "edge_capacity \<Rightarrow> nat \<Rightarrow> nat" where
  "resolve_capacity DefaultCapacity d = d"
| "resolve_capacity (Explicit c) d = c"

fun capacity_ok :: "edge_capacity \<Rightarrow> bool" where
  "capacity_ok DefaultCapacity \<longleftrightarrow> True"
| "capacity_ok (Explicit c) \<longleftrightarrow> 0 < c"

record edge_definition =
  edge_source :: edge_endpoint
  edge_target :: edge_endpoint
  edge_capacity :: edge_capacity

definition new_edge :: "edge_endpoint \<Rightarrow> edge_endpoint \<Rightarrow> edge_definition" where
  "new_edge source target =
     \<lparr>edge_source = source, edge_target = target, edge_capacity = DefaultCapacity\<rparr>"

definition edge_with_capacity :: "edge_endpoint \<Rightarrow> edge_endpoint \<Rightarrow> nat \<Rightarrow> edge_definition" where
  "edge_with_capacity source target c =
     \<lparr>edge_source = source, edge_target = target, edge_capacity = Explicit c\<rparr>"

record node_definition =
  node_def_id :: node_id
  input_ports :: "port_id list"
  output_ports :: "port_id list"

definition reject_duplicate_ports ::
  "node_id \<Rightarrow> port_id list \<Rightarrow> port_id list \<Rightarrow> (unit, workflow_validation_error) result" where
  "reject_duplicate_ports n inputs outputs =
     reject_dups (\<lambda>p. p) (\<lambda>p. DuplicatePort n p) [] (inputs @ outputs)"

definition new_node ::
  "node_id \<Rightarrow> port_id list \<Rightarrow> port_id list \<Rightarrow> (node_definition, workflow_validation_error) result" where
  "new_node n inputs outputs =
     and_then (reject_duplicate_ports n inputs outputs)
       (\<lambda>_. Ok \<lparr>node_def_id = n, input_ports = inputs, output_ports = outputs\<rparr>)"

record workflow_graph =
  graph_nodes :: "node_definition list"
  graph_edges :: "edge_definition list"

definition empty_graph :: workflow_graph where
  "empty_graph = \<lparr>graph_nodes = [], graph_edges = []\<rparr>"

record workflow_definition =
  workflow_def_id :: workflow_id
  workflow_graph :: workflow_graph

abbreviation workflow_nodes :: "workflow_definition \<Rightarrow> node_definition list" where
  "workflow_nodes w \<equiv> graph_nodes (workflow_graph w)"

abbreviation workflow_edges :: "workflow_definition \<Rightarrow> edge_definition list" where
  "workflow_edges w \<equiv> graph_edges (workflow_graph w)"

abbreviation edge_source_node :: "edge_definition \<Rightarrow> node_id" where
  "edge_source_node e \<equiv> endpoint_node_id (edge_source e)"

abbreviation edge_target_node :: "edge_definition \<Rightarrow> node_id" where
  "edge_target_node e \<equiv> endpoint_node_id (edge_target e)"

section \<open>The topology\<close>

record graph_topology =
  node_ids :: "node_id list"
  inputs_by_node :: "(node_id, port_id btree_set) btree_map"
  outputs_by_node :: "(node_id, port_id btree_set) btree_map"
  outgoing_by_node :: "(node_id, node_id btree_set) btree_map"
  indegree_by_node :: "(node_id, nat) btree_map"

definition reject_duplicate_nodes ::
  "node_definition list \<Rightarrow> (unit, workflow_validation_error) result" where
  "reject_duplicate_nodes nodes = reject_dups node_def_id (\<lambda>n. DuplicateNode (node_def_id n)) [] nodes"

definition insert_node :: "node_definition \<Rightarrow> graph_topology \<Rightarrow> graph_topology" where
  "insert_node n t =
     \<lparr>node_ids = node_ids t @ [node_def_id n],
      inputs_by_node = bt_insert (node_def_id n) (bs_from_list (input_ports n)) (inputs_by_node t),
      outputs_by_node = bt_insert (node_def_id n) (bs_from_list (output_ports n)) (outputs_by_node t),
      outgoing_by_node = bt_insert (node_def_id n) [] (outgoing_by_node t),
      indegree_by_node = bt_insert (node_def_id n) 0 (indegree_by_node t)\<rparr>"

definition empty_topology :: graph_topology where
  "empty_topology = \<lparr>node_ids = [], inputs_by_node = [], outputs_by_node = [],
     outgoing_by_node = [], indegree_by_node = []\<rparr>"

definition validate_endpoint ::
  "graph_topology \<Rightarrow> nat \<Rightarrow> edge_endpoint_role \<Rightarrow> edge_endpoint \<Rightarrow> port_direction
   \<Rightarrow> (unit, workflow_validation_error) result" where
  "validate_endpoint t i role ep expected =
     (let ports_by_node = (case expected of Input \<Rightarrow> inputs_by_node t | Output \<Rightarrow> outputs_by_node t)
      in and_then (ok_or (map_of ports_by_node (endpoint_node_id ep))
                     (UnknownNode i role (endpoint_node_id ep)))
           (\<lambda>ports.
              if endpoint_port_id ep \<notin> set ports
              then Err (UnknownPort i role (endpoint_node_id ep) (endpoint_port_id ep) expected)
              else Ok ()))"

text \<open>The body of the loop over the edges.\<close>

definition add_edge ::
  "graph_topology \<Rightarrow> nat \<times> edge_definition \<Rightarrow> (graph_topology, workflow_validation_error) result" where
  "add_edge t ie = (case ie of (i, e) \<Rightarrow>
     and_then (validate_endpoint t i Source (edge_source e) Output) (\<lambda>_.
     and_then (validate_endpoint t i Target (edge_target e) Input) (\<lambda>_.
     if map_of (outgoing_by_node t) (edge_source_node e) = None
     then Err (UnknownNode i Source (edge_source_node e))
     else let t1 = t\<lparr>outgoing_by_node :=
            bt_modify (edge_source_node e) (bs_insert (edge_target_node e)) (outgoing_by_node t)\<rparr> in
     if map_of (indegree_by_node t1) (edge_target_node e) = None
     then Err (UnknownNode i Target (edge_target_node e))
     else Ok (t1\<lparr>indegree_by_node := bt_modify (edge_target_node e) Suc (indegree_by_node t1)\<rparr>))))"

definition from_graph ::
  "node_definition list \<Rightarrow> edge_definition list \<Rightarrow> (graph_topology, workflow_validation_error) result"
  where
  "from_graph nodes edges =
     and_then (reject_duplicate_nodes nodes) (\<lambda>_.
       try_fold add_edge (fold insert_node nodes empty_topology) (enumerate 0 edges))"

section \<open>Duplicates\<close>

interpretation dup_ports: dup_checker
  "\<lambda>ps. reject_dups (\<lambda>p. p) (\<lambda>p. DuplicatePort n p) [] ps" "\<lambda>p. p" "\<lambda>p. DuplicatePort n p" for n
  by (rule reject_dups_dup_checker)

interpretation dup_nodes: dup_checker
  reject_duplicate_nodes node_def_id "\<lambda>n. DuplicateNode (node_def_id n)"
  unfolding reject_duplicate_nodes_def [abs_def] by (rule reject_dups_dup_checker)

lemma new_node_Ok_iff:
  "new_node n inputs outputs = Ok d \<longleftrightarrow>
     distinct (inputs @ outputs) \<and>
     d = \<lparr>node_def_id = n, input_ports = inputs, output_ports = outputs\<rparr>"
  using dup_ports.check_Ok_iff [of n "inputs @ outputs"]
  by (auto simp: new_node_def reject_duplicate_ports_def)

lemma new_node_no_panic: "new_node n inputs outputs \<noteq> Panic"
  using dup_ports.check_no_panic [of n "inputs @ outputs"]
  by (auto simp: new_node_def reject_duplicate_ports_def and_then_eq_Panic)

section \<open>What the topology holds\<close>

text \<open>The declarations a graph's edges may refer to.\<close>

definition declares :: "node_definition list \<Rightarrow> port_direction \<Rightarrow> edge_endpoint \<Rightarrow> bool" where
  "declares nodes dir ep \<longleftrightarrow>
     (\<exists>n\<in>set nodes. node_def_id n = endpoint_node_id ep \<and>
        endpoint_port_id ep \<in> set (case dir of Input \<Rightarrow> input_ports n | Output \<Rightarrow> output_ports n))"

definition structurally_valid :: "node_definition list \<Rightarrow> edge_definition list \<Rightarrow> bool" where
  "structurally_valid nodes edges \<longleftrightarrow>
     distinct (map node_def_id nodes) \<and>
     (\<forall>e\<in>set edges. declares nodes Output (edge_source e) \<and> declares nodes Input (edge_target e))"

text \<open>The topology after the nodes and the edges \<open>es\<close> were entered.\<close>

definition topology_of :: "node_definition list \<Rightarrow> edge_definition list \<Rightarrow> graph_topology \<Rightarrow> bool" where
  "topology_of nodes es t \<longleftrightarrow>
     node_ids t = map node_def_id nodes \<and>
     (\<forall>v. map_of (inputs_by_node t) v =
        map_option (\<lambda>n. bs_from_list (input_ports n)) (map_of (map (\<lambda>n. (node_def_id n, n)) nodes) v)) \<and>
     (\<forall>v. map_of (outputs_by_node t) v =
        map_option (\<lambda>n. bs_from_list (output_ports n)) (map_of (map (\<lambda>n. (node_def_id n, n)) nodes) v)) \<and>
     bt_ok (outgoing_by_node t) \<and>
     (\<forall>v. map_of (outgoing_by_node t) v =
        (if v \<in> node_def_id ` set nodes
         then Some (bs_from_list (map edge_target_node (filter (\<lambda>e. edge_source_node e = v) es)))
         else None)) \<and>
     bt_ok (indegree_by_node t) \<and>
     (\<forall>v. map_of (indegree_by_node t) v =
        (if v \<in> node_def_id ` set nodes
         then Some (length (filter (\<lambda>e. edge_target_node e = v) es)) else None))"

lemma map_of_distinct_append:
  "distinct (map f (xs @ [x])) \<Longrightarrow>
   map_of (map (\<lambda>n. (f n, n)) (xs @ [x])) = (map_of (map (\<lambda>n. (f n, n)) xs))(f x \<mapsto> x)"
proof (rule ext)
  fix k
  assume "distinct (map f (xs @ [x]))"
  then have "map_of (map (\<lambda>n. (f n, n)) xs) (f x) = None"
    by (simp add: map_of_eq_None_iff image_image)
  then show "map_of (map (\<lambda>n. (f n, n)) (xs @ [x])) k =
      ((map_of (map (\<lambda>n. (f n, n)) xs))(f x \<mapsto> x)) k"
    by (auto simp: map_add_def split: option.splits)
qed

lemma insert_nodes_topology:
  "distinct (map node_def_id nodes) \<Longrightarrow>
   topology_of nodes [] (fold insert_node nodes empty_topology)"
proof (induction nodes rule: rev_induct)
  case Nil
  show ?case by (simp add: topology_of_def empty_topology_def)
next
  case (snoc n ns)
  then have IH: "topology_of ns [] (fold insert_node ns empty_topology)" by simp
  show ?case
    using IH unfolding topology_of_def map_of_distinct_append [OF snoc.prems]
    by (simp add: insert_node_def bs_from_list_def)
qed

lemma map_of_nodes_eq:
  assumes "distinct (map node_def_id nodes)"
  shows "map_of (map (\<lambda>n. (node_def_id n, n)) nodes) v = Some n \<longleftrightarrow> n \<in> set nodes \<and> node_def_id n = v"
proof -
  have "distinct (map fst (map (\<lambda>n. (node_def_id n, n)) nodes))" using assms by (simp add: comp_def)
  from map_of_eq_Some_iff [OF this] show ?thesis by auto
qed

lemma map_of_nodes_None:
  "map_of (map (\<lambda>n. (node_def_id n, n)) nodes) v = None \<longleftrightarrow> v \<notin> node_def_id ` set nodes"
  by (simp add: map_of_eq_None_iff image_image)

lemma validate_endpoint_eq:
  assumes t: "topology_of nodes es t" and d: "distinct (map node_def_id nodes)"
  shows "validate_endpoint t i role ep dir =
    (if endpoint_node_id ep \<notin> node_def_id ` set nodes
     then Err (UnknownNode i role (endpoint_node_id ep))
     else if \<not> declares nodes dir ep
     then Err (UnknownPort i role (endpoint_node_id ep) (endpoint_port_id ep) dir)
     else Ok ())"
proof (cases "map_of (map (\<lambda>n. (node_def_id n, n)) nodes) (endpoint_node_id ep)")
  case None
  then have "endpoint_node_id ep \<notin> node_def_id ` set nodes" by (simp add: map_of_nodes_None)
  then show ?thesis using t None
    by (simp add: validate_endpoint_def topology_of_def split: port_direction.split)
next
  case (Some n)
  then have n: "n \<in> set nodes" "node_def_id n = endpoint_node_id ep"
    using map_of_nodes_eq [OF d] by auto
  then have uniq: "n' = n" if "n' \<in> set nodes" "node_def_id n' = endpoint_node_id ep" for n'
    using that d by (auto simp: distinct_map inj_on_def)
  have decl: "declares nodes dir ep \<longleftrightarrow>
      endpoint_port_id ep \<in> set (case dir of Input \<Rightarrow> input_ports n | Output \<Rightarrow> output_ports n)"
    for dir using n uniq by (auto simp: declares_def)
  have node: "endpoint_node_id ep \<in> node_def_id ` set nodes" using n by force
  show ?thesis using t Some node
    by (cases dir) (simp_all add: validate_endpoint_def topology_of_def decl)
qed

lemma declares_node: "declares nodes dir ep \<Longrightarrow> endpoint_node_id ep \<in> node_def_id ` set nodes"
  by (force simp: declares_def)

lemma add_edge_Ok:
  assumes t: "topology_of nodes es t" and d: "distinct (map node_def_id nodes)"
    and decl: "declares nodes Output (edge_source e)" "declares nodes Input (edge_target e)"
  shows "\<exists>t'. add_edge t (i, e) = Ok t' \<and> topology_of nodes (es @ [e]) t'"
proof -
  have out: "edge_source_node e \<in> node_def_id ` set nodes"
    and inn: "edge_target_node e \<in> node_def_id ` set nodes"
    using decl by (auto dest: declares_node)
  have ve: "validate_endpoint t i Source (edge_source e) Output = Ok ()"
    "validate_endpoint t i Target (edge_target e) Input = Ok ()"
    using decl out inn by (simp_all add: validate_endpoint_eq [OF t d])
  have lk: "map_of (outgoing_by_node t) (edge_source_node e) \<noteq> None"
    "map_of (indegree_by_node t) (edge_target_node e) \<noteq> None"
    using t out inn by (simp_all add: topology_of_def)
  show ?thesis
    using t out inn lk
    by (simp add: add_edge_def ve topology_of_def Let_def bs_from_list_snoc)
qed

text \<open>The error of the first edge that has an undeclared endpoint.\<close>

definition edge_error :: "node_definition list \<Rightarrow> nat \<Rightarrow> edge_definition \<Rightarrow> workflow_validation_error" where
  "edge_error nodes i e =
    (if edge_source_node e \<notin> node_def_id ` set nodes then UnknownNode i Source (edge_source_node e)
     else if \<not> declares nodes Output (edge_source e)
       then UnknownPort i Source (edge_source_node e) (endpoint_port_id (edge_source e)) Output
     else if edge_target_node e \<notin> node_def_id ` set nodes then UnknownNode i Target (edge_target_node e)
     else UnknownPort i Target (edge_target_node e) (endpoint_port_id (edge_target e)) Input)"

abbreviation edge_declared :: "node_definition list \<Rightarrow> edge_definition \<Rightarrow> bool" where
  "edge_declared nodes e \<equiv> declares nodes Output (edge_source e) \<and> declares nodes Input (edge_target e)"

lemma add_edge_Err:
  assumes t: "topology_of nodes es t" and d: "distinct (map node_def_id nodes)"
    and decl: "\<not> edge_declared nodes e"
  shows "add_edge t (i, e) = Err (edge_error nodes i e)"
  using decl by (auto simp: add_edge_def edge_error_def validate_endpoint_eq [OF t d] dest: declares_node)

lemma add_edges_Ok:
  assumes "topology_of nodes es t" "distinct (map node_def_id nodes)"
    "\<forall>e\<in>set edges. edge_declared nodes e"
  shows "\<exists>t'. try_fold add_edge t (enumerate k edges) = Ok t' \<and> topology_of nodes (es @ edges) t'"
  using assms
proof (induction edges arbitrary: k es t)
  case (Cons e edges)
  then obtain t1 where t1: "add_edge t (k, e) = Ok t1" "topology_of nodes (es @ [e]) t1"
    using add_edge_Ok by fastforce
  from Cons.IH [OF t1(2) Cons.prems(2)] Cons.prems(3) t1(1) show ?case by simp
qed simp

lemma add_edges_Err:
  assumes "topology_of nodes es t" "distinct (map node_def_id nodes)"
    "\<forall>e\<in>set ps. edge_declared nodes e" "\<not> edge_declared nodes e"
  shows "try_fold add_edge t (enumerate k (ps @ e # ss)) = Err (edge_error nodes (k + length ps) e)"
  using assms
proof (induction ps arbitrary: k es t)
  case Nil
  then show ?case by (simp add: add_edge_Err)
next
  case (Cons p ps)
  then obtain t1 where t1: "add_edge t (k, p) = Ok t1" "topology_of nodes (es @ [p]) t1"
    using add_edge_Ok by fastforce
  from Cons.IH [OF t1(2) Cons.prems(2)] Cons.prems t1(1) show ?case by simp
qed

lemma from_graph_Ok:
  "structurally_valid nodes edges \<Longrightarrow> \<exists>t. from_graph nodes edges = Ok t \<and> topology_of nodes edges t"
  using add_edges_Ok [OF insert_nodes_topology, of nodes edges 0] dup_nodes.check_Ok_iff [of nodes]
  by (auto simp: structurally_valid_def from_graph_def)

lemma from_graph_dup:
  "\<not> distinct (map node_def_id nodes) \<Longrightarrow>
   \<exists>ps n ss. nodes = ps @ n # ss \<and> distinct (map node_def_id ps) \<and>
     node_def_id n \<in> node_def_id ` set ps \<and> from_graph nodes edges = Err (DuplicateNode (node_def_id n))"
proof -
  assume "\<not> distinct (map node_def_id nodes)"
  then obtain err where err: "reject_duplicate_nodes nodes = Err err"
    using dup_nodes.check_Ok_iff [of nodes] dup_nodes.check_no_panic [of nodes]
    by (cases "reject_duplicate_nodes nodes") auto
  then show ?thesis using dup_nodes.check_Err_iff [of nodes err] by (auto simp: from_graph_def)
qed

lemma first_undeclared:
  "\<exists>e\<in>set edges. \<not> P e \<Longrightarrow> \<exists>ps e ss. edges = ps @ e # ss \<and> (\<forall>p\<in>set ps. P p) \<and> \<not> P e"
  using split_list_first_prop [of edges "\<lambda>e. \<not> P e"] by auto

lemma from_graph_undeclared:
  assumes d: "distinct (map node_def_id nodes)" and e: "\<exists>e\<in>set edges. \<not> edge_declared nodes e"
  shows "\<exists>ps e ss. edges = ps @ e # ss \<and> (\<forall>p\<in>set ps. edge_declared nodes p) \<and>
    \<not> edge_declared nodes e \<and> from_graph nodes edges = Err (edge_error nodes (length ps) e)"
proof -
  from first_undeclared [OF e] obtain ps e ss where
    s: "edges = ps @ e # ss" "\<forall>p\<in>set ps. edge_declared nodes p" "\<not> edge_declared nodes e" by blast
  from add_edges_Err [OF insert_nodes_topology [OF d] d s(2,3), of 0 ss]
  have "from_graph nodes edges = Err (edge_error nodes (length ps) e)"
    using dup_nodes.check_Ok_iff [of nodes] d by (simp add: from_graph_def s(1))
  with s show ?thesis by blast
qed

lemma from_graph_Ok_iff:
  "(\<exists>t. from_graph nodes edges = Ok t) \<longleftrightarrow> structurally_valid nodes edges"
proof
  assume "\<exists>t. from_graph nodes edges = Ok t"
  then have ok: "\<not> (\<exists>e. from_graph nodes edges = Err e)" by auto
  have d: "distinct (map node_def_id nodes)"
    using from_graph_dup [of nodes edges] ok by blast
  moreover have "\<forall>e\<in>set edges. edge_declared nodes e"
    using from_graph_undeclared [OF d, of edges] ok by blast
  ultimately show "structurally_valid nodes edges" by (simp add: structurally_valid_def)
qed (use from_graph_Ok in blast)

lemma from_graph_OkD:
  "from_graph nodes edges = Ok t \<Longrightarrow> structurally_valid nodes edges \<and> topology_of nodes edges t"
  using from_graph_Ok from_graph_Ok_iff by fastforce

lemma from_graph_no_panic: "from_graph nodes edges \<noteq> Panic"
proof (cases "distinct (map node_def_id nodes)")
  case True
  show ?thesis
    using from_graph_undeclared [OF True, of edges] from_graph_Ok [of nodes edges] True
    by (fastforce simp: structurally_valid_def)
next
  case False
  then show ?thesis using from_graph_dup [OF False, of edges] by auto
qed

lemma from_graph_not_cycle: "from_graph nodes edges \<noteq> Err (CycleDetected c)"
proof (cases "distinct (map node_def_id nodes)")
  case True
  show ?thesis
    using from_graph_undeclared [OF True, of edges] from_graph_Ok [of nodes edges] True
    by (fastforce simp: structurally_valid_def edge_error_def split: if_splits)
next
  case False
  then show ?thesis using from_graph_dup [OF False, of edges] by auto
qed

end
