(* ===== verification/Digraph.thy ===== *)
theory Digraph
  imports BTree
begin

text \<open>
  Finite directed graphs as relations: topological orders of a relation, the lexicographically
  least one, walks and cycles.  The theory is the abstract side of the graph algorithms of
  \<open>pureflow-workflow\<close>.
\<close>

abbreviation preds :: "('a \<times> 'a) set \<Rightarrow> 'a \<Rightarrow> 'a set" where
  "preds E v \<equiv> {u. (u, v) \<in> E}"

definition topo_list :: "('a \<times> 'a) set \<Rightarrow> 'a list \<Rightarrow> bool" where
  "topo_list E xs \<longleftrightarrow> (\<forall>ps v ss. xs = ps @ v # ss \<longrightarrow> preds E v \<subseteq> set ps)"

definition topo_order :: "('a \<times> 'a) set \<Rightarrow> 'a set \<Rightarrow> 'a list \<Rightarrow> bool" where
  "topo_order E V xs \<longleftrightarrow> distinct xs \<and> set xs = V \<and> topo_list E xs"

text \<open>Every element is the least one whose predecessors were all listed before.\<close>

definition greedy :: "('a::linorder \<times> 'a) set \<Rightarrow> 'a set \<Rightarrow> 'a list \<Rightarrow> bool" where
  "greedy E V xs \<longleftrightarrow>
     (\<forall>ps v ss w. xs = ps @ v # ss \<longrightarrow> w \<in> V - set ps \<longrightarrow> preds E w \<subseteq> set ps \<longrightarrow> v \<le> w)"

lemma topo_list_Nil [simp]: "topo_list E []"
  by (simp add: topo_list_def)

lemma greedy_Nil [simp]: "greedy E V []"
  by (simp add: greedy_def)

lemma snoc_eq_split:
  "xs @ [x] = ps @ v # ss \<longleftrightarrow> (ss = [] \<and> ps = xs \<and> v = x) \<or> (\<exists>ss'. ss = ss' @ [x] \<and> xs = ps @ v # ss')"
  by (cases ss rule: rev_cases) auto

lemma topo_list_snoc: "topo_list E (xs @ [v]) \<longleftrightarrow> topo_list E xs \<and> preds E v \<subseteq> set xs"
  unfolding topo_list_def snoc_eq_split by blast

lemma greedy_snoc:
  "greedy E V (xs @ [v]) \<longleftrightarrow>
     greedy E V xs \<and> (\<forall>w\<in>V - set xs. preds E w \<subseteq> set xs \<longrightarrow> v \<le> w)"
  unfolding greedy_def snoc_eq_split by blast

lemma takeWhile_position: "u \<in> set ps \<Longrightarrow> length (takeWhile (\<lambda>x. x \<noteq> u) (ps @ zs)) < length ps"
  by (induction ps) auto

lemma topo_list_position:
  assumes "topo_list E xs" "distinct xs" "(u, v) \<in> E" "v \<in> set xs"
  shows "length (takeWhile (\<lambda>x. x \<noteq> u) xs) < length (takeWhile (\<lambda>x. x \<noteq> v) xs)"
proof -
  obtain ps ss where s: "xs = ps @ v # ss" using assms(4) by (meson split_list)
  then have "u \<in> set ps" using assms by (auto simp: topo_list_def)
  moreover have "takeWhile (\<lambda>x. x \<noteq> v) xs = ps"
    using s assms(2) by (auto simp: takeWhile_tail)
  ultimately show ?thesis using takeWhile_position [of u ps "v # ss"] s by simp
qed

lemma acyclic_by_rank:
  fixes f :: "'a \<Rightarrow> nat"
  assumes "\<And>u v. (u, v) \<in> E \<Longrightarrow> f u < f v"
  shows "acyclic E"
  using assms by (intro acyclic_subset [OF wf_acyclic [OF wf_measure [of f]]]) auto

lemma topo_list_acyclic:
  "topo_list E xs \<Longrightarrow> distinct xs \<Longrightarrow> acyclic {(u, v) \<in> E. v \<in> set xs}"
  by (rule acyclic_by_rank [where f = "\<lambda>u. length (takeWhile (\<lambda>x. x \<noteq> u) xs)"])
    (auto intro: topo_list_position)

lemma topo_order_acyclic: "topo_order E V xs \<Longrightarrow> E \<subseteq> V \<times> V \<Longrightarrow> acyclic E"
  using topo_list_acyclic [of E xs] by (auto simp: topo_order_def elim: acyclic_subset)

lemma topo_order_before:
  assumes "topo_order E V xs" "(u, v) \<in> E" "v \<in> V"
  shows "\<exists>ps qs rs. xs = ps @ u # qs @ v # rs"
proof -
  from assms obtain as bs where s: "xs = as @ v # bs" by (auto simp: topo_order_def dest: split_list)
  then have "u \<in> set as" using assms by (auto simp: topo_order_def topo_list_def)
  then obtain ps qs where "as = ps @ u # qs" by (meson split_list)
  then show ?thesis using s by auto
qed

lemma list_less_eq_append [simp]: "(ps @ xs \<le> ps @ ys) \<longleftrightarrow> xs \<le> (ys :: 'a::linorder list)"
  by (induction ps) auto

text \<open>A greedy topological order is the least of all topological orders.\<close>

lemma greedy_least:
  fixes xs :: "'a::linorder list"
  assumes xs: "topo_order E V xs" "greedy E V xs" and ys: "topo_order E V ys"
  shows "xs \<le> ys"
proof (cases "xs = ys")
  case False
  have "length xs = length ys"
    using xs ys by (metis topo_order_def distinct_card)
  with False obtain ps v xs' w ys' where
    s: "v \<noteq> w" "xs = ps @ [v] @ xs'" "ys = ps @ [w] @ ys'"
    using same_length_different by blast
  have "w \<in> V - set ps" "preds E w \<subseteq> set ps"
    using ys s by (auto simp: topo_order_def topo_list_def)
  then have "v \<le> w" using xs(2) s by (auto simp: greedy_def)
  with s show ?thesis by simp
qed simp

lemma finite_acyclic_source:
  assumes "acyclic E" "finite R" "R \<noteq> {}"
  shows "\<exists>w\<in>R. preds E w \<inter> R = {}"
proof -
  have "finite (E \<inter> R \<times> R)" using assms(2) by (simp add: finite_Int)
  moreover have "acyclic (E \<inter> R \<times> R)" using assms(1) by (rule acyclic_subset) simp
  ultimately have "wf (E \<inter> R \<times> R)" by (rule finite_acyclic_wf)
  moreover obtain r where "r \<in> R" using assms(3) by blast
  ultimately obtain w where "w \<in> R" "\<And>u. (u, w) \<in> E \<inter> R \<times> R \<Longrightarrow> u \<notin> R"
    by (rule wfE_min) blast
  then show ?thesis by blast
qed

section \<open>Walks and cycles\<close>

fun walk :: "('a \<times> 'a) set \<Rightarrow> 'a list \<Rightarrow> bool" where
  "walk E [] \<longleftrightarrow> True"
| "walk E [v] \<longleftrightarrow> True"
| "walk E (u # v # vs) \<longleftrightarrow> (u, v) \<in> E \<and> walk E (v # vs)"

definition closed_walk :: "('a \<times> 'a) set \<Rightarrow> 'a list \<Rightarrow> bool" where
  "closed_walk E c \<longleftrightarrow> 2 \<le> length c \<and> hd c = last c \<and> walk E c"

lemma walk_snoc: "walk E (xs @ [v]) \<longleftrightarrow> walk E xs \<and> (xs = [] \<or> (last xs, v) \<in> E)"
  by (induction E xs rule: walk.induct) auto

lemma walk_appendD: "walk E (xs @ ys) \<Longrightarrow> walk E ys"
  by (induction E xs rule: walk.induct) (cases ys, auto)+

lemma walk_restrict: "walk E xs \<Longrightarrow> set xs \<subseteq> R \<Longrightarrow> walk (E \<inter> R \<times> R) xs"
  by (induction E xs rule: walk.induct) auto

lemma walk_trancl: "walk E (u # vs) \<Longrightarrow> v \<in> set vs \<Longrightarrow> (u, v) \<in> E\<^sup>+"
proof (induction vs arbitrary: u)
  case (Cons w vs)
  then have "(u, w) \<in> E" "walk E (w # vs)" by auto
  with Cons show ?case by (cases "v = w") (auto intro: trancl_into_trancl2)
qed simp

lemma closed_walk_cyclic: "closed_walk E c \<Longrightarrow> \<not> acyclic E"
proof -
  assume c: "closed_walk E c"
  then obtain u vs where "c = u # vs" "vs \<noteq> []"
    by (cases c) (auto simp: closed_walk_def Suc_le_length_iff numeral_2_eq_2)
  with c have "(u, u) \<in> E\<^sup>+"
    using walk_trancl [of E u vs u] by (auto simp: closed_walk_def)
  then show ?thesis by (auto simp: acyclic_def)
qed

end
