(* ===== verification/Topology.thy ===== *)
theory Topology
  imports Workflow Digraph
begin

text \<open>
  The ordering half of the graph validation of \<open>pureflow-workflow\<close>: Kahn's algorithm with an ordered
  ready set (\<open>GraphTopology::topological_order\<close>), the depth-first search that produces the cycle of
  the error (\<open>find_cycle\<close>), and the constructors of graphs and workflows.

  The lemmas show that the order is the lexicographically least topological order, that it exists
  exactly when the edge relation is acyclic and no two edges join the same pair of nodes, that no
  indegree is ever decremented below zero, and that the reported cycle is a closed walk of edges
  whenever the edge relation has a cycle.
\<close>

section \<open>Operations\<close>

text \<open>The loop over the children of the node just ordered.\<close>

fun relax ::
  "node_id list \<Rightarrow> (node_id, nat) btree_map \<Rightarrow> node_id btree_set
   \<Rightarrow> ((node_id, nat) btree_map \<times> node_id btree_set, workflow_validation_error) result" where
  "relax [] indegree ready = Ok (indegree, ready)"
| "relax (child # children) indegree ready =
     (case map_of indegree child of
        None \<Rightarrow> relax children indegree ready
      | Some d \<Rightarrow>
          if d = 0 then Panic
          else relax children (bt_modify child (\<lambda>d. d - 1) indegree)
                 (if d - 1 = 0 then bs_insert child ready else ready))"

lemma sum_bt_modify_le: "sum_list (map snd (bt_modify c (\<lambda>d. d - 1) m)) \<le> sum_list (map snd m :: nat list)"
  by (induction m) (auto simp: bt_modify_def intro: add_mono)

lemma sum_bt_modify_less:
  assumes "map_of m c = Some d" "0 < d"
  shows "sum_list (map snd (bt_modify c (\<lambda>d. d - 1) m)) < sum_list (map snd m :: nat list)"
  using assms
proof (induction m)
  case (Cons kv m)
  show ?case
  proof (cases "fst kv = c")
    case True
    then show ?thesis using Cons.prems sum_bt_modify_le [of c m]
      by (cases kv) (auto simp: bt_modify_def)
  next
    case False
    then show ?thesis using Cons by (cases kv) (auto simp: bt_modify_def)
  qed
qed simp

lemma bs_insert_length_le: "length (bs_insert k s) \<le> Suc (length s)"
  by (induction s) auto

lemma relax_measure:
  "relax cs ind rdy = Ok (ind', rdy') \<Longrightarrow>
   sum_list (map snd ind') + length rdy' \<le> sum_list (map snd ind) + length rdy"
proof (induction cs ind rdy arbitrary: ind' rdy' rule: relax.induct)
  case (2 c cs ind rdy)
  show ?case
  proof (cases "map_of ind c")
    case None
    then show ?thesis using 2 by simp
  next
    case (Some d)
    then have "0 < d" using "2.prems" by (auto split: if_splits)
    then show ?thesis
      using "2.IH"(2) [OF Some] "2.prems" Some sum_bt_modify_less [OF Some] bs_insert_length_le [of c rdy]
      by (fastforce split: if_splits)
  qed
qed auto

text \<open>The loop \<open>while let Some(node_id) = ready.pop_first()\<close>.\<close>

function (sequential) kahn ::
  "(node_id, node_id btree_set) btree_map \<Rightarrow> (node_id, nat) btree_map \<Rightarrow> node_id btree_set
   \<Rightarrow> node_id list \<Rightarrow> (node_id list, workflow_validation_error) result" where
  "kahn outgoing indegree [] order = Ok order"
| "kahn outgoing indegree (v # ready) order =
     (case map_of outgoing v of
        None \<Rightarrow> kahn outgoing indegree ready (order @ [v])
      | Some children \<Rightarrow>
          and_then (relax children indegree ready)
            (\<lambda>(indegree', ready'). kahn outgoing indegree' ready' (order @ [v])))"
  by pat_completeness auto
termination
  by (relation "measure (\<lambda>(_, indegree, ready, _). sum_list (map snd indegree) + length ready)")
    (auto dest: relax_measure)

section \<open>The search for a cycle\<close>

datatype visit_state = Visiting | Visited

definition cycle_from_stack :: "node_id list \<Rightarrow> node_id \<Rightarrow> node_id list option" where
  "cycle_from_stack stack child =
     (if child \<in> set stack then Some (dropWhile (\<lambda>x. x \<noteq> child) stack @ [child]) else None)"

type_synonym dfs_state = "(node_id, visit_state) btree_map \<times> node_id list"

text \<open>
  \<open>dfs\<close> is the nested function of the code and \<open>dfs_children\<close> its loop over the children.  Both return
  the cycle, if any, together with the mutated \<open>states\<close> and \<open>stack\<close>.
\<close>

function (sequential) dfs ::
    "(node_id, node_id btree_set) btree_map \<Rightarrow> node_id btree_set \<Rightarrow> node_id \<Rightarrow> dfs_state
     \<Rightarrow> node_id list option \<times> dfs_state"
  and dfs_children ::
    "(node_id, node_id btree_set) btree_map \<Rightarrow> node_id btree_set \<Rightarrow> node_id list \<Rightarrow> dfs_state
     \<Rightarrow> node_id list option \<times> dfs_state" where
  "dfs outgoing remaining v (states, stack) =
     (let states1 = bt_insert v Visiting states; stack1 = stack @ [v] in
      case map_of outgoing v of
        None \<Rightarrow> (None, bt_insert v Visited states1, butlast stack1)
      | Some children \<Rightarrow>
          (case dfs_children outgoing remaining children (states1, stack1) of
             (Some cycle, s) \<Rightarrow> (Some cycle, s)
           | (None, states2, stack2) \<Rightarrow> (None, bt_insert v Visited states2, butlast stack2)))"
| "dfs_children outgoing remaining [] s = (None, s)"
| "dfs_children outgoing remaining (child # children) (states, stack) =
     (if child \<notin> set remaining then dfs_children outgoing remaining children (states, stack)
      else case map_of states child of
        Some Visiting \<Rightarrow>
          (case cycle_from_stack stack child of
             Some cycle \<Rightarrow> (Some cycle, states, stack)
           | None \<Rightarrow> dfs_children outgoing remaining children (states, stack))
      | Some Visited \<Rightarrow> dfs_children outgoing remaining children (states, stack)
      | None \<Rightarrow>
          (case dfs outgoing remaining child (states, stack) of
             (Some cycle, s) \<Rightarrow> (Some cycle, s)
           | (None, s) \<Rightarrow> dfs_children outgoing remaining children s))"
  by pat_completeness auto

abbreviation known :: "dfs_state \<Rightarrow> node_id set" where
  "known s \<equiv> dom (map_of (fst s))"

lemma dfs_known_mono:
  "dfs_dfs_children_dom (Inl (out, rem, v, s)) \<Longrightarrow>
     insert v (known s) \<subseteq> known (snd (dfs out rem v s))"
  "dfs_dfs_children_dom (Inr (out, rem, cs, s)) \<Longrightarrow>
     known s \<subseteq> known (snd (dfs_children out rem cs s))"
proof (induction out rem v s and out rem cs s rule: dfs_dfs_children.pinduct)
  case (1 out rem v states stack)
  show ?case
  proof (cases "map_of out v")
    case None
    then show ?thesis using 1 by (auto simp: dfs.psimps)
  next
    case (Some cs)
    let ?r = "dfs_children out rem cs (bt_insert v Visiting states, stack @ [v])"
    have "insert v (dom (map_of states)) \<subseteq> known (snd ?r)"
      using "1.IH" [OF refl refl Some] by (simp del: fun_upd_apply)
    then show ?thesis
      using Some "1.hyps" by (cases ?r) (auto simp: dfs.psimps split: option.splits)
  qed
next
  case (2 out rem s)
  then show ?case by (simp add: dfs_children.psimps)
next
  case (3 out rem c cs states stack)
  show ?case
  proof (cases "c \<in> set rem \<and> map_of states c = None")
    case True
    obtain r s' where r: "dfs out rem c (states, stack) = (r, s')" by (meson surj_pair)
    have mono: "dom (map_of states) \<subseteq> known s'"
      using "3.IH"(2) True r by (simp del: fun_upd_apply)
    show ?thesis
    proof (cases r)
      case None
      then have "known s' \<subseteq> known (snd (dfs_children out rem cs s'))"
        using "3.IH"(3) True r by simp
      then show ?thesis using True r None mono "3.hyps" by (simp add: dfs_children.psimps)
    next
      case (Some cyc)
      then show ?thesis using True r mono "3.hyps" by (simp add: dfs_children.psimps)
    qed
  next
    case False
    then show ?thesis using 3
      by (auto simp: dfs_children.psimps split: option.splits visit_state.splits)
  qed
qed

text \<open>The nodes that remain and were not yet entered decrease with every nested call.\<close>

abbreviation unseen :: "node_id btree_set \<Rightarrow> dfs_state \<Rightarrow> nat" where
  "unseen rem s \<equiv> card (set rem - known s)"

lemma unseen_mono: "known s \<subseteq> known s' \<Longrightarrow> unseen rem s' \<le> unseen rem s"
  by (intro card_mono) auto

lemma unseen_insert: "c \<in> set rem \<Longrightarrow> c \<notin> A \<Longrightarrow> card (set rem - insert c A) < card (set rem - A)"
  by (intro psubset_card_mono) auto

termination dfs
proof (relation "inv_image (less_than <*lex*> less_than)
    (\<lambda>x. case x of
        Inl (out, rem, v, s) \<Rightarrow> (2 * card (set rem - insert v (known s)) + 1, 0)
      | Inr (out, rem, cs, s) \<Rightarrow> (2 * card (set rem - known s), length cs))", goal_cases)
  case (4 out rem c cs states stack)
  then show ?case using unseen_insert [of c rem "known (states, stack)"] by (simp add: domIff)
next
  case (5 out rem c cs states stack r s)
  then have "known (states, stack) \<subseteq> known (snd (dfs out rem c (states, stack)))"
    using dfs_known_mono(1) by blast
  then have "unseen rem s \<le> unseen rem (states, stack)"
    using 5 unseen_mono [of "(states, stack)" s rem] by (metis snd_conv)
  then show ?case by (simp add: le_less)
qed auto

section \<open>Graph construction\<close>

fun find_cycle_roots ::
  "(node_id, node_id btree_set) btree_map \<Rightarrow> node_id btree_set \<Rightarrow> node_id list \<Rightarrow> dfs_state
   \<Rightarrow> node_id list option" where
  "find_cycle_roots outgoing remaining [] s = None"
| "find_cycle_roots outgoing remaining (v # vs) (states, stack) =
     (if v \<notin> set remaining \<or> map_of states v \<noteq> None
      then find_cycle_roots outgoing remaining vs (states, stack)
      else case dfs outgoing remaining v (states, stack) of
             (Some cycle, _) \<Rightarrow> Some cycle
           | (None, s) \<Rightarrow> find_cycle_roots outgoing remaining vs s)"

definition find_cycle :: "graph_topology \<Rightarrow> node_id btree_set \<Rightarrow> node_id list" where
  "find_cycle t remaining =
     (case find_cycle_roots (outgoing_by_node t) remaining (node_ids t) ([], []) of
        Some cycle \<Rightarrow> cycle
      | None \<Rightarrow> remaining)"

definition topological_order :: "graph_topology \<Rightarrow> (node_id list, workflow_validation_error) result" where
  "topological_order t =
     (let indegree = indegree_by_node t;
          ready = bs_from_list (map fst (filter (\<lambda>(_, d). d = 0) indegree))
      in and_then (kahn (outgoing_by_node t) indegree ready [])
           (\<lambda>order.
              if length order = length (node_ids t) then Ok order
              else let remaining = bs_from_list (filter (\<lambda>v. v \<notin> set order) (node_ids t))
                   in Err (CycleDetected (find_cycle t remaining))))"

definition graph_topological_order ::
  "workflow_graph \<Rightarrow> (node_id list, workflow_validation_error) result" where
  "graph_topological_order g =
     and_then (from_graph (graph_nodes g) (graph_edges g)) topological_order"

definition validate_graph :: "workflow_graph \<Rightarrow> bool \<Rightarrow> (unit, workflow_validation_error) result" where
  "validate_graph g allow_cycles =
     and_then (from_graph (graph_nodes g) (graph_edges g))
       (\<lambda>t. if allow_cycles then Ok () else and_then (topological_order t) (\<lambda>_. Ok ()))"

definition build_graph ::
  "node_definition list \<Rightarrow> edge_definition list \<Rightarrow> bool \<Rightarrow> (workflow_graph, workflow_validation_error) result"
  where
  "build_graph nodes edges allow_cycles =
     (let g = \<lparr>graph_nodes = nodes, graph_edges = edges\<rparr>
      in and_then (validate_graph g allow_cycles) (\<lambda>_. Ok g))"

definition new_graph ::
  "node_definition list \<Rightarrow> edge_definition list \<Rightarrow> (workflow_graph, workflow_validation_error) result" where
  "new_graph nodes edges = build_graph nodes edges False"

definition graph_with_cycles_allowed ::
  "node_definition list \<Rightarrow> edge_definition list \<Rightarrow> (workflow_graph, workflow_validation_error) result" where
  "graph_with_cycles_allowed nodes edges = build_graph nodes edges True"

definition workflow_from_parts ::
  "workflow_id \<Rightarrow> node_definition list \<Rightarrow> edge_definition list
   \<Rightarrow> (workflow_definition, workflow_validation_error) result" where
  "workflow_from_parts i nodes edges =
     and_then (new_graph nodes edges) (\<lambda>g. Ok \<lparr>workflow_def_id = i, workflow_graph = g\<rparr>)"

definition empty_workflow :: "string \<Rightarrow> (workflow_definition, identifier_error) result" where
  "empty_workflow name =
     and_then (new_workflow_id name) (\<lambda>i. Ok \<lparr>workflow_def_id = i, workflow_graph = empty_graph\<rparr>)"

section \<open>Correctness of the ordering\<close>

text \<open>
  What the ordering is given: the children lists hold the edge relation \<open>E\<close> on the nodes \<open>V\<close>, and
  the indegrees \<open>d\<close> count at least the distinct predecessors.
\<close>

definition kahn_input ::
  "(node_id \<times> node_id) set \<Rightarrow> node_id set \<Rightarrow> (node_id \<Rightarrow> nat) \<Rightarrow> (node_id, node_id btree_set) btree_map \<Rightarrow> bool"
  where
  "kahn_input E V d out \<longleftrightarrow>
     finite V \<and> E \<subseteq> V \<times> V \<and>
     (\<forall>v\<in>V. \<exists>cs. map_of out v = Some cs \<and> distinct cs \<and> set cs = E `` {v}) \<and>
     (\<forall>v\<in>V. card (preds E v) \<le> d v)"

definition kahn_inv ::
  "(node_id \<times> node_id) set \<Rightarrow> node_id set \<Rightarrow> (node_id \<Rightarrow> nat) \<Rightarrow> (node_id, nat) btree_map
   \<Rightarrow> node_id btree_set \<Rightarrow> node_id list \<Rightarrow> bool" where
  "kahn_inv E V d ind rdy ord \<longleftrightarrow>
     distinct ord \<and> bs_ok rdy \<and> set ord \<inter> set rdy = {} \<and>
     map_of ind = (\<lambda>v. if v \<in> V then Some (d v - card (preds E v \<inter> set ord)) else None) \<and>
     set ord \<union> set rdy = {v \<in> V. d v \<le> card (preds E v \<inter> set ord)} \<and>
     topo_list E ord \<and> greedy E {v \<in> V. d v = card (preds E v)} ord"

lemma relax_total:
  assumes "map_of ind = (\<lambda>v. if v \<in> V then Some (f v) else None)"
    "distinct cs" "set cs \<subseteq> V" "\<forall>c\<in>set cs. 0 < f c" "bs_ok rdy"
  shows "\<exists>ind' rdy'. relax cs ind rdy = Ok (ind', rdy') \<and>
    map_of ind' = (\<lambda>v. if v \<in> V then Some (f v - (if v \<in> set cs then 1 else 0)) else None) \<and>
    set rdy' = set rdy \<union> {c \<in> set cs. f c = 1} \<and> bs_ok rdy'"
  using assms
proof (induction cs arbitrary: ind rdy f)
  case (Cons c cs)
  let ?f = "f(c := f c - 1)" and ?r = "if f c - 1 = 0 then bs_insert c rdy else rdy"
  have c: "map_of ind c = Some (f c)" "0 < f c" using Cons.prems by auto
  have "map_of (bt_modify c (\<lambda>d. d - 1) ind) = (\<lambda>v. if v \<in> V then Some (?f v) else None)"
    using Cons.prems c by (auto simp: fun_eq_iff)
  moreover have "distinct cs" "set cs \<subseteq> V" "\<forall>x\<in>set cs. 0 < ?f x" "bs_ok ?r"
    using Cons.prems by auto
  ultimately obtain ind' rdy' where
    *: "relax cs (bt_modify c (\<lambda>d. d - 1) ind) ?r = Ok (ind', rdy')"
    "map_of ind' = (\<lambda>v. if v \<in> V then Some (?f v - (if v \<in> set cs then 1 else 0)) else None)"
    "set rdy' = set ?r \<union> {c \<in> set cs. ?f c = 1}" "bs_ok rdy'"
    using Cons.IH [of "bt_modify c (\<lambda>d. d - 1) ind" ?f ?r] by blast
  have "relax (c # cs) ind rdy = Ok (ind', rdy')" using * c by simp
  moreover have "map_of ind' =
      (\<lambda>v. if v \<in> V then Some (f v - (if v \<in> set (c # cs) then 1 else 0)) else None)"
    using *(2) Cons.prems by (auto simp: fun_eq_iff)
  moreover have "set rdy' = set rdy \<union> {x \<in> set (c # cs). f x = 1}"
    using *(3) Cons.prems c by auto
  ultimately show ?case using *(4) by blast
qed auto

lemma kahn_step:
  assumes inp: "kahn_input E V d out" and inv: "kahn_inv E V d ind (v # rdy) ord"
  obtains cs ind' rdy' where "map_of out v = Some cs" "relax cs ind rdy = Ok (ind', rdy')"
    "kahn_inv E V d ind' rdy' (ord @ [v])"
proof -
  let ?P = "preds E"
  have fin: "finite (?P w)" for w
    using inp by (auto simp: kahn_input_def intro: finite_subset [of _ V])
  have v: "v \<in> V" "v \<notin> set ord" "d v \<le> card (?P v \<inter> set ord)" "set rdy \<subseteq> V"
    using inv by (auto simp: kahn_inv_def)
  then obtain cs where cs: "map_of out v = Some cs" "distinct cs" "set cs = E `` {v}"
    using inp by (auto simp: kahn_input_def)
  have le: "card (?P w \<inter> A) \<le> d w" if "w \<in> V" for w A
    using inp that fin card_mono [OF fin, of "?P w \<inter> A" w] by (fastforce simp: kahn_input_def)
  have gt: "0 < d c - card (?P c \<inter> set ord)" if "c \<in> set cs" for c
  proof -
    have "v \<in> ?P c" "c \<in> V" using that cs(3) inp by (auto simp: kahn_input_def)
    then have "card (?P c \<inter> set ord) < card (?P c)"
      using v fin by (intro psubset_card_mono) auto
    then show ?thesis using inp \<open>c \<in> V\<close> by (fastforce simp: kahn_input_def)
  qed
  have ind: "map_of ind = (\<lambda>w. if w \<in> V then Some (d w - card (?P w \<inter> set ord)) else None)"
    and rdy: "bs_ok rdy" using inv by (auto simp: kahn_inv_def)
  have "set cs \<subseteq> V" using cs(3) inp by (auto simp: kahn_input_def)
  from relax_total [OF ind cs(2) this _ rdy] gt obtain ind' rdy' where
    r: "relax cs ind rdy = Ok (ind', rdy')"
    "map_of ind' = (\<lambda>w. if w \<in> V then
       Some (d w - card (?P w \<inter> set ord) - (if w \<in> set cs then 1 else 0)) else None)"
    "set rdy' = set rdy \<union> {c \<in> set cs. d c - card (?P c \<inter> set ord) = 1}" "bs_ok rdy'"
    by blast
  have step: "card (?P w \<inter> set (ord @ [v])) = card (?P w \<inter> set ord) + (if w \<in> set cs then 1 else 0)" for w
  proof (cases "w \<in> set cs")
    case True
    then have "?P w \<inter> set (ord @ [v]) = insert v (?P w \<inter> set ord)" using cs(3) by auto
    then show ?thesis using True v by simp
  next
    case False
    then have "?P w \<inter> set (ord @ [v]) = ?P w \<inter> set ord" using cs(3) by auto
    then show ?thesis using False by simp
  qed
  have all: "?P v \<subseteq> set ord"
    using v(3) le [OF v(1), of UNIV] card_seteq [OF fin, of "?P v \<inter> set ord" v] inp v(1)
    by (fastforce simp: kahn_input_def)
  have old: "set ord \<union> insert v (set rdy) = {w \<in> V. d w \<le> card (?P w \<inter> set ord)}"
    using inv by (auto simp: kahn_inv_def)
  have sets: "set (ord @ [v]) \<union> set rdy' = {w \<in> V. d w \<le> card (?P w \<inter> set (ord @ [v]))}"
  proof -
    have "(w \<in> {w \<in> V. d w \<le> card (?P w \<inter> set ord)} \<or> w \<in> set cs \<and> d w - card (?P w \<inter> set ord) = 1)
        \<longleftrightarrow> w \<in> V \<and> d w \<le> card (?P w \<inter> set (ord @ [v]))" for w
      using step [of w] gt [of w] \<open>set cs \<subseteq> V\<close> by auto
    then show ?thesis using r(3) old by auto
  qed
  have disj: "set (ord @ [v]) \<inter> set rdy' = {}"
  proof -
    have "set (ord @ [v]) \<inter> set rdy = {}" using inv by (auto simp: kahn_inv_def)
    moreover have "w \<notin> set cs" if "w \<in> set (ord @ [v])" for w
    proof -
      have "w \<in> set ord \<union> insert v (set rdy)" using that by auto
      then show ?thesis using gt [of w] unfolding old by auto
    qed
    ultimately show ?thesis using r(3) by blast
  qed
  have least: "v \<le> w" if "w \<in> V" "d w = card (?P w)" "w \<notin> set ord" "?P w \<subseteq> set ord" for w
  proof -
    have "?P w \<inter> set ord = ?P w" using that(4) by auto
    then have "w \<in> set (v # rdy)" using that old by auto
    then show ?thesis using inv by (auto simp: kahn_inv_def dest: bs_ok_hd_least)
  qed
  have "map_of ind' = (\<lambda>w. if w \<in> V then Some (d w - card (?P w \<inter> set (ord @ [v]))) else None)"
    using r(2) step by (simp add: fun_eq_iff)
  moreover have "distinct (ord @ [v])" "topo_list E ord" "greedy E {v \<in> V. d v = card (?P v)} ord"
    using inv v by (auto simp: kahn_inv_def)
  ultimately have "kahn_inv E V d ind' rdy' (ord @ [v])"
    unfolding kahn_inv_def topo_list_snoc greedy_snoc using r(4) sets disj all least by blast
  with that cs(1) r(1) show ?thesis by blast
qed

lemma kahn_total:
  assumes "kahn_input E V d out" "kahn_inv E V d ind rdy ord"
  shows "\<exists>ind' ord'. kahn out ind rdy ord = Ok ord' \<and> kahn_inv E V d ind' [] ord'"
  using assms
proof (induction out ind rdy ord rule: kahn.induct)
  case (2 out ind v rdy ord)
  from kahn_step [OF "2.prems"] obtain cs ind' rdy' where
    *: "map_of out v = Some cs" "relax cs ind rdy = Ok (ind', rdy')" "kahn_inv E V d ind' rdy' (ord @ [v])"
    by blast
  from "2.IH"(2) [OF *(1,2) refl "2.prems"(1) *(3)] show ?case using *(1,2) by simp
qed auto

lemma kahn_done_topo:
  assumes "kahn_inv E V d ind [] ord" "set ord = V"
  shows "topo_order E V ord" "kahn_input E V d out \<Longrightarrow> \<forall>v\<in>V. d v = card (preds E v)"
proof -
  show "topo_order E V ord" using assms by (simp add: kahn_inv_def topo_order_def)
  assume inp: "kahn_input E V d out"
  have "d v \<le> card (preds E v \<inter> V)" if "v \<in> V" for v
    using assms that by (auto simp: kahn_inv_def)
  moreover have "preds E v \<inter> V = preds E v" for v using inp by (auto simp: kahn_input_def)
  ultimately show "\<forall>v\<in>V. d v = card (preds E v)"
    using inp by (force simp: kahn_input_def intro: le_antisym)
qed

lemma kahn_complete:
  assumes inp: "kahn_input E V d out" and inv: "kahn_inv E V d ind [] ord"
    and ac: "acyclic E" and d: "\<forall>v\<in>V. d v = card (preds E v)"
  shows "set ord = V"
proof (rule ccontr)
  have ord: "set ord = {v \<in> V. d v \<le> card (preds E v \<inter> set ord)}"
    using inv by (simp add: kahn_inv_def)
  assume "set ord \<noteq> V"
  then have "V - set ord \<noteq> {}" "finite (V - set ord)"
    using ord inp by (auto simp: kahn_input_def)
  from finite_acyclic_source [OF ac this(2,1)] obtain w where
    w: "w \<in> V" "w \<notin> set ord" "preds E w \<inter> (V - set ord) = {}" by blast
  have "preds E w \<subseteq> V" using inp by (auto simp: kahn_input_def)
  then have "preds E w \<inter> set ord = preds E w" using w(3) by blast
  then have "w \<in> set ord" using ord w(1) d by auto
  with w(2) show False by blast
qed

text \<open>A node that was not ordered cannot precede one that was, so every cycle remains.\<close>

lemma topo_list_closed: "topo_list E ord \<Longrightarrow> (u, v) \<in> E \<Longrightarrow> v \<in> set ord \<Longrightarrow> u \<in> set ord"
  by (auto simp: topo_list_def in_set_conv_decomp [of v]) blast

lemma kahn_cycle_remains:
  assumes inp: "kahn_input E V d out" and inv: "kahn_inv E V d ind [] ord" and cyc: "\<not> acyclic E"
  shows "\<not> acyclic (E \<inter> (V - set ord) \<times> (V - set ord))"
proof -
  have topo: "topo_list E ord" "distinct ord" using inv by (auto simp: kahn_inv_def)
  have E: "E \<subseteq> V \<times> V" using inp by (simp add: kahn_input_def)
  from cyc obtain x where x: "(x, x) \<in> E\<^sup>+" by (auto simp: acyclic_def)
  have stay: "(u, v) \<in> (E \<inter> (V - set ord) \<times> (V - set ord))\<^sup>+ \<and> v \<notin> set ord"
    if "(u, v) \<in> E\<^sup>+" "u \<notin> set ord" for u v
    using that
  proof (induction rule: trancl_induct)
    case (base w)
    then show ?case using E topo_list_closed [OF topo(1)] by blast
  next
    case (step v w)
    then have "(v, w) \<in> E \<inter> (V - set ord) \<times> (V - set ord)"
      using E topo_list_closed [OF topo(1)] by blast
    with step show ?case by (meson DiffD2 IntD2 SigmaD2 trancl.trancl_into_trancl)
  qed
  have inside: "(u, v) \<in> {(u, v) \<in> E. v \<in> set ord}\<^sup>+" if "(u, v) \<in> E\<^sup>+" "v \<in> set ord" for u v
    using that
  proof (induction rule: trancl_induct)
    case (step v w)
    then have "v \<in> set ord" using topo_list_closed [OF topo(1)] by blast
    with step show ?case by (auto intro: trancl_into_trancl)
  qed auto
  show ?thesis
  proof (cases "x \<in> set ord")
    case True
    then show ?thesis using inside [OF x] topo_list_acyclic [OF topo] by (auto simp: acyclic_def)
  next
    case False
    then show ?thesis using stay [OF x] by (auto simp: acyclic_def)
  qed
qed

section \<open>Correctness of the search for a cycle\<close>

abbreviation visiting :: "dfs_state \<Rightarrow> node_id set" where
  "visiting s \<equiv> {v. map_of (fst s) v = Some Visiting}"

abbreviation visited :: "dfs_state \<Rightarrow> node_id set" where
  "visited s \<equiv> {v. map_of (fst s) v = Some Visited}"

text \<open>
  The invariant of the search in the remaining nodes \<open>R\<close>: the stack is a walk and holds exactly the
  nodes being visited; what was visited is closed under remaining children and has no cycle.
\<close>

definition dfs_inv :: "(node_id \<times> node_id) set \<Rightarrow> node_id set \<Rightarrow> dfs_state \<Rightarrow> bool" where
  "dfs_inv E R s \<longleftrightarrow>
     walk E (snd s) \<and> distinct (snd s) \<and> visiting s = set (snd s) \<and> known s \<subseteq> R \<and>
     (\<forall>u\<in>visited s. E `` {u} \<inter> R \<subseteq> visited s) \<and> acyclic (E \<inter> visited s \<times> visited s)"

text \<open>The outcome of a call that started in \<open>s\<close>: a closed walk, or the same stack and more visited nodes.\<close>

definition dfs_post ::
  "(node_id \<times> node_id) set \<Rightarrow> node_id set \<Rightarrow> dfs_state \<Rightarrow> node_id list option \<times> dfs_state \<Rightarrow> bool" where
  "dfs_post E R s res \<longleftrightarrow>
     (case res of
        (Some cyc, _) \<Rightarrow> closed_walk E cyc \<and> set cyc \<subseteq> R
      | (None, s') \<Rightarrow> dfs_inv E R s' \<and> snd s' = snd s \<and> visited s \<subseteq> visited s')"

lemma cycle_from_stack_closed:
  assumes w: "walk E stack" and d: "distinct stack" and last: "stack \<noteq> []" "(last stack, c) \<in> E"
    and c: "cycle_from_stack stack c = Some cyc"
  shows "closed_walk E cyc \<and> set cyc \<subseteq> set stack"
proof -
  have mem: "c \<in> set stack" and cyc: "cyc = dropWhile (\<lambda>x. x \<noteq> c) stack @ [c]"
    using c by (auto simp: cycle_from_stack_def split: if_splits)
  let ?d = "dropWhile (\<lambda>x. x \<noteq> c) stack"
  have ne: "?d \<noteq> []" using mem by (auto simp: dropWhile_eq_Nil_conv)
  have split: "stack = takeWhile (\<lambda>x. x \<noteq> c) stack @ ?d" by simp
  have "walk E ?d" using w split walk_appendD by metis
  moreover have "last ?d = last stack" using ne split by (metis last_appendR)
  ultimately have "walk E cyc" using last ne by (simp add: cyc walk_snoc)
  moreover have "hd cyc = c" using hd_dropWhile [OF ne] ne by (simp add: cyc)
  moreover have "2 \<le> length cyc" using ne by (simp add: cyc Suc_le_eq)
  moreover have "set cyc \<subseteq> set stack" using mem set_dropWhileD by (fastforce simp: cyc)
  ultimately show ?thesis by (simp add: closed_walk_def cyc)
qed

lemma dfs_inv_enter:
  assumes "dfs_inv E R (states, stack)" "v \<in> R" "map_of states v = None"
    "stack = [] \<or> (last stack, v) \<in> E"
  shows "dfs_inv E R (bt_insert v Visiting states, stack @ [v])"
proof -
  have "visited (bt_insert v Visiting states, stack @ [v]) = visited (states, stack)"
    using assms(3) by auto
  moreover have "v \<notin> visiting (states, stack)" using assms(3) by simp
  moreover have "visiting (states, stack) = set stack" using assms(1) by (simp add: dfs_inv_def)
  ultimately have "v \<notin> set stack" by blast
  moreover note \<open>visited (bt_insert v Visiting states, stack @ [v]) = visited (states, stack)\<close>
  ultimately show ?thesis
    using assms unfolding dfs_inv_def by (auto simp: walk_snoc)
qed

lemma acyclic_insert_sink_source:
  assumes "acyclic (E \<inter> A \<times> A)" "E `` A \<inter> R \<subseteq> A" "v \<in> R" "v \<notin> A" "(v, v) \<notin> E"
  shows "acyclic (E \<inter> insert v A \<times> insert v A)"
proof -
  have stay: "(x, y) \<in> (E \<inter> A \<times> A)\<^sup>+ \<and> y \<in> A"
    if "(x, y) \<in> (E \<inter> insert v A \<times> insert v A)\<^sup>+" "x \<in> A" for x y
    using that
  proof (induction rule: trancl_induct)
    case (base y)
    then have "y \<in> A" using assms(2-4) by blast
    with base show ?case by blast
  next
    case (step y z)
    then have "z \<in> A" using assms(2-4) by blast
    with step show ?case by (meson IntD1 IntI SigmaI trancl.trancl_into_trancl)
  qed
  show ?thesis
  proof (rule acyclicI, rule allI, rule notI)
    fix x assume x: "(x, x) \<in> (E \<inter> insert v A \<times> insert v A)\<^sup>+"
    show False
    proof (cases "x \<in> A")
      case True
      then show False using stay [OF x] assms(1) by (auto simp: acyclic_def)
    next
      case False
      then have "x = v" using x by (auto dest: tranclD)
      obtain y where y: "(x, y) \<in> E \<inter> insert v A \<times> insert v A"
        "(y, x) \<in> (E \<inter> insert v A \<times> insert v A)\<^sup>*" using x by (auto dest: tranclD)
      then have "y \<in> A" using assms(5) \<open>x = v\<close> by auto
      with y(2) stay [of y x] show False using False by (auto dest: rtranclD)
    qed
  qed
qed

lemma dfs_inv_leave:
  assumes inv: "dfs_inv E R (states, stack @ [v])" and ch: "E `` {v} \<inter> R \<subseteq> visited (states, stack)"
  shows "dfs_inv E R (bt_insert v Visited states, stack)"
proof -
  have v: "map_of states v = Some Visiting" "v \<notin> set stack" "v \<in> R"
    using inv by (auto simp: dfs_inv_def)
  have vis: "visited (bt_insert v Visited states, stack) = insert v (visited (states, stack))"
    using v by auto
  have "visiting (bt_insert v Visited states, stack) = set stack"
    using inv v by (auto simp: dfs_inv_def set_eq_iff)
  moreover have "acyclic (E \<inter> insert v (visited (states, stack)) \<times> insert v (visited (states, stack)))"
    using inv v ch by (intro acyclic_insert_sink_source [of _ _ R]) (auto simp: dfs_inv_def)
  ultimately show ?thesis
    using inv v ch unfolding dfs_inv_def vis by (auto simp: walk_snoc)
qed

lemma dfs_correct:
  "\<lbrakk>\<forall>v\<in>set rem. \<exists>cs. map_of out v = Some cs \<and> set cs = E `` {v};
    dfs_inv E (set rem) s; v \<in> set rem; v \<notin> known s; snd s = [] \<or> (last (snd s), v) \<in> E\<rbrakk> \<Longrightarrow>
   dfs_post E (set rem) s (dfs out rem v s) \<and>
   (fst (dfs out rem v s) = None \<longrightarrow> v \<in> visited (snd (dfs out rem v s)))"
  "\<lbrakk>\<forall>v\<in>set rem. \<exists>cs. map_of out v = Some cs \<and> set cs = E `` {v};
    dfs_inv E (set rem) s; snd s \<noteq> []; \<forall>c\<in>set cs. (last (snd s), c) \<in> E\<rbrakk> \<Longrightarrow>
   dfs_post E (set rem) s (dfs_children out rem cs s) \<and>
   (fst (dfs_children out rem cs s) = None \<longrightarrow>
      set cs \<inter> set rem \<subseteq> visited (snd (dfs_children out rem cs s)))"
proof (induction out rem v s and out rem cs s rule: dfs_dfs_children.induct)
  case (1 out rem v states stack)
  then obtain cs where cs: "map_of out v = Some cs" "set cs = E `` {v}" by blast
  let ?s1 = "(bt_insert v Visiting states, stack @ [v])"
  have inv1: "dfs_inv E (set rem) ?s1"
    using "1.prems" by (intro dfs_inv_enter) (auto simp: domIff)
  obtain r states2 stack2 where r: "dfs_children out rem cs ?s1 = (r, states2, stack2)"
    by (metis surj_pair)
  have IH: "dfs_post E (set rem) ?s1 (r, states2, stack2) \<and>
      (r = None \<longrightarrow> set cs \<inter> set rem \<subseteq> visited (states2, stack2))"
    using "1.IH" [OF refl refl cs(1) "1.prems"(1) inv1] cs(2) r by simp
  show ?case
  proof (cases r)
    case (Some cyc)
    then show ?thesis using IH r cs by (simp add: dfs_post_def)
  next
    case None
    then have inv2: "dfs_inv E (set rem) (states2, stack @ [v])" and st: "stack2 = stack @ [v]"
      and vis: "visited ?s1 \<subseteq> visited (states2, stack2)"
      and ch: "E `` {v} \<inter> set rem \<subseteq> visited (states2, stack)"
      using IH cs(2) by (auto simp: dfs_post_def)
    from dfs_inv_leave [OF inv2 ch] vis None r cs st show ?thesis
      using "1.prems"(4) by (auto simp: dfs_post_def)
  qed
next
  case (2 out rem s)
  then show ?case by (simp add: dfs_post_def)
next
  case (3 out rem c cs states stack)
  show ?case
  proof (cases "c \<in> set rem")
    case False
    then show ?thesis using 3 by simp
  next
    case True
    show ?thesis
    proof (cases "map_of states c")
      case None
      obtain r s' where r: "dfs out rem c (states, stack) = (r, s')" by (metis surj_pair)
      have IH: "dfs_post E (set rem) (states, stack) (r, s') \<and> (r = None \<longrightarrow> c \<in> visited s')"
        using "3.IH"(2) True None "3.prems" r by (simp add: domIff)
      show ?thesis
      proof (cases r)
        case (Some cyc)
        then show ?thesis using IH True None r by (simp add: dfs_post_def)
      next
        case r0: None
        have s': "dfs_inv E (set rem) s'" "snd s' = stack" "visited (states, stack) \<subseteq> visited s'"
          "c \<in> visited s'" using IH r0 by (auto simp: dfs_post_def)
        obtain q s'' where q: "dfs_children out rem cs s' = (q, s'')" by (metis surj_pair)
        have "dfs_post E (set rem) s' (q, s'') \<and> (q = None \<longrightarrow> set cs \<inter> set rem \<subseteq> visited s'')"
          using "3.IH"(3) True None r r0 "3.prems" s' q by simp
        then show ?thesis using s' q r r0 True None by (cases q) (auto simp: dfs_post_def)
      qed
    next
      case (Some x)
      show ?thesis
      proof (cases x)
        case Visiting
        then have "c \<in> set stack" using Some "3.prems"(2) by (auto simp: dfs_inv_def)
        then obtain cyc where cyc: "cycle_from_stack stack c = Some cyc"
          by (simp add: cycle_from_stack_def)
        have "closed_walk E cyc \<and> set cyc \<subseteq> set stack"
          using "3.prems" cyc by (intro cycle_from_stack_closed [of _ stack c]) (auto simp: dfs_inv_def)
        moreover have "set stack \<subseteq> set rem" using "3.prems"(2) by (auto simp: dfs_inv_def)
        ultimately show ?thesis using Some Visiting True cyc by (simp add: dfs_post_def) blast
      next
        case Visited
        have "dfs_post E (set rem) (states, stack) (dfs_children out rem cs (states, stack)) \<and>
          (fst (dfs_children out rem cs (states, stack)) = None \<longrightarrow>
            set cs \<inter> set rem \<subseteq> visited (snd (dfs_children out rem cs (states, stack))))"
          using "3.IH"(5) True Some Visited "3.prems" by simp
        then show ?thesis using Some Visited True
          by (auto simp: dfs_post_def split: option.splits prod.splits)
      qed
    qed
  qed
qed

lemma find_cycle_roots_correct:
  assumes "\<forall>v\<in>set rem. \<exists>cs. map_of out v = Some cs \<and> set cs = E `` {v}"
    "dfs_inv E (set rem) s" "snd s = []"
  shows "case find_cycle_roots out rem vs s of
      Some cyc \<Rightarrow> closed_walk E cyc \<and> set cyc \<subseteq> set rem
    | None \<Rightarrow> acyclic (E \<inter> (set vs \<inter> set rem \<union> visited s) \<times> (set vs \<inter> set rem \<union> visited s))"
  using assms
proof (induction out rem vs s rule: find_cycle_roots.induct)
  case (1 out rem s)
  then show ?case by (simp add: dfs_inv_def)
next
  case (2 out rem v vs states stack)
  show ?case
  proof (cases "v \<notin> set rem \<or> map_of states v \<noteq> None")
    case True
    have "stack = []" "visiting (states, stack) = {}" using "2.prems" by (auto simp: dfs_inv_def)
    then have "v \<in> set rem \<Longrightarrow> map_of states v = Some Visited"
      using True by (cases "map_of states v") (auto, metis visit_state.exhaust)
    then have "set (v # vs) \<inter> set rem \<union> visited (states, stack) =
        set vs \<inter> set rem \<union> visited (states, stack)" by auto
    moreover have "find_cycle_roots out rem (v # vs) (states, stack) = find_cycle_roots out rem vs (states, stack)"
      using True by simp
    ultimately show ?thesis using "2.IH"(1) [OF True "2.prems"] by (simp only:)
  next
    case False
    obtain r s' where r: "dfs out rem v (states, stack) = (r, s')" by (metis surj_pair)
    have post: "dfs_post E (set rem) (states, stack) (r, s') \<and> (r = None \<longrightarrow> v \<in> visited s')"
      using dfs_correct(1) [OF "2.prems"(1,2), of v] False "2.prems"(3) r by (simp add: domIff)
    show ?thesis
    proof (cases r)
      case (Some cyc)
      then show ?thesis using post False r by (simp add: dfs_post_def)
    next
      case None
      then have s': "dfs_inv E (set rem) s'" "snd s' = []" "visited (states, stack) \<subseteq> visited s'"
        "v \<in> visited s'" using post "2.prems"(3) by (auto simp: dfs_post_def)
      have sub: "set (v # vs) \<inter> set rem \<union> visited (states, stack) \<subseteq> set vs \<inter> set rem \<union> visited s'"
        using s' by auto
      have "find_cycle_roots out rem (v # vs) (states, stack) = find_cycle_roots out rem vs s'"
        using False r None by simp
      then show ?thesis
        using "2.IH"(2) [OF False r [symmetric] None "2.prems"(1) s'(1,2)] sub
        by (auto split: option.splits elim!: acyclic_subset)
    qed
  qed
qed

section \<open>The graph of a workflow\<close>

definition edge_relation :: "edge_definition list \<Rightarrow> (node_id \<times> node_id) set" where
  "edge_relation edges = (\<lambda>e. (edge_source_node e, edge_target_node e)) ` set edges"

definition no_parallel_edges :: "edge_definition list \<Rightarrow> bool" where
  "no_parallel_edges edges \<longleftrightarrow> distinct (map (\<lambda>e. (edge_source_node e, edge_target_node e)) edges)"

abbreviation node_set :: "node_definition list \<Rightarrow> node_id set" where
  "node_set nodes \<equiv> node_def_id ` set nodes"

abbreviation indegree_of :: "edge_definition list \<Rightarrow> node_id \<Rightarrow> nat" where
  "indegree_of edges v \<equiv> length (filter (\<lambda>e. edge_target_node e = v) edges)"

lemma preds_edge_relation:
  "preds (edge_relation edges) v = set (map edge_source_node (filter (\<lambda>e. edge_target_node e = v) edges))"
  by (auto simp: edge_relation_def)

lemma distinct_pairs_iff:
  "distinct (map (\<lambda>e. (f e, g e)) xs) \<longleftrightarrow> (\<forall>v. distinct (map f (filter (\<lambda>e. g e = v) xs)))"
proof (induction xs)
  case (Cons x xs)
  have "(f x, g x) \<in> (\<lambda>e. (f e, g e)) ` set xs \<longleftrightarrow> f x \<in> f ` set (filter (\<lambda>e. g e = g x) xs)"
    by force
  then show ?case using Cons by auto
qed simp

lemma indegree_eq_card_iff:
  assumes "edge_target_node ` set edges \<subseteq> V"
  shows "(\<forall>v\<in>V. indegree_of edges v = card (preds (edge_relation edges) v)) \<longleftrightarrow> no_parallel_edges edges"
proof -
  let ?F = "\<lambda>v. filter (\<lambda>e. edge_target_node e = v) edges"
  have eq: "indegree_of edges v = card (preds (edge_relation edges) v) \<longleftrightarrow>
      distinct (map edge_source_node (?F v))" for v
    unfolding preds_edge_relation
    by (metis card_distinct distinct_card length_map)
  have "?F v = []" if "v \<notin> V" for v
    using that assms by (auto simp: filter_empty_conv)
  then have "distinct (map edge_source_node (?F v))" if "v \<notin> V" for v using that by simp
  then show ?thesis
    unfolding eq no_parallel_edges_def distinct_pairs_iff by blast
qed

lemma topology_kahn_input:
  assumes t: "topology_of nodes edges t" and sv: "structurally_valid nodes edges"
  shows "kahn_input (edge_relation edges) (node_set nodes) (indegree_of edges) (outgoing_by_node t)"
proof -
  have "edge_relation edges \<subseteq> node_set nodes \<times> node_set nodes"
    using sv by (auto simp: edge_relation_def structurally_valid_def dest: declares_node)
  moreover have "card (preds (edge_relation edges) v) \<le> indegree_of edges v" for v
    unfolding preds_edge_relation by (metis card_length length_map)
  moreover have "\<exists>cs. map_of (outgoing_by_node t) v = Some cs \<and> distinct cs \<and> set cs = edge_relation edges `` {v}"
    if "v \<in> node_set nodes" for v
  proof -
    let ?cs = "bs_from_list (map edge_target_node (filter (\<lambda>e. edge_source_node e = v) edges))"
    have "map_of (outgoing_by_node t) v = Some ?cs" using t that by (simp add: topology_of_def)
    moreover have "set ?cs = edge_relation edges `` {v}" by (auto simp: edge_relation_def)
    moreover have "distinct ?cs" by (simp add: bs_ok_distinct)
    ultimately show ?thesis by blast
  qed
  ultimately show ?thesis by (simp add: kahn_input_def)
qed

lemma topology_kahn_start:
  assumes t: "topology_of nodes edges t" and sv: "structurally_valid nodes edges"
  shows "kahn_inv (edge_relation edges) (node_set nodes) (indegree_of edges) (indegree_by_node t)
    (bs_from_list (map fst (filter (\<lambda>(_, d). d = 0) (indegree_by_node t)))) []"
proof -
  let ?m = "indegree_by_node t"
  have look: "map_of ?m = (\<lambda>v. if v \<in> node_set nodes then Some (indegree_of edges v) else None)"
    using t by (auto simp: topology_of_def)
  have "distinct (map fst ?m)" using t by (simp add: topology_of_def bt_ok_distinct)
  then have "(v, d) \<in> set ?m \<longleftrightarrow> map_of ?m v = Some d" for v d by (simp add: map_of_eq_Some_iff)
  then have "v \<in> set (map fst (filter (\<lambda>(_, d). d = 0) ?m)) \<longleftrightarrow> map_of ?m v = Some 0" for v
    by (auto simp: image_iff)
  then have "set (map fst (filter (\<lambda>(_, d). d = 0) ?m)) = {v \<in> node_set nodes. indegree_of edges v = 0}"
    unfolding look by (simp add: set_eq_iff)
  then show ?thesis using look by (simp add: kahn_inv_def cong: if_cong)
qed

text \<open>What \<open>topological_order\<close> returns on the topology of a structurally valid graph.\<close>

definition order_result ::
  "node_definition list \<Rightarrow> edge_definition list \<Rightarrow> (node_id list, workflow_validation_error) result \<Rightarrow> bool" where
  "order_result nodes edges r \<longleftrightarrow>
     (case r of
        Ok ord \<Rightarrow> acyclic (edge_relation edges) \<and> no_parallel_edges edges \<and>
          topo_order (edge_relation edges) (node_set nodes) ord \<and>
          greedy (edge_relation edges) (node_set nodes) ord
      | Err e \<Rightarrow> (\<exists>c. e = CycleDetected c \<and> c \<noteq> [] \<and> set c \<subseteq> node_set nodes \<and>
          (if acyclic (edge_relation edges) then bs_ok c \<and> \<not> no_parallel_edges edges
           else closed_walk (edge_relation edges) c))
      | Panic \<Rightarrow> False)"

lemma find_cycle_correct:
  assumes ch: "\<forall>v\<in>set rem. \<exists>cs. map_of (outgoing_by_node t) v = Some cs \<and> set cs = E `` {v}"
    and rem: "set rem \<subseteq> set (node_ids t)"
  shows "if acyclic (E \<inter> set rem \<times> set rem) then find_cycle t rem = rem
    else closed_walk E (find_cycle t rem) \<and> set (find_cycle t rem) \<subseteq> set rem"
proof -
  have start: "dfs_inv E (set rem) ([], [])" by (simp add: dfs_inv_def acyclic_def)
  have int: "set (node_ids t) \<inter> set rem \<union> visited ([], []) = set rem" using rem by auto
  show ?thesis
  proof (cases "find_cycle_roots (outgoing_by_node t) rem (node_ids t) ([], [])")
    case None
    then show ?thesis
      using find_cycle_roots_correct [OF ch start, of "node_ids t"] int by (simp add: find_cycle_def)
  next
    case (Some cyc)
    then have c: "closed_walk E cyc" "set cyc \<subseteq> set rem"
      using find_cycle_roots_correct [OF ch start, of "node_ids t"] by simp_all
    then have "closed_walk (E \<inter> set rem \<times> set rem) cyc"
      by (simp add: closed_walk_def walk_restrict)
    then have "\<not> acyclic (E \<inter> set rem \<times> set rem)" by (rule closed_walk_cyclic)
    then show ?thesis using c Some by (simp add: find_cycle_def)
  qed
qed

lemma topological_order_result:
  assumes t: "topology_of nodes edges t" and sv: "structurally_valid nodes edges"
  shows "order_result nodes edges (topological_order t)"
proof -
  let ?E = "edge_relation edges" and ?V = "node_set nodes" and ?d = "indegree_of edges"
  note inp = topology_kahn_input [OF t sv]
  obtain ind ord where k: "kahn (outgoing_by_node t) (indegree_by_node t)
      (bs_from_list (map fst (filter (\<lambda>(_, d). d = 0) (indegree_by_node t)))) [] = Ok ord"
    and inv: "kahn_inv ?E ?V ?d ind [] ord"
    using kahn_total [OF inp topology_kahn_start [OF t sv]] by blast
  have ids: "node_ids t = map node_def_id nodes" "distinct (node_ids t)"
    using t sv by (auto simp: topology_of_def structurally_valid_def)
  have ord: "distinct ord" "set ord \<subseteq> ?V" using inv by (auto simp: kahn_inv_def)
  have full: "length ord = length (node_ids t) \<longleftrightarrow> set ord = ?V"
    using ord ids by (metis card_subset_eq distinct_card finite_set list.set_map)
  have tgt: "edge_target_node ` set edges \<subseteq> ?V"
    using sv by (auto simp: structurally_valid_def dest: declares_node)
  show ?thesis
  proof (cases "set ord = ?V")
    case True
    note final = kahn_done_topo [OF inv True]
    have np: "no_parallel_edges edges"
      using final(2) [OF inp] indegree_eq_card_iff [OF tgt] by simp
    moreover have "{v \<in> ?V. ?d v = card (preds ?E v)} = ?V" using final(2) [OF inp] by auto
    then have "greedy ?E ?V ord" using inv by (simp add: kahn_inv_def)
    moreover have "acyclic ?E"
      using topo_order_acyclic [OF final(1)] inp by (simp add: kahn_input_def)
    ultimately show ?thesis
      using True k full final(1) by (simp add: order_result_def topological_order_def Let_def)
  next
    case False
    let ?rem = "bs_from_list (filter (\<lambda>v. v \<notin> set ord) (node_ids t))"
    have rem: "set ?rem = ?V - set ord" using ids by auto
    have ch: "\<forall>v\<in>set ?rem. \<exists>cs. map_of (outgoing_by_node t) v = Some cs \<and> set cs = ?E `` {v}"
      using inp rem by (fastforce simp: kahn_input_def)
    have res: "topological_order t = Err (CycleDetected (find_cycle t ?rem))"
      using k False full by (simp add: topological_order_def Let_def)
    have fc: "if acyclic (?E \<inter> set ?rem \<times> set ?rem) then find_cycle t ?rem = ?rem
      else closed_walk ?E (find_cycle t ?rem) \<and> set (find_cycle t ?rem) \<subseteq> set ?rem"
      by (rule find_cycle_correct [OF ch]) auto
    show ?thesis
    proof (cases "acyclic ?E")
      case True
      then have "acyclic (?E \<inter> set ?rem \<times> set ?rem)" by (rule acyclic_subset) auto
      with fc have "find_cycle t ?rem = ?rem" by simp
      moreover have "\<not> no_parallel_edges edges"
        using kahn_complete [OF inp inv True] False indegree_eq_card_iff [OF tgt] by blast
      moreover have "?rem \<noteq> []" using rem False ord by (metis Diff_eq_empty_iff set_empty2 subset_antisym)
      ultimately show ?thesis using True res rem by (auto simp: order_result_def)
    next
      case cyc: False
      then have "\<not> acyclic (?E \<inter> set ?rem \<times> set ?rem)"
        using kahn_cycle_remains [OF inp inv] rem by simp
      with fc have "closed_walk ?E (find_cycle t ?rem)" "set (find_cycle t ?rem) \<subseteq> ?V"
        using rem by auto
      then show ?thesis using res cyc by (auto simp: order_result_def closed_walk_def)
    qed
  qed
qed

lemma graph_topological_order_result:
  "structurally_valid nodes edges \<Longrightarrow>
   order_result nodes edges (graph_topological_order \<lparr>graph_nodes = nodes, graph_edges = edges\<rparr>)"
  using from_graph_Ok [of nodes edges] topological_order_result
  by (auto simp: graph_topological_order_def)

end
