(* ===== verification/WorkflowProps.thy ===== *)
theory WorkflowProps
  imports Topology "HOL-Library.Multiset"
begin

text \<open>
  The properties of the workflow graph constructors of \<open>pureflow-workflow\<close>, over the lemmas of
  the theories \<open>Workflow\<close> and \<open>Topology\<close>.
\<close>

section \<open>Concrete graphs\<close>

definition sample_node :: "string \<Rightarrow> node_definition" where
  "sample_node n = \<lparr>node_def_id = NodeId n, input_ports = [PortId ''in''], output_ports = [PortId ''out'']\<rparr>"

definition sample_edge :: "string \<Rightarrow> string \<Rightarrow> edge_definition" where
  "sample_edge a b = new_edge
     \<lparr>endpoint_node_id = NodeId a, endpoint_port_id = PortId ''out''\<rparr>
     \<lparr>endpoint_node_id = NodeId b, endpoint_port_id = PortId ''in''\<rparr>"

lemmas sample_defs = sample_node_def sample_edge_def new_edge_def

lemmas graph_eval = graph_topological_order_def from_graph_def reject_duplicate_nodes_def
  insert_node_def empty_topology_def add_edge_def validate_endpoint_def bs_from_list_def bt_modify_def
  topological_order_def find_cycle_def cycle_from_stack_def new_graph_def build_graph_def
  validate_graph_def

section \<open>Graphs\<close>

lemma build_graph_eq:
  "build_graph nodes edges allow =
     and_then (from_graph nodes edges)
       (\<lambda>t. and_then (if allow then Ok () else and_then (topological_order t) (\<lambda>_. Ok ()))
              (\<lambda>_. Ok \<lparr>graph_nodes = nodes, graph_edges = edges\<rparr>))"
  by (simp add: build_graph_def validate_graph_def and_then_assoc)

lemma new_graph_result:
  assumes "structurally_valid nodes edges"
  shows "\<exists>t. from_graph nodes edges = Ok t \<and> order_result nodes edges (topological_order t) \<and>
    new_graph nodes edges =
      and_then (topological_order t) (\<lambda>_. Ok \<lparr>graph_nodes = nodes, graph_edges = edges\<rparr>)"
proof -
  from from_graph_Ok [OF assms] obtain t where
    t: "from_graph nodes edges = Ok t" "topology_of nodes edges t" by blast
  then show ?thesis
    using topological_order_result [OF t(2) assms]
    by (simp add: new_graph_def build_graph_eq and_then_assoc)
qed

lemma new_graph_invalid:
  assumes "\<not> structurally_valid nodes edges"
  shows "\<exists>e. from_graph nodes edges = Err e \<and> new_graph nodes edges = Err e"
  using assms from_graph_Ok_iff [of nodes edges] from_graph_no_panic [of nodes edges]
  by (cases "from_graph nodes edges") (auto simp: new_graph_def build_graph_eq)

text \<open>
  C1: \<open>WorkflowGraph::new\<close> never panics and accepts a list of nodes and edges exactly when node ids
  are distinct, every edge joins a declared output port to a declared input port, the edge relation
  is acyclic, and no two edges join the same ordered pair of nodes; the graph it returns holds the
  given nodes and edges.
\<close>

theorem new_graph_accepts_iff:
  "new_graph nodes edges \<noteq> Panic \<and>
   (new_graph nodes edges = Ok g \<longleftrightarrow>
      structurally_valid nodes edges \<and> acyclic (edge_relation edges) \<and> no_parallel_edges edges \<and>
      g = \<lparr>graph_nodes = nodes, graph_edges = edges\<rparr>)"
proof (cases "structurally_valid nodes edges")
  case True
  from new_graph_result [OF True] obtain t where
    "order_result nodes edges (topological_order t)"
    "new_graph nodes edges =
      and_then (topological_order t) (\<lambda>_. Ok \<lparr>graph_nodes = nodes, graph_edges = edges\<rparr>)" by blast
  then show ?thesis using True
    by (cases "topological_order t") (auto simp: order_result_def split: if_splits)
next
  case False
  then show ?thesis using new_graph_invalid [OF False] by auto
qed

text \<open>
  C6: the order that \<open>WorkflowGraph::topological_order\<close> returns lists every node once, each after all
  of its predecessors, and it is the lexicographically least list of the nodes with that property.
\<close>

theorem topological_order_least:
  assumes "graph_topological_order g = Ok ord"
  shows "topo_order (edge_relation (graph_edges g)) (node_set (graph_nodes g)) ord \<and>
    (\<forall>ys. topo_order (edge_relation (graph_edges g)) (node_set (graph_nodes g)) ys \<longrightarrow> ord \<le> ys)"
proof -
  obtain nodes edges where g: "g = \<lparr>graph_nodes = nodes, graph_edges = edges\<rparr>"
    by (cases g) auto
  then have "structurally_valid nodes edges"
    using assms from_graph_Ok_iff [of nodes edges] by (auto simp: graph_topological_order_def)
  from graph_topological_order_result [OF this] assms g
  have "topo_order (edge_relation edges) (node_set nodes) ord"
    "greedy (edge_relation edges) (node_set nodes) ord" by (simp_all add: order_result_def)
  then show ?thesis using greedy_least g by auto
qed

theorem topological_order_least_witness:
  "graph_topological_order \<lparr>graph_nodes = [sample_node ''b'', sample_node ''a'', sample_node ''c''],
       graph_edges = [sample_edge ''c'' ''b'']\<rparr> = Ok [NodeId ''a'', NodeId ''c'', NodeId ''b''] \<and>
   topo_order (edge_relation [sample_edge ''c'' ''b'']) {NodeId ''a'', NodeId ''b'', NodeId ''c''}
     [NodeId ''a'', NodeId ''c'', NodeId ''b'']"
proof -
  let ?g = "\<lparr>graph_nodes = [sample_node ''b'', sample_node ''a'', sample_node ''c''],
       graph_edges = [sample_edge ''c'' ''b'']\<rparr>"
  have run: "graph_topological_order ?g = Ok [NodeId ''a'', NodeId ''c'', NodeId ''b'']"
    by (simp add: graph_eval sample_defs Let_def)
  have "node_set (graph_nodes ?g) = {NodeId ''a'', NodeId ''b'', NodeId ''c''}"
    by (auto simp: sample_defs)
  with topological_order_least [OF run] run show ?thesis by simp
qed

text \<open>
  when \<open>WorkflowGraph::new\<close> reports a cycle on a graph whose edge relation is cyclic, the
  reported list is a closed walk along the edges: it has at least two entries, consecutive entries
  are joined by an edge, and the last entry repeats the first.
\<close>

theorem reported_cycle_is_closed_walk:
  assumes "new_graph nodes edges = Err (CycleDetected c)" "\<not> acyclic (edge_relation edges)"
  shows "closed_walk (edge_relation edges) c \<and> set c \<subseteq> node_set nodes"
proof (cases "structurally_valid nodes edges")
  case True
  from new_graph_result [OF True] obtain t where
    "order_result nodes edges (topological_order t)"
    "new_graph nodes edges =
      and_then (topological_order t) (\<lambda>_. Ok \<lparr>graph_nodes = nodes, graph_edges = edges\<rparr>)" by blast
  then show ?thesis using assms
    by (cases "topological_order t") (auto simp: order_result_def)
next
  case False
  then show ?thesis using new_graph_invalid [OF False] assms from_graph_not_cycle by auto
qed

theorem reported_cycle_is_closed_walk_witness:
  "new_graph [sample_node ''a'', sample_node ''b''] [sample_edge ''a'' ''b'', sample_edge ''b'' ''a''] =
     Err (CycleDetected [NodeId ''a'', NodeId ''b'', NodeId ''a'']) \<and>
   closed_walk (edge_relation [sample_edge ''a'' ''b'', sample_edge ''b'' ''a''])
     [NodeId ''a'', NodeId ''b'', NodeId ''a'']"
proof -
  let ?e = "[sample_edge ''a'' ''b'', sample_edge ''b'' ''a'']"
  have run: "new_graph [sample_node ''a'', sample_node ''b''] ?e =
      Err (CycleDetected [NodeId ''a'', NodeId ''b'', NodeId ''a''])"
    by (simp add: graph_eval sample_defs Let_def)
  have "(NodeId ''a'', NodeId ''b'') \<in> edge_relation ?e" "(NodeId ''b'', NodeId ''a'') \<in> edge_relation ?e"
    by (simp_all add: edge_relation_def sample_defs)
  then have "\<not> acyclic (edge_relation ?e)"
    unfolding acyclic_def by (meson r_into_trancl trancl_trans)
  from reported_cycle_is_closed_walk [OF run this] run show ?thesis by simp
qed

text \<open>
  C15: a graph that is structurally valid and acyclic is nevertheless rejected with \<open>CycleDetected\<close>
  as soon as two edges join the same ordered pair of nodes, because the indegree counts both edges
  while the children set holds the target once; the reported list is not a cycle of the graph.
\<close>

theorem parallel_edges_reported_as_cycle:
  assumes "structurally_valid nodes edges" "acyclic (edge_relation edges)" "\<not> no_parallel_edges edges"
  shows "\<exists>c. new_graph nodes edges = Err (CycleDetected c) \<and> \<not> closed_walk (edge_relation edges) c"
proof -
  from new_graph_result [OF assms(1)] obtain t where
    *: "order_result nodes edges (topological_order t)"
    "new_graph nodes edges =
      and_then (topological_order t) (\<lambda>_. Ok \<lparr>graph_nodes = nodes, graph_edges = edges\<rparr>)" by blast
  then obtain c where "topological_order t = Err (CycleDetected c)"
    using assms by (cases "topological_order t") (auto simp: order_result_def)
  then show ?thesis using *(2) closed_walk_cyclic assms(2) by auto
qed

theorem parallel_edges_reported_as_cycle_witness:
  "\<exists>c. new_graph [sample_node ''a'', sample_node ''b''] [sample_edge ''a'' ''b'', sample_edge ''a'' ''b''] =
       Err (CycleDetected c) \<and>
     \<not> closed_walk (edge_relation [sample_edge ''a'' ''b'', sample_edge ''a'' ''b'']) c"
proof -
  let ?n = "[sample_node ''a'', sample_node ''b'']" and ?e = "[sample_edge ''a'' ''b'', sample_edge ''a'' ''b'']"
  have "structurally_valid ?n ?e"
    by (simp add: structurally_valid_def declares_def sample_defs)
  moreover have "edge_relation ?e = {(NodeId ''a'', NodeId ''b'')}"
    by (simp add: edge_relation_def sample_defs)
  then have "acyclic (edge_relation ?e)" by (simp add: acyclic_insert wf_acyclic)
  moreover have "\<not> no_parallel_edges ?e" by (simp add: no_parallel_edges_def)
  ultimately show ?thesis by (rule parallel_edges_reported_as_cycle)
qed

text \<open>
  structural validation reports the first fault in the order of the code: the first node that
  repeats an earlier id, otherwise the first edge with an undeclared endpoint, with its index, its
  source checked before its target and the node before the port.
\<close>

theorem from_graph_first_fault:
  "from_graph nodes edges = Err e \<longleftrightarrow>
     (\<exists>ps n ss. nodes = ps @ n # ss \<and> distinct (map node_def_id ps) \<and>
        node_def_id n \<in> node_def_id ` set ps \<and> e = DuplicateNode (node_def_id n)) \<or>
     (distinct (map node_def_id nodes) \<and>
        (\<exists>ps x ss. edges = ps @ x # ss \<and> list_all (edge_declared nodes) ps \<and>
           \<not> edge_declared nodes x \<and> e = edge_error nodes (length ps) x))"
  (is "_ \<longleftrightarrow> ?R")
proof
  assume err: "from_graph nodes edges = Err e"
  show "?R"
  proof (cases "distinct (map node_def_id nodes)")
    case False
    from from_graph_dup [OF this, of edges] err show ?thesis by auto
  next
    case True
    then have "\<exists>x\<in>set edges. \<not> edge_declared nodes x"
      using err from_graph_Ok [of nodes edges] by (auto simp: structurally_valid_def)
    from from_graph_undeclared [OF True this] err True show ?thesis
      unfolding list_all_iff by (metis result.inject(2))
  qed
next
  assume "?R"
  then show "from_graph nodes edges = Err e"
  proof (elim disjE exE conjE)
    fix ps n ss
    assume "nodes = ps @ n # ss" "distinct (map node_def_id ps)" "node_def_id n \<in> node_def_id ` set ps"
      "e = DuplicateNode (node_def_id n)"
    then have "reject_duplicate_nodes nodes = Err e" unfolding dup_nodes.check_Err_iff by blast
    then show ?thesis by (simp add: from_graph_def)
  next
    fix ps x ss
    assume d: "distinct (map node_def_id nodes)" and s: "edges = ps @ x # ss"
      "list_all (edge_declared nodes) ps" "\<not> edge_declared nodes x" "e = edge_error nodes (length ps) x"
    show ?thesis
      using add_edges_Err [OF insert_nodes_topology [OF d] d _ s(3), of ps 0 ss]
        dup_nodes.check_Ok_iff [of nodes] d s by (simp add: from_graph_def list_all_iff)
  qed
qed

text \<open>
  the topological order depends only on what was declared, not on the order of the
  declarations: permuting the nodes and the edges of a graph does not change it.
\<close>

theorem topological_order_permutation:
  assumes "graph_topological_order \<lparr>graph_nodes = nodes, graph_edges = edges\<rparr> = Ok ord"
    and "mset nodes' = mset nodes" "mset edges' = mset edges"
  shows "graph_topological_order \<lparr>graph_nodes = nodes', graph_edges = edges'\<rparr> = Ok ord"
proof -
  have sets: "set nodes' = set nodes" "set edges' = set edges"
    using assms(2,3) by (auto dest: mset_eq_setD)
  have sv: "structurally_valid nodes edges"
    using assms(1) from_graph_Ok_iff [of nodes edges] by (auto simp: graph_topological_order_def)
  then have sv': "structurally_valid nodes' edges'"
    using assms(2) sets by (auto simp: structurally_valid_def declares_def
        intro: mset_eq_imp_distinct_iff [THEN iffD1, of "map node_def_id nodes"])
  have rel: "edge_relation edges' = edge_relation edges" by (simp add: edge_relation_def sets)
  have par: "no_parallel_edges edges' = no_parallel_edges edges"
    using assms(3) by (auto simp: no_parallel_edges_def
        intro!: mset_eq_imp_distinct_iff)
  from graph_topological_order_result [OF sv] assms(1)
  have ord: "acyclic (edge_relation edges)" "no_parallel_edges edges"
    "topo_order (edge_relation edges) (node_set nodes) ord"
    "greedy (edge_relation edges) (node_set nodes) ord" by (simp_all add: order_result_def)
  let ?r = "graph_topological_order \<lparr>graph_nodes = nodes', graph_edges = edges'\<rparr>"
  from graph_topological_order_result [OF sv'] obtain ord' where
    r: "?r = Ok ord'" "topo_order (edge_relation edges) (node_set nodes) ord'"
    "greedy (edge_relation edges) (node_set nodes) ord'"
    using ord(1,2) rel par sets by (cases ?r) (auto simp: order_result_def)
  have "ord = ord'"
    using greedy_least [OF ord(3,4) r(2)] greedy_least [OF r(2,3) ord(3)] by simp
  then show ?thesis using r(1) by simp
qed

theorem topological_order_permutation_witness:
  "graph_topological_order \<lparr>graph_nodes = [sample_node ''a'', sample_node ''c'', sample_node ''b''],
       graph_edges = [sample_edge ''c'' ''b'']\<rparr> = Ok [NodeId ''a'', NodeId ''c'', NodeId ''b'']"
proof -
  have "graph_topological_order \<lparr>graph_nodes = [sample_node ''b'', sample_node ''a'', sample_node ''c''],
       graph_edges = [sample_edge ''c'' ''b'']\<rparr> = Ok [NodeId ''a'', NodeId ''c'', NodeId ''b'']"
    by (simp add: graph_eval sample_defs Let_def)
  then show ?thesis by (rule topological_order_permutation) simp_all
qed

end
