(* ===== verification/Capability.thy ===== *)
theory Capability
  imports Workflow
begin

text \<open>
  The module \<open>capability.rs\<close> of \<open>pureflow-core\<close>: what a node is allowed to receive, emit and ask of
  the host, and the check that these claims agree with the topology of a workflow.
\<close>

section \<open>Data\<close>

datatype port_capability_direction = Receive | Emit

datatype effect_capability =
  FileSystemRead | FileSystemWrite | NetworkOutbound | ExternalEffect | ProcessSpawn
| EnvironmentRead | EnvironmentWrite | Clock

fun effect_index :: "effect_capability \<Rightarrow> nat" where
  "effect_index FileSystemRead = 0"
| "effect_index FileSystemWrite = 1"
| "effect_index NetworkOutbound = 2"
| "effect_index ExternalEffect = 3"
| "effect_index ProcessSpawn = 4"
| "effect_index EnvironmentRead = 5"
| "effect_index EnvironmentWrite = 6"
| "effect_index Clock = 7"

lemma effect_index_inject [simp]: "effect_index a = effect_index b \<longleftrightarrow> a = b"
  by (cases a; cases b) simp_all

text \<open>The order derived for the enum is that of its variants.\<close>

instantiation effect_capability :: linorder
begin

definition less_eq_effect_capability :: "effect_capability \<Rightarrow> effect_capability \<Rightarrow> bool" where
  "a \<le> b \<longleftrightarrow> effect_index a \<le> effect_index b"

definition less_effect_capability :: "effect_capability \<Rightarrow> effect_capability \<Rightarrow> bool" where
  "a < b \<longleftrightarrow> effect_index a < effect_index b"

instance
  by standard (auto simp: less_eq_effect_capability_def less_effect_capability_def)

end

fun effect_as_str :: "effect_capability \<Rightarrow> string" where
  "effect_as_str FileSystemRead = ''filesystem_read''"
| "effect_as_str FileSystemWrite = ''filesystem_write''"
| "effect_as_str NetworkOutbound = ''network_outbound''"
| "effect_as_str ExternalEffect = ''external_effect''"
| "effect_as_str ProcessSpawn = ''process_spawn''"
| "effect_as_str EnvironmentRead = ''environment_read''"
| "effect_as_str EnvironmentWrite = ''environment_write''"
| "effect_as_str Clock = ''clock''"

record port_capability =
  cap_port_id :: port_id
  cap_direction :: port_capability_direction

datatype capability_validation_error =
  DuplicateEffect node_id effect_capability
| DuplicatePortCapability node_id port_id port_capability_direction
| ConflictingPortDirection node_id port_id
| UnknownCapabilityNode node_id
| UnknownCapabilityPort node_id port_id
| CapabilityDirectionMismatch node_id port_id port_capability_direction port_capability_direction
| UnenforceableEffectCapability node_id effect_capability

record node_capabilities =
  cap_node_id :: node_id
  cap_ports :: "port_capability list"
  cap_effects :: "effect_capability list"

section \<open>Construction\<close>

definition reject_duplicate_effects ::
  "node_id \<Rightarrow> effect_capability list \<Rightarrow> (unit, capability_validation_error) result" where
  "reject_duplicate_effects n effects = reject_dups (\<lambda>e. e) (\<lambda>e. DuplicateEffect n e) [] effects"

fun collect_port_claims ::
  "node_id \<Rightarrow> port_capability list \<Rightarrow> port_id btree_set \<Rightarrow> port_id btree_set
   \<Rightarrow> (port_id btree_set \<times> port_id btree_set, capability_validation_error) result" where
  "collect_port_claims n [] receives emits = Ok (receives, emits)"
| "collect_port_claims n (p # ps) receives emits =
     (let current = (case cap_direction p of Receive \<Rightarrow> receives | Emit \<Rightarrow> emits)
      in if cap_port_id p \<in> set current
         then Err (DuplicatePortCapability n (cap_port_id p) (cap_direction p))
         else (case cap_direction p of
                 Receive \<Rightarrow> collect_port_claims n ps (bs_insert (cap_port_id p) receives) emits
               | Emit \<Rightarrow> collect_port_claims n ps receives (bs_insert (cap_port_id p) emits)))"

definition reject_invalid_port_capabilities ::
  "node_id \<Rightarrow> port_capability list \<Rightarrow> (unit, capability_validation_error) result" where
  "reject_invalid_port_capabilities n ports =
     and_then (collect_port_claims n ports [] []) (\<lambda>(receives, emits).
       case filter (\<lambda>p. p \<in> set emits) receives of
         p # _ \<Rightarrow> Err (ConflictingPortDirection n p)
       | [] \<Rightarrow> Ok ())"

definition new_node_capabilities ::
  "node_id \<Rightarrow> port_capability list \<Rightarrow> effect_capability list
   \<Rightarrow> (node_capabilities, capability_validation_error) result" where
  "new_node_capabilities n ports effects =
     and_then (reject_duplicate_effects n effects) (\<lambda>_.
     and_then (reject_invalid_port_capabilities n ports) (\<lambda>_.
       Ok \<lparr>cap_node_id = n, cap_ports = ports, cap_effects = effects\<rparr>))"

definition native_passive ::
  "node_id \<Rightarrow> port_capability list \<Rightarrow> (node_capabilities, capability_validation_error) result" where
  "native_passive n ports = new_node_capabilities n ports []"

definition allows_effect :: "node_capabilities \<Rightarrow> effect_capability \<Rightarrow> bool" where
  "allows_effect c e \<longleftrightarrow> e \<in> set (cap_effects c)"

definition allows_port :: "node_capabilities \<Rightarrow> port_id \<Rightarrow> port_capability_direction \<Rightarrow> bool" where
  "allows_port c p d \<longleftrightarrow> list_ex (\<lambda>q. cap_port_id q = p \<and> cap_direction q = d) (cap_ports c)"

section \<open>Validation against a workflow\<close>

definition workflow_direction_for :: "node_definition \<Rightarrow> port_id \<Rightarrow> port_capability_direction option" where
  "workflow_direction_for n p =
     (if p \<in> set (input_ports n) then Some Receive
      else if p \<in> set (output_ports n) then Some Emit else None)"

definition check_port_claim ::
  "node_definition \<Rightarrow> node_id \<Rightarrow> port_capability \<Rightarrow> (unit, capability_validation_error) result" where
  "check_port_claim node n p =
     and_then (ok_or (workflow_direction_for node (cap_port_id p)) (UnknownCapabilityPort n (cap_port_id p)))
       (\<lambda>declared. if cap_direction p \<noteq> declared
          then Err (CapabilityDirectionMismatch n (cap_port_id p) (cap_direction p) declared)
          else Ok ())"

definition validate_workflow_capabilities ::
  "workflow_definition \<Rightarrow> node_capabilities list \<Rightarrow> (unit, capability_validation_error) result" where
  "validate_workflow_capabilities w capabilities =
     try_each (\<lambda>c.
       and_then (ok_or (List.find (\<lambda>n. node_def_id n = cap_node_id c) (workflow_nodes w))
                  (UnknownCapabilityNode (cap_node_id c)))
         (\<lambda>node. try_each (check_port_claim node (cap_node_id c)) (cap_ports c))) capabilities"

section \<open>Lemmas\<close>

interpretation dup_effects: dup_checker
  "\<lambda>es. reject_duplicate_effects n es" "\<lambda>e. e" "\<lambda>e. DuplicateEffect n e" for n
  unfolding reject_duplicate_effects_def [abs_def] by (rule reject_dups_dup_checker)

lemma collect_port_claims_snoc:
  "collect_port_claims n (ps @ [p]) rc em =
     and_then (collect_port_claims n ps rc em) (\<lambda>(rc', em').
       if cap_port_id p \<in> set (case cap_direction p of Receive \<Rightarrow> rc' | Emit \<Rightarrow> em')
       then Err (DuplicatePortCapability n (cap_port_id p) (cap_direction p))
       else Ok (case cap_direction p of Receive \<Rightarrow> (bs_insert (cap_port_id p) rc', em')
                | Emit \<Rightarrow> (rc', bs_insert (cap_port_id p) em')))"
  by (induction n ps rc em rule: collect_port_claims.induct)
    (auto simp: Let_def split: port_capability_direction.split)

lemma collect_port_claims_sets:
  "collect_port_claims n ps [] [] = Ok (rc, em) \<Longrightarrow>
     set rc = {cap_port_id p | p. p \<in> set ps \<and> cap_direction p = Receive} \<and>
     set em = {cap_port_id p | p. p \<in> set ps \<and> cap_direction p = Emit} \<and> bs_ok rc \<and> bs_ok em"
proof (induction ps arbitrary: rc em rule: rev_induct)
  case (snoc p ps)
  then obtain rc' em' where *: "collect_port_claims n ps [] [] = Ok (rc', em')"
    by (auto simp: collect_port_claims_snoc)
  from snoc.IH [OF this] snoc.prems * show ?case
    by (cases "cap_direction p") (auto simp: collect_port_claims_snoc split: if_splits)
qed auto

interpretation dup_claims: dup_checker
  "\<lambda>ps. and_then (collect_port_claims n ps [] []) (\<lambda>_. Ok ())"
  "\<lambda>p. (cap_direction p, cap_port_id p)"
  "\<lambda>p. DuplicatePortCapability n (cap_port_id p) (cap_direction p)" for n
proof
  fix ps p
  show "and_then (collect_port_claims n (ps @ [p]) [] []) (\<lambda>_. Ok ()) =
    and_then (and_then (collect_port_claims n ps [] []) (\<lambda>_. Ok ())) (\<lambda>_.
      if (cap_direction p, cap_port_id p) \<in> (\<lambda>p. (cap_direction p, cap_port_id p)) ` set ps
      then Err (DuplicatePortCapability n (cap_port_id p) (cap_direction p)) else Ok ())"
  proof (cases "collect_port_claims n ps [] []")
    case (Ok r)
    obtain rc em where r: "r = (rc, em)" by (cases r)
    have "cap_port_id p \<in> set (case cap_direction p of Receive \<Rightarrow> rc | Emit \<Rightarrow> em) \<longleftrightarrow>
        (cap_direction p, cap_port_id p) \<in> (\<lambda>p. (cap_direction p, cap_port_id p)) ` set ps"
      using collect_port_claims_sets [of n ps rc em] Ok r
      by (cases "cap_direction p") (auto simp: image_iff; metis)+
    then show ?thesis using Ok r by (auto simp: collect_port_claims_snoc)
  qed (simp_all add: collect_port_claims_snoc)
qed simp

lemma distinct_dir_port_iff:
  "distinct (map cap_port_id ps) \<longleftrightarrow>
     distinct (map (\<lambda>p. (cap_direction p, cap_port_id p)) ps) \<and>
     \<not> (\<exists>p\<in>set ps. \<exists>q\<in>set ps. cap_direction p = Receive \<and> cap_direction q = Emit \<and>
          cap_port_id p = cap_port_id q)"
proof -
  have "inj_on cap_port_id (set ps) \<longleftrightarrow>
      inj_on (\<lambda>p. (cap_direction p, cap_port_id p)) (set ps) \<and>
      \<not> (\<exists>p\<in>set ps. \<exists>q\<in>set ps. cap_direction p = Receive \<and> cap_direction q = Emit \<and>
          cap_port_id p = cap_port_id q)" (is "_ \<longleftrightarrow> ?inj \<and> \<not> ?conf")
  proof
    assume inj: "inj_on cap_port_id (set ps)"
    then have "\<not> ?conf" by (metis inj_onD port_capability_direction.distinct(1))
    with inj show "?inj \<and> \<not> ?conf" by (auto simp: inj_on_def)
  next
    assume c: "?inj \<and> \<not> ?conf"
    show "inj_on cap_port_id (set ps)"
    proof (rule inj_onI)
      fix p q
      assume pq: "p \<in> set ps" "q \<in> set ps" "cap_port_id p = cap_port_id q"
      have "\<not> (cap_direction p = Receive \<and> cap_direction q = Emit)"
        "\<not> (cap_direction q = Receive \<and> cap_direction p = Emit)"
        using c pq by metis+
      then have "cap_direction p = cap_direction q"
        by (cases "cap_direction p"; cases "cap_direction q") simp_all
      with c pq show "p = q" by (auto dest: inj_onD)
    qed
  qed
  then show ?thesis by (auto simp: distinct_map)
qed

lemma reject_invalid_port_capabilities_Ok_iff:
  "reject_invalid_port_capabilities n ps = Ok () \<longleftrightarrow> distinct (map cap_port_id ps)"
proof (cases "collect_port_claims n ps [] []")
  case (Ok r)
  obtain rc em where r: "r = (rc, em)" by (cases r)
  have d: "distinct (map (\<lambda>p. (cap_direction p, cap_port_id p)) ps)"
    using dup_claims.check_Ok_iff [of n ps] Ok by simp
  have "reject_invalid_port_capabilities n ps = Ok () \<longleftrightarrow> set rc \<inter> set em = {}"
  proof -
    have "reject_invalid_port_capabilities n ps = Ok () \<longleftrightarrow> filter (\<lambda>p. p \<in> set em) rc = []"
      using Ok r by (cases "filter (\<lambda>p. p \<in> set em) rc") (simp_all add: reject_invalid_port_capabilities_def)
    then show ?thesis by (auto simp: filter_empty_conv)
  qed
  also have "\<dots> \<longleftrightarrow> \<not> (\<exists>p\<in>set ps. \<exists>q\<in>set ps. cap_direction p = Receive \<and> cap_direction q = Emit \<and>
          cap_port_id p = cap_port_id q)"
  proof -
    have "x \<in> set rc \<longleftrightarrow> (\<exists>p\<in>set ps. cap_direction p = Receive \<and> cap_port_id p = x)"
      "x \<in> set em \<longleftrightarrow> (\<exists>p\<in>set ps. cap_direction p = Emit \<and> cap_port_id p = x)" for x
      using collect_port_claims_sets [of n ps rc em] Ok r by auto
    then show ?thesis unfolding disjoint_iff by (auto; metis)
  qed
  also have "\<dots> \<longleftrightarrow> distinct (map cap_port_id ps)"
    by (simp only: distinct_dir_port_iff d simp_thms)
  finally show ?thesis .
next
  case (Err e)
  then have "\<not> distinct (map (\<lambda>p. (cap_direction p, cap_port_id p)) ps)"
    using dup_claims.check_Ok_iff [of n ps] by auto
  then show ?thesis using Err by (auto simp: reject_invalid_port_capabilities_def distinct_dir_port_iff)
next
  case Panic
  then show ?thesis using dup_claims.check_no_panic [of n ps] by simp
qed

lemma new_node_capabilities_Ok_iff:
  "new_node_capabilities n ps es = Ok c \<longleftrightarrow>
     distinct es \<and> distinct (map cap_port_id ps) \<and>
     c = \<lparr>cap_node_id = n, cap_ports = ps, cap_effects = es\<rparr>"
  using dup_effects.check_Ok_iff [of n es] reject_invalid_port_capabilities_Ok_iff [of n ps]
  by (auto simp: new_node_capabilities_def)

lemma check_port_claim_Ok_iff:
  "check_port_claim node n p = Ok () \<longleftrightarrow> workflow_direction_for node (cap_port_id p) = Some (cap_direction p)"
  by (auto simp: check_port_claim_def split: if_splits)

lemma find_node_distinct:
  "distinct (map node_def_id nodes) \<Longrightarrow>
   List.find (\<lambda>n. node_def_id n = i) nodes = Some n \<longleftrightarrow> n \<in> set nodes \<and> node_def_id n = i"
proof (induction nodes)
  case (Cons m nodes)
  then show ?case by (auto simp: image_iff)
qed simp

lemma validate_workflow_capabilities_Ok_iff:
  assumes "distinct (map node_def_id (workflow_nodes w))"
  shows "validate_workflow_capabilities w caps = Ok () \<longleftrightarrow>
    (\<forall>c\<in>set caps. \<exists>n\<in>set (workflow_nodes w). node_def_id n = cap_node_id c \<and>
       (\<forall>p\<in>set (cap_ports c). workflow_direction_for n (cap_port_id p) = Some (cap_direction p)))"
  by (auto simp: validate_workflow_capabilities_def check_port_claim_Ok_iff find_node_distinct [OF assms]
      Bex_def)

end
