(* ===== verification/Values.thy ===== *)
theory Values
  imports Identifiers Complex_Main "HOL-Library.Log_Nat"
begin

text \<open>
  The values that packets and rules carry: decimal printing of integers, 64-bit floats with their
  comparisons and the conversion from 64-bit integers, JSON values (\<open>serde_json::Value\<close>), the scalar
  values of the rule language, and packet payloads.

  A float is a NaN, an infinity or a rational number (both zeros are the rational 0, as in every
  comparison of the code).  The number type of \<open>serde_json\<close> is not part of the repository: it is a
  type parameter, and its accessors \<open>as_i64\<close> and \<open>as_f64\<close> are the fields of \<open>number_ops\<close>.
\<close>

section \<open>Decimal printing\<close>

definition digit :: "nat \<Rightarrow> char" where
  "digit d = char_of (48 + d)"

fun show_nat :: "nat \<Rightarrow> string" where
  "show_nat n = (if n < 10 then [digit n] else show_nat (n div 10) @ [digit (n mod 10)])"

declare show_nat.simps [simp del]

definition show_int :: "int \<Rightarrow> string" where
  "show_int i = (if i < 0 then ''-'' @ show_nat (nat (- i)) else show_nat (nat i))"

text \<open>\<open>parts.join(sep)\<close>.\<close>

fun join :: "string \<Rightarrow> string list \<Rightarrow> string" where
  "join sep [] = []"
| "join sep [x] = x"
| "join sep (x # y # ys) = x @ sep @ join sep (y # ys)"

text \<open>\<open>str::split(c)\<close>: always at least one segment.\<close>

fun split_on :: "char \<Rightarrow> string \<Rightarrow> string list" where
  "split_on c [] = [[]]"
| "split_on c (x # xs) =
     (if x = c then [] # split_on c xs
      else (case split_on c xs of [] \<Rightarrow> [[x]] | seg # segs \<Rightarrow> (x # seg) # segs))"

lemma split_on_not_Nil [simp]: "split_on c s \<noteq> []"
  by (induction s) (auto split: list.split)

lemma join_split_on: "join [c] (split_on c s) = s"
proof (induction s)
  case (Cons x xs)
  obtain seg segs where s: "split_on c xs = seg # segs" by (cases "split_on c xs") auto
  then show ?case using Cons by (cases segs) auto
qed simp

lemma digit_neq_minus: "d < 10 \<Longrightarrow> digit d \<noteq> CHR ''-''"
proof
  assume "d < 10" "digit d = CHR ''-''"
  then have "of_char (digit d) = (of_char (CHR ''-'') :: nat)" by simp
  with \<open>d < 10\<close> show False by (simp add: digit_def of_char_of)
qed

lemma digit_inj: "d < 10 \<Longrightarrow> e < 10 \<Longrightarrow> digit d = digit e \<Longrightarrow> d = e"
proof -
  assume de: "d < 10" "e < 10" "digit d = digit e"
  then have "of_char (digit d) = (of_char (digit e) :: nat)" by simp
  with de show ?thesis by (simp add: digit_def of_char_of)
qed

lemma show_nat_not_Nil [simp]: "show_nat n \<noteq> []"
  by (subst show_nat.simps) simp

lemma show_nat_inj: "show_nat m = show_nat n \<Longrightarrow> m = n"
proof (induction m arbitrary: n rule: less_induct)
  case (less m)
  note unf = show_nat.simps [of m] show_nat.simps [of n]
  consider "m < 10" "n < 10" | "m < 10" "\<not> n < 10" | "\<not> m < 10" "n < 10" | "\<not> m < 10" "\<not> n < 10"
    by blast
  then show ?case
  proof cases
    case 1
    then show ?thesis using less.prems unf by (auto intro: digit_inj)
  next
    case 4
    then have "show_nat (m div 10) = show_nat (n div 10)" "digit (m mod 10) = digit (n mod 10)"
      using less.prems unf by auto
    moreover from this(1) have "m div 10 = n div 10" using less.IH [of "m div 10"] 4 by simp
    moreover have "m mod 10 = n mod 10" by (rule digit_inj) (use calculation in auto)
    ultimately show ?thesis by (metis div_mult_mod_eq)
  qed (use less.prems unf show_nat_not_Nil [THEN not_sym] in auto)
qed

section \<open>Floats\<close>

datatype f64 = NaN | PosInf | NegInf | Fin rat

datatype ordering = Less | Equal | Greater

fun partial_cmp :: "f64 \<Rightarrow> f64 \<Rightarrow> ordering option" where
  "partial_cmp (Fin a) (Fin b) = Some (if a < b then Less else if a = b then Equal else Greater)"
| "partial_cmp NaN _ = None"
| "partial_cmp _ NaN = None"
| "partial_cmp PosInf PosInf = Some Equal"
| "partial_cmp PosInf _ = Some Greater"
| "partial_cmp _ PosInf = Some Less"
| "partial_cmp NegInf NegInf = Some Equal"
| "partial_cmp NegInf _ = Some Less"
| "partial_cmp _ NegInf = Some Greater"

definition f64_eq :: "f64 \<Rightarrow> f64 \<Rightarrow> bool" where
  "f64_eq a b \<longleftrightarrow> partial_cmp a b = Some Equal"

text \<open>
  The conversion \<open>i as f64\<close> of an \<open>i64\<close>: exact below 2 to the 53, otherwise rounded to a 53-bit
  significand, to nearest with ties to even.
\<close>

definition round53 :: "nat \<Rightarrow> nat" where
  "round53 n =
     (if n < 2 ^ 53 then n
      else let e = floorlog 2 n - 53; q = n div 2 ^ e; r = n mod 2 ^ e; half = 2 ^ (e - 1)
           in (if r < half \<or> (r = half \<and> even q) then q else q + 1) * 2 ^ e)"

definition i64_to_f64 :: "int \<Rightarrow> f64" where
  "i64_to_f64 i =
     Fin (if i < 0 then - of_nat (round53 (nat (- i))) else of_nat (round53 (nat i)))"

lemma partial_cmp_refl: "a \<noteq> NaN \<Longrightarrow> partial_cmp a a = Some Equal"
  by (cases a) auto

lemma f64_eq_iff: "f64_eq a b \<longleftrightarrow> a \<noteq> NaN \<and> a = b"
  by (cases a; cases b) (auto simp: f64_eq_def)

lemma partial_cmp_swap:
  "partial_cmp b a =
     map_option (\<lambda>r. case r of Less \<Rightarrow> Greater | Equal \<Rightarrow> Equal | Greater \<Rightarrow> Less) (partial_cmp a b)"
  by (cases a; cases b) auto

lemma i64_to_f64_small: "\<bar>i\<bar> < 2 ^ 53 \<Longrightarrow> i64_to_f64 i = Fin (of_int i)"
  by (auto simp: i64_to_f64_def round53_def nat_less_iff)

section \<open>JSON and scalars\<close>

datatype 'n json =
  JNull
| JBool bool
| JNumber 'n
| JString string
| JArray "'n json list"
| JObject "(string \<times> 'n json) list"

record 'n number_ops =
  num_as_i64 :: "'n \<Rightarrow> int option"
  num_as_f64 :: "'n \<Rightarrow> f64 option"

text \<open>\<open>Value::get\<close> with a string index, \<open>Value::as_str\<close>, \<open>Value::as_f64\<close>.\<close>

fun json_get :: "'n json \<Rightarrow> string \<Rightarrow> 'n json option" where
  "json_get (JObject kvs) k = map_of kvs k"
| "json_get _ k = None"

fun json_as_str :: "'n json \<Rightarrow> string option" where
  "json_as_str (JString s) = Some s"
| "json_as_str _ = None"

fun json_as_f64 :: "'n number_ops \<Rightarrow> 'n json \<Rightarrow> f64 option" where
  "json_as_f64 ops (JNumber n) = num_as_f64 ops n"
| "json_as_f64 ops _ = None"

datatype scalar_value =
  SString string
| SInteger int
| SFloat f64
| SBoolean bool
| SNull

text \<open>\<open>Display\<close> of a scalar; the printing of a float is the parameter \<open>fmt\<close>.\<close>

fun show_scalar :: "(f64 \<Rightarrow> string) \<Rightarrow> scalar_value \<Rightarrow> string" where
  "show_scalar fmt (SString s) = ''\"'' @ s @ ''\"''"
| "show_scalar fmt (SInteger n) = show_int n"
| "show_scalar fmt (SFloat n) = fmt n"
| "show_scalar fmt (SBoolean b) = (if b then ''true'' else ''false'')"
| "show_scalar fmt SNull = ''null''"

text \<open>
  A packet payload; bytes are the bytes of the buffer.  The Arrow payload exists only under the
  feature \<open>arrow\<close> and is not part of the model.
\<close>

datatype 'n packet_payload = Bytes "char list" | ControlPayload "'n json"

end
