(* ===== verification/Errors.thy ===== *)
theory Errors
  imports Capability Values
begin

text \<open>
  The module \<open>error.rs\<close> of \<open>pureflow-core\<close>: the shared error enum with its stable codes, visibility
  and retry guidance, the texts of the errors, and the conversions into it.  The conversions from
  port errors are in the theory \<open>Ports\<close>.
\<close>

datatype error_code =
  InvalidIdentifier | InvalidCapabilities | NodeExecutionFailed | ExecutionCancelled
| LifecycleObservationFailed | MetadataCollectionFailed

fun error_code_str :: "error_code \<Rightarrow> string" where
  "error_code_str InvalidIdentifier = ''CDT-VAL-001''"
| "error_code_str InvalidCapabilities = ''CDT-VAL-002''"
| "error_code_str NodeExecutionFailed = ''CDT-EXEC-001''"
| "error_code_str ExecutionCancelled = ''CDT-CANCEL-001''"
| "error_code_str LifecycleObservationFailed = ''CDT-LIFE-001''"
| "error_code_str MetadataCollectionFailed = ''CDT-META-001''"

datatype error_visibility = UserVisible | InternalVisible

datatype retry_disposition = RetryNever | RetrySafe | RetryUnknown

datatype validation_error =
  IdentifierInvalid identifier_error
| CapabilityInvalid capability_validation_error

text \<open>
  \<open>ExecutionError\<close>, \<open>CancellationError\<close>, \<open>LifecycleError\<close> and \<open>MetadataError\<close> are wrappers of a message.
\<close>

datatype pureflow_error =
  Validation validation_error
| Execution string
| Cancellation string
| Lifecycle string
| Metadata string

fun validation_code :: "validation_error \<Rightarrow> error_code" where
  "validation_code (IdentifierInvalid e) = InvalidIdentifier"
| "validation_code (CapabilityInvalid e) = InvalidCapabilities"

fun error_code_of :: "pureflow_error \<Rightarrow> error_code" where
  "error_code_of (Validation e) = validation_code e"
| "error_code_of (Execution m) = NodeExecutionFailed"
| "error_code_of (Cancellation r) = ExecutionCancelled"
| "error_code_of (Lifecycle m) = LifecycleObservationFailed"
| "error_code_of (Metadata m) = MetadataCollectionFailed"

fun visibility :: "pureflow_error \<Rightarrow> error_visibility" where
  "visibility (Validation e) = UserVisible"
| "visibility (Cancellation r) = UserVisible"
| "visibility (Execution m) = InternalVisible"
| "visibility (Lifecycle m) = InternalVisible"
| "visibility (Metadata m) = InternalVisible"

fun retry_disposition_of :: "pureflow_error \<Rightarrow> retry_disposition" where
  "retry_disposition_of (Validation e) = RetryNever"
| "retry_disposition_of (Execution m) = RetryUnknown"
| "retry_disposition_of (Lifecycle m) = RetryUnknown"
| "retry_disposition_of (Metadata m) = RetryUnknown"
| "retry_disposition_of (Cancellation r) = RetrySafe"

section \<open>Texts\<close>

fun show_identifier_error :: "identifier_error \<Rightarrow> string" where
  "show_identifier_error (Empty k) = kind_label k @ '' must not be empty''"
| "show_identifier_error (Whitespace k) = kind_label k @ '' must not contain whitespace''"
| "show_identifier_error (Control k) = kind_label k @ '' must not contain control characters''"
| "show_identifier_error (TooLong k n) = kind_label k @ '' must not exceed '' @ show_nat n @ '' bytes''"

definition quoted :: "string \<Rightarrow> string" where
  "quoted s = ''`'' @ s @ ''`''"

fun port_capability_label :: "port_capability_direction \<Rightarrow> string" where
  "port_capability_label Receive = ''receive''"
| "port_capability_label Emit = ''emit''"

text \<open>\<open>{effect:?}\<close> prints the name of the variant.\<close>

fun effect_debug :: "effect_capability \<Rightarrow> string" where
  "effect_debug FileSystemRead = ''FileSystemRead''"
| "effect_debug FileSystemWrite = ''FileSystemWrite''"
| "effect_debug NetworkOutbound = ''NetworkOutbound''"
| "effect_debug ExternalEffect = ''ExternalEffect''"
| "effect_debug ProcessSpawn = ''ProcessSpawn''"
| "effect_debug EnvironmentRead = ''EnvironmentRead''"
| "effect_debug EnvironmentWrite = ''EnvironmentWrite''"
| "effect_debug Clock = ''Clock''"

fun show_capability_error :: "capability_validation_error \<Rightarrow> string" where
  "show_capability_error (DuplicateEffect n e) =
     ''node '' @ quoted (node_id_str n) @ '' declares duplicate effect capability '' @ quoted (effect_debug e)"
| "show_capability_error (DuplicatePortCapability n p d) =
     ''node '' @ quoted (node_id_str n) @ '' declares duplicate '' @ port_capability_label d
       @ '' capability for port '' @ quoted (port_id_str p)"
| "show_capability_error (ConflictingPortDirection n p) =
     ''node '' @ quoted (node_id_str n) @ '' declares port '' @ quoted (port_id_str p)
       @ '' for both receive and emit''"
| "show_capability_error (UnknownCapabilityNode n) =
     ''capability descriptor references unknown workflow node '' @ quoted (node_id_str n)"
| "show_capability_error (UnknownCapabilityPort n p) =
     ''node '' @ quoted (node_id_str n) @ '' capability references unknown workflow port ''
       @ quoted (port_id_str p)"
| "show_capability_error (CapabilityDirectionMismatch n p claimed declared) =
     ''node '' @ quoted (node_id_str n) @ '' capability claims port '' @ quoted (port_id_str p)
       @ '' may '' @ port_capability_label claimed @ '' but workflow declares ''
       @ port_capability_label declared"
| "show_capability_error (UnenforceableEffectCapability n e) =
     ''node '' @ quoted (node_id_str n) @ '' declares effect capability '' @ quoted (effect_debug e)
       @ '' that is not enforceable by its execution boundary''"

fun show_validation_error :: "validation_error \<Rightarrow> string" where
  "show_validation_error (IdentifierInvalid e) = ''identifier validation failed: '' @ show_identifier_error e"
| "show_validation_error (CapabilityInvalid e) = ''capability validation failed: '' @ show_capability_error e"

fun error_text :: "pureflow_error \<Rightarrow> string" where
  "error_text (Validation e) = show_validation_error e"
| "error_text (Execution m) = ''node execution failed: '' @ m"
| "error_text (Cancellation r) = ''execution cancelled: '' @ r"
| "error_text (Lifecycle m) = ''lifecycle observation failed: '' @ m"
| "error_text (Metadata m) = ''metadata collection failed: '' @ m"

definition show_pureflow_error :: "pureflow_error \<Rightarrow> string" where
  "show_pureflow_error e = error_code_str (error_code_of e) @ '': '' @ error_text e"

section \<open>Lemmas\<close>

lemma error_code_str_inject [simp]: "error_code_str a = error_code_str b \<longleftrightarrow> a = b"
  by (cases a; cases b) simp_all

lemma retry_safe_iff: "retry_disposition_of e = RetrySafe \<longleftrightarrow> error_code_of e = ExecutionCancelled"
  by (cases e) (auto elim: validation_code.elims)

end
