(* ===== verification/Contract.thy ===== *)
theory Contract
  imports Errors Topology
begin

text \<open>
  The crate \<open>pureflow-contract\<close> (\<open>lib.rs\<close>): node contracts and their validation against a workflow
  and the capability descriptors of its nodes.
\<close>

section \<open>Data\<close>

datatype schema_ref = SchemaRef string

datatype execution_mode = Native | Wasm | Process

datatype determinism = Deterministic | NonDeterministic | UnknownDeterminism

record port_contract =
  contract_port_id :: port_id
  contract_direction :: port_direction
  contract_schema :: "schema_ref option"

datatype contract_validation_error =
  EmptySchemaRef
| DuplicatePortContract node_id port_id
| UnknownWorkflowNode node_id
| UnknownWorkflowPort node_id port_id port_direction
| PortDirectionMismatch node_id port_id port_direction port_direction
| MissingCapabilityDescriptor node_id
| SchemaMismatch nat node_id port_id node_id port_id
| CapabilityError capability_validation_error

record node_contract =
  contract_id :: node_id
  contract_ports :: "port_contract list"
  contract_execution_mode :: execution_mode
  contract_determinism :: determinism
  contract_retry :: retry_disposition

definition new_schema_ref :: "string \<Rightarrow> (schema_ref, contract_validation_error) result" where
  "new_schema_ref value =
     (if trim_chars (chars value) = [] then Err EmptySchemaRef else Ok (SchemaRef value))"

fun reject_duplicate_contract_ports ::
  "node_id \<Rightarrow> (port_id, port_direction) btree_map \<Rightarrow> port_contract list
   \<Rightarrow> (unit, contract_validation_error) result" where
  "reject_duplicate_contract_ports n seen [] = Ok ()"
| "reject_duplicate_contract_ports n seen (p # ps) =
     (if map_of seen (contract_port_id p) \<noteq> None
      then Err (DuplicatePortContract n (contract_port_id p))
      else reject_duplicate_contract_ports n
             (bt_insert (contract_port_id p) (contract_direction p) seen) ps)"

definition new_node_contract ::
  "node_id \<Rightarrow> port_contract list \<Rightarrow> execution_mode \<Rightarrow> determinism \<Rightarrow> retry_disposition
   \<Rightarrow> (node_contract, contract_validation_error) result" where
  "new_node_contract n ports mode det retry =
     and_then (reject_duplicate_contract_ports n [] ports)
       (\<lambda>_. Ok \<lparr>contract_id = n, contract_ports = ports, contract_execution_mode = mode,
                 contract_determinism = det, contract_retry = retry\<rparr>)"

section \<open>Validation\<close>

definition port_map :: "node_contract \<Rightarrow> (port_id, port_contract) btree_map" where
  "port_map c = bt_from_list (map (\<lambda>p. (contract_port_id p, p)) (contract_ports c))"

definition strict_boundary_supports_effect :: "execution_mode \<Rightarrow> effect_capability \<Rightarrow> bool" where
  "strict_boundary_supports_effect mode effect = False"

definition validate_enforceable_capabilities ::
  "node_contract \<Rightarrow> node_capabilities \<Rightarrow> (unit, contract_validation_error) result" where
  "validate_enforceable_capabilities c k =
     (case contract_execution_mode c of
        Native \<Rightarrow> Ok ()
      | _ \<Rightarrow> try_each (\<lambda>e.
               if \<not> strict_boundary_supports_effect (contract_execution_mode c) e
               then Err (CapabilityError (UnenforceableEffectCapability (cap_node_id k) e))
               else Ok ()) (cap_effects k))"

definition workflow_port_map :: "node_definition \<Rightarrow> (port_id, port_direction) btree_map" where
  "workflow_port_map n =
     bt_from_list (map (\<lambda>p. (p, Input)) (input_ports n) @ map (\<lambda>p. (p, Output)) (output_ports n))"

definition validate_node_contract ::
  "node_definition \<Rightarrow> node_contract \<Rightarrow> (unit, contract_validation_error) result" where
  "validate_node_contract n c =
     and_then
       (try_each (\<lambda>(p, dir).
          and_then (ok_or (map_of (port_map c) p) (UnknownWorkflowPort (node_def_id n) p dir))
            (\<lambda>cp. if contract_direction cp \<noteq> dir
               then Err (PortDirectionMismatch (node_def_id n) p dir (contract_direction cp))
               else Ok ())) (workflow_port_map n))
       (\<lambda>_. try_each (\<lambda>(p, cp).
          if map_of (workflow_port_map n) p = None
          then Err (UnknownWorkflowPort (node_def_id n) p (contract_direction cp))
          else Ok ()) (port_map c))"

definition schema_of :: "node_contract \<Rightarrow> port_id \<Rightarrow> schema_ref option" where
  "schema_of c p = Option.bind (List.find (\<lambda>q. contract_port_id q = p) (contract_ports c)) contract_schema"

definition check_edge_schema ::
  "(node_id, node_contract) btree_map \<Rightarrow> nat \<Rightarrow> edge_definition \<Rightarrow> (unit, contract_validation_error) result"
  where
  "check_edge_schema contracts i e =
     and_then (ok_or (map_of contracts (edge_source_node e)) (UnknownWorkflowNode (edge_source_node e)))
       (\<lambda>sc. and_then (ok_or (map_of contracts (edge_target_node e)) (UnknownWorkflowNode (edge_target_node e)))
         (\<lambda>tc. case (schema_of sc (endpoint_port_id (edge_source e)),
                      schema_of tc (endpoint_port_id (edge_target e))) of
             (Some s, Some t) \<Rightarrow>
               if s \<noteq> t
               then Err (SchemaMismatch i (edge_source_node e) (endpoint_port_id (edge_source e))
                      (edge_target_node e) (endpoint_port_id (edge_target e)))
               else Ok ()
           | _ \<Rightarrow> Ok ()))"

definition validate_edge_schema_compatibility ::
  "workflow_definition \<Rightarrow> (node_id, node_contract) btree_map \<Rightarrow> (unit, contract_validation_error) result"
  where
  "validate_edge_schema_compatibility w contracts =
     try_each (\<lambda>(i, e). check_edge_schema contracts i e) (enumerate 0 (workflow_edges w))"

definition contract_map_of :: "node_contract list \<Rightarrow> (node_id, node_contract) btree_map" where
  "contract_map_of contracts = bt_from_list (map (\<lambda>c. (contract_id c, c)) contracts)"

definition capability_map_of :: "node_capabilities list \<Rightarrow> (node_id, node_capabilities) btree_map" where
  "capability_map_of caps = bt_from_list (map (\<lambda>c. (cap_node_id c, c)) caps)"

text \<open>The body of the loop over the nodes of the workflow.\<close>

definition check_node ::
  "(node_id, node_contract) btree_map \<Rightarrow> (node_id, node_capabilities) btree_map \<Rightarrow> node_definition
   \<Rightarrow> (unit, contract_validation_error) result" where
  "check_node contract_map capability_map n =
     and_then (ok_or (map_of contract_map (node_def_id n)) (UnknownWorkflowNode (node_def_id n)))
       (\<lambda>c. and_then (ok_or (map_of capability_map (node_def_id n))
                         (MissingCapabilityDescriptor (node_def_id n)))
         (\<lambda>k. and_then (validate_node_contract n c)
           (\<lambda>_. validate_enforceable_capabilities c k)))"

definition validate_workflow_contracts ::
  "workflow_definition \<Rightarrow> node_contract list \<Rightarrow> node_capabilities list
   \<Rightarrow> (unit, contract_validation_error) result" where
  "validate_workflow_contracts w contracts capabilities =
     and_then (map_err CapabilityError (validate_workflow_capabilities w capabilities)) (\<lambda>_.
     and_then
       (try_each (check_node (contract_map_of contracts) (capability_map_of capabilities))
          (workflow_nodes w)) (\<lambda>_.
     and_then
       (try_each (\<lambda>c.
          if list_all (\<lambda>n. node_def_id n \<noteq> contract_id c) (workflow_nodes w)
          then Err (UnknownWorkflowNode (contract_id c)) else Ok ()) contracts)
       (\<lambda>_. validate_edge_schema_compatibility w (contract_map_of contracts))))"

section \<open>Lemmas\<close>

lemma reject_duplicate_contract_ports_snoc:
  "reject_duplicate_contract_ports n seen (ps @ [p]) =
     and_then (reject_duplicate_contract_ports n seen ps)
       (\<lambda>_. if contract_port_id p \<in> dom (map_of seen) \<union> contract_port_id ` set ps
            then Err (DuplicatePortContract n (contract_port_id p)) else Ok ())"
proof (induction ps arbitrary: seen)
  case (Cons q ps)
  have "dom (map_of (bt_insert (contract_port_id q) (contract_direction q) seen)) =
      insert (contract_port_id q) (dom (map_of seen))" by auto
  then show ?case using Cons by auto
qed auto

interpretation dup_contract_ports: dup_checker
  "\<lambda>ps. reject_duplicate_contract_ports n [] ps" contract_port_id
  "\<lambda>p. DuplicatePortContract n (contract_port_id p)" for n
  by unfold_locales (simp_all add: reject_duplicate_contract_ports_snoc)

lemma new_node_contract_Ok_iff:
  "new_node_contract n ports mode det retry = Ok c \<longleftrightarrow>
     distinct (map contract_port_id ports) \<and>
     c = \<lparr>contract_id = n, contract_ports = ports, contract_execution_mode = mode,
          contract_determinism = det, contract_retry = retry\<rparr>"
  using dup_contract_ports.check_Ok_iff [of n ports] by (auto simp: new_node_contract_def)

text \<open>The ports of a node and of a contract as sets of named, directed ports.\<close>

definition node_port_set :: "node_definition \<Rightarrow> (port_id \<times> port_direction) set" where
  "node_port_set n = {(p, Input) | p. p \<in> set (input_ports n)} \<union> {(p, Output) | p. p \<in> set (output_ports n)}"

definition contract_port_set :: "node_contract \<Rightarrow> (port_id \<times> port_direction) set" where
  "contract_port_set c = (\<lambda>p. (contract_port_id p, contract_direction p)) ` set (contract_ports c)"

lemma workflow_port_map_lookup:
  assumes "distinct (input_ports n @ output_ports n)"
  shows "map_of (workflow_port_map n) p = Some d \<longleftrightarrow> (p, d) \<in> node_port_set n"
proof -
  let ?l = "map (\<lambda>p. (p, Input)) (input_ports n) @ map (\<lambda>p. (p, Output)) (output_ports n)"
  have "map fst ?l = input_ports n @ output_ports n" by (simp add: comp_def)
  then have d: "distinct (map fst ?l)" using assms by simp
  have "map_of (workflow_port_map n) p = Some d \<longleftrightarrow> (p, d) \<in> set ?l"
    unfolding workflow_port_map_def by (rule bt_from_list_lookup [OF d])
  then show ?thesis by (auto simp: node_port_set_def)
qed

lemma port_map_lookup:
  assumes "distinct (map contract_port_id (contract_ports c))"
  shows "map_of (port_map c) p = Some cp \<longleftrightarrow> cp \<in> set (contract_ports c) \<and> contract_port_id cp = p"
proof -
  let ?l = "map (\<lambda>p. (contract_port_id p, p)) (contract_ports c)"
  have d: "distinct (map fst ?l)" using assms by (simp add: comp_def)
  have "map_of (port_map c) p = Some cp \<longleftrightarrow> (p, cp) \<in> set ?l"
    unfolding port_map_def by (rule bt_from_list_lookup [OF d])
  then show ?thesis by auto
qed

lemma validate_node_contract_Ok_iff:
  assumes n: "distinct (input_ports n @ output_ports n)"
    and c: "distinct (map contract_port_id (contract_ports c))"
  shows "validate_node_contract n c = Ok () \<longleftrightarrow> node_port_set n = contract_port_set c"
proof -
  have wm: "(p, d) \<in> set (workflow_port_map n) \<longleftrightarrow> (p, d) \<in> node_port_set n" for p d
    using workflow_port_map_lookup [OF n, of p d] by (simp add: workflow_port_map_def bt_from_list_mem)
  have cm: "(p, cp) \<in> set (port_map c) \<longleftrightarrow> cp \<in> set (contract_ports c) \<and> contract_port_id cp = p" for p cp
    using port_map_lookup [OF c, of p cp] by (simp add: port_map_def bt_from_list_mem)
  have none: "map_of (workflow_port_map n) p = None \<longleftrightarrow> (\<forall>d. (p, d) \<notin> node_port_set n)" for p
    using workflow_port_map_lookup [OF n, of p] by (metis not_None_eq)
  have elem: "and_then (ok_or (map_of (port_map c) p) (UnknownWorkflowPort (node_def_id n) p d))
      (\<lambda>cp. if contract_direction cp \<noteq> d
         then Err (PortDirectionMismatch (node_def_id n) p d (contract_direction cp)) else Ok ()) = Ok () \<longleftrightarrow>
      (\<exists>cp\<in>set (contract_ports c). contract_port_id cp = p \<and> contract_direction cp = d)" for p d
    by (auto simp: port_map_lookup [OF c] split: if_splits)
  have "validate_node_contract n c = Ok () \<longleftrightarrow>
      (\<forall>x\<in>set (workflow_port_map n). case x of (p, d) \<Rightarrow>
         \<exists>cp\<in>set (contract_ports c). contract_port_id cp = p \<and> contract_direction cp = d) \<and>
      (\<forall>x\<in>set (port_map c). case x of (p, cp) \<Rightarrow> map_of (workflow_port_map n) p \<noteq> None)"
    unfolding validate_node_contract_def and_then_unit_Ok try_each_Ok_iff case_prod_unfold elem by simp
  also have "\<dots> \<longleftrightarrow>
      (\<forall>(p, d) \<in> node_port_set n. \<exists>cp\<in>set (contract_ports c). contract_port_id cp = p \<and> contract_direction cp = d) \<and>
      (\<forall>cp\<in>set (contract_ports c). \<exists>d. (contract_port_id cp, d) \<in> node_port_set n)"
  proof (intro arg_cong2 [where f = conj])
    have "set (workflow_port_map n) = node_port_set n" using wm by auto
    then show "(\<forall>x\<in>set (workflow_port_map n). case x of (p, d) \<Rightarrow>
         \<exists>cp\<in>set (contract_ports c). contract_port_id cp = p \<and> contract_direction cp = d) \<longleftrightarrow>
      (\<forall>(p, d) \<in> node_port_set n. \<exists>cp\<in>set (contract_ports c). contract_port_id cp = p \<and> contract_direction cp = d)"
      by simp
    have "set (port_map c) = (\<lambda>cp. (contract_port_id cp, cp)) ` set (contract_ports c)" using cm by auto
    then show "(\<forall>x\<in>set (port_map c). case x of (p, cp) \<Rightarrow> map_of (workflow_port_map n) p \<noteq> None) \<longleftrightarrow>
      (\<forall>cp\<in>set (contract_ports c). \<exists>d. (contract_port_id cp, d) \<in> node_port_set n)"
      using none by auto
  qed
  also have "\<dots> \<longleftrightarrow> node_port_set n = contract_port_set c" (is "?A \<and> ?B \<longleftrightarrow> _")
  proof
    assume AB: "?A \<and> ?B"
    have A: "\<exists>cp\<in>set (contract_ports c). contract_port_id cp = p \<and> contract_direction cp = d"
      if "(p, d) \<in> node_port_set n" for p d
      using bspec [OF conjunct1 [OF AB] that] by simp
    show "node_port_set n = contract_port_set c"
    proof (rule set_eqI, clarify)
      fix p d
      show "(p, d) \<in> node_port_set n \<longleftrightarrow> (p, d) \<in> contract_port_set c"
      proof
        assume "(p, d) \<in> node_port_set n"
        then show "(p, d) \<in> contract_port_set c" using AB by (auto simp: contract_port_set_def image_iff)
      next
        assume "(p, d) \<in> contract_port_set c"
        then obtain cp where cp: "cp \<in> set (contract_ports c)" "contract_port_id cp = p" "contract_direction cp = d"
          by (auto simp: contract_port_set_def)
        then obtain d' where d': "(p, d') \<in> node_port_set n" using AB by blast
        then obtain cp' where "cp' \<in> set (contract_ports c)" "contract_port_id cp' = p" "contract_direction cp' = d'"
          using A [OF d'] by blast
        then have "cp' = cp" using cp c by (auto simp: distinct_map dest: inj_onD)
        then show "(p, d) \<in> node_port_set n" using d' cp \<open>contract_direction cp' = d'\<close> by simp
      qed
    qed
  next
    assume eq: "node_port_set n = contract_port_set c"
    then show "?A \<and> ?B" unfolding eq contract_port_set_def by auto
  qed
  finally show ?thesis .
qed

lemma validate_enforceable_Ok_iff:
  "validate_enforceable_capabilities c k = Ok () \<longleftrightarrow>
     contract_execution_mode c = Native \<or> cap_effects k = []"
  by (cases "contract_execution_mode c"; cases "cap_effects k")
    (simp_all add: validate_enforceable_capabilities_def strict_boundary_supports_effect_def)

lemma contract_map_lookup: "map_of (contract_map_of cs) i = map_of (map (\<lambda>c. (contract_id c, c)) (rev cs)) i"
  by (simp add: contract_map_of_def map_of_bt_from_list rev_map)

lemma capability_map_lookup: "map_of (capability_map_of cs) i = map_of (map (\<lambda>c. (cap_node_id c, c)) (rev cs)) i"
  by (simp add: capability_map_of_def map_of_bt_from_list rev_map)

text \<open>Both ends of an edge carry the same schema whenever both declare one.\<close>

definition edge_schemas_agree :: "(node_id \<Rightarrow> node_contract option) \<Rightarrow> edge_definition \<Rightarrow> bool" where
  "edge_schemas_agree lookup e \<longleftrightarrow>
     (case (lookup (edge_source_node e), lookup (edge_target_node e)) of
        (Some sc, Some tc) \<Rightarrow>
          (case (schema_of sc (endpoint_port_id (edge_source e)), schema_of tc (endpoint_port_id (edge_target e))) of
             (Some s, Some t) \<Rightarrow> s = t | _ \<Rightarrow> True)
      | _ \<Rightarrow> False)"

lemma enumerate_ball: "(\<forall>(i, x)\<in>set (enumerate k xs). P x) \<longleftrightarrow> (\<forall>x\<in>set xs. P x)"
  by (induction xs arbitrary: k) auto

lemma check_edge_schema_Ok_iff: "check_edge_schema m i e = Ok () \<longleftrightarrow> edge_schemas_agree (map_of m) e"
  by (cases "map_of m (edge_source_node e)"; cases "map_of m (edge_target_node e)")
    (auto simp: check_edge_schema_def edge_schemas_agree_def split: option.split)

lemma validate_edge_schema_Ok_iff:
  "validate_edge_schema_compatibility w m = Ok () \<longleftrightarrow>
     (\<forall>e\<in>set (workflow_edges w). edge_schemas_agree (map_of m) e)"
  unfolding validate_edge_schema_compatibility_def try_each_Ok_iff case_prod_unfold check_edge_schema_Ok_iff
  using enumerate_ball [of 0 "workflow_edges w" "edge_schemas_agree (map_of m)"]
  by (simp only: case_prod_unfold)

section \<open>Properties\<close>

text \<open>The contract and the capability descriptor that count for a node: the last ones supplied.\<close>

abbreviation contract_for :: "node_contract list \<Rightarrow> node_id \<Rightarrow> node_contract option" where
  "contract_for cs i \<equiv> map_of (map (\<lambda>c. (contract_id c, c)) (rev cs)) i"

abbreviation capabilities_for :: "node_capabilities list \<Rightarrow> node_id \<Rightarrow> node_capabilities option" where
  "capabilities_for ks i \<equiv> map_of (map (\<lambda>k. (cap_node_id k, k)) (rev ks)) i"

definition node_contract_ok :: "node_contract list \<Rightarrow> node_capabilities list \<Rightarrow> node_definition \<Rightarrow> bool" where
  "node_contract_ok cs ks n \<longleftrightarrow>
     (\<exists>c k. contract_for cs (node_def_id n) = Some c \<and> capabilities_for ks (node_def_id n) = Some k \<and>
        node_port_set n = contract_port_set c \<and>
        (contract_execution_mode c = Native \<or> cap_effects k = []))"

definition capability_claims_ok :: "workflow_definition \<Rightarrow> node_capabilities \<Rightarrow> bool" where
  "capability_claims_ok w k \<longleftrightarrow>
     (\<exists>n\<in>set (workflow_nodes w). node_def_id n = cap_node_id k \<and>
        list_all (\<lambda>p. workflow_direction_for n (cap_port_id p) = Some (cap_direction p)) (cap_ports k))"

lemma contract_for_mem: "contract_for cs i = Some c \<Longrightarrow> c \<in> set cs"
  by (auto dest!: map_of_SomeD)

lemma validate_workflow_contracts_accepts:
  assumes "distinct (map node_def_id (workflow_nodes w))"
    and "list_all (\<lambda>n. distinct (input_ports n @ output_ports n)) (workflow_nodes w)"
    and "list_all (\<lambda>c. distinct (map contract_port_id (contract_ports c))) contracts"
  shows "validate_workflow_contracts w contracts caps = Ok () \<longleftrightarrow>
    list_all (capability_claims_ok w) caps \<and>
    list_all (node_contract_ok contracts caps) (workflow_nodes w) \<and>
    list_all (\<lambda>c. contract_id c \<in> node_set (workflow_nodes w)) contracts \<and>
    list_all (edge_schemas_agree (contract_for contracts)) (workflow_edges w)"
proof -
  have caps: "validate_workflow_capabilities w caps = Ok () \<longleftrightarrow> list_all (capability_claims_ok w) caps"
    unfolding validate_workflow_capabilities_Ok_iff [OF assms(1)]
    by (simp add: list_all_iff capability_claims_ok_def)
  have nodes: "check_node (contract_map_of contracts) (capability_map_of caps) n = Ok () \<longleftrightarrow>
      node_contract_ok contracts caps n" if n: "n \<in> set (workflow_nodes w)" for n
  proof -
    have "validate_node_contract n c = Ok () \<longleftrightarrow> node_port_set n = contract_port_set c"
      if "contract_for contracts (node_def_id n) = Some c" for c
      using that n assms(2,3) contract_for_mem
      by (intro validate_node_contract_Ok_iff) (auto simp: list_all_iff)
    then show ?thesis
      by (auto simp: check_node_def node_contract_ok_def contract_map_lookup capability_map_lookup validate_enforceable_Ok_iff)
  qed
  have lookup: "map_of (contract_map_of contracts) = contract_for contracts"
    by (simp add: fun_eq_iff contract_map_lookup)
  have known: "(if list_all (\<lambda>n. node_def_id n \<noteq> contract_id c) (workflow_nodes w)
      then Err (UnknownWorkflowNode (contract_id c)) else Ok ()) = Ok () \<longleftrightarrow>
      contract_id c \<in> node_set (workflow_nodes w)" for c
    by (auto simp: list_all_iff image_iff; metis)
  show ?thesis
    unfolding validate_workflow_contracts_def and_then_unit_Ok map_err_eq_Ok caps try_each_Ok_iff known
      validate_edge_schema_Ok_iff lookup
    using nodes by (auto simp: list_all_iff)
qed

text \<open>
  C10: \<open>validate_workflow_contracts\<close> accepts exactly when every capability descriptor names a workflow
  node and claims ports in their declared direction, every node has a contract and a capability
  descriptor, its contract names exactly its ports with their directions, a node that runs behind a
  strict boundary asks for no effect, every contract names a workflow node, and no edge joins ports
  with different schemas.  Where a node has several contracts or descriptors the last one counts.
\<close>

theorem validate_workflow_contracts_accepts_iff:
  assumes "distinct (map node_def_id (workflow_nodes w))"
    and "list_all (\<lambda>n. distinct (input_ports n @ output_ports n)) (workflow_nodes w)"
    and "list_all (\<lambda>c. distinct (map contract_port_id (contract_ports c))) contracts"
  shows "validate_workflow_contracts w contracts caps = Ok () \<longleftrightarrow>
    list_all (capability_claims_ok w) caps \<and>
    list_all (node_contract_ok contracts caps) (workflow_nodes w) \<and>
    list_all (\<lambda>c. contract_id c \<in> node_set (workflow_nodes w)) contracts \<and>
    list_all (edge_schemas_agree (contract_for contracts)) (workflow_edges w)"
  using assms by (rule validate_workflow_contracts_accepts)

theorem validate_workflow_contracts_accepts_iff_witness:
  "\<exists>w c k. validate_workflow_contracts w [c] [k] = Ok () \<and> workflow_nodes w \<noteq> [] \<and>
     list_all (node_contract_ok [c] [k]) (workflow_nodes w)"
proof -
  let ?n = "\<lparr>node_def_id = NodeId ''a'', input_ports = [PortId ''i''], output_ports = []\<rparr>"
  let ?w = "\<lparr>workflow_def_id = WorkflowId ''w'', workflow_graph = \<lparr>graph_nodes = [?n], graph_edges = []\<rparr>\<rparr>"
  let ?c = "\<lparr>contract_id = NodeId ''a'', contract_ports =
      [\<lparr>contract_port_id = PortId ''i'', contract_direction = Input, contract_schema = None\<rparr>],
      contract_execution_mode = Wasm, contract_determinism = Deterministic, contract_retry = RetryNever\<rparr>"
  let ?k = "\<lparr>cap_node_id = NodeId ''a'', cap_ports = [\<lparr>cap_port_id = PortId ''i'', cap_direction = Receive\<rparr>],
      cap_effects = []\<rparr>"
  have ok: "list_all (node_contract_ok [?c] [?k]) (workflow_nodes ?w)"
    by (auto simp: node_contract_ok_def node_port_set_def contract_port_set_def)
  have "validate_workflow_contracts ?w [?c] [?k] = Ok () \<longleftrightarrow>
      list_all (capability_claims_ok ?w) [?k] \<and> list_all (node_contract_ok [?c] [?k]) (workflow_nodes ?w) \<and>
      list_all (\<lambda>c. contract_id c \<in> node_set (workflow_nodes ?w)) [?c] \<and>
      list_all (edge_schemas_agree (contract_for [?c])) (workflow_edges ?w)"
    by (rule validate_workflow_contracts_accepts_iff) simp_all
  then have "validate_workflow_contracts ?w [?c] [?k] = Ok ()"
    using ok by (simp add: capability_claims_ok_def workflow_direction_for_def)
  with ok show ?thesis by (intro exI [of _ ?w] exI [of _ ?c] exI [of _ ?k]) simp
qed

end
