(* ===== verification/Rules.thy ===== *)
theory Rules
  imports Values
begin

text \<open>
  The crate \<open>pureflow-rules\<close>: conditions (\<open>condition.rs\<close>), actions (\<open>action.rs\<close>), rules and rule sets
  (\<open>rule.rs\<close>) and the evaluator (\<open>eval.rs\<close>).  The evaluator is a pure function of a rule set, a
  payload and an evaluation context; its three strategies are translated loop by loop.
\<close>

section \<open>Conditions\<close>

datatype rule_error =
  AllMatchesTerminalAction string rule_action
| EmptyRuleId
| EmptyRuleSetId
| EmptyFieldPath
and rule_action =
  Route port_id
| Drop
| DeadLetter string
| Tag string scalar_value
| Halt string

fun is_terminal :: "rule_action \<Rightarrow> bool" where
  "is_terminal (Tag k v) \<longleftrightarrow> False"
| "is_terminal (Route p) \<longleftrightarrow> True"
| "is_terminal Drop \<longleftrightarrow> True"
| "is_terminal (DeadLetter r) \<longleftrightarrow> True"
| "is_terminal (Halt m) \<longleftrightarrow> True"

text \<open>\<open>value.trim().is_empty()\<close>.\<close>

definition blank :: "string \<Rightarrow> bool" where
  "blank s \<longleftrightarrow> trim_chars (chars s) = []"

datatype field_path = FieldPath string

definition new_field_path :: "string \<Rightarrow> (field_path, rule_error) result" where
  "new_field_path value = (if blank value then Err EmptyFieldPath else Ok (FieldPath value))"

fun resolve_segments :: "string list \<Rightarrow> 'n json \<Rightarrow> 'n json option" where
  "resolve_segments [] current = Some current"
| "resolve_segments (segment # segments) current =
     Option.bind (json_get current segment) (resolve_segments segments)"

fun resolve_path :: "field_path \<Rightarrow> 'n json \<Rightarrow> 'n json option" where
  "resolve_path (FieldPath p) value = resolve_segments (split_on (CHR ''.'') p) value"

datatype glob_pattern = GlobPattern string

text \<open>The characters \<open>'*'\<close> (42) and \<open>'?'\<close> (63) are the wildcards.\<close>

fun glob_match_inner :: "nat list \<Rightarrow> nat list \<Rightarrow> bool" where
  "glob_match_inner [] [] \<longleftrightarrow> True"
| "glob_match_inner [] (v # vs) \<longleftrightarrow> False"
| "glob_match_inner (p # ps) [] \<longleftrightarrow> (if p = 42 then glob_match_inner ps [] else False)"
| "glob_match_inner (p # ps) (v # vs) \<longleftrightarrow>
     (if p = 42 then
        (if glob_match_inner ps (v # vs) then True else glob_match_inner (p # ps) vs)
      else if p = 63 then glob_match_inner ps vs
      else if p = v then glob_match_inner ps vs
      else False)"

fun glob_matches :: "glob_pattern \<Rightarrow> string \<Rightarrow> bool" where
  "glob_matches (GlobPattern p) value \<longleftrightarrow> glob_match_inner (chars p) (chars value)"

datatype condition_surface =
  PayloadSurface | TagSurface | ProvenanceSurface | ExecutionContextSurface | CombinatorSurface
| ConstantSurface

record eval_context =
  ctx_tags :: "(string, scalar_value) btree_map"
  ctx_source_node :: "node_id option"
  ctx_arrival_port :: "port_id option"
  ctx_hop_count :: nat
  ctx_workflow_id :: workflow_id
  ctx_execution_metadata :: "(string, scalar_value) btree_map"

datatype condition =
  FieldEq field_path scalar_value
| FieldNeq field_path scalar_value
| FieldGt field_path scalar_value
| FieldLt field_path scalar_value
| FieldGte field_path scalar_value
| FieldLte field_path scalar_value
| FieldIn field_path "scalar_value list"
| FieldExists field_path
| FieldAbsent field_path
| FieldMatches field_path glob_pattern
| TagEq string scalar_value
| TagExists string
| TagAbsent string
| SourceNode node_id
| ArrivedOnPort port_id
| HopCountGt nat
| HopCountLte nat
| WorkflowIs workflow_id
| ExecutionMetadataEq string scalar_value
| And "condition list"
| Or "condition list"
| Not condition
| Always
| Never

fun surface :: "condition \<Rightarrow> condition_surface" where
  "surface (FieldEq _ _) = PayloadSurface"
| "surface (FieldNeq _ _) = PayloadSurface"
| "surface (FieldGt _ _) = PayloadSurface"
| "surface (FieldLt _ _) = PayloadSurface"
| "surface (FieldGte _ _) = PayloadSurface"
| "surface (FieldLte _ _) = PayloadSurface"
| "surface (FieldIn _ _) = PayloadSurface"
| "surface (FieldExists _) = PayloadSurface"
| "surface (FieldAbsent _) = PayloadSurface"
| "surface (FieldMatches _ _) = PayloadSurface"
| "surface (TagEq _ _) = TagSurface"
| "surface (TagExists _) = TagSurface"
| "surface (TagAbsent _) = TagSurface"
| "surface (SourceNode _) = ProvenanceSurface"
| "surface (ArrivedOnPort _) = ProvenanceSurface"
| "surface (HopCountGt _) = ProvenanceSurface"
| "surface (HopCountLte _) = ProvenanceSurface"
| "surface (WorkflowIs _) = ExecutionContextSurface"
| "surface (ExecutionMetadataEq _ _) = ExecutionContextSurface"
| "surface (And _) = CombinatorSurface"
| "surface (Or _) = CombinatorSurface"
| "surface (Not _) = CombinatorSurface"
| "surface Always = ConstantSurface"
| "surface Never = ConstantSurface"

section \<open>Rules and rule sets\<close>

datatype evaluation_strategy = FirstMatch | AllMatches | Score

record rule =
  rule_id :: string
  rule_condition :: condition
  rule_action :: rule_action
  rule_priority :: nat
  rule_description :: string

definition new_rule ::
  "string \<Rightarrow> condition \<Rightarrow> rule_action \<Rightarrow> nat \<Rightarrow> string \<Rightarrow> (rule, rule_error) result" where
  "new_rule i c a p d =
     (if blank i then Err EmptyRuleId
      else Ok \<lparr>rule_id = i, rule_condition = c, rule_action = a, rule_priority = p, rule_description = d\<rparr>)"

record rule_set =
  rule_set_id :: string
  strategy :: evaluation_strategy
  rules :: "rule list"
  default_action :: rule_action
  trace_conditions :: bool

text \<open>\<open>sort_by_key\<close> is a stable sort, as \<^const>\<open>sort_key\<close> is.\<close>

definition new_rule_set ::
  "string \<Rightarrow> evaluation_strategy \<Rightarrow> rule list \<Rightarrow> rule_action \<Rightarrow> bool \<Rightarrow> (rule_set, rule_error) result"
  where
  "new_rule_set i strat rs dflt trace =
     (if blank i then Err EmptyRuleSetId
      else and_then
        (if strat = AllMatches
         then try_each (\<lambda>r. if is_terminal (rule_action r)
                            then Err (AllMatchesTerminalAction (rule_id r) (rule_action r))
                            else Ok ()) rs
         else Ok ())
        (\<lambda>_. Ok \<lparr>rule_set_id = i, strategy = strat, rules = sort_key rule_priority rs,
                 default_action = dflt, trace_conditions = trace\<rparr>))"

record condition_trace =
  trace_rule_id :: string
  trace_description :: string
  trace_matched :: bool
  trace_surface :: condition_surface

record rule_decision =
  decision_action :: rule_action
  matched_rule :: "string option"
  tags_applied :: "(string \<times> scalar_value) list"
  conditions_evaluated :: "condition_trace list"

section \<open>Evaluation of conditions\<close>

fun resolve_payload :: "'n packet_payload \<Rightarrow> field_path \<Rightarrow> 'n json option" where
  "resolve_payload (ControlPayload v) path = resolve_path path v"
| "resolve_payload (Bytes b) path = None"

fun json_value_eq_scalar :: "'n number_ops \<Rightarrow> 'n json \<Rightarrow> scalar_value \<Rightarrow> bool" where
  "json_value_eq_scalar ops (JString s) (SString r) \<longleftrightarrow> s = r"
| "json_value_eq_scalar ops (JNumber n) (SInteger i) \<longleftrightarrow> num_as_i64 ops n = Some i"
| "json_value_eq_scalar ops (JNumber n) (SFloat f) \<longleftrightarrow>
     (case num_as_f64 ops n of Some v \<Rightarrow> f64_eq v f | None \<Rightarrow> False)"
| "json_value_eq_scalar ops (JBool b) (SBoolean r) \<longleftrightarrow> b = r"
| "json_value_eq_scalar ops JNull SNull \<longleftrightarrow> True"
| "json_value_eq_scalar ops _ _ \<longleftrightarrow> False"

fun scalar_as_f64 :: "scalar_value \<Rightarrow> f64 option" where
  "scalar_as_f64 (SInteger i) = Some (i64_to_f64 i)"
| "scalar_as_f64 (SFloat f) = Some f"
| "scalar_as_f64 _ = None"

definition json_value_cmp_scalar :: "'n number_ops \<Rightarrow> 'n json \<Rightarrow> scalar_value \<Rightarrow> ordering option" where
  "json_value_cmp_scalar ops json scalar =
     Option.bind (json_as_f64 ops json) (\<lambda>json_f.
     Option.bind (scalar_as_f64 scalar) (\<lambda>scalar_f. partial_cmp json_f scalar_f))"

fun scalar_eq :: "scalar_value \<Rightarrow> scalar_value \<Rightarrow> bool" where
  "scalar_eq (SString a) (SString b) \<longleftrightarrow> a = b"
| "scalar_eq (SInteger a) (SInteger b) \<longleftrightarrow> a = b"
| "scalar_eq (SFloat a) (SFloat b) \<longleftrightarrow> f64_eq a b"
| "scalar_eq (SBoolean a) (SBoolean b) \<longleftrightarrow> a = b"
| "scalar_eq SNull SNull \<longleftrightarrow> True"
| "scalar_eq _ _ \<longleftrightarrow> False"

text \<open>\<open>Option::is_some_and\<close> and \<open>Option::is_none_or\<close>.\<close>

definition is_some_and :: "'a option \<Rightarrow> ('a \<Rightarrow> bool) \<Rightarrow> bool" where
  "is_some_and x p \<longleftrightarrow> (case x of Some a \<Rightarrow> p a | None \<Rightarrow> False)"

definition is_none_or :: "'a option \<Rightarrow> ('a \<Rightarrow> bool) \<Rightarrow> bool" where
  "is_none_or x p \<longleftrightarrow> (case x of Some a \<Rightarrow> p a | None \<Rightarrow> True)"

lemma is_some_and_simps [simp]: "is_some_and (Some a) p = p a" "is_some_and None p = False"
  by (simp_all add: is_some_and_def)

lemma is_none_or_simps [simp]: "is_none_or (Some a) p = p a" "is_none_or None p = True"
  by (simp_all add: is_none_or_def)

fun eval_condition :: "'n number_ops \<Rightarrow> condition \<Rightarrow> 'n packet_payload \<Rightarrow> eval_context \<Rightarrow> bool" where
  "eval_condition ops (FieldEq path v) payload ctx =
     is_some_and (resolve_payload payload path) (\<lambda>j. json_value_eq_scalar ops j v)"
| "eval_condition ops (FieldNeq path v) payload ctx =
     is_some_and (resolve_payload payload path) (\<lambda>j. \<not> json_value_eq_scalar ops j v)"
| "eval_condition ops (FieldGt path v) payload ctx =
     is_some_and (Option.bind (resolve_payload payload path) (\<lambda>j. json_value_cmp_scalar ops j v))
       (\<lambda>ord. ord = Greater)"
| "eval_condition ops (FieldLt path v) payload ctx =
     is_some_and (Option.bind (resolve_payload payload path) (\<lambda>j. json_value_cmp_scalar ops j v))
       (\<lambda>ord. ord = Less)"
| "eval_condition ops (FieldGte path v) payload ctx =
     is_some_and (Option.bind (resolve_payload payload path) (\<lambda>j. json_value_cmp_scalar ops j v))
       (\<lambda>ord. ord \<noteq> Less)"
| "eval_condition ops (FieldLte path v) payload ctx =
     is_some_and (Option.bind (resolve_payload payload path) (\<lambda>j. json_value_cmp_scalar ops j v))
       (\<lambda>ord. ord \<noteq> Greater)"
| "eval_condition ops (FieldIn path vs) payload ctx =
     is_some_and (resolve_payload payload path) (\<lambda>j. list_ex (json_value_eq_scalar ops j) vs)"
| "eval_condition ops (FieldExists path) payload ctx = (resolve_payload payload path \<noteq> None)"
| "eval_condition ops (FieldAbsent path) payload ctx =
     (is_none_or (resolve_payload payload path) (\<lambda>j. j = JNull))"
| "eval_condition ops (FieldMatches path pattern) payload ctx =
     is_some_and (Option.bind (resolve_payload payload path) json_as_str) (glob_matches pattern)"
| "eval_condition ops (TagEq k v) payload ctx =
     is_some_and (map_of (ctx_tags ctx) k) (\<lambda>t. scalar_eq t v)"
| "eval_condition ops (TagExists k) payload ctx = (map_of (ctx_tags ctx) k \<noteq> None)"
| "eval_condition ops (TagAbsent k) payload ctx = (\<not> map_of (ctx_tags ctx) k \<noteq> None)"
| "eval_condition ops (SourceNode n) payload ctx = is_some_and (ctx_source_node ctx) (\<lambda>m. m = n)"
| "eval_condition ops (ArrivedOnPort p) payload ctx = is_some_and (ctx_arrival_port ctx) (\<lambda>q. q = p)"
| "eval_condition ops (HopCountGt n) payload ctx = (n < ctx_hop_count ctx)"
| "eval_condition ops (HopCountLte n) payload ctx = (ctx_hop_count ctx \<le> n)"
| "eval_condition ops (WorkflowIs w) payload ctx = (ctx_workflow_id ctx = w)"
| "eval_condition ops (ExecutionMetadataEq k v) payload ctx =
     is_some_and (map_of (ctx_execution_metadata ctx) k) (\<lambda>t. scalar_eq t v)"
| "eval_condition ops (And cs) payload ctx = list_all (\<lambda>c. eval_condition ops c payload ctx) cs"
| "eval_condition ops (Or cs) payload ctx = list_ex (\<lambda>c. eval_condition ops c payload ctx) cs"
| "eval_condition ops (Not c) payload ctx = (\<not> eval_condition ops c payload ctx)"
| "eval_condition ops Always payload ctx = True"
| "eval_condition ops Never payload ctx = False"

text \<open>The description of a condition in trace records.\<close>

fun show_path :: "field_path \<Rightarrow> string" where
  "show_path (FieldPath p) = p"

fun show_glob :: "glob_pattern \<Rightarrow> string" where
  "show_glob (GlobPattern p) = p"

fun condition_description :: "(f64 \<Rightarrow> string) \<Rightarrow> condition \<Rightarrow> string" where
  "condition_description fmt (FieldEq p v) = show_path p @ '' == '' @ show_scalar fmt v"
| "condition_description fmt (FieldNeq p v) = show_path p @ '' != '' @ show_scalar fmt v"
| "condition_description fmt (FieldGt p v) = show_path p @ '' > '' @ show_scalar fmt v"
| "condition_description fmt (FieldLt p v) = show_path p @ '' < '' @ show_scalar fmt v"
| "condition_description fmt (FieldGte p v) = show_path p @ '' >= '' @ show_scalar fmt v"
| "condition_description fmt (FieldLte p v) = show_path p @ '' <= '' @ show_scalar fmt v"
| "condition_description fmt (FieldIn p vs) =
     show_path p @ '' in ['' @ join '', '' (map (show_scalar fmt) vs) @ '']''"
| "condition_description fmt (FieldExists p) = show_path p @ '' exists''"
| "condition_description fmt (FieldAbsent p) = show_path p @ '' absent''"
| "condition_description fmt (FieldMatches p g) = show_path p @ '' matches '' @ show_glob g"
| "condition_description fmt (TagEq k v) = ''tag:'' @ k @ '' == '' @ show_scalar fmt v"
| "condition_description fmt (TagExists k) = ''tag:'' @ k @ '' exists''"
| "condition_description fmt (TagAbsent k) = ''tag:'' @ k @ '' absent''"
| "condition_description fmt (SourceNode n) = ''source_node == '' @ node_id_str n"
| "condition_description fmt (ArrivedOnPort p) = ''arrived_on == '' @ port_id_str p"
| "condition_description fmt (HopCountGt n) = ''hop_count > '' @ show_nat n"
| "condition_description fmt (HopCountLte n) = ''hop_count <= '' @ show_nat n"
| "condition_description fmt (WorkflowIs w) = ''workflow == '' @ workflow_id_str w"
| "condition_description fmt (ExecutionMetadataEq k v) =
     ''exec_meta:'' @ k @ '' == '' @ show_scalar fmt v"
| "condition_description fmt (And cs) = ''('' @ join '' AND '' (map (condition_description fmt) cs) @ '')''"
| "condition_description fmt (Or cs) = ''('' @ join '' OR '' (map (condition_description fmt) cs) @ '')''"
| "condition_description fmt (Not c) = ''NOT ('' @ condition_description fmt c @ '')''"
| "condition_description fmt Always = ''always''"
| "condition_description fmt Never = ''never''"

definition trace_condition :: "(f64 \<Rightarrow> string) \<Rightarrow> rule \<Rightarrow> condition \<Rightarrow> bool \<Rightarrow> condition_trace" where
  "trace_condition fmt r c matched =
     \<lparr>trace_rule_id = rule_id r, trace_description = condition_description fmt c,
      trace_matched = matched, trace_surface = surface c\<rparr>"

section \<open>Evaluation of rule sets\<close>

definition apply_terminal_or_tag :: "rule \<Rightarrow> (string \<times> scalar_value) list \<Rightarrow> (string \<times> scalar_value) list"
  where
  "apply_terminal_or_tag r tags = (case rule_action r of Tag k v \<Rightarrow> tags @ [(k, v)] | _ \<Rightarrow> tags)"

text \<open>
  The loops of the strategies over the remaining rules; \<open>matches\<close> is the verdict of
  \<open>eval_condition\<close> on the packet at hand and \<open>tr\<close> the trace entry of a rule.
\<close>

fun first_match_loop ::
  "(rule \<Rightarrow> bool) \<Rightarrow> (rule \<Rightarrow> bool \<Rightarrow> condition_trace) \<Rightarrow> bool \<Rightarrow> rule_action \<Rightarrow> rule list
   \<Rightarrow> (string \<times> scalar_value) list \<Rightarrow> condition_trace list \<Rightarrow> rule_decision" where
  "first_match_loop matches tr trace dflt [] tags traces =
     \<lparr>decision_action = dflt, matched_rule = None, tags_applied = tags, conditions_evaluated = traces\<rparr>"
| "first_match_loop matches tr trace dflt (r # rs) tags traces =
     (let matched = matches r;
          traces1 = (if trace then traces @ [tr r matched] else traces)
      in if matched then
           (let tags1 = apply_terminal_or_tag r tags
            in if is_terminal (rule_action r)
               then \<lparr>decision_action = rule_action r, matched_rule = Some (rule_id r),
                     tags_applied = tags1, conditions_evaluated = traces1\<rparr>
               else first_match_loop matches tr trace dflt rs tags1 traces1)
         else first_match_loop matches tr trace dflt rs tags traces1)"

fun all_matches_loop ::
  "(rule \<Rightarrow> bool) \<Rightarrow> (rule \<Rightarrow> bool \<Rightarrow> condition_trace) \<Rightarrow> bool \<Rightarrow> rule_action \<Rightarrow> rule list
   \<Rightarrow> (string \<times> scalar_value) list \<Rightarrow> condition_trace list \<Rightarrow> rule_decision" where
  "all_matches_loop matches tr trace dflt [] tags traces =
     \<lparr>decision_action = dflt, matched_rule = None, tags_applied = tags, conditions_evaluated = traces\<rparr>"
| "all_matches_loop matches tr trace dflt (r # rs) tags traces =
     (let matched = matches r;
          traces1 = (if trace then traces @ [tr r matched] else traces);
          tags1 = (if matched then (case rule_action r of Tag k v \<Rightarrow> tags @ [(k, v)] | _ \<Rightarrow> tags) else tags)
      in all_matches_loop matches tr trace dflt rs tags1 traces1)"

fun score_loop ::
  "(rule \<Rightarrow> bool) \<Rightarrow> (rule \<Rightarrow> bool \<Rightarrow> condition_trace) \<Rightarrow> bool \<Rightarrow> rule_action \<Rightarrow> rule list
   \<Rightarrow> rule option \<Rightarrow> (string \<times> scalar_value) list \<Rightarrow> condition_trace list \<Rightarrow> rule_decision" where
  "score_loop matches tr trace dflt [] best tags traces =
     (case best of
        Some r \<Rightarrow> \<lparr>decision_action = rule_action r, matched_rule = Some (rule_id r),
                   tags_applied = tags, conditions_evaluated = traces\<rparr>
      | None \<Rightarrow> \<lparr>decision_action = dflt, matched_rule = None,
                 tags_applied = tags, conditions_evaluated = traces\<rparr>)"
| "score_loop matches tr trace dflt (r # rs) best tags traces =
     (let matched = matches r;
          traces1 = (if trace then traces @ [tr r matched] else traces)
      in if matched then
           (let tags1 = (case rule_action r of Tag k v \<Rightarrow> tags @ [(k, v)] | _ \<Rightarrow> tags);
                best1 = (if best = None \<and> is_terminal (rule_action r) then Some r else best)
            in score_loop matches tr trace dflt rs best1 tags1 traces1)
         else score_loop matches tr trace dflt rs best tags traces1)"

definition evaluate ::
  "'n number_ops \<Rightarrow> (f64 \<Rightarrow> string) \<Rightarrow> rule_set \<Rightarrow> 'n packet_payload \<Rightarrow> eval_context
   \<Rightarrow> (rule_decision, rule_error) result" where
  "evaluate ops fmt rs payload ctx =
     (let matches = (\<lambda>r. eval_condition ops (rule_condition r) payload ctx);
          tr = (\<lambda>r matched. trace_condition fmt r (rule_condition r) matched)
      in case strategy rs of
           FirstMatch \<Rightarrow>
             Ok (first_match_loop matches tr (trace_conditions rs) (default_action rs) (rules rs) [] [])
         | AllMatches \<Rightarrow>
             Ok (all_matches_loop matches tr (trace_conditions rs) (default_action rs) (rules rs) [] [])
         | Score \<Rightarrow>
             Ok (score_loop matches tr (trace_conditions rs) (default_action rs) (rules rs) None [] []))"

end
