(* ===== verification/RuleProps.thy ===== *)
theory RuleProps
  imports Rules "HOL-Library.Multiset"
begin

text \<open>
  The properties of the rule engine: rule set construction, the three evaluation strategies against
  declarative specifications, glob matching, and the comparison conditions.
\<close>

section \<open>Concrete rules\<close>

definition int_ops :: "int number_ops" where
  "int_ops = \<lparr>num_as_i64 = Some, num_as_f64 = (\<lambda>i. Some (i64_to_f64 i))\<rparr>"

definition sample_rule :: "string \<Rightarrow> condition \<Rightarrow> rule_action \<Rightarrow> nat \<Rightarrow> rule" where
  "sample_rule i c a p = \<lparr>rule_id = i, rule_condition = c, rule_action = a, rule_priority = p,
     rule_description = ''''\<rparr>"

definition sample_context :: eval_context where
  "sample_context = \<lparr>ctx_tags = [], ctx_source_node = None, ctx_arrival_port = None,
     ctx_hop_count = 0, ctx_workflow_id = WorkflowId ''w'', ctx_execution_metadata = []\<rparr>"

definition sample_payload :: "int packet_payload" where
  "sample_payload = ControlPayload (JObject [(''n'', JNumber 7)])"

lemma ascii_graphic_not_blank: "ascii_graphic s \<Longrightarrow> \<not> blank s"
  using valid_identifier_ascii [of s]
  by (cases "chars s") (auto simp: blank_def trim_chars_eq_Nil_iff valid_identifier_def)

lemma sample_not_blank: "\<not> blank ''rs''"
  by (rule ascii_graphic_not_blank) (simp add: ascii_graphic_def byte_def)

section \<open>Globs\<close>

text \<open>What a single pattern character may consume.\<close>

definition glob_piece :: "nat \<Rightarrow> nat list \<Rightarrow> bool" where
  "glob_piece p part \<longleftrightarrow> (if p = 42 then True else if p = 63 then length part = 1 else part = [p])"

definition glob_spec :: "nat list \<Rightarrow> nat list \<Rightarrow> bool" where
  "glob_spec ps vs \<longleftrightarrow> (\<exists>parts. concat parts = vs \<and> list_all2 glob_piece ps parts)"

lemma glob_spec_Nil [simp]: "glob_spec [] vs \<longleftrightarrow> vs = []"
  by (auto simp: glob_spec_def)

lemma glob_spec_Cons:
  "glob_spec (p # ps) vs \<longleftrightarrow> (\<exists>part rest. vs = part @ rest \<and> glob_piece p part \<and> glob_spec ps rest)"
  unfolding glob_spec_def
proof (intro iffI; elim exE conjE)
  fix parts
  assume "concat parts = vs" "list_all2 glob_piece (p # ps) parts"
  then obtain part parts' where "parts = part # parts'" "glob_piece p part" "list_all2 glob_piece ps parts'"
    "vs = part @ concat parts'" by (auto simp: list_all2_Cons1)
  then show "\<exists>part rest. vs = part @ rest \<and> glob_piece p part \<and>
      (\<exists>parts. concat parts = rest \<and> list_all2 glob_piece ps parts)" by blast
next
  fix part rest parts
  assume "vs = part @ rest" "glob_piece p part" "concat parts = rest" "list_all2 glob_piece ps parts"
  then show "\<exists>parts. concat parts = vs \<and> list_all2 glob_piece (p # ps) parts"
    by (intro exI [of _ "part # parts"]) simp
qed

lemma glob_spec_star:
  "glob_spec (42 # ps) vs \<longleftrightarrow> glob_spec ps vs \<or> (\<exists>v vs'. vs = v # vs' \<and> glob_spec (42 # ps) vs')"
proof
  assume "glob_spec (42 # ps) vs"
  then obtain part rest where *: "vs = part @ rest" "glob_spec ps rest"
    by (auto simp: glob_spec_Cons)
  show "glob_spec ps vs \<or> (\<exists>v vs'. vs = v # vs' \<and> glob_spec (42 # ps) vs')"
  proof (cases part)
    case Nil
    then show ?thesis using * by simp
  next
    case (Cons v part')
    then have "glob_spec (42 # ps) (part' @ rest)"
      using *(2) by (auto simp: glob_spec_Cons glob_piece_def)
    then show ?thesis using * Cons by auto
  qed
next
  assume "glob_spec ps vs \<or> (\<exists>v vs'. vs = v # vs' \<and> glob_spec (42 # ps) vs')"
  then show "glob_spec (42 # ps) vs"
  proof (elim disjE exE conjE)
    assume "glob_spec ps vs"
    then show ?thesis unfolding glob_spec_Cons by (intro exI [of _ "[]"] exI [of _ vs]) (simp add: glob_piece_def)
  next
    fix v vs'
    assume "vs = v # vs'" "glob_spec (42 # ps) vs'"
    then obtain part rest where "vs = (v # part) @ rest" "glob_spec ps rest"
      unfolding glob_spec_Cons by auto
    then show ?thesis unfolding glob_spec_Cons
      by (intro exI [of _ "v # part"] exI [of _ rest]) (simp add: glob_piece_def)
  qed
qed

lemma glob_spec_char:
  assumes "p \<noteq> 42"
  shows "glob_spec (p # ps) (v # vs) \<longleftrightarrow> (p = 63 \<or> p = v) \<and> glob_spec ps vs"
proof
  assume "glob_spec (p # ps) (v # vs)"
  then obtain part rest where "v # vs = part @ rest" "glob_piece p part" "glob_spec ps rest"
    by (auto simp: glob_spec_Cons)
  then show "(p = 63 \<or> p = v) \<and> glob_spec ps vs"
    using assms by (auto simp: glob_piece_def length_Suc_conv split: if_splits)
next
  assume "(p = 63 \<or> p = v) \<and> glob_spec ps vs"
  then show "glob_spec (p # ps) (v # vs)"
    unfolding glob_spec_Cons using assms
    by (intro exI [of _ "[v]"] exI [of _ vs]) (auto simp: glob_piece_def)
qed

lemma glob_match_inner_spec: "glob_match_inner ps vs \<longleftrightarrow> glob_spec ps vs"
proof (induction ps vs rule: glob_match_inner.induct)
  case (3 p ps)
  then show ?case
    by (auto simp: glob_spec_star glob_spec_Cons glob_piece_def)
next
  case (4 p ps v vs)
  show ?case
  proof (cases "p = 42")
    case True
    then show ?thesis using 4 glob_spec_star [of ps "v # vs"] by auto
  next
    case False
    then show ?thesis using 4 by (auto simp: glob_spec_char)
  qed
qed auto

text \<open>
  C16: \<open>GlobPattern::matches\<close> holds exactly when the value can be cut into consecutive pieces, one per
  pattern character: any piece for a star, a single character for a question mark, the character
  itself otherwise.
\<close>

theorem glob_matches_spec:
  "glob_matches (GlobPattern p) v \<longleftrightarrow>
     (\<exists>parts. concat parts = chars v \<and> list_all2 glob_piece (chars p) parts)"
  by (simp add: glob_match_inner_spec glob_spec_def)

section \<open>Rule sets\<close>

text \<open>What \<open>RuleSet::new\<close> guarantees of the rules: priority order and, for \<open>AllMatches\<close>, only tags.\<close>

definition rule_set_ok :: "rule_set \<Rightarrow> bool" where
  "rule_set_ok s \<longleftrightarrow>
     sorted (map rule_priority (rules s)) \<and>
     (strategy s = AllMatches \<longrightarrow> list_all (\<lambda>r. \<not> is_terminal (rule_action r)) (rules s)) \<and>
     \<not> blank (rule_set_id s)"

lemma new_rule_set_Ok_iff:
  "new_rule_set i strat rs d t = Ok s \<longleftrightarrow>
     \<not> blank i \<and> (strat = AllMatches \<longrightarrow> (\<forall>r\<in>set rs. \<not> is_terminal (rule_action r))) \<and>
     s = \<lparr>rule_set_id = i, strategy = strat, rules = sort_key rule_priority rs,
          default_action = d, trace_conditions = t\<rparr>"
  by (auto simp: new_rule_set_def split: if_splits)

text \<open>
  a rule set that \<open>RuleSet::new\<close> returns is well formed (sorted by priority, only tags under
  \<open>AllMatches\<close>, non-blank id), its rules are a permutation of the given ones, and rules of equal
  priority keep their order.
\<close>

theorem new_rule_set_well_formed:
  assumes "new_rule_set i strat rs d t = Ok s"
  shows "rule_set_ok s \<and> mset (rules s) = mset rs \<and>
    filter (\<lambda>r. rule_priority r = p) (rules s) = filter (\<lambda>r. rule_priority r = p) rs"
  using assms by (auto simp: new_rule_set_Ok_iff rule_set_ok_def list_all_iff sort_key_stable)

theorem new_rule_set_well_formed_witness:
  "\<exists>s. new_rule_set ''rs'' Score [sample_rule ''b'' Always Drop 2, sample_rule ''a'' Always Drop 1] Drop False = Ok s
     \<and> rule_set_ok s \<and> mset (rules s) = mset [sample_rule ''b'' Always Drop 2, sample_rule ''a'' Always Drop 1]"
proof -
  let ?rs = "[sample_rule ''b'' Always Drop 2, sample_rule ''a'' Always Drop 1]"
  obtain s where s: "new_rule_set ''rs'' Score ?rs Drop False = Ok s"
    using sample_not_blank by (auto simp: new_rule_set_Ok_iff)
  from new_rule_set_well_formed [OF s] s show ?thesis by blast
qed

section \<open>Strategies\<close>

abbreviation verdict :: "'n number_ops \<Rightarrow> 'n packet_payload \<Rightarrow> eval_context \<Rightarrow> rule \<Rightarrow> bool" where
  "verdict ops payload ctx \<equiv> \<lambda>r. eval_condition ops (rule_condition r) payload ctx"

abbreviation hit :: "(rule \<Rightarrow> bool) \<Rightarrow> rule \<Rightarrow> bool" where
  "hit matches r \<equiv> matches r \<and> is_terminal (rule_action r)"

definition tags_of :: "(rule \<Rightarrow> bool) \<Rightarrow> rule list \<Rightarrow> (string \<times> scalar_value) list" where
  "tags_of matches rs =
     concat (map (\<lambda>r. if matches r then (case rule_action r of Tag k v \<Rightarrow> [(k, v)] | _ \<Rightarrow> []) else []) rs)"

definition traces_of ::
  "(rule \<Rightarrow> bool) \<Rightarrow> (rule \<Rightarrow> bool \<Rightarrow> condition_trace) \<Rightarrow> bool \<Rightarrow> rule list \<Rightarrow> condition_trace list" where
  "traces_of matches tr trace rs = (if trace then map (\<lambda>r. tr r (matches r)) rs else [])"

definition decision_of ::
  "rule option \<Rightarrow> rule_action \<Rightarrow> (string \<times> scalar_value) list \<Rightarrow> condition_trace list \<Rightarrow> rule_decision" where
  "decision_of best d tags traces =
     \<lparr>decision_action = (case best of Some r \<Rightarrow> rule_action r | None \<Rightarrow> d),
      matched_rule = map_option rule_id best, tags_applied = tags, conditions_evaluated = traces\<rparr>"

lemma tags_of_Cons:
  "tags_of m (r # rs) =
     (if m r then (case rule_action r of Tag k v \<Rightarrow> [(k, v)] | _ \<Rightarrow> []) else []) @ tags_of m rs"
  by (simp add: tags_of_def)

lemma tags_of_Nil [simp]: "tags_of m [] = []"
  by (simp add: tags_of_def)

text \<open>The rules a first-match evaluation looks at: up to and including the first terminal match.\<close>

definition seen_rules :: "(rule \<Rightarrow> bool) \<Rightarrow> rule list \<Rightarrow> rule list" where
  "seen_rules matches rs =
     takeWhile (\<lambda>r. \<not> hit matches r) rs @ (case List.find (hit matches) rs of Some r \<Rightarrow> [r] | None \<Rightarrow> [])"

lemma first_match_loop_eq:
  "first_match_loop m tr trace d rs tags traces =
     decision_of (List.find (hit m) rs) d (tags @ tags_of m (seen_rules m rs))
       (traces @ traces_of m tr trace (seen_rules m rs))"
proof (induction rs arbitrary: tags traces)
  case (Cons r rs)
  show ?case
  proof (cases "hit m r")
    case True
    then show ?thesis
      by (cases "rule_action r")
        (auto simp: decision_of_def seen_rules_def tags_of_def traces_of_def apply_terminal_or_tag_def Let_def)
  next
    case False
    then have "seen_rules m (r # rs) = r # seen_rules m rs" "List.find (hit m) (r # rs) = List.find (hit m) rs"
      by (auto simp: seen_rules_def)
    then show ?thesis using Cons False
      by (cases "rule_action r")
        (auto simp: Let_def tags_of_Cons traces_of_def apply_terminal_or_tag_def)
  qed
qed (simp add: decision_of_def seen_rules_def traces_of_def)

lemma all_matches_loop_eq:
  "all_matches_loop m tr trace d rs tags traces =
     decision_of None d (tags @ tags_of m rs) (traces @ traces_of m tr trace rs)"
proof (induction rs arbitrary: tags traces)
  case (Cons r rs)
  then show ?case
    by (cases "rule_action r") (simp_all add: Let_def tags_of_Cons traces_of_def)
qed (simp add: decision_of_def traces_of_def)

lemma score_loop_eq:
  "score_loop m tr trace d rs best tags traces =
     decision_of (if best = None then List.find (hit m) rs else best) d (tags @ tags_of m rs)
       (traces @ traces_of m tr trace rs)"
proof (induction rs arbitrary: best tags traces)
  case (Cons r rs)
  then show ?case
    by (cases "rule_action r") (auto simp: Let_def tags_of_Cons traces_of_def)
qed (auto simp: decision_of_def traces_of_def split: option.split)

text \<open>The first hit in priority order is the earliest declared hit of least priority.\<close>

lemma find_filter_conj: "List.find (\<lambda>x. P x \<and> Q x) xs = List.find P (filter Q xs)"
  by (induction xs) auto

lemma find_cong_on: "(\<And>x. x \<in> set xs \<Longrightarrow> P x = Q x) \<Longrightarrow> List.find P xs = List.find Q xs"
  by (induction xs) auto

definition best_rule :: "(rule \<Rightarrow> bool) \<Rightarrow> rule list \<Rightarrow> rule option" where
  "best_rule P rs = List.find (\<lambda>r. P r \<and> list_all (\<lambda>q. P q \<longrightarrow> rule_priority r \<le> rule_priority q) rs) rs"

lemma find_sorted_least:
  assumes "sorted (map f xs)" "List.find P xs = Some x"
  shows "P x \<and> x \<in> set xs \<and> (\<forall>q\<in>set xs. P q \<longrightarrow> f x \<le> (f q :: nat))"
proof -
  from assms(2) obtain ps ss where s: "xs = ps @ x # ss" "P x" "\<forall>p\<in>set ps. \<not> P p"
    by (auto simp: find_Some_split)
  then show ?thesis using assms(1) by (auto simp: sorted_append)
qed

lemma find_sort_key:
  "List.find P (sort_key rule_priority rs) = best_rule P rs"
proof (cases "List.find P (sort_key rule_priority rs)")
  case None
  then have "\<forall>r\<in>set rs. \<not> P r" by (auto simp: find_None_iff)
  then have "best_rule P rs = None" by (auto simp: best_rule_def find_None_iff)
  then show ?thesis using None by simp
next
  case (Some x)
  let ?s = "sort_key rule_priority rs" and ?m = "rule_priority x"
  from find_sorted_least [OF _ Some, of rule_priority]
  have x: "P x" "x \<in> set rs" "\<And>q. q \<in> set rs \<Longrightarrow> P q \<Longrightarrow> ?m \<le> rule_priority q" by auto
  have cond: "(P r \<and> list_all (\<lambda>q. P q \<longrightarrow> rule_priority r \<le> rule_priority q) rs) \<longleftrightarrow>
      (P r \<and> rule_priority r = ?m)" if "r \<in> set rs" for r
    using that x by (auto simp: list_all_iff intro: antisym)
  have "best_rule P rs = List.find (\<lambda>r. P r \<and> rule_priority r = ?m) rs"
    unfolding best_rule_def using cond by (intro find_cong_on) auto
  also have "\<dots> = List.find P (filter (\<lambda>r. rule_priority r = ?m) ?s)"
    by (simp add: find_filter_conj sort_key_stable)
  also have "\<dots> = List.find (\<lambda>r. P r \<and> rule_priority r = ?m) ?s" by (simp add: find_filter_conj)
  also have "\<dots> = Some x"
  proof -
    from Some obtain ps ss where "?s = ps @ x # ss" "P x" "\<forall>p\<in>set ps. \<not> P p"
      by (auto simp: find_Some_split)
    then show ?thesis unfolding find_Some_split by blast
  qed
  finally show ?thesis using Some by simp
qed

text \<open>
  C4: evaluation of a first-match rule set that \<open>RuleSet::new\<close> built.  The decision is that of the
  matching terminal rule of least priority, the earliest declared one on a tie, and the default
  action when there is none; the tags are those of the matching tag rules examined before it, and
  with tracing on there is one trace entry per examined rule, in order, with its verdict.
\<close>

theorem first_match_spec:
  assumes "new_rule_set i FirstMatch rs d t = Ok s"
  shows "evaluate ops fmt s payload ctx =
    Ok (decision_of (best_rule (hit (verdict ops payload ctx)) rs) d (tags_of (verdict ops payload ctx) (seen_rules (verdict ops payload ctx) (rules s)))
          (traces_of (verdict ops payload ctx) (\<lambda>r. trace_condition fmt r (rule_condition r)) t (seen_rules (verdict ops payload ctx) (rules s))))"
  using assms by (simp add: new_rule_set_Ok_iff evaluate_def first_match_loop_eq find_sort_key Let_def)

theorem first_match_spec_witness:
  "\<exists>s d. new_rule_set ''rs'' FirstMatch
       [sample_rule ''b'' Always (Halt ''stop'') 2, sample_rule ''a'' (FieldExists (FieldPath ''n'')) Drop 1]
       (DeadLetter ''none'') False = Ok s \<and>
     evaluate int_ops (\<lambda>_. '''') s sample_payload sample_context = Ok d \<and>
     decision_action d = Drop \<and> matched_rule d = Some ''a''"
proof -
  let ?rs = "[sample_rule ''b'' Always (Halt ''stop'') 2, sample_rule ''a'' (FieldExists (FieldPath ''n'')) Drop 1]"
  obtain s where s: "new_rule_set ''rs'' FirstMatch ?rs (DeadLetter ''none'') False = Ok s"
    using sample_not_blank by (auto simp: new_rule_set_Ok_iff)
  have "best_rule (hit (verdict int_ops sample_payload sample_context)) ?rs =
      Some (sample_rule ''a'' (FieldExists (FieldPath ''n'')) Drop 1)"
    by (simp add: best_rule_def sample_rule_def sample_payload_def)
  with first_match_spec [OF s, of int_ops "\<lambda>_. ''''" sample_payload sample_context] s
  show ?thesis by (auto simp: decision_of_def sample_rule_def)
qed

text \<open>
  evaluation of an all-matches rule set that \<open>RuleSet::new\<close> built: every matching rule
  contributes its tag, in priority order and declaration order on ties, and the action is the
  default action.
\<close>

theorem all_matches_spec:
  assumes "new_rule_set i AllMatches rs d t = Ok s"
  shows "evaluate ops fmt s payload ctx =
    Ok (decision_of None d (tags_of (verdict ops payload ctx) (sort_key rule_priority rs))
          (traces_of (verdict ops payload ctx) (\<lambda>r. trace_condition fmt r (rule_condition r)) t (sort_key rule_priority rs))) \<and>
    length (tags_of (verdict ops payload ctx) (sort_key rule_priority rs)) = length (filter (verdict ops payload ctx) rs)"
proof -
  let ?m = "verdict ops payload ctx"
  have tag: "\<forall>r\<in>set rs. \<not> is_terminal (rule_action r)" and s: "rules s = sort_key rule_priority rs"
    "strategy s = AllMatches" "default_action s = d" "trace_conditions s = t"
    using assms(1) by (auto simp: new_rule_set_Ok_iff)
  have len: "length (tags_of ?m qs) = length (filter ?m qs)" if "set qs \<subseteq> set rs" for qs
    using that
  proof (induction qs)
    case (Cons q qs)
    then have "\<not> is_terminal (rule_action q)" using tag by auto
    then obtain k v where "rule_action q = Tag k v" by (cases "rule_action q") auto
    then show ?case using Cons by (simp add: tags_of_Cons)
  qed simp
  have "length (filter ?m (sort_key rule_priority rs)) = length (filter ?m rs)"
    by (metis mset_filter mset_sort size_mset)
  then show ?thesis
    using s len [of "sort_key rule_priority rs"]
    by (simp add: evaluate_def all_matches_loop_eq Let_def)
qed

theorem all_matches_spec_witness:
  "\<exists>s d. new_rule_set ''rs'' AllMatches
       [sample_rule ''b'' Always (Tag ''k'' SNull) 2, sample_rule ''a'' Never (Tag ''l'' SNull) 1] Drop False = Ok s \<and>
     evaluate int_ops (\<lambda>_. '''') s sample_payload sample_context = Ok d \<and>
     decision_action d = Drop \<and> tags_applied d = [(''k'', SNull)]"
proof -
  let ?rs = "[sample_rule ''b'' Always (Tag ''k'' SNull) 2, sample_rule ''a'' Never (Tag ''l'' SNull) 1]"
  obtain s where s: "new_rule_set ''rs'' AllMatches ?rs Drop False = Ok s"
    using sample_not_blank by (auto simp: new_rule_set_Ok_iff sample_rule_def)
  from all_matches_spec [OF s, of int_ops "\<lambda>_. ''''" sample_payload sample_context] s
  show ?thesis by (auto simp: decision_of_def tags_of_def sample_rule_def)
qed

text \<open>
  the score strategy picks the same rule and the same action as first-match on the same rules;
  it examines the remaining rules as well, so its tags and its trace extend those of first-match.
\<close>

theorem score_agrees_with_first_match:
  "\<exists>fm sc. evaluate ops fmt (s\<lparr>strategy := FirstMatch\<rparr>) payload ctx = Ok fm \<and>
     evaluate ops fmt (s\<lparr>strategy := Score\<rparr>) payload ctx = Ok sc \<and>
     decision_action sc = decision_action fm \<and> matched_rule sc = matched_rule fm \<and>
     (\<exists>ts. tags_applied sc = tags_applied fm @ ts) \<and>
     (\<exists>trs. conditions_evaluated sc = conditions_evaluated fm @ trs)"
proof -
  let ?m = "\<lambda>r. eval_condition ops (rule_condition r) payload ctx"
  have ext: "\<exists>qs. rs = seen_rules ?m rs @ qs" for rs
  proof (induction rs)
    case (Cons r rs)
    show ?case
      by (cases "hit ?m r") (use Cons in \<open>auto simp: seen_rules_def\<close>)
  qed (simp add: seen_rules_def)
  then obtain qs where qs: "rules s = seen_rules ?m (rules s) @ qs" by blast
  have "tags_of ?m (rules s) = tags_of ?m (seen_rules ?m (rules s)) @ tags_of ?m qs"
    by (subst qs) (simp add: tags_of_def)
  moreover have "traces_of ?m tr t (rules s) = traces_of ?m tr t (seen_rules ?m (rules s)) @ traces_of ?m tr t qs" for tr t
    by (subst qs) (simp add: traces_of_def)
  ultimately show ?thesis
    by (simp add: evaluate_def first_match_loop_eq score_loop_eq decision_of_def Let_def)
qed

section \<open>Conditions\<close>

text \<open>
  a field that is present with the value null satisfies both \<open>FieldExists\<close> and \<open>FieldAbsent\<close>, and
  no other field does; a field that is missing satisfies only \<open>FieldAbsent\<close>, and one with any other
  value only \<open>FieldExists\<close>.
\<close>

theorem field_exists_and_absent:
  "(eval_condition ops (FieldExists p) payload ctx \<and> eval_condition ops (FieldAbsent p) payload ctx \<longleftrightarrow>
     resolve_payload payload p = Some JNull) \<and>
   (eval_condition ops (FieldExists p) payload ctx \<or> eval_condition ops (FieldAbsent p) payload ctx)"
  by (cases "resolve_payload payload p") auto

text \<open>
  The documented behaviour of \<open>serde_json\<close>'s numbers that the comparisons rely on: a number that fits
  an \<open>i64\<close> is converted to a float the way \<open>as f64\<close> does.
\<close>

definition number_ops_ok :: "'n number_ops \<Rightarrow> bool" where
  "number_ops_ok ops \<longleftrightarrow> (\<forall>n i. num_as_i64 ops n = Some i \<longrightarrow> num_as_f64 ops n = Some (i64_to_f64 i))"

text \<open>
  on integers of magnitude below 2 to the 53 the six comparison conditions of the payload
  decide the comparison of the integers.
\<close>

theorem integer_comparisons_exact:
  assumes ops: "number_ops_ok ops" and n: "num_as_i64 ops n = Some i"
    and r: "resolve_payload payload p = Some (JNumber n)"
    and b: "\<bar>i\<bar> < 2 ^ 53" "\<bar>j\<bar> < 2 ^ 53"
  shows "(eval_condition ops (FieldGt p (SInteger j)) payload ctx \<longleftrightarrow> i > j) \<and>
    (eval_condition ops (FieldLt p (SInteger j)) payload ctx \<longleftrightarrow> i < j) \<and>
    (eval_condition ops (FieldGte p (SInteger j)) payload ctx \<longleftrightarrow> i \<ge> j) \<and>
    (eval_condition ops (FieldLte p (SInteger j)) payload ctx \<longleftrightarrow> i \<le> j) \<and>
    (eval_condition ops (FieldEq p (SInteger j)) payload ctx \<longleftrightarrow> i = j) \<and>
    (eval_condition ops (FieldNeq p (SInteger j)) payload ctx \<longleftrightarrow> i \<noteq> j)"
proof -
  have "num_as_f64 ops n = Some (Fin (of_int i))"
    using ops n i64_to_f64_small [OF b(1)] by (simp add: number_ops_ok_def)
  then show ?thesis
    using n r i64_to_f64_small [OF b(2)] by (auto simp: json_value_cmp_scalar_def)
qed

theorem integer_comparisons_exact_witness:
  "eval_condition int_ops (FieldGt (FieldPath ''n'') (SInteger 5)) sample_payload sample_context \<and>
   \<not> eval_condition int_ops (FieldLt (FieldPath ''n'') (SInteger 5)) sample_payload sample_context"
  using integer_comparisons_exact [of int_ops 7 7 sample_payload "FieldPath ''n''" 5 sample_context]
  by (simp add: number_ops_ok_def int_ops_def sample_payload_def)

end
