(* ===== verification/RuleIntrospect.thy ===== *)
theory RuleIntrospect
  imports RuleProps
begin

text \<open>
  The module \<open>rules.rs\<close> of \<open>pureflow-introspection\<close>: the projection of a rule set without executing
  it, and the analysis that flags rules that can never fire.
\<close>

section \<open>Data\<close>

datatype rule_action_summary =
  SummaryRoute port_id | SummaryDrop | SummaryDeadLetter | SummaryTag string | SummaryHalt

record condition_surface_summary =
  on_payload :: bool
  on_tag :: bool
  on_provenance :: bool
  on_execution_context :: bool
  on_constant :: bool

datatype unreachable_reason =
  ConditionIsNever
| ShadowedByAlways string
| ExactFieldEqSubsumed string

record unreachable_rule =
  unreachable_rule_id :: string
  unreachable_reason :: unreachable_reason

record rule_introspection =
  intro_rule_id :: string
  intro_priority :: nat
  intro_description :: string
  intro_action :: rule_action_summary
  intro_surfaces :: condition_surface_summary
  intro_target_ports :: "port_id list"

record rule_set_introspection =
  intro_id :: string
  intro_strategy :: evaluation_strategy
  intro_rules :: "rule_introspection list"
  intro_default_action :: rule_action_summary
  intro_trace_conditions :: bool
  intro_unreachable :: "unreachable_rule list"

section \<open>Operations\<close>

definition is_constant_only :: "condition_surface_summary \<Rightarrow> bool" where
  "is_constant_only s \<longleftrightarrow>
     on_constant s \<and> \<not> on_payload s \<and> \<not> on_tag s \<and> \<not> on_provenance s \<and> \<not> on_execution_context s"

definition no_surfaces :: condition_surface_summary where
  "no_surfaces = \<lparr>on_payload = False, on_tag = False, on_provenance = False,
     on_execution_context = False, on_constant = False\<rparr>"

fun mark_surface :: "condition_surface \<Rightarrow> condition_surface_summary \<Rightarrow> condition_surface_summary" where
  "mark_surface PayloadSurface s = s\<lparr>on_payload := True\<rparr>"
| "mark_surface TagSurface s = s\<lparr>on_tag := True\<rparr>"
| "mark_surface ProvenanceSurface s = s\<lparr>on_provenance := True\<rparr>"
| "mark_surface ExecutionContextSurface s = s\<lparr>on_execution_context := True\<rparr>"
| "mark_surface ConstantSurface s = s\<lparr>on_constant := True\<rparr>"
| "mark_surface CombinatorSurface s = s"

function (sequential) collect_surfaces_inner ::
  "condition \<Rightarrow> condition_surface_summary \<Rightarrow> condition_surface_summary" where
  "collect_surfaces_inner (And cs) s = fold collect_surfaces_inner cs (mark_surface (surface (And cs)) s)"
| "collect_surfaces_inner (Or cs) s = fold collect_surfaces_inner cs (mark_surface (surface (Or cs)) s)"
| "collect_surfaces_inner (Not c) s = collect_surfaces_inner c (mark_surface (surface (Not c)) s)"
| "collect_surfaces_inner c s = mark_surface (surface c) s"
  by pat_completeness auto
termination
  by (relation "measure (\<lambda>(c, _). size c)") (auto simp: size_list_estimation' less_Suc_eq_le)

definition collect_surfaces :: "condition \<Rightarrow> condition_surface_summary" where
  "collect_surfaces c = collect_surfaces_inner c no_surfaces"

fun collect_target_ports :: "rule_action \<Rightarrow> port_id list" where
  "collect_target_ports (Route p) = [p]"
| "collect_target_ports _ = []"

fun action_summary :: "rule_action \<Rightarrow> rule_action_summary" where
  "action_summary (Route p) = SummaryRoute p"
| "action_summary Drop = SummaryDrop"
| "action_summary (DeadLetter _) = SummaryDeadLetter"
| "action_summary (Tag k _) = SummaryTag k"
| "action_summary (Halt _) = SummaryHalt"

definition is_never :: "condition \<Rightarrow> bool" where
  "is_never c \<longleftrightarrow> c = Never"

fun never_rules :: "rule list \<Rightarrow> unreachable_rule list \<Rightarrow> unreachable_rule list" where
  "never_rules [] out = out"
| "never_rules (r # rs) out =
     never_rules rs (if is_never (rule_condition r)
       then out @ [\<lparr>unreachable_rule_id = rule_id r, unreachable_reason = ConditionIsNever\<rparr>] else out)"

fun always_shadows :: "rule list \<Rightarrow> string option \<Rightarrow> unreachable_rule list \<Rightarrow> unreachable_rule list" where
  "always_shadows [] always out = out"
| "always_shadows (r # rs) always out =
     (let out1 = (case always of
            Some shadower \<Rightarrow>
              if \<not> is_never (rule_condition r)
              then out @ [\<lparr>unreachable_rule_id = rule_id r, unreachable_reason = ShadowedByAlways shadower\<rparr>]
              else out
          | None \<Rightarrow> out);
          always1 = (if rule_condition r = Always \<and> always = None then Some (rule_id r) else always)
      in always_shadows rs always1 out1)"

text \<open>The derived equality of scalars is that of \<open>scalar_eq\<close>: a NaN differs from itself.\<close>

fun subsumed_later ::
  "string \<Rightarrow> field_path \<Rightarrow> scalar_value \<Rightarrow> rule list \<Rightarrow> unreachable_rule list \<Rightarrow> unreachable_rule list" where
  "subsumed_later i p1 v1 [] out = out"
| "subsumed_later i p1 v1 (later # rs) out =
     (let out1 = (case rule_condition later of
            FieldEq p2 v2 \<Rightarrow>
              if p1 = p2 \<and> scalar_eq v1 v2 \<and> \<not> list_ex (\<lambda>u. unreachable_rule_id u = rule_id later) out
              then out @ [\<lparr>unreachable_rule_id = rule_id later, unreachable_reason = ExactFieldEqSubsumed i\<rparr>]
              else out
          | _ \<Rightarrow> out)
      in subsumed_later i p1 v1 rs out1)"

fun field_eq_shadows :: "rule list \<Rightarrow> unreachable_rule list \<Rightarrow> unreachable_rule list" where
  "field_eq_shadows [] out = out"
| "field_eq_shadows (r # rs) out =
     field_eq_shadows rs
       (case rule_condition r of FieldEq p v \<Rightarrow> subsumed_later (rule_id r) p v rs out | _ \<Rightarrow> out)"

definition detect_unreachable :: "rule_set \<Rightarrow> unreachable_rule list" where
  "detect_unreachable s =
     (let u0 = never_rules (rules s) []
      in if strategy s = FirstMatch
         then field_eq_shadows (rules s) (always_shadows (rules s) None u0)
         else u0)"

definition introspect_rule :: "rule \<Rightarrow> rule_introspection" where
  "introspect_rule r =
     \<lparr>intro_rule_id = rule_id r, intro_priority = rule_priority r, intro_description = rule_description r,
      intro_action = action_summary (rule_action r), intro_surfaces = collect_surfaces (rule_condition r),
      intro_target_ports = collect_target_ports (rule_action r)\<rparr>"

definition introspect_rule_set :: "rule_set \<Rightarrow> rule_set_introspection" where
  "introspect_rule_set s =
     \<lparr>intro_id = rule_set_id s, intro_strategy = strategy s, intro_rules = map introspect_rule (rules s),
      intro_default_action = action_summary (default_action s),
      intro_trace_conditions = trace_conditions s, intro_unreachable = detect_unreachable s\<rparr>"

section \<open>Soundness of the analysis\<close>

text \<open>What puts a rule on the list: its condition, or an earlier rule.\<close>

definition shadowed :: "rule list \<Rightarrow> string \<Rightarrow> bool" where
  "shadowed rs i \<longleftrightarrow>
     (\<exists>as e bs l cs. rs = as @ e # bs @ l # cs \<and> rule_id l = i \<and>
        (rule_condition e = Always \<or>
         (\<exists>p v w. rule_condition e = FieldEq p v \<and> rule_condition l = FieldEq p w \<and> scalar_eq v w)))"

lemma never_rules_mem:
  "u \<in> set (never_rules rs out) \<longleftrightarrow>
     u \<in> set out \<or> (\<exists>r\<in>set rs. rule_condition r = Never \<and>
        u = \<lparr>unreachable_rule_id = rule_id r, unreachable_reason = ConditionIsNever\<rparr>)"
  by (induction rs out rule: never_rules.induct) (auto simp: is_never_def)

lemma always_shadows_mem:
  assumes "u \<in> set (always_shadows rs always out)" "rs' = pre @ rs"
    and "always \<noteq> None \<Longrightarrow> \<exists>as e bs. pre = as @ e # bs \<and> rule_condition e = Always"
  shows "u \<in> set out \<or> shadowed rs' (unreachable_rule_id u)"
  using assms
proof (induction rs always out arbitrary: pre rule: always_shadows.induct)
  case (2 r rs always out)
  let ?out1 = "case always of
            Some shadower \<Rightarrow>
              if \<not> is_never (rule_condition r)
              then out @ [\<lparr>unreachable_rule_id = rule_id r, unreachable_reason = ShadowedByAlways shadower\<rparr>]
              else out
          | None \<Rightarrow> out"
  let ?always1 = "if rule_condition r = Always \<and> always = None then Some (rule_id r) else always"
  have split1: "\<exists>as e bs. pre @ [r] = as @ e # bs \<and> rule_condition e = Always" if "?always1 \<noteq> None"
  proof (cases "always = None")
    case True
    then show ?thesis using that by (intro exI [of _ pre] exI [of _ r] exI [of _ "[]"]) (auto split: if_splits)
  next
    case False
    then obtain as e bs where "pre = as @ e # bs" "rule_condition e = Always" using "2.prems"(3) by blast
    then show ?thesis by (intro exI [of _ as] exI [of _ e] exI [of _ "bs @ [r]"]) simp
  qed
  have "u \<in> set ?out1 \<or> shadowed rs' (unreachable_rule_id u)"
    using "2.IH" [OF refl refl, of "pre @ [r]"] "2.prems"(1,2) split1 by (simp add: Let_def)
  moreover have "u \<in> set out \<or> shadowed rs' (unreachable_rule_id u)" if mem: "u \<in> set ?out1"
  proof (cases "u \<in> set out")
    case False
    then obtain sh where a: "always = Some sh" "u = \<lparr>unreachable_rule_id = rule_id r, unreachable_reason = ShadowedByAlways sh\<rparr>"
      using mem by (auto split: option.splits if_splits)
    then obtain as e bs where "pre = as @ e # bs" "rule_condition e = Always" using "2.prems"(3) by blast
    then show ?thesis using a "2.prems"(2) unfolding shadowed_def
      by (intro disjI2 exI [of _ as] exI [of _ e] exI [of _ bs] exI [of _ r] exI [of _ rs]) simp
  qed simp
  ultimately show ?case by blast
qed simp

lemma subsumed_later_mem:
  assumes "u \<in> set (subsumed_later i p v rs out)" "rs' = as @ e # bs @ rs"
    "rule_condition e = FieldEq p v"
  shows "u \<in> set out \<or> shadowed rs' (unreachable_rule_id u)"
  using assms
proof (induction i p v rs out arbitrary: bs rule: subsumed_later.induct)
  case (2 i p v l rs out)
  let ?out1 = "case rule_condition l of
            FieldEq p2 v2 \<Rightarrow>
              if p = p2 \<and> scalar_eq v v2 \<and> \<not> list_ex (\<lambda>u. unreachable_rule_id u = rule_id l) out
              then out @ [\<lparr>unreachable_rule_id = rule_id l, unreachable_reason = ExactFieldEqSubsumed i\<rparr>]
              else out
          | _ \<Rightarrow> out"
  have "u \<in> set ?out1 \<or> shadowed rs' (unreachable_rule_id u)"
    using "2.IH" [OF refl, of "bs @ [l]"] "2.prems" by (simp add: Let_def)
  moreover have "u \<in> set out \<or> shadowed rs' (unreachable_rule_id u)" if mem: "u \<in> set ?out1"
  proof (cases "u \<in> set out")
    case False
    then obtain w where a: "rule_condition l = FieldEq p w" "scalar_eq v w" "unreachable_rule_id u = rule_id l"
      using mem by (auto split: condition.splits if_splits)
    then show ?thesis using "2.prems"(2,3) unfolding shadowed_def
      by (intro disjI2 exI [of _ as] exI [of _ e] exI [of _ bs] exI [of _ l] exI [of _ rs]) auto
  qed simp
  ultimately show ?case by blast
qed simp

lemma field_eq_shadows_mem:
  assumes "u \<in> set (field_eq_shadows rs out)" "rs' = pre @ rs"
  shows "u \<in> set out \<or> shadowed rs' (unreachable_rule_id u)"
  using assms
proof (induction rs out arbitrary: pre rule: field_eq_shadows.induct)
  case (2 r rs out)
  let ?out1 = "case rule_condition r of FieldEq p v \<Rightarrow> subsumed_later (rule_id r) p v rs out | _ \<Rightarrow> out"
  have "u \<in> set ?out1 \<or> shadowed rs' (unreachable_rule_id u)"
    using "2.IH" [of "pre @ [r]"] "2.prems" by simp
  moreover have "u \<in> set out \<or> shadowed rs' (unreachable_rule_id u)" if "u \<in> set ?out1"
    using that subsumed_later_mem [of u "rule_id r" _ _ rs out rs' pre r "[]"] "2.prems"(2)
    by (auto split: condition.splits)
  ultimately show ?case by blast
qed simp

lemma detect_unreachable_mem:
  assumes "u \<in> set (detect_unreachable s)"
  shows "(\<exists>r\<in>set (rules s). rule_condition r = Never \<and> rule_id r = unreachable_rule_id u) \<or>
    (strategy s = FirstMatch \<and> shadowed (rules s) (unreachable_rule_id u))"
proof -
  have never: "\<exists>r\<in>set (rules s). rule_condition r = Never \<and> rule_id r = unreachable_rule_id u"
    if "u \<in> set (never_rules (rules s) [])"
    using that by (auto simp: never_rules_mem)
  show ?thesis
  proof (cases "strategy s = FirstMatch")
    case True
    then have "u \<in> set (field_eq_shadows (rules s) (always_shadows (rules s) None (never_rules (rules s) [])))"
      using assms by (simp add: detect_unreachable_def Let_def)
    from field_eq_shadows_mem [OF this, of "rules s" "[]"]
    have "u \<in> set (always_shadows (rules s) None (never_rules (rules s) [])) \<or>
        shadowed (rules s) (unreachable_rule_id u)" by simp
    then show ?thesis
      using always_shadows_mem [of u "rules s" None "never_rules (rules s) []" "rules s" "[]"] True never by auto
  next
    case False
    then show ?thesis using assms never by (simp add: detect_unreachable_def Let_def)
  qed
qed

lemma scalar_eq_imp_eq: "scalar_eq a b \<Longrightarrow> a = b"
  by (cases a; cases b) (auto simp: f64_eq_iff)

lemma find_id_unique:
  assumes "distinct (map rule_id rs)" "List.find P rs = Some r" "l \<in> set rs" "rule_id l = rule_id r"
  shows "P l"
proof -
  have "r \<in> set rs" "P r" using find_in_set [OF assms(2)] by auto
  then have "l = r" using assms(1,3,4) by (auto simp: distinct_map dest: inj_onD)
  with \<open>P r\<close> show ?thesis by simp
qed

lemma shadowed_not_found:
  assumes sh: "shadowed rs i" and d: "distinct (map rule_id rs)" and t: "\<forall>r\<in>set rs. is_terminal (rule_action r)"
  shows "map_option rule_id (List.find (hit (verdict ops payload ctx)) rs) \<noteq> Some i"
proof
  let ?m = "verdict ops payload ctx"
  assume "map_option rule_id (List.find (hit ?m) rs) = Some i"
  then obtain r where r: "List.find (hit ?m) rs = Some r" "rule_id r = i" by auto
  obtain as e bs l cs where s: "rs = as @ e # bs @ l # cs" "rule_id l = i"
    and c: "rule_condition e = Always \<or>
      (\<exists>p v w. rule_condition e = FieldEq p v \<and> rule_condition l = FieldEq p w \<and> scalar_eq v w)"
    using sh unfolding shadowed_def by blast
  have "r = l" using find_in_set [OF r(1)] r(2) s d by (auto simp: distinct_map dest: inj_onD)
  obtain ps ss where f: "rs = ps @ r # ss" "\<forall>q\<in>set ps. \<not> hit ?m q" "hit ?m r"
    using r(1) unfolding find_Some_split by blast
  have "e \<in> set ps"
  proof -
    have "distinct rs" using d by (simp add: distinct_map)
    have "rs = (as @ e # bs) @ l # cs" using s(1) by simp
    moreover have "rs = ps @ l # ss" "l \<notin> set ps" "l \<notin> set ss"
      using f(1) \<open>r = l\<close> \<open>distinct rs\<close> by auto
    ultimately have "ps = as @ e # bs" using append_Cons_eq_iff [of l ps ss "as @ e # bs" cs] by simp
    then show ?thesis by simp
  qed
  then have "\<not> hit ?m e" using f(2) by blast
  moreover have "is_terminal (rule_action e)" using t s(1) by auto
  ultimately have "\<not> ?m e" by blast
  with c show False
  proof (elim disjE exE conjE)
    fix p v w
    assume "rule_condition e = FieldEq p v" "rule_condition l = FieldEq p w" "scalar_eq v w"
    moreover have "?m l" using f(3) \<open>r = l\<close> by simp
    ultimately show False using \<open>\<not> ?m e\<close> scalar_eq_imp_eq [of v w] by simp
  qed simp
qed

section \<open>Properties\<close>

text \<open>
  C18: when every rule of the set has a terminal action and rule ids are distinct, a rule that the
  projection flags as unreachable is never the rule of a decision, whatever the packet and context.
\<close>

theorem unreachable_rules_never_decide:
  assumes "distinct (map rule_id (rules s))"
    and "list_all (\<lambda>r. is_terminal (rule_action r)) (rules s)"
    and "u \<in> set (intro_unreachable (introspect_rule_set s))"
    and "evaluate ops fmt s payload ctx = Ok d"
  shows "matched_rule d \<noteq> Some (unreachable_rule_id u)"
proof -
  let ?m = "verdict ops payload ctx"
  have found: "matched_rule d = None \<or> matched_rule d = map_option rule_id (List.find (hit ?m) (rules s))"
    "strategy s = FirstMatch \<Longrightarrow> matched_rule d = map_option rule_id (List.find (hit ?m) (rules s))"
    using assms(4)
    by (cases "strategy s"; auto simp: evaluate_def Let_def first_match_loop_eq all_matches_loop_eq
        score_loop_eq decision_of_def)+
  have "u \<in> set (detect_unreachable s)" using assms(3) by (simp add: introspect_rule_set_def)
  from detect_unreachable_mem [OF this] show ?thesis
  proof
    assume "\<exists>r\<in>set (rules s). rule_condition r = Never \<and> rule_id r = unreachable_rule_id u"
    then obtain r where r: "r \<in> set (rules s)" "rule_condition r = Never" "rule_id r = unreachable_rule_id u" by blast
    show ?thesis
      using found(1) find_id_unique [OF assms(1) _ r(1), of "hit ?m"] r(2,3) by auto
  next
    assume "strategy s = FirstMatch \<and> shadowed (rules s) (unreachable_rule_id u)"
    then show ?thesis
      using found(2) shadowed_not_found [OF _ assms(1), of _ ops payload ctx] assms(2)
      by (simp add: list_all_iff)
  qed
qed

theorem unreachable_rules_never_decide_witness:
  "matched_rule (first_match_loop (verdict int_ops sample_payload sample_context)
      (\<lambda>r. trace_condition (\<lambda>_. '''') r (rule_condition r)) False Drop
      [sample_rule ''a'' Always Drop 1, sample_rule ''b'' Always (Halt ''x'') 2] [] []) \<noteq> Some ''b''"
proof -
  let ?s = "\<lparr>rule_set_id = ''rs'', strategy = FirstMatch,
      rules = [sample_rule ''a'' Always Drop 1, sample_rule ''b'' Always (Halt ''x'') 2],
      default_action = Drop, trace_conditions = False\<rparr>"
  let ?u = "\<lparr>unreachable_rule_id = ''b'', unreachable_reason = ShadowedByAlways ''a''\<rparr>"
  let ?d = "first_match_loop (verdict int_ops sample_payload sample_context)
      (\<lambda>r. trace_condition (\<lambda>_. '''') r (rule_condition r)) False Drop (rules ?s) [] []"
  have "distinct (map rule_id (rules ?s))" "list_all (\<lambda>r. is_terminal (rule_action r)) (rules ?s)"
    by (simp_all add: sample_rule_def)
  moreover have "?u \<in> set (intro_unreachable (introspect_rule_set ?s))"
    by (simp add: introspect_rule_set_def detect_unreachable_def is_never_def sample_rule_def Let_def)
  moreover have "evaluate int_ops (\<lambda>_. '''') ?s sample_payload sample_context = Ok ?d"
    by (simp only: evaluate_def Let_def) simp
  ultimately have "matched_rule ?d \<noteq> Some (unreachable_rule_id ?u)"
    by (rule unreachable_rules_never_decide)
  then show ?thesis by simp
qed

text \<open>
  without that restriction the analysis is wrong: a tag rule with an \<open>Always\<close> condition does not
  end a first-match evaluation, yet the rule after it is reported as shadowed, and it decides the
  packet.
\<close>

theorem unreachable_false_positive:
  "\<exists>s u d. rule_set_ok s \<and> distinct (map rule_id (rules s)) \<and>
     u \<in> set (intro_unreachable (introspect_rule_set s)) \<and>
     evaluate int_ops (\<lambda>_. '''') s sample_payload sample_context = Ok d \<and>
     matched_rule d = Some (unreachable_rule_id u)"
proof -
  let ?s = "\<lparr>rule_set_id = ''rs'', strategy = FirstMatch,
      rules = [sample_rule ''a'' Always (Tag ''k'' SNull) 1, sample_rule ''b'' Always Drop 2],
      default_action = Drop, trace_conditions = False\<rparr>"
  let ?u = "\<lparr>unreachable_rule_id = ''b'', unreachable_reason = ShadowedByAlways ''a''\<rparr>"
  have "?u \<in> set (intro_unreachable (introspect_rule_set ?s))"
    by (simp add: introspect_rule_set_def detect_unreachable_def is_never_def sample_rule_def Let_def)
  moreover have "\<exists>d. evaluate int_ops (\<lambda>_. '''') ?s sample_payload sample_context = Ok d \<and> matched_rule d = Some ''b''"
    by (simp add: evaluate_def sample_rule_def Let_def apply_terminal_or_tag_def)
  moreover have "rule_set_ok ?s" "distinct (map rule_id (rules ?s))"
    using sample_not_blank by (simp_all add: rule_set_ok_def sample_rule_def)
  ultimately show ?thesis by fastforce
qed

end
