(* ===== verification/RuleContract.thy ===== *)
theory RuleContract
  imports RuleProps Topology
begin

text \<open>
  The module \<open>rules.rs\<close> of \<open>pureflow-contract\<close>: the check of a rule set against its host node and the
  workflow graph, with its breadth-first search for a directed path.
\<close>

section \<open>Data\<close>

definition DEAD_LETTER_PORT :: string where
  "DEAD_LETTER_PORT = ''dead_letter''"

datatype action_site = RuleSite string | DefaultAction

datatype rule_contract_violation =
  UnknownRuleNode string node_id
| UnknownRoutePort string action_site node_id port_id
| MissingDeadLetterPort string action_site node_id
| UnknownSourceNode string string node_id
| UnreachableSourceNode string string node_id node_id
| UnknownArrivalPort string string node_id port_id

record condition_refs =
  ref_source_nodes :: "node_id list"
  ref_arrival_ports :: "port_id list"

section \<open>Paths\<close>

text \<open>The inner loop over the edges; \<open>None\<close> is the early \<open>return true\<close>.\<close>

fun scan_edges ::
  "node_id \<Rightarrow> node_id \<Rightarrow> edge_definition list \<Rightarrow> node_id btree_set \<Rightarrow> node_id list
   \<Rightarrow> (node_id btree_set \<times> node_id list) option" where
  "scan_edges target current [] seen queue = Some (seen, queue)"
| "scan_edges target current (e # es) seen queue =
     (if edge_source_node e \<noteq> current then scan_edges target current es seen queue
      else if edge_target_node e = target then None
      else if edge_target_node e \<notin> set seen
        then scan_edges target current es (bs_insert (edge_target_node e) seen)
               (queue @ [edge_target_node e])
      else scan_edges target current es seen queue)"

text \<open>What a completed inner loop has done.\<close>

lemma scan_edges_Some:
  assumes "scan_edges t cur es vis q = Some (vis', q')"
  shows "\<exists>new. q' = q @ new \<and> distinct new \<and> set new \<inter> set vis = {} \<and> set vis' = set vis \<union> set new \<and>
    set new \<subseteq> edge_target_node ` set es \<and>
    (\<forall>e\<in>set es. edge_source_node e = cur \<longrightarrow> edge_target_node e \<noteq> t \<and> edge_target_node e \<in> set vis') \<and>
    (\<forall>v\<in>set new. \<exists>e\<in>set es. edge_source_node e = cur \<and> edge_target_node e = v)"
  using assms
proof (induction es arbitrary: vis q)
  case Nil
  then show ?case by simp
next
  case (Cons e es)
  show ?case
  proof (cases "edge_source_node e = cur \<and> edge_target_node e \<notin> set vis")
    case True
    then have "edge_target_node e \<noteq> t" using Cons.prems by (auto split: if_splits)
    with True Cons.prems have "scan_edges t cur es (bs_insert (edge_target_node e) vis) (q @ [edge_target_node e])
        = Some (vis', q')" by simp
    from Cons.IH [OF this] obtain new where n: "q' = (q @ [edge_target_node e]) @ new" "distinct new"
      "set new \<inter> insert (edge_target_node e) (set vis) = {}"
      "set vis' = insert (edge_target_node e) (set vis) \<union> set new" "set new \<subseteq> edge_target_node ` set es"
      "\<forall>e\<in>set es. edge_source_node e = cur \<longrightarrow> edge_target_node e \<noteq> t \<and> edge_target_node e \<in> set vis'"
      "\<forall>v\<in>set new. \<exists>e\<in>set es. edge_source_node e = cur \<and> edge_target_node e = v"
      unfolding set_bs_insert by blast
    show ?thesis
      by (rule exI [of _ "edge_target_node e # new"])
        (use n True \<open>edge_target_node e \<noteq> t\<close> in auto)
  next
    case False
    then have run: "scan_edges t cur es vis q = Some (vis', q')" using Cons.prems by (auto split: if_splits)
    have here: "edge_source_node e = cur \<Longrightarrow> edge_target_node e \<noteq> t \<and> edge_target_node e \<in> set vis"
      using False Cons.prems by (auto split: if_splits)
    from Cons.IH [OF run] obtain new where n: "q' = q @ new" "distinct new" "set new \<inter> set vis = {}"
      "set vis' = set vis \<union> set new" "set new \<subseteq> edge_target_node ` set es"
      "\<forall>e\<in>set es. edge_source_node e = cur \<longrightarrow> edge_target_node e \<noteq> t \<and> edge_target_node e \<in> set vis'"
      "\<forall>v\<in>set new. \<exists>e\<in>set es. edge_source_node e = cur \<and> edge_target_node e = v" by blast
    show ?thesis
      by (rule exI [of _ new]) (use n here in auto)
  qed
qed

lemma scan_edges_None:
  "scan_edges t cur es vis q = None \<Longrightarrow> \<exists>e\<in>set es. edge_source_node e = cur \<and> edge_target_node e = t"
  by (induction t cur es vis q rule: scan_edges.induct) (auto split: if_splits)

text \<open>Nodes that edges lead to and that were not visited yet, plus the queue, shrink with every round.\<close>

lemma scan_edges_measure:
  assumes "scan_edges t cur es vis q = Some (vis', q')"
  shows "card (edge_target_node ` set es - set vis') + length q' \<le> card (edge_target_node ` set es - set vis) + length q"
proof -
  from scan_edges_Some [OF assms] obtain new where n: "q' = q @ new" "distinct new" "set new \<inter> set vis = {}"
    "set vis' = set vis \<union> set new" "set new \<subseteq> edge_target_node ` set es" by blast
  have "card (edge_target_node ` set es - set vis') + card (set new) = card (edge_target_node ` set es - set vis)"
  proof -
    have "edge_target_node ` set es - set vis = (edge_target_node ` set es - set vis') \<union> set new"
      using n by auto
    moreover have "(edge_target_node ` set es - set vis') \<inter> set new = {}" using n by auto
    ultimately show ?thesis by (simp add: card_Un_disjoint)
  qed
  then show ?thesis using n by (simp add: distinct_card)
qed

function (sequential) path_search ::
  "edge_definition list \<Rightarrow> node_id \<Rightarrow> node_id btree_set \<Rightarrow> node_id list \<Rightarrow> bool" where
  "path_search edges target seen [] = False"
| "path_search edges target seen (current # queue) =
     (case scan_edges target current edges seen queue of
        None \<Rightarrow> True
      | Some (seen', queue') \<Rightarrow> path_search edges target seen' queue')"
  by pat_completeness auto
termination
  by (relation "measure (\<lambda>(es, _, vis, q). card (edge_target_node ` set es - set vis) + length q)")
    (auto dest: scan_edges_measure)

definition has_path :: "workflow_definition \<Rightarrow> node_id \<Rightarrow> node_id \<Rightarrow> bool" where
  "has_path w source target = path_search (workflow_edges w) target (bs_insert source []) [source]"

definition node_exists :: "workflow_definition \<Rightarrow> node_id \<Rightarrow> bool" where
  "node_exists w n = list_ex (\<lambda>d. node_def_id d = n) (workflow_nodes w)"

section \<open>Violations\<close>

definition validate_action ::
  "rule_set \<Rightarrow> action_site \<Rightarrow> node_id \<Rightarrow> rule_action \<Rightarrow> port_id btree_set \<Rightarrow> bool
   \<Rightarrow> rule_contract_violation list" where
  "validate_action rs site n action outputs has_dead_letter =
     (case action of
        Route p \<Rightarrow> if p \<notin> set outputs then [UnknownRoutePort (rule_set_id rs) site n p] else []
      | DeadLetter _ \<Rightarrow>
          if \<not> has_dead_letter then [MissingDeadLetterPort (rule_set_id rs) site n] else []
      | _ \<Rightarrow> [])"

fun collect_condition_refs :: "condition \<Rightarrow> condition_refs \<Rightarrow> condition_refs" where
  "collect_condition_refs (SourceNode n) refs = refs\<lparr>ref_source_nodes := ref_source_nodes refs @ [n]\<rparr>"
| "collect_condition_refs (ArrivedOnPort p) refs = refs\<lparr>ref_arrival_ports := ref_arrival_ports refs @ [p]\<rparr>"
| "collect_condition_refs (And cs) refs = fold collect_condition_refs cs refs"
| "collect_condition_refs (Or cs) refs = fold collect_condition_refs cs refs"
| "collect_condition_refs (Not c) refs = collect_condition_refs c refs"
| "collect_condition_refs _ refs = refs"

definition condition_violations ::
  "workflow_definition \<Rightarrow> node_id \<Rightarrow> rule_set \<Rightarrow> port_id btree_set \<Rightarrow> rule \<Rightarrow> rule_contract_violation list" where
  "condition_violations w n rs inputs r =
     (let refs = collect_condition_refs (rule_condition r) \<lparr>ref_source_nodes = [], ref_arrival_ports = []\<rparr>
      in concat (map (\<lambda>s.
           if \<not> node_exists w s then [UnknownSourceNode (rule_set_id rs) (rule_id r) s]
           else if \<not> has_path w s n then [UnreachableSourceNode (rule_set_id rs) (rule_id r) n s]
           else []) (ref_source_nodes refs)) @
         concat (map (\<lambda>p.
           if p \<notin> set inputs then [UnknownArrivalPort (rule_set_id rs) (rule_id r) n p] else [])
           (ref_arrival_ports refs)))"

definition rule_set_violations ::
  "workflow_definition \<Rightarrow> node_id \<Rightarrow> rule_set \<Rightarrow> rule_contract_violation list" where
  "rule_set_violations w n rs =
     (case List.find (\<lambda>d. node_def_id d = n) (workflow_nodes w) of
        None \<Rightarrow> [UnknownRuleNode (rule_set_id rs) n]
      | Some host \<Rightarrow>
          (let outputs = bs_from_list (output_ports host);
               inputs = bs_from_list (input_ports host);
               has_dead_letter = list_ex (\<lambda>p. port_id_str p = DEAD_LETTER_PORT) (output_ports host)
           in concat (map (\<lambda>r. validate_action rs (RuleSite (rule_id r)) n (rule_action r) outputs
                              has_dead_letter) (rules rs)) @
              validate_action rs DefaultAction n (default_action rs) outputs has_dead_letter @
              concat (map (condition_violations w n rs inputs) (rules rs))))"

definition validate_rule_set ::
  "workflow_definition \<Rightarrow> node_id \<Rightarrow> rule_set \<Rightarrow> (unit, rule_contract_violation) result" where
  "validate_rule_set w n rs =
     (case rule_set_violations w n rs of [] \<Rightarrow> Ok () | v # _ \<Rightarrow> Err v)"

section \<open>Correctness of the path search\<close>

definition search_inv ::
  "edge_definition list \<Rightarrow> node_id \<Rightarrow> node_id \<Rightarrow> node_id btree_set \<Rightarrow> node_id list \<Rightarrow> bool" where
  "search_inv edges source target vis q \<longleftrightarrow>
     source \<in> set vis \<and> set q \<subseteq> set vis \<and> set vis \<subseteq> (edge_relation edges)\<^sup>* `` {source} \<and>
     (\<forall>u\<in>set vis - set q. \<forall>v. (u, v) \<in> edge_relation edges \<longrightarrow> v \<noteq> target \<and> v \<in> set vis)"

lemma search_inv_step:
  assumes inv: "search_inv edges s t vis (cur # q)" and run: "scan_edges t cur edges vis q = Some (vis', q')"
  shows "search_inv edges s t vis' q'"
proof -
  let ?E = "edge_relation edges"
  from scan_edges_Some [OF run] obtain new where n: "q' = q @ new" "set vis' = set vis \<union> set new"
    "\<forall>e\<in>set edges. edge_source_node e = cur \<longrightarrow> edge_target_node e \<noteq> t \<and> edge_target_node e \<in> set vis'"
    "\<forall>v\<in>set new. \<exists>e\<in>set edges. edge_source_node e = cur \<and> edge_target_node e = v" by blast
  have cur: "cur \<in> set vis" "(s, cur) \<in> ?E\<^sup>*" using inv by (auto simp: search_inv_def)
  have reach: "(s, v) \<in> ?E\<^sup>*" if "v \<in> set new" for v
  proof -
    have "(cur, v) \<in> ?E" using n(4) that by (force simp: edge_relation_def)
    with cur(2) show ?thesis by (rule rtrancl_into_rtrancl)
  qed
  have out: "v \<noteq> t \<and> v \<in> set vis'" if "u \<in> set vis' - set q'" "(u, v) \<in> ?E" for u v
  proof (cases "u = cur")
    case True
    then show ?thesis using that(2) n(3) by (auto simp: edge_relation_def)
  next
    case False
    then have "u \<in> set vis - set (cur # q)" using that(1) n by auto
    then show ?thesis using inv that(2) n(2) by (auto simp: search_inv_def)
  qed
  have "s \<in> set vis'" "set q' \<subseteq> set vis'" using inv n(1,2) by (auto simp: search_inv_def)
  moreover have "set vis' \<subseteq> ?E\<^sup>* `` {s}" using inv reach n(2) by (auto simp: search_inv_def)
  ultimately show ?thesis unfolding search_inv_def using out by blast
qed

lemma path_search_correct:
  assumes "search_inv edges s t vis q"
  shows "path_search edges t vis q \<longleftrightarrow> (s, t) \<in> (edge_relation edges)\<^sup>+"
  using assms
proof (induction edges t vis q rule: path_search.induct)
  case (1 edges t vis)
  have closed: "v \<in> set vis \<and> v \<noteq> t" if "(s, v) \<in> (edge_relation edges)\<^sup>+" for v
    using that
  proof (induction rule: trancl_induct)
    case (base v)
    then show ?case using 1 by (auto simp: search_inv_def)
  next
    case (step u v)
    then show ?case using 1 by (auto simp: search_inv_def)
  qed
  then show ?case by auto
next
  case (2 edges t vis cur q)
  show ?case
  proof (cases "scan_edges t cur edges vis q")
    case None
    then have "(cur, t) \<in> edge_relation edges" using scan_edges_None by (force simp: edge_relation_def)
    moreover have "(s, cur) \<in> (edge_relation edges)\<^sup>*" using "2.prems" by (auto simp: search_inv_def)
    ultimately have "(s, t) \<in> (edge_relation edges)\<^sup>+" by (simp add: rtrancl_into_trancl1)
    then show ?thesis using None by simp
  next
    case (Some r)
    obtain vis' q' where r: "r = (vis', q')" by (cases r)
    then show ?thesis
      using "2.IH" [OF Some r [symmetric]] search_inv_step [OF "2.prems"] Some by simp
  qed
qed

lemma has_path_iff: "has_path w s t \<longleftrightarrow> (s, t) \<in> (edge_relation (workflow_edges w))\<^sup>+"
  unfolding has_path_def by (rule path_search_correct) (auto simp: search_inv_def)

section \<open>References in conditions\<close>

text \<open>The nodes and ports that occur anywhere in a condition.\<close>

fun mentions_source :: "condition \<Rightarrow> node_id \<Rightarrow> bool" where
  "mentions_source (SourceNode m) n \<longleftrightarrow> m = n"
| "mentions_source (And cs) n \<longleftrightarrow> (\<exists>c\<in>set cs. mentions_source c n)"
| "mentions_source (Or cs) n \<longleftrightarrow> (\<exists>c\<in>set cs. mentions_source c n)"
| "mentions_source (Not c) n \<longleftrightarrow> mentions_source c n"
| "mentions_source _ n \<longleftrightarrow> False"

fun mentions_port :: "condition \<Rightarrow> port_id \<Rightarrow> bool" where
  "mentions_port (ArrivedOnPort q) p \<longleftrightarrow> q = p"
| "mentions_port (And cs) p \<longleftrightarrow> (\<exists>c\<in>set cs. mentions_port c p)"
| "mentions_port (Or cs) p \<longleftrightarrow> (\<exists>c\<in>set cs. mentions_port c p)"
| "mentions_port (Not c) p \<longleftrightarrow> mentions_port c p"
| "mentions_port _ p \<longleftrightarrow> False"

lemma fold_refs:
  assumes "\<And>c refs. c \<in> set cs \<Longrightarrow> set (sel (f c refs)) = set (sel refs) \<union> A c"
  shows "set (sel (fold f cs refs)) = set (sel refs) \<union> (\<Union>c\<in>set cs. A c)"
  using assms
proof (induction cs arbitrary: refs)
  case (Cons c cs)
  then show ?case using Cons.IH [of "f c refs"] Cons.prems [of c refs] by auto
qed simp

lemma collect_refs_sources:
  "set (ref_source_nodes (collect_condition_refs c refs)) = set (ref_source_nodes refs) \<union> {n. mentions_source c n}"
proof (induction c refs rule: collect_condition_refs.induct)
  case (3 cs refs)
  have "set (ref_source_nodes (fold collect_condition_refs cs refs)) =
      set (ref_source_nodes refs) \<union> (\<Union>c\<in>set cs. {n. mentions_source c n})"
    by (rule fold_refs) (use 3 in blast)
  then show ?case by auto
next
  case (4 cs refs)
  have "set (ref_source_nodes (fold collect_condition_refs cs refs)) =
      set (ref_source_nodes refs) \<union> (\<Union>c\<in>set cs. {n. mentions_source c n})"
    by (rule fold_refs) (use 4 in blast)
  then show ?case by auto
qed auto

lemma collect_refs_ports:
  "set (ref_arrival_ports (collect_condition_refs c refs)) = set (ref_arrival_ports refs) \<union> {p. mentions_port c p}"
proof (induction c refs rule: collect_condition_refs.induct)
  case (3 cs refs)
  have "set (ref_arrival_ports (fold collect_condition_refs cs refs)) =
      set (ref_arrival_ports refs) \<union> (\<Union>c\<in>set cs. {n. mentions_port c n})"
    by (rule fold_refs) (use 3 in blast)
  then show ?case by auto
next
  case (4 cs refs)
  have "set (ref_arrival_ports (fold collect_condition_refs cs refs)) =
      set (ref_arrival_ports refs) \<union> (\<Union>c\<in>set cs. {n. mentions_port c n})"
    by (rule fold_refs) (use 4 in blast)
  then show ?case by auto
qed auto

section \<open>Properties\<close>

text \<open>What the host node must declare for an action, and for the references of a rule.\<close>

definition action_fits :: "node_definition \<Rightarrow> rule_action \<Rightarrow> bool" where
  "action_fits host a =
     (case a of
        Route p \<Rightarrow> p \<in> set (output_ports host)
      | DeadLetter _ \<Rightarrow> PortId DEAD_LETTER_PORT \<in> set (output_ports host)
      | _ \<Rightarrow> True)"

definition references_fit :: "workflow_definition \<Rightarrow> node_definition \<Rightarrow> condition \<Rightarrow> bool" where
  "references_fit w host c \<longleftrightarrow>
     (\<forall>m. mentions_source c m \<longrightarrow>
        m \<in> node_set (workflow_nodes w) \<and> (m, node_def_id host) \<in> (edge_relation (workflow_edges w))\<^sup>+) \<and>
     (\<forall>p. mentions_port c p \<longrightarrow> p \<in> set (input_ports host))"

definition rule_set_fits :: "workflow_definition \<Rightarrow> node_definition \<Rightarrow> rule_set \<Rightarrow> bool" where
  "rule_set_fits w host rs \<longleftrightarrow>
     action_fits host (default_action rs) \<and>
     list_all (\<lambda>r. action_fits host (rule_action r) \<and> references_fit w host (rule_condition r)) (rules rs)"

lemma validate_action_Nil_iff:
  "validate_action rs site n a (bs_from_list (output_ports host))
     (list_ex (\<lambda>p. port_id_str p = DEAD_LETTER_PORT) (output_ports host)) = [] \<longleftrightarrow> action_fits host a"
proof -
  have "list_ex (\<lambda>p. port_id_str p = DEAD_LETTER_PORT) ps \<longleftrightarrow> PortId DEAD_LETTER_PORT \<in> set ps" for ps
    by (induction ps) (auto, (metis port_id.exhaust port_id_str.simps)+)
  then show ?thesis by (cases a) (auto simp: validate_action_def action_fits_def)
qed

lemma node_exists_iff: "node_exists w n \<longleftrightarrow> n \<in> node_set (workflow_nodes w)"
  by (auto simp: node_exists_def list_ex_iff)

lemma condition_violations_Nil_iff:
  assumes "node_def_id host = n"
  shows "condition_violations w n rs (bs_from_list (input_ports host)) r = [] \<longleftrightarrow>
    references_fit w host (rule_condition r)"
proof -
  let ?refs = "collect_condition_refs (rule_condition r) \<lparr>ref_source_nodes = [], ref_arrival_ports = []\<rparr>"
  have s: "set (ref_source_nodes ?refs) = {m. mentions_source (rule_condition r) m}"
    and p: "set (ref_arrival_ports ?refs) = {m. mentions_port (rule_condition r) m}"
    using collect_refs_sources collect_refs_ports by simp_all
  have "condition_violations w n rs (bs_from_list (input_ports host)) r = [] \<longleftrightarrow>
      (\<forall>m\<in>set (ref_source_nodes ?refs). node_exists w m \<and> has_path w m n) \<and>
      (\<forall>q\<in>set (ref_arrival_ports ?refs). q \<in> set (input_ports host))"
    unfolding condition_violations_def Let_def append_is_Nil_conv concat_map_eq_Nil by auto
  then show ?thesis
    unfolding s p references_fit_def node_exists_iff has_path_iff using assms by simp
qed

lemma validate_rule_set_Ok_iff:
  "validate_rule_set w n rs = Ok () \<longleftrightarrow>
     (\<exists>host. List.find (\<lambda>d. node_def_id d = n) (workflow_nodes w) = Some host \<and> rule_set_fits w host rs)"
proof (cases "List.find (\<lambda>d. node_def_id d = n) (workflow_nodes w)")
  case None
  then show ?thesis by (simp add: validate_rule_set_def rule_set_violations_def)
next
  case (Some host)
  then have id: "node_def_id host = n" by (auto simp: find_Some_iff)
  have "rule_set_violations w n rs = [] \<longleftrightarrow> rule_set_fits w host rs"
    using Some
    by (auto simp: rule_set_violations_def Let_def concat_map_eq_Nil validate_action_Nil_iff
        condition_violations_Nil_iff [OF id] rule_set_fits_def list_all_iff simp del: concat_eq_Nil_conv)
  then show ?thesis
    using Some by (cases "rule_set_violations w n rs") (auto simp: validate_rule_set_def)
qed

lemma decision_action_from_rules:
  assumes "evaluate ops fmt rs payload ctx = Ok d"
  shows "decision_action d = default_action rs \<or> (\<exists>r\<in>set (rules rs). decision_action d = rule_action r)"
proof -
  have "decision_action (decision_of (List.find P xs) a t c) = a \<or>
      (\<exists>r\<in>set xs. decision_action (decision_of (List.find P xs) a t c) = rule_action r)" for P xs a t c
    by (cases "List.find P xs") (auto simp: decision_of_def dest: find_in_set)
  then show ?thesis using assms
    by (cases "strategy rs")
      (auto simp: evaluate_def Let_def first_match_loop_eq all_matches_loop_eq score_loop_eq, auto simp: decision_of_def)
qed

text \<open>
  the breadth-first search of \<open>has_path\<close> decides reachability along at least one edge, on every
  graph, cyclic or not.
\<close>

theorem has_path_reachability:
  "has_path w s t \<longleftrightarrow> (s, t) \<in> (edge_relation (workflow_edges w))\<^sup>+"
  by (rule has_path_iff)

text \<open>
  C17: \<open>validate_rule_set\<close> accepts exactly when the host node exists, every route of a rule or of the
  default action names an output port of the host, a dead-letter action finds the dead-letter output
  port, every source node mentioned anywhere in a condition exists and reaches the host, and every
  arrival port mentioned is an input port of the host.
\<close>

theorem validate_rule_set_accepts_iff:
  "validate_rule_set w n rs = Ok () \<longleftrightarrow>
     (\<exists>host. List.find (\<lambda>d. node_def_id d = n) (workflow_nodes w) = Some host \<and> rule_set_fits w host rs)"
  by (rule validate_rule_set_Ok_iff)

text \<open>
  C8: a rule set that passed validation for its host node never produces a decision that the host
  cannot carry out: whatever the packet and the context, the action of the decision fits the ports
  of the host.
\<close>

theorem validated_decisions_fit:
  assumes "validate_rule_set w n rs = Ok ()" and "evaluate ops fmt rs payload ctx = Ok d"
  shows "\<exists>host\<in>set (workflow_nodes w). node_def_id host = n \<and> action_fits host (decision_action d)"
proof -
  obtain host where h: "List.find (\<lambda>d. node_def_id d = n) (workflow_nodes w) = Some host" "rule_set_fits w host rs"
    using assms(1) unfolding validate_rule_set_Ok_iff by blast
  then have "action_fits host (decision_action d)"
    using decision_action_from_rules [OF assms(2)] by (auto simp: rule_set_fits_def list_all_iff)
  then show ?thesis using find_in_set [OF h(1)] by blast
qed

theorem validated_decisions_fit_witness:
  "\<exists>w d host. evaluate int_ops (\<lambda>_. '''')
        \<lparr>rule_set_id = ''rs'', strategy = FirstMatch, rules = [sample_rule ''a'' Always (Route (PortId ''out'')) 1],
         default_action = Drop, trace_conditions = False\<rparr> sample_payload sample_context = Ok d \<and>
     host \<in> set (workflow_nodes w) \<and> decision_action d = Route (PortId ''out'') \<and> action_fits host (decision_action d)"
proof -
  let ?n = "\<lparr>node_def_id = NodeId ''a'', input_ports = [], output_ports = [PortId ''out'']\<rparr>"
  let ?w = "\<lparr>workflow_def_id = WorkflowId ''w'', workflow_graph = \<lparr>graph_nodes = [?n], graph_edges = []\<rparr>\<rparr>"
  let ?rs = "\<lparr>rule_set_id = ''rs'', strategy = FirstMatch, rules = [sample_rule ''a'' Always (Route (PortId ''out'')) 1],
         default_action = Drop, trace_conditions = False\<rparr>"
  have v: "validate_rule_set ?w (NodeId ''a'') ?rs = Ok ()"
    by (simp add: validate_rule_set_def rule_set_violations_def validate_action_def condition_violations_def
        sample_rule_def bs_from_list_def)
  obtain d where d: "evaluate int_ops (\<lambda>_. '''') ?rs sample_payload sample_context = Ok d"
    "decision_action d = Route (PortId ''out'')"
    by (simp add: evaluate_def sample_rule_def apply_terminal_or_tag_def)
  from validated_decisions_fit [OF v d(1)] d show ?thesis by blast
qed

end
