(* ===== verification/Core.thy ===== *)
theory Core
  imports Errors
begin

text \<open>
  The runtime-neutral data of \<open>pureflow-core\<close>: execution contexts and cancellation (\<open>context.rs\<close>),
  message metadata (\<open>message.rs\<close>), lifecycle events (\<open>lifecycle.rs\<close>) and packet batches (\<open>batch.rs\<close>).

  A cancellation signal is a mutex shared through \<open>Arc\<close> by every clone of a token.  The signals of a
  run are a store, a token is an index into it, and cloning a token copies the index: what one
  holder of a token does is seen by every other holder.  A poisoned lock is entered all the same
  (\<open>PoisonError::into_inner\<close>), so no operation of the module fails.
\<close>

section \<open>Execution metadata\<close>

text \<open>\<open>NonZeroU32\<close>: a positive number.\<close>

datatype execution_attempt = ExecutionAttempt nat

definition first_attempt_number :: execution_attempt where
  "first_attempt_number = ExecutionAttempt 1"

primrec attempt_get :: "execution_attempt \<Rightarrow> nat" where
  "attempt_get (ExecutionAttempt n) = n"

record execution_metadata =
  execution_id :: execution_id
  attempt :: execution_attempt

definition first_attempt :: "execution_id \<Rightarrow> execution_metadata" where
  "first_attempt i = \<lparr>execution_id = i, attempt = first_attempt_number\<rparr>"

section \<open>Cancellation\<close>

datatype cancellation_request = CancellationRequest string

primrec reason :: "cancellation_request \<Rightarrow> string" where
  "reason (CancellationRequest r) = r"

datatype cancellation_state = Active | Requested cancellation_request

fun is_requested :: "cancellation_state \<Rightarrow> bool" where
  "is_requested Active \<longleftrightarrow> False"
| "is_requested (Requested r) \<longleftrightarrow> True"

type_synonym cancellation_signal = "cancellation_request option"
type_synonym signal_store = "cancellation_signal list"

datatype cancellation_token = CancellationToken nat

primrec signal_of :: "cancellation_token \<Rightarrow> nat" where
  "signal_of (CancellationToken a) = a"

definition token_active :: "signal_store \<Rightarrow> cancellation_token \<times> signal_store" where
  "token_active st = (CancellationToken (length st), st @ [None])"

definition token_request :: "signal_store \<Rightarrow> cancellation_token \<Rightarrow> cancellation_request option" where
  "token_request st t = st ! signal_of t"

definition token_state :: "signal_store \<Rightarrow> cancellation_token \<Rightarrow> cancellation_state" where
  "token_state st t = (case token_request st t of None \<Rightarrow> Active | Some r \<Rightarrow> Requested r)"

definition is_cancelled :: "signal_store \<Rightarrow> cancellation_token \<Rightarrow> bool" where
  "is_cancelled st t \<longleftrightarrow> token_request st t \<noteq> None"

definition request_cancellation ::
  "cancellation_token \<Rightarrow> cancellation_request \<Rightarrow> signal_store \<Rightarrow> bool \<times> signal_store" where
  "request_cancellation t r st =
     (if st ! signal_of t \<noteq> None then (False, st)
      else (True, st[signal_of t := Some r]))"

definition token_cancelled ::
  "cancellation_request \<Rightarrow> signal_store \<Rightarrow> cancellation_token \<times> signal_store" where
  "token_cancelled r st =
     (let (t, st1) = token_active st; (_, st2) = request_cancellation t r st1 in (t, st2))"

text \<open>\<open>PartialEq\<close> for tokens compares what they currently show, not their identity.\<close>

definition token_eq :: "signal_store \<Rightarrow> cancellation_token \<Rightarrow> cancellation_token \<Rightarrow> bool" where
  "token_eq st t u \<longleftrightarrow> token_request st t = token_request st u"

datatype cancellation_handle = CancellationHandle cancellation_token

primrec handle_token :: "cancellation_handle \<Rightarrow> cancellation_token" where
  "handle_token (CancellationHandle t) = t"

definition new_handle :: "signal_store \<Rightarrow> cancellation_handle \<times> signal_store" where
  "new_handle st = (let (t, st') = token_active st in (CancellationHandle t, st'))"

definition cancel ::
  "cancellation_handle \<Rightarrow> cancellation_request \<Rightarrow> signal_store \<Rightarrow> bool \<times> signal_store" where
  "cancel h r st = request_cancellation (handle_token h) r st"

section \<open>Node contexts and lifecycle events\<close>

record node_context =
  context_workflow :: workflow_id
  context_node :: node_id
  context_execution :: execution_metadata
  context_token :: cancellation_token

definition new_node_context ::
  "workflow_id \<Rightarrow> node_id \<Rightarrow> execution_metadata \<Rightarrow> signal_store \<Rightarrow> node_context \<times> signal_store" where
  "new_node_context w n e st =
     (let (t, st') = token_active st
      in (\<lparr>context_workflow = w, context_node = n, context_execution = e, context_token = t\<rparr>, st'))"

definition with_cancellation ::
  "cancellation_request \<Rightarrow> node_context \<Rightarrow> signal_store \<Rightarrow> node_context \<times> signal_store" where
  "with_cancellation r ctx st =
     (let (t, st') = token_cancelled r st in (ctx\<lparr>context_token := t\<rparr>, st'))"

definition with_cancellation_token :: "cancellation_token \<Rightarrow> node_context \<Rightarrow> node_context" where
  "with_cancellation_token t ctx = ctx\<lparr>context_token := t\<rparr>"

definition context_cancellation :: "signal_store \<Rightarrow> node_context \<Rightarrow> cancellation_state" where
  "context_cancellation st ctx = token_state st (context_token ctx)"

datatype lifecycle_event_kind =
  NodeScheduled | NodeStarted | NodeCompleted | NodeFailed | NodeCancelled

record lifecycle_event =
  event_kind :: lifecycle_event_kind
  event_context :: node_context

section \<open>Messages\<close>

record message_endpoint =
  message_node :: node_id
  message_port :: port_id

record message_route =
  route_source :: "message_endpoint option"
  route_target :: message_endpoint

record message_metadata =
  message_id :: message_id
  message_workflow :: workflow_id
  message_execution :: execution_metadata
  message_route :: message_route

record 'p message_envelope =
  envelope_metadata :: message_metadata
  envelope_payload :: 'p

definition map_payload :: "('p \<Rightarrow> 'q) \<Rightarrow> 'p message_envelope \<Rightarrow> 'q message_envelope" where
  "map_payload f m = \<lparr>envelope_metadata = envelope_metadata m, envelope_payload = f (envelope_payload m)\<rparr>"

type_synonym 'n port_packet = "'n packet_payload message_envelope"

fun payload_as_bytes :: "'n packet_payload \<Rightarrow> char list option" where
  "payload_as_bytes (Bytes b) = Some b"
| "payload_as_bytes (ControlPayload v) = None"

fun payload_as_control :: "'n packet_payload \<Rightarrow> 'n json option" where
  "payload_as_control (Bytes b) = None"
| "payload_as_control (ControlPayload v) = Some v"

section \<open>Batches\<close>

text \<open>
  \<open>BatchInputs\<close> and \<open>BatchOutputs\<close> have the same operations over the same map, so one record models
  both.  \<open>entry(port).or_default().push(packet)\<close> is an insertion of the extended list.
\<close>

record 'n batch =
  packets_by_port :: "(port_id, 'n port_packet list) btree_map"

definition new_batch :: "'n batch" where
  "new_batch = \<lparr>packets_by_port = []\<rparr>"

definition batch_packets :: "'n batch \<Rightarrow> port_id \<Rightarrow> 'n port_packet list" where
  "batch_packets b p = (case map_of (packets_by_port b) p of None \<Rightarrow> [] | Some ps \<Rightarrow> ps)"

definition batch_push :: "port_id \<Rightarrow> 'n port_packet \<Rightarrow> 'n batch \<Rightarrow> 'n batch" where
  "batch_push p x b =
     b\<lparr>packets_by_port := bt_insert p (batch_packets b p @ [x]) (packets_by_port b)\<rparr>"

section \<open>Cancellation is sticky\<close>

text \<open>A sequence of cancellation requests on the tokens of a store, with the flags they return.\<close>

fun request_all ::
  "(cancellation_token \<times> cancellation_request) list \<Rightarrow> signal_store \<Rightarrow> bool list \<times> signal_store" where
  "request_all [] st = ([], st)"
| "request_all ((t, r) # ops) st =
     (let (b, st1) = request_cancellation t r st; (bs, st2) = request_all ops st1 in (b # bs, st2))"

definition token_valid :: "signal_store \<Rightarrow> cancellation_token \<Rightarrow> bool" where
  "token_valid st t \<longleftrightarrow> signal_of t < length st"

lemma signal_of_inject [simp]: "signal_of t = signal_of u \<longleftrightarrow> t = u"
  by (cases t; cases u) simp

lemma length_request_cancellation [simp]:
  "length (snd (request_cancellation t r st)) = length st"
  by (simp add: request_cancellation_def)

lemma token_request_after:
  assumes "token_valid st t"
  shows "token_request (snd (request_cancellation t r st)) u =
    (if u = t \<and> token_request st t = None then Some r else token_request st u)"
  using assms by (auto simp: token_request_def request_cancellation_def token_valid_def nth_list_update)

lemma request_all_length [simp]: "length (snd (request_all ops st)) = length st"
  by (induction ops st rule: request_all.induct)
    (auto split: prod.splits, metis length_request_cancellation snd_conv)

lemma token_active_fresh:
  assumes "token_active st = (t, st')"
  shows "token_valid st' t" "token_request st' t = None"
    "token_valid st u \<Longrightarrow> token_request st' u = token_request st u"
  using assms by (auto simp: token_active_def token_valid_def token_request_def nth_append)

lemma request_all_token_request:
  assumes "list_all (\<lambda>(t, r). token_valid st t) ops"
  shows "token_request (snd (request_all ops st)) u =
    (case token_request st u of Some r \<Rightarrow> Some r | None \<Rightarrow> map_of ops u)"
  using assms
proof (induction ops st rule: request_all.induct)
  case (2 t r ops st)
  have valid: "token_valid st t" using "2.prems" by simp
  obtain b st1 where b: "request_cancellation t r st = (b, st1)" by fastforce
  then have len: "length st1 = length st" by (metis length_request_cancellation snd_conv)
  have "list_all (\<lambda>(t, r). token_valid st1 t) ops"
    using "2.prems" len by (auto simp: list_all_iff token_valid_def)
  from "2.IH" [OF b [symmetric] refl this] token_request_after [OF valid, of r u] b show ?case
    by (auto split: prod.splits option.splits)
qed (simp split: option.splits)

lemma request_all_flags:
  assumes "list_all (\<lambda>(t, r). token_valid st t) ops" "i < length ops"
  shows "fst (request_all ops st) ! i \<longleftrightarrow>
    token_request st (fst (ops ! i)) = None \<and> fst (ops ! i) \<notin> fst ` set (take i ops)"
  using assms
proof (induction ops st arbitrary: i rule: request_all.induct)
  case (2 t r ops st)
  have valid: "token_valid st t" using "2.prems" by simp
  obtain b st1 where b: "request_cancellation t r st = (b, st1)" by fastforce
  then have len: "length st1 = length st" by (metis length_request_cancellation snd_conv)
  have all: "list_all (\<lambda>(t, r). token_valid st1 t) ops"
    using "2.prems" len by (auto simp: list_all_iff token_valid_def)
  have flag: "b \<longleftrightarrow> token_request st t = None"
    using b by (auto simp: request_cancellation_def token_request_def split: if_splits)
  have after: "token_request st1 u = (if u = t \<and> token_request st t = None then Some r else token_request st u)"
    for u using token_request_after [OF valid, of r u] b by simp
  show ?case
  proof (cases i)
    case 0
    then show ?thesis using b flag by (simp split: prod.splits)
  next
    case (Suc j)
    then show ?thesis
      using b after "2.IH" [OF b [symmetric] refl all, of j] "2.prems"
      by (auto split: prod.splits if_splits)
  qed
qed simp

text \<open>
  C19: whatever the interleaving of cancellation requests on the shared tokens, a token shows the
  request it already had or else the first one made on it, for good; the call that recorded it is
  the only one that returned true; and tokens with another signal are not affected.
\<close>

theorem cancellation_first_request_wins:
  assumes "list_all (\<lambda>(t, r). token_valid st t) ops"
  shows "token_request (snd (request_all ops st)) u =
      (case token_request st u of Some r \<Rightarrow> Some r | None \<Rightarrow> map_of ops u) \<and>
    list_all
      (\<lambda>i. fst (request_all ops st) ! i =
         (token_request st (fst (ops ! i)) = None \<and> fst (ops ! i) \<notin> fst ` set (take i ops)))
      [0..<length ops]"
  using request_all_token_request [OF assms] request_all_flags [OF assms]
  by (simp add: list_all_iff)

theorem cancellation_first_request_wins_witness:
  "let ops = [(CancellationToken 0, CancellationRequest ''a''), (CancellationToken 1, CancellationRequest ''b''),
              (CancellationToken 0, CancellationRequest ''c'')]
   in token_request (snd (request_all ops [None, None])) (CancellationToken 0)
        = Some (CancellationRequest ''a'') \<and>
      fst (request_all ops [None, None]) ! 0 \<and> \<not> fst (request_all ops [None, None]) ! 2"
proof -
  define ops where "ops = [(CancellationToken 0, CancellationRequest ''a''),
    (CancellationToken 1, CancellationRequest ''b''), (CancellationToken 0, CancellationRequest ''c'')]"
  have "list_all (\<lambda>(t, r). token_valid [None, None] t) ops"
    by (simp add: ops_def token_valid_def)
  from cancellation_first_request_wins [OF this, of "CancellationToken 0"]
  show ?thesis
    by (simp add: Let_def ops_def [symmetric])
      (simp add: ops_def token_request_def list_all_iff take_Cons' numeral_2_eq_2)
qed

section \<open>Batches keep the order of each port\<close>

lemma batch_packets_push:
  "batch_packets (batch_push p x b) q = (if q = p then batch_packets b p @ [x] else batch_packets b q)"
  by (simp add: batch_packets_def batch_push_def)

lemma batch_push_ok: "bt_ok (packets_by_port b) \<Longrightarrow> bt_ok (packets_by_port (batch_push p x b))"
  by (simp add: batch_push_def)

end
