(* ===== verification/Metadata.thy ===== *)
theory Metadata
  imports Core Rules
begin

text \<open>
  The module \<open>metadata.rs\<close> of \<open>pureflow-core\<close>: the facts that the runtime reports, the tiered sink that
  samples data facts, and the stable JSON projection written by the JSONL sink.

  A sink is state and a function that records one fact, returning \<open>Ok\<close> or an error and the new state;
  \<open>sink\<close> below is the type of such functions.  The number type of \<open>serde_json\<close> stays a parameter; \<open>mk\<close>
  is its construction from an unsigned integer.  Contexts hold tokens, so the projection reads the
  signal store.  Locks of the sinks are poisoned only by a panic in a holder, which the code holding
  them cannot do; poisoning is not modelled.
\<close>

section \<open>Records\<close>

datatype message_boundary_kind = Enqueued | Dequeued | Dropped

record message_boundary_record =
  boundary_kind :: message_boundary_kind
  boundary_metadata :: message_metadata

datatype queue_port_direction = QueueInput | QueueOutput

datatype queue_pressure_boundary_kind =
  ReceiveAttempted | ReceiveReady | ReceiveEmpty | ReceiveClosed
| ReserveAttempted | ReserveReady | ReserveFull | SendCommitted | SendDropped

record queue_pressure_record =
  queue_context :: "node_context option"
  queue_direction :: queue_port_direction
  queue_port :: port_id
  queue_kind :: queue_pressure_boundary_kind
  connected_edge_count :: nat
  queue_capacity :: "nat option"
  queued_count :: "nat option"

record deadlock_diagnostic_metadata =
  dm_scheduled_node_count :: nat
  dm_pending_node_count :: nat
  dm_completed_node_count :: nat
  dm_failed_node_count :: nat
  dm_cancelled_node_count :: nat
  dm_bounded_edge_count :: nat
  dm_no_progress_timeout_ms :: nat
  dm_cycle_policy :: string
  dm_feedback_loop_startup :: "string option"
  dm_feedback_loop_termination :: "string option"

definition new_deadlock_diagnostic_metadata ::
  "nat \<Rightarrow> nat \<Rightarrow> nat \<Rightarrow> nat \<Rightarrow> string \<Rightarrow> deadlock_diagnostic_metadata" where
  "new_deadlock_diagnostic_metadata scheduled pending edges timeout policy =
     \<lparr>dm_scheduled_node_count = scheduled, dm_pending_node_count = pending,
      dm_completed_node_count = 0, dm_failed_node_count = 0, dm_cancelled_node_count = 0,
      dm_bounded_edge_count = edges, dm_no_progress_timeout_ms = timeout, dm_cycle_policy = policy,
      dm_feedback_loop_startup = None, dm_feedback_loop_termination = None\<rparr>"

definition with_terminal_counts ::
  "nat \<Rightarrow> nat \<Rightarrow> nat \<Rightarrow> deadlock_diagnostic_metadata \<Rightarrow> deadlock_diagnostic_metadata" where
  "with_terminal_counts completed failed cancelled d =
     d\<lparr>dm_completed_node_count := completed, dm_failed_node_count := failed,
       dm_cancelled_node_count := cancelled\<rparr>"

definition with_feedback_loop ::
  "string \<Rightarrow> string \<Rightarrow> deadlock_diagnostic_metadata \<Rightarrow> deadlock_diagnostic_metadata" where
  "with_feedback_loop startup termination_policy d =
     d\<lparr>dm_feedback_loop_startup := Some startup,
       dm_feedback_loop_termination := Some termination_policy\<rparr>"

datatype error_diagnostic_metadata = WorkflowDeadlock deadlock_diagnostic_metadata

datatype error_metadata_kind = ErrorNodeFailed | ErrorWorkflowFailed

record error_metadata_record =
  error_kind :: error_metadata_kind
  error_workflow :: workflow_id
  error_node :: "node_id option"
  error_execution :: execution_metadata
  error_value :: pureflow_error
  error_diagnostic :: "error_diagnostic_metadata option"

definition node_failed :: "node_context \<Rightarrow> pureflow_error \<Rightarrow> error_metadata_record" where
  "node_failed ctx e =
     \<lparr>error_kind = ErrorNodeFailed, error_workflow = context_workflow ctx,
      error_node = Some (context_node ctx), error_execution = context_execution ctx,
      error_value = e, error_diagnostic = None\<rparr>"

definition workflow_failed ::
  "workflow_id \<Rightarrow> execution_metadata \<Rightarrow> pureflow_error \<Rightarrow> error_metadata_record" where
  "workflow_failed w x e =
     \<lparr>error_kind = ErrorWorkflowFailed, error_workflow = w, error_node = None, error_execution = x,
      error_value = e, error_diagnostic = None\<rparr>"

definition workflow_failed_with_diagnostic ::
  "workflow_id \<Rightarrow> execution_metadata \<Rightarrow> pureflow_error \<Rightarrow> error_diagnostic_metadata
   \<Rightarrow> error_metadata_record" where
  "workflow_failed_with_diagnostic w x e d =
     \<lparr>error_kind = ErrorWorkflowFailed, error_workflow = w, error_node = None, error_execution = x,
      error_value = e, error_diagnostic = Some d\<rparr>"

datatype external_effect_metadata_kind = EffectRequested | EffectCompleted | EffectFailed

record external_effect_metadata_record =
  effect_kind :: external_effect_metadata_kind
  effect_context :: node_context
  effect_capability_used :: effect_capability
  effect_operation :: string
  effect_target :: string
  effect_response_status :: "string option"

definition effect_requested ::
  "node_context \<Rightarrow> effect_capability \<Rightarrow> string \<Rightarrow> string \<Rightarrow> external_effect_metadata_record" where
  "effect_requested ctx e operation target =
     \<lparr>effect_kind = EffectRequested, effect_context = ctx, effect_capability_used = e,
      effect_operation = operation, effect_target = target, effect_response_status = None\<rparr>"

definition effect_completed ::
  "node_context \<Rightarrow> effect_capability \<Rightarrow> string \<Rightarrow> string \<Rightarrow> string \<Rightarrow> external_effect_metadata_record" where
  "effect_completed ctx e operation target status =
     \<lparr>effect_kind = EffectCompleted, effect_context = ctx, effect_capability_used = e,
      effect_operation = operation, effect_target = target, effect_response_status = Some status\<rparr>"

definition effect_failed ::
  "node_context \<Rightarrow> effect_capability \<Rightarrow> string \<Rightarrow> string \<Rightarrow> string option
   \<Rightarrow> external_effect_metadata_record" where
  "effect_failed ctx e operation target status =
     \<lparr>effect_kind = EffectFailed, effect_context = ctx, effect_capability_used = e,
      effect_operation = operation, effect_target = target, effect_response_status = status\<rparr>"

datatype rule_eval_strategy = EvalFirstMatch | EvalAllMatches | EvalScore

datatype rule_eval_action =
  EvalRoute port_id | EvalDrop | EvalDeadLetter string | EvalTag string string | EvalHalt string
| EvalDefault

record 'n rule_eval_record =
  re_node_id :: node_id
  re_workflow_id :: workflow_id
  re_execution :: execution_metadata
  re_rule_set_id :: string
  re_strategy :: rule_eval_strategy
  re_matched_rule :: "string option"
  re_action_taken :: rule_eval_action
  re_rules_evaluated :: nat
  re_tags_applied :: "(string \<times> 'n json) list"
  re_source_node :: "node_id option"
  re_arrival_port :: "port_id option"
  re_hop_count :: nat
  re_tags_present_at_eval :: "(string \<times> 'n json) list"
  re_conditions_evaluated :: "condition_trace list"

datatype 'n metadata_record =
  ExecutionContextRecord node_context
| LifecycleRecord lifecycle_event
| MessageRecord message_boundary_record
| QueuePressureRecord queue_pressure_record
| ErrorRecord error_metadata_record
| ExternalEffectRecord external_effect_metadata_record
| RuleEvalRecord "'n rule_eval_record"

section \<open>Sinks\<close>

type_synonym ('n, 's) sink =
  "'n metadata_record \<Rightarrow> 's \<Rightarrow> (unit, pureflow_error) result \<times> 's"

definition noop_sink :: "('n, 's) sink" where
  "noop_sink r s = (Ok (), s)"

datatype metadata_tier = ControlTier | DataTier | HighCostDataTier

record tiered_metadata_policy =
  data_sample_rate :: "nat option"
  record_high_cost_data :: bool

definition control_only :: tiered_metadata_policy where
  "control_only = \<lparr>data_sample_rate = None, record_high_cost_data = False\<rparr>"

definition record_data :: tiered_metadata_policy where
  "record_data = \<lparr>data_sample_rate = Some 1, record_high_cost_data = False\<rparr>"

definition sample_data_every :: "nat \<Rightarrow> tiered_metadata_policy" where
  "sample_data_every rate = \<lparr>data_sample_rate = Some rate, record_high_cost_data = False\<rparr>"

definition with_high_cost_data :: "tiered_metadata_policy \<Rightarrow> tiered_metadata_policy" where
  "with_high_cost_data p = p\<lparr>record_high_cost_data := True\<rparr>"

text \<open>\<open>usize\<close> is 64 bits wide on the supported targets.\<close>

definition USIZE_MAX :: nat where
  "USIZE_MAX = 2 ^ 64 - 1"

definition saturating_add :: "nat \<Rightarrow> nat \<Rightarrow> nat" where
  "saturating_add a b = min USIZE_MAX (a + b)"

definition should_record_data :: "tiered_metadata_policy \<Rightarrow> nat \<Rightarrow> bool" where
  "should_record_data p ordinal \<longleftrightarrow>
     (case data_sample_rate p of None \<Rightarrow> False | Some rate \<Rightarrow> ordinal mod rate = 0)"

record 's tiered_sink =
  inner_state :: 's
  policy :: tiered_metadata_policy
  data_seen :: nat

definition tiered_with_policy :: "'s \<Rightarrow> tiered_metadata_policy \<Rightarrow> 's tiered_sink" where
  "tiered_with_policy s p = \<lparr>inner_state = s, policy = p, data_seen = 0\<rparr>"

fun should_record :: "metadata_tier \<Rightarrow> 's tiered_sink \<Rightarrow> bool \<times> 's tiered_sink" where
  "should_record ControlTier t = (True, t)"
| "should_record DataTier t =
     (should_record_data (policy t) (data_seen t),
      t\<lparr>data_seen := saturating_add (data_seen t) 1\<rparr>)"
| "should_record HighCostDataTier t = (record_high_cost_data (policy t), t)"

definition record_with_tier ::
  "('n, 's) sink \<Rightarrow> metadata_tier \<Rightarrow> 'n metadata_record \<Rightarrow> 's tiered_sink
   \<Rightarrow> (unit, pureflow_error) result \<times> 's tiered_sink" where
  "record_with_tier inner tier r t =
     (let (keep, t1) = should_record tier t
      in if keep then let (res, s) = inner r (inner_state t1) in (res, t1\<lparr>inner_state := s\<rparr>)
         else (Ok (), t1))"

definition tiered_record :: "('n, 's) sink \<Rightarrow> ('n, 's tiered_sink) sink" where
  "tiered_record inner r t = record_with_tier inner ControlTier r t"

section \<open>Sampling\<close>

text \<open>A sequence of facts with their tiers offered to a tiered sink, and the facts it forwards.\<close>

definition offer_all ::
  "('n, 's) sink \<Rightarrow> (metadata_tier \<times> 'n metadata_record) list \<Rightarrow> 's tiered_sink \<Rightarrow> 's tiered_sink" where
  "offer_all inner xs t = fold (\<lambda>(tier, r) t. snd (record_with_tier inner tier r t)) xs t"

definition data_count :: "(metadata_tier \<times> 'n metadata_record) list \<Rightarrow> nat" where
  "data_count xs = length (filter (\<lambda>x. fst x = DataTier) xs)"

fun forwards :: "tiered_metadata_policy \<Rightarrow> metadata_tier \<Rightarrow> nat \<Rightarrow> bool" where
  "forwards p ControlTier n \<longleftrightarrow> True"
| "forwards p DataTier n \<longleftrightarrow> (\<exists>rate. data_sample_rate p = Some rate \<and> rate dvd n)"
| "forwards p HighCostDataTier n \<longleftrightarrow> record_high_cost_data p"

definition forwarded ::
  "tiered_metadata_policy \<Rightarrow> (metadata_tier \<times> 'n metadata_record) list \<Rightarrow> 'n metadata_record list" where
  "forwarded p xs =
     map (\<lambda>i. snd (xs ! i))
       (filter (\<lambda>i. forwards p (fst (xs ! i)) (data_count (take i xs))) [0..<length xs])"

lemma forwarded_Nil [simp]: "forwarded p [] = []"
  by (simp add: forwarded_def)

lemma forwarded_snoc:
  "forwarded p (xs @ [x]) =
     forwarded p xs @ (if forwards p (fst x) (data_count xs) then [snd x] else [])"
proof -
  have "filter (\<lambda>i. forwards p (fst ((xs @ [x]) ! i)) (data_count (take i (xs @ [x])))) [0..<length xs] =
        filter (\<lambda>i. forwards p (fst (xs ! i)) (data_count (take i xs))) [0..<length xs]"
    by (rule filter_cong) (auto simp: nth_append)
  moreover have "map (\<lambda>i. snd ((xs @ [x]) ! i))
      (filter (\<lambda>i. forwards p (fst (xs ! i)) (data_count (take i xs))) [0..<length xs]) =
    map (\<lambda>i. snd (xs ! i))
      (filter (\<lambda>i. forwards p (fst (xs ! i)) (data_count (take i xs))) [0..<length xs])"
    by (rule map_cong) (auto simp: nth_append)
  ultimately show ?thesis by (simp add: forwarded_def)
qed

lemma data_count_simps [simp]:
  "data_count [] = 0"
  "data_count (xs @ [x]) = data_count xs + (if fst x = DataTier then 1 else 0)"
  by (auto simp: data_count_def)

lemma should_record_data_forwards: "should_record_data p n \<longleftrightarrow> forwards p DataTier n"
  by (auto simp: should_record_data_def mod_eq_0_iff_dvd split: option.splits)

lemma record_with_tier_state:
  assumes "data_seen t < USIZE_MAX"
  shows "snd (record_with_tier inner tier r t) =
    \<lparr>inner_state = (if forwards (policy t) tier (data_seen t) then snd (inner r (inner_state t))
                    else inner_state t),
     policy = policy t,
     data_seen = data_seen t + (if tier = DataTier then 1 else 0)\<rparr>"
  using assms
  by (cases tier)
    (auto simp: record_with_tier_def should_record_data_forwards saturating_add_def
      simp del: forwards.simps(2) split: prod.splits)

lemma offer_all_state:
  assumes "data_count xs < USIZE_MAX"
  shows "offer_all inner xs (tiered_with_policy s p) =
    \<lparr>inner_state = fold (\<lambda>r s. snd (inner r s)) (forwarded p xs) s, policy = p,
     data_seen = data_count xs\<rparr>"
  using assms
proof (induction xs rule: rev_induct)
  case Nil
  then show ?case by (simp add: offer_all_def tiered_with_policy_def)
next
  case (snoc x xs)
  then show ?case
    by (cases x) (simp add: offer_all_def record_with_tier_state forwarded_snoc split: if_splits)
qed

text \<open>A sink that keeps what it is given, as the collecting sinks of the code base do.\<close>

definition collecting_sink :: "('n, 'n metadata_record list) sink" where
  "collecting_sink r s = (Ok (), s @ [r])"

lemma collecting_sink_fold: "fold (\<lambda>r s. snd (collecting_sink r s)) rs s = s @ rs"
  by (induction rs arbitrary: s) (auto simp: collecting_sink_def)

lemma sampled_count:
  assumes "0 < rate"
  shows "length (filter (\<lambda>i. rate dvd i) [0..<n]) = (n + rate - 1) div rate"
proof (induction n)
  case 0
  then show ?case using assms by simp
next
  case (Suc n)
  show ?case
  proof (cases "rate dvd n")
    case True
    then obtain k where k: "n = rate * k" by blast
    have "n + rate - 1 = rate * k + (rate - 1)" "Suc n + rate - 1 = rate * k + rate"
      using k assms by simp_all
    moreover have "(rate * k + (rate - 1)) div rate = k"
      by (rule div_nat_eqI) (use assms in auto)
    moreover have "(rate * k + rate) div rate = Suc k" using assms by simp
    ultimately show ?thesis using Suc True by simp
  next
    case False
    have "n mod rate > 0" using False by (simp add: mod_greater_zero_iff_not_dvd)
    moreover have "(n + (rate - 1)) div rate = n div rate + (n mod rate + (rate - 1)) div rate"
      by (metis div_add_self1 div_mult_mod_eq div_mult_self3 add.assoc assms less_numeral_extra(3))
    moreover have "(n + rate) div rate = Suc (n div rate)" using assms by simp
    moreover have "(n mod rate + (rate - 1)) div rate = 1"
      by (rule div_nat_eqI) (use assms \<open>n mod rate > 0\<close> mod_less_divisor [OF assms, of n] in auto)
    moreover have "n + rate - 1 = n + (rate - 1)" "Suc n + rate - 1 = n + rate"
      using assms by simp_all
    ultimately show ?thesis using Suc False by simp
  qed
qed

lemma sampled_positions:
  assumes "data_sample_rate p = Some rate"
  shows "length (filter (\<lambda>i. fst (xs ! i) = DataTier \<and> forwards p DataTier (data_count (take i xs)))
      [0..<length xs]) = length (filter (\<lambda>i. rate dvd i) [0..<data_count xs])"
proof (induction xs rule: rev_induct)
  case (snoc x xs)
  have "filter (\<lambda>i. fst ((xs @ [x]) ! i) = DataTier \<and>
        forwards p DataTier (data_count (take i (xs @ [x])))) [0..<length xs] =
      filter (\<lambda>i. fst (xs ! i) = DataTier \<and> forwards p DataTier (data_count (take i xs))) [0..<length xs]"
    by (rule filter_cong) (auto simp: nth_append)
  then show ?case using snoc assms by simp
qed simp

text \<open>
  the tiered sink hands to the sink it wraps, in order, every control fact, exactly those data
  facts whose ordinal among the data facts is a multiple of the sample rate, and the high-cost facts
  when the policy says so; of \<open>n\<close> data facts it forwards \<open>n\<close> divided by the rate, rounded up.  (The
  counter saturates, so this is stated below the maximum of \<open>usize\<close>.)
\<close>

theorem tiered_sink_samples:
  assumes "data_count xs < USIZE_MAX"
    and "data_sample_rate p = Some rate" and "0 < rate"
  shows "inner_state (offer_all inner xs (tiered_with_policy s p)) =
      fold (\<lambda>r s. snd (inner r s)) (forwarded p xs) s \<and>
    length (filter (\<lambda>i. fst (xs ! i) = DataTier \<and> forwards p DataTier (data_count (take i xs)))
      [0..<length xs]) = (data_count xs + rate - 1) div rate"
  using offer_all_state [OF assms(1), of inner s p] sampled_positions [OF assms(2), of xs]
    sampled_count [OF assms(3)]
  by simp

definition sample_context :: node_context where
  "sample_context =
     \<lparr>context_workflow = WorkflowId ''flow'', context_node = NodeId ''n'',
      context_execution = first_attempt (ExecutionId ''run''), context_token = CancellationToken 0\<rparr>"

theorem tiered_sink_samples_witness:
  "let r = (ExecutionContextRecord sample_context :: unit metadata_record);
       xs = [(DataTier, r), (ControlTier, r), (DataTier, r), (DataTier, r)]
   in inner_state (offer_all collecting_sink xs (tiered_with_policy [] (sample_data_every 2))) =
        [] @ forwarded (sample_data_every 2) xs \<and>
      length (filter (\<lambda>i. fst (xs ! i) = DataTier \<and>
        forwards (sample_data_every 2) DataTier (data_count (take i xs))) [0..<length xs]) = 2"
proof -
  define r where "r = (ExecutionContextRecord sample_context :: unit metadata_record)"
  define xs where "xs = [(DataTier, r), (ControlTier, r), (DataTier, r), (DataTier, r)]"
  have n: "data_count xs = 3" by (simp add: xs_def data_count_def)
  have "data_count xs < USIZE_MAX" unfolding n by (simp add: USIZE_MAX_def)
  moreover have "data_sample_rate (sample_data_every 2) = Some 2" by (simp add: sample_data_every_def)
  ultimately show ?thesis
    unfolding Let_def r_def [symmetric] xs_def [symmetric]
    using tiered_sink_samples [of xs "sample_data_every 2" 2 collecting_sink "[]"] n
    by (simp add: collecting_sink_fold)
qed

section \<open>JSON projection\<close>

text \<open>
  \<open>json!({..})\<close> builds a \<open>serde_json::Map\<close>, which is ordered by key.  \<open>mk\<close> makes a number from an
  unsigned integer.
\<close>

definition json_object :: "(string \<times> 'n json) list \<Rightarrow> 'n json" where
  "json_object kvs = JObject (bt_from_list kvs)"

fun json_option :: "('a \<Rightarrow> 'n json) \<Rightarrow> 'a option \<Rightarrow> 'n json" where
  "json_option f None = JNull"
| "json_option f (Some a) = f a"

fun lifecycle_event_kind_label :: "lifecycle_event_kind \<Rightarrow> string" where
  "lifecycle_event_kind_label NodeScheduled = ''node_scheduled''"
| "lifecycle_event_kind_label NodeStarted = ''node_started''"
| "lifecycle_event_kind_label NodeCompleted = ''node_completed''"
| "lifecycle_event_kind_label NodeFailed = ''node_failed''"
| "lifecycle_event_kind_label NodeCancelled = ''node_cancelled''"

fun message_boundary_kind_label :: "message_boundary_kind \<Rightarrow> string" where
  "message_boundary_kind_label Enqueued = ''enqueued''"
| "message_boundary_kind_label Dequeued = ''dequeued''"
| "message_boundary_kind_label Dropped = ''dropped''"

fun queue_port_direction_label :: "queue_port_direction \<Rightarrow> string" where
  "queue_port_direction_label QueueInput = ''input''"
| "queue_port_direction_label QueueOutput = ''output''"

fun queue_pressure_boundary_kind_label :: "queue_pressure_boundary_kind \<Rightarrow> string" where
  "queue_pressure_boundary_kind_label ReceiveAttempted = ''receive_attempted''"
| "queue_pressure_boundary_kind_label ReceiveReady = ''receive_ready''"
| "queue_pressure_boundary_kind_label ReceiveEmpty = ''receive_empty''"
| "queue_pressure_boundary_kind_label ReceiveClosed = ''receive_closed''"
| "queue_pressure_boundary_kind_label ReserveAttempted = ''reserve_attempted''"
| "queue_pressure_boundary_kind_label ReserveReady = ''reserve_ready''"
| "queue_pressure_boundary_kind_label ReserveFull = ''reserve_full''"
| "queue_pressure_boundary_kind_label SendCommitted = ''send_committed''"
| "queue_pressure_boundary_kind_label SendDropped = ''send_dropped''"

fun error_metadata_kind_label :: "error_metadata_kind \<Rightarrow> string" where
  "error_metadata_kind_label ErrorNodeFailed = ''node_failed''"
| "error_metadata_kind_label ErrorWorkflowFailed = ''workflow_failed''"

fun external_effect_metadata_kind_label :: "external_effect_metadata_kind \<Rightarrow> string" where
  "external_effect_metadata_kind_label EffectRequested = ''external_effect_requested''"
| "external_effect_metadata_kind_label EffectCompleted = ''external_effect_completed''"
| "external_effect_metadata_kind_label EffectFailed = ''external_effect_failed''"

fun error_visibility_label :: "error_visibility \<Rightarrow> string" where
  "error_visibility_label UserVisible = ''user''"
| "error_visibility_label InternalVisible = ''internal''"

fun retry_disposition_label :: "retry_disposition \<Rightarrow> string" where
  "retry_disposition_label RetryNever = ''never''"
| "retry_disposition_label RetrySafe = ''safe''"
| "retry_disposition_label RetryUnknown = ''unknown''"

fun rule_eval_strategy_label :: "rule_eval_strategy \<Rightarrow> string" where
  "rule_eval_strategy_label EvalFirstMatch = ''first_match''"
| "rule_eval_strategy_label EvalAllMatches = ''all_matches''"
| "rule_eval_strategy_label EvalScore = ''score''"

fun condition_surface_record_label :: "condition_surface \<Rightarrow> string" where
  "condition_surface_record_label PayloadSurface = ''payload''"
| "condition_surface_record_label TagSurface = ''tag''"
| "condition_surface_record_label ProvenanceSurface = ''provenance''"
| "condition_surface_record_label ExecutionContextSurface = ''execution_context''"
| "condition_surface_record_label CombinatorSurface = ''combinator''"
| "condition_surface_record_label ConstantSurface = ''constant''"

definition execution_metadata_to_json_value :: "(nat \<Rightarrow> 'n) \<Rightarrow> execution_metadata \<Rightarrow> 'n json" where
  "execution_metadata_to_json_value mk x =
     json_object [(''execution_id'', JString (execution_id_str (execution_id x))),
                  (''attempt'', JNumber (mk (attempt_get (attempt x))))]"

fun cancellation_state_to_json_value :: "cancellation_state \<Rightarrow> 'n json" where
  "cancellation_state_to_json_value Active = json_object [(''state'', JString ''active'')]"
| "cancellation_state_to_json_value (Requested r) =
     json_object [(''state'', JString ''requested''), (''reason'', JString (reason r))]"

definition node_context_to_json_value ::
  "(nat \<Rightarrow> 'n) \<Rightarrow> signal_store \<Rightarrow> node_context \<Rightarrow> 'n json" where
  "node_context_to_json_value mk st c =
     json_object [(''workflow_id'', JString (workflow_id_str (context_workflow c))),
                  (''node_id'', JString (node_id_str (context_node c))),
                  (''execution'', execution_metadata_to_json_value mk (context_execution c)),
                  (''cancellation'', cancellation_state_to_json_value (context_cancellation st c))]"

definition message_endpoint_to_json_value :: "message_endpoint \<Rightarrow> 'n json" where
  "message_endpoint_to_json_value e =
     json_object [(''node_id'', JString (node_id_str (message_node e))),
                  (''port_id'', JString (port_id_str (message_port e)))]"

definition message_route_to_json_value :: "message_route \<Rightarrow> 'n json" where
  "message_route_to_json_value r =
     json_object [(''source'', json_option message_endpoint_to_json_value (route_source r)),
                  (''target'', message_endpoint_to_json_value (route_target r))]"

definition message_metadata_to_json_value :: "(nat \<Rightarrow> 'n) \<Rightarrow> message_metadata \<Rightarrow> 'n json" where
  "message_metadata_to_json_value mk m =
     json_object [(''message_id'', JString (message_id_str (message_id m))),
                  (''workflow_id'', JString (workflow_id_str (message_workflow m))),
                  (''execution'', execution_metadata_to_json_value mk (message_execution m)),
                  (''route'', message_route_to_json_value (message_route m))]"

definition pureflow_error_to_json_value :: "pureflow_error \<Rightarrow> 'n json" where
  "pureflow_error_to_json_value e =
     json_object [(''code'', JString (error_code_str (error_code_of e))),
                  (''message'', JString (show_pureflow_error e)),
                  (''visibility'', JString (error_visibility_label (visibility e))),
                  (''retry_disposition'', JString (retry_disposition_label (retry_disposition_of e)))]"

fun error_diagnostic_metadata_to_json_value :: "(nat \<Rightarrow> 'n) \<Rightarrow> error_diagnostic_metadata \<Rightarrow> 'n json" where
  "error_diagnostic_metadata_to_json_value mk (WorkflowDeadlock d) =
     json_object [(''type'', JString ''workflow_deadlock''),
                  (''scheduled_node_count'', JNumber (mk (dm_scheduled_node_count d))),
                  (''pending_node_count'', JNumber (mk (dm_pending_node_count d))),
                  (''completed_node_count'', JNumber (mk (dm_completed_node_count d))),
                  (''failed_node_count'', JNumber (mk (dm_failed_node_count d))),
                  (''cancelled_node_count'', JNumber (mk (dm_cancelled_node_count d))),
                  (''bounded_edge_count'', JNumber (mk (dm_bounded_edge_count d))),
                  (''no_progress_timeout_ms'', JNumber (mk (dm_no_progress_timeout_ms d))),
                  (''cycle_policy'', JString (dm_cycle_policy d)),
                  (''feedback_loop_startup'', json_option JString (dm_feedback_loop_startup d)),
                  (''feedback_loop_termination'', json_option JString (dm_feedback_loop_termination d))]"

fun rule_eval_action_to_json_value :: "rule_eval_action \<Rightarrow> 'n json" where
  "rule_eval_action_to_json_value (EvalRoute p) =
     json_object [(''kind'', JString ''route''), (''port'', JString (port_id_str p))]"
| "rule_eval_action_to_json_value EvalDrop = json_object [(''kind'', JString ''drop'')]"
| "rule_eval_action_to_json_value (EvalDeadLetter r) =
     json_object [(''kind'', JString ''dead_letter''), (''reason'', JString r)]"
| "rule_eval_action_to_json_value (EvalTag k v) =
     json_object [(''kind'', JString ''tag''), (''key'', JString k), (''value'', JString v)]"
| "rule_eval_action_to_json_value (EvalHalt m) =
     json_object [(''kind'', JString ''halt''), (''message'', JString m)]"
| "rule_eval_action_to_json_value EvalDefault = json_object [(''kind'', JString ''default'')]"

definition condition_trace_to_json_value :: "condition_trace \<Rightarrow> 'n json" where
  "condition_trace_to_json_value t =
     json_object [(''rule_id'', JString (trace_rule_id t)),
                  (''condition'', JString (trace_description t)),
                  (''matched'', JBool (trace_matched t)),
                  (''surface'', JString (condition_surface_record_label (trace_surface t)))]"

definition tag_to_json_value :: "string \<times> 'n json \<Rightarrow> 'n json" where
  "tag_to_json_value kv = json_object [(''key'', JString (fst kv)), (''value'', snd kv)]"

fun metadata_record_to_json_value ::
  "(nat \<Rightarrow> 'n) \<Rightarrow> signal_store \<Rightarrow> 'n metadata_record \<Rightarrow> 'n json" where
  "metadata_record_to_json_value mk st (ExecutionContextRecord c) =
     json_object [(''record_type'', JString ''execution_context''),
                  (''kind'', JString ''execution_context''),
                  (''context'', node_context_to_json_value mk st c)]"
| "metadata_record_to_json_value mk st (LifecycleRecord e) =
     json_object [(''record_type'', JString ''lifecycle''),
                  (''kind'', JString (lifecycle_event_kind_label (event_kind e))),
                  (''context'', node_context_to_json_value mk st (event_context e))]"
| "metadata_record_to_json_value mk st (MessageRecord m) =
     json_object [(''record_type'', JString ''message''),
                  (''kind'', JString (message_boundary_kind_label (boundary_kind m))),
                  (''message'', message_metadata_to_json_value mk (boundary_metadata m))]"
| "metadata_record_to_json_value mk st (QueuePressureRecord q) =
     json_object [(''record_type'', JString ''queue_pressure''),
                  (''kind'', JString (queue_pressure_boundary_kind_label (queue_kind q))),
                  (''direction'', JString (queue_port_direction_label (queue_direction q))),
                  (''port_id'', JString (port_id_str (queue_port q))),
                  (''context'', json_option (node_context_to_json_value mk st) (queue_context q)),
                  (''connected_edge_count'', JNumber (mk (connected_edge_count q))),
                  (''capacity'', json_option (\<lambda>n. JNumber (mk n)) (queue_capacity q)),
                  (''queued_count'', json_option (\<lambda>n. JNumber (mk n)) (queued_count q))]"
| "metadata_record_to_json_value mk st (ErrorRecord e) =
     json_object [(''record_type'', JString ''error''),
                  (''kind'', JString (error_metadata_kind_label (error_kind e))),
                  (''workflow_id'', JString (workflow_id_str (error_workflow e))),
                  (''node_id'', json_option (\<lambda>n. JString (node_id_str n)) (error_node e)),
                  (''execution'', execution_metadata_to_json_value mk (error_execution e)),
                  (''error'', pureflow_error_to_json_value (error_value e)),
                  (''diagnostic'', json_option (error_diagnostic_metadata_to_json_value mk) (error_diagnostic e))]"
| "metadata_record_to_json_value mk st (ExternalEffectRecord e) =
     json_object [(''record_type'', JString ''external_effect''),
                  (''kind'', JString (external_effect_metadata_kind_label (effect_kind e))),
                  (''context'', node_context_to_json_value mk st (effect_context e)),
                  (''effect'', JString (effect_as_str (effect_capability_used e))),
                  (''operation'', JString (effect_operation e)),
                  (''target'', JString (effect_target e)),
                  (''response_status'', json_option JString (effect_response_status e))]"
| "metadata_record_to_json_value mk st (RuleEvalRecord r) =
     json_object [(''record_type'', JString ''rule_eval''),
                  (''node_id'', JString (node_id_str (re_node_id r))),
                  (''workflow_id'', JString (workflow_id_str (re_workflow_id r))),
                  (''execution'', execution_metadata_to_json_value mk (re_execution r)),
                  (''rule_set_id'', JString (re_rule_set_id r)),
                  (''strategy'', JString (rule_eval_strategy_label (re_strategy r))),
                  (''matched_rule'', json_option JString (re_matched_rule r)),
                  (''action_taken'', rule_eval_action_to_json_value (re_action_taken r)),
                  (''rules_evaluated'', JNumber (mk (re_rules_evaluated r))),
                  (''tags_applied'', JArray (map tag_to_json_value (re_tags_applied r))),
                  (''source_node'', json_option (\<lambda>n. JString (node_id_str n)) (re_source_node r)),
                  (''arrival_port'', json_option (\<lambda>p. JString (port_id_str p)) (re_arrival_port r)),
                  (''hop_count'', JNumber (mk (re_hop_count r))),
                  (''tags_present_at_eval'', JArray (map tag_to_json_value (re_tags_present_at_eval r))),
                  (''conditions_evaluated'', JArray (map condition_trace_to_json_value (re_conditions_evaluated r)))]"

text \<open>
  The JSONL sink: one line per record.  The encoder \<open>serde_json::to_writer\<close> and the writer are
  parameters: \<open>encode\<close> gives the text of a value, \<open>write\<close> appends to the writer or fails with the text
  of the I/O error.
\<close>

definition jsonl_record ::
  "(nat \<Rightarrow> 'n) \<Rightarrow> ('n json \<Rightarrow> string) \<Rightarrow> (string \<Rightarrow> 'w \<Rightarrow> (unit, string) result \<times> 'w) \<Rightarrow> signal_store
   \<Rightarrow> ('n, 'w) sink" where
  "jsonl_record mk encode write st r w =
     (let (res, w1) = write (encode (metadata_record_to_json_value mk st r)) w
      in case map_err (\<lambda>m. Metadata (''failed to encode metadata JSONL record: '' @ m)) res of
           Ok _ \<Rightarrow>
             let (res2, w2) = write [char_of (10::nat)] w1
             in (map_err (\<lambda>m. Metadata (''failed to write metadata JSONL newline: '' @ m)) res2, w2)
         | e \<Rightarrow> (e, w1))"

section \<open>The projection loses nothing but identity of tokens\<close>

lemma json_get_json_object: "json_get (json_object kvs) k = map_of (rev kvs) k"
  by (simp add: json_object_def map_of_bt_from_list)

lemma json_object_inject:
  assumes "map fst kvs = map fst lvs" "distinct (map fst kvs)"
  shows "json_object kvs = json_object lvs \<longleftrightarrow> map snd kvs = map snd lvs"
proof
  assume eq: "json_object kvs = json_object lvs"
  have "set kvs = set lvs"
    using eq bt_from_list_lookup [of kvs] bt_from_list_lookup [of lvs] assms
    by (auto simp: json_object_def set_eq_iff)
  show "map snd kvs = map snd lvs"
  proof (rule nth_equalityI)
    show len: "length (map snd kvs) = length (map snd lvs)" using assms(1) by (metis length_map)
    fix i assume i: "i < length (map snd kvs)"
    have "lvs ! i \<in> set kvs" using i len \<open>set kvs = set lvs\<close> by simp
    moreover have "fst (lvs ! i) = fst (kvs ! i)" using assms(1) i len by (metis length_map nth_map)
    ultimately have "lvs ! i = kvs ! i"
      using assms(2) i by (metis eq_key_imp_eq_value length_map nth_mem prod.collapse)
    then show "map snd kvs ! i = map snd lvs ! i" using i len by simp
  qed
next
  assume "map snd kvs = map snd lvs"
  with assms(1) have "kvs = lvs" by (metis zip_map_fst_snd)
  then show "json_object kvs = json_object lvs" by simp
qed

lemma json_option_inject:
  assumes "\<And>a. f a \<noteq> JNull" "\<And>a b. f a = f b \<longleftrightarrow> R a b"
  shows "json_option f x = json_option f y \<longleftrightarrow> rel_option R x y"
  using assms assms(1) [THEN not_sym] by (cases x; cases y) auto

lemma json_object_not_null [simp]: "json_object kvs \<noteq> JNull"
  by (simp add: json_object_def)

lemma id_str_inject [simp]:
  "workflow_id_str a = workflow_id_str b \<longleftrightarrow> a = b"
  "execution_id_str c = execution_id_str d \<longleftrightarrow> c = d"
  "message_id_str e = message_id_str f \<longleftrightarrow> e = f"
  subgoal by (cases a; cases b) simp
  subgoal by (cases c; cases d) simp
  subgoal by (cases e; cases f) simp
  done

lemma label_inject [simp]:
  "lifecycle_event_kind_label k1 = lifecycle_event_kind_label k2 \<longleftrightarrow> k1 = k2"
  "message_boundary_kind_label m1 = message_boundary_kind_label m2 \<longleftrightarrow> m1 = m2"
  "queue_port_direction_label d1 = queue_port_direction_label d2 \<longleftrightarrow> d1 = d2"
  "queue_pressure_boundary_kind_label q1 = queue_pressure_boundary_kind_label q2 \<longleftrightarrow> q1 = q2"
  "error_metadata_kind_label e1 = error_metadata_kind_label e2 \<longleftrightarrow> e1 = e2"
  "external_effect_metadata_kind_label x1 = external_effect_metadata_kind_label x2 \<longleftrightarrow> x1 = x2"
  "rule_eval_strategy_label s1 = rule_eval_strategy_label s2 \<longleftrightarrow> s1 = s2"
  "condition_surface_record_label c1 = condition_surface_record_label c2 \<longleftrightarrow> c1 = c2"
  "effect_as_str f1 = effect_as_str f2 \<longleftrightarrow> f1 = f2"
  subgoal by (cases k1; cases k2) simp_all
  subgoal by (cases m1; cases m2) simp_all
  subgoal by (cases d1; cases d2) simp_all
  subgoal by (cases q1; cases q2) simp_all
  subgoal by (cases e1; cases e2) simp_all
  subgoal by (cases x1; cases x2) simp_all
  subgoal by (cases s1; cases s2) simp_all
  subgoal by (cases c1; cases c2) simp_all
  subgoal by (cases f1; cases f2) simp_all
  done

lemma execution_json_inject:
  assumes "inj mk"
  shows "execution_metadata_to_json_value mk a = execution_metadata_to_json_value mk b \<longleftrightarrow> a = b"
proof -
  have "attempt_get (attempt a) = attempt_get (attempt b) \<longleftrightarrow> attempt a = attempt b"
    by (cases "attempt a"; cases "attempt b") simp
  then show ?thesis
    using assms by (auto simp: execution_metadata_to_json_value_def json_object_inject inj_eq)
qed

lemma state_json_inject [simp]:
  "cancellation_state_to_json_value a = (cancellation_state_to_json_value b :: 'n json) \<longleftrightarrow> a = b"
proof -
  have "json_get (cancellation_state_to_json_value s :: 'n json) ''reason'' =
      (case s of Active \<Rightarrow> None | Requested r \<Rightarrow> Some (JString (reason r)))" for s
    by (cases s) (simp_all add: json_get_json_object)
  then have "cancellation_state_to_json_value a = (cancellation_state_to_json_value b :: 'n json) \<Longrightarrow>
      (case a of Active \<Rightarrow> None | Requested r \<Rightarrow> Some (JString (reason r) :: 'n json)) =
      (case b of Active \<Rightarrow> None | Requested r \<Rightarrow> Some (JString (reason r)))"
    by metis
  moreover have "reason x = reason y \<longleftrightarrow> x = y" for x y by (cases x; cases y) simp
  ultimately show ?thesis by (cases a; cases b) auto
qed

definition same_context :: "signal_store \<Rightarrow> node_context \<Rightarrow> node_context \<Rightarrow> bool" where
  "same_context st a b \<longleftrightarrow>
     context_workflow a = context_workflow b \<and> context_node a = context_node b \<and>
     context_execution a = context_execution b \<and>
     context_cancellation st a = context_cancellation st b"

lemma context_json_inject:
  assumes "inj mk"
  shows "node_context_to_json_value mk st a = node_context_to_json_value mk st b \<longleftrightarrow> same_context st a b"
  using execution_json_inject [OF assms]
  by (auto simp: node_context_to_json_value_def json_object_inject same_context_def)

lemma endpoint_json_inject:
  "message_endpoint_to_json_value a = message_endpoint_to_json_value b \<longleftrightarrow> a = b"
  by (auto simp: message_endpoint_to_json_value_def json_object_inject)

lemma endpoint_option_json_inject:
  "json_option message_endpoint_to_json_value x =
     (json_option message_endpoint_to_json_value y :: 'n json) \<longleftrightarrow> x = y"
proof -
  have "message_endpoint_to_json_value a \<noteq> (JNull :: 'n json)" for a
    by (simp add: message_endpoint_to_json_value_def)
  then show ?thesis
    by (simp add: json_option_inject [where R = "(=)"] endpoint_json_inject option.rel_eq)
qed

lemma route_json_inject:
  "message_route_to_json_value a = (message_route_to_json_value b :: 'n json) \<longleftrightarrow> a = b"
  by (auto simp: message_route_to_json_value_def json_object_inject endpoint_json_inject
      endpoint_option_json_inject)

lemma message_json_inject:
  assumes "inj mk"
  shows "message_metadata_to_json_value mk a = message_metadata_to_json_value mk b \<longleftrightarrow> a = b"
  using execution_json_inject [OF assms]
  by (auto simp: message_metadata_to_json_value_def json_object_inject route_json_inject)

lemma takeWhile_code:
  "takeWhile (\<lambda>c. c \<noteq> CHR '':'') (show_pureflow_error e) = error_code_str (error_code_of e)"
proof -
  have "\<forall>c\<in>set (error_code_str k). c \<noteq> CHR '':''" for k by (cases k) auto
  then show ?thesis by (simp add: show_pureflow_error_def takeWhile_append2)
qed

lemma show_error_code: "show_pureflow_error a = show_pureflow_error b \<Longrightarrow> error_code_of a = error_code_of b"
  by (metis takeWhile_code error_code_str_inject)

lemma code_determines:
  assumes "error_code_of a = error_code_of b"
  shows "visibility a = visibility b \<and> retry_disposition_of a = retry_disposition_of b"
proof -
  have not_val: "validation_code v \<notin> {NodeExecutionFailed, ExecutionCancelled,
      LifecycleObservationFailed, MetadataCollectionFailed}" for v
    by (cases v) auto
  show ?thesis using assms not_val by (cases a; cases b) (auto, metis+)
qed

lemma error_json_inject:
  "pureflow_error_to_json_value a = (pureflow_error_to_json_value b :: 'n json) \<longleftrightarrow>
     show_pureflow_error a = show_pureflow_error b"
  using show_error_code [of a b] code_determines [of a b]
  by (auto simp: pureflow_error_to_json_value_def json_object_inject)

lemma string_option_json_inject [simp]:
  "json_option JString x = (json_option JString y :: 'n json) \<longleftrightarrow> x = y"
  by (simp add: json_option_inject [where R = "(=)"] option.rel_eq)

lemma number_option_json_inject:
  assumes "inj mk"
  shows "json_option (\<lambda>n. JNumber (mk n)) x = json_option (\<lambda>n. JNumber (mk n)) y \<longleftrightarrow> x = y"
  using assms by (simp add: json_option_inject [where R = "(=)"] option.rel_eq inj_eq)

lemma id_option_json_inject [simp]:
  "json_option (\<lambda>n. JString (node_id_str n)) x = (json_option (\<lambda>n. JString (node_id_str n)) y :: 'n json)
     \<longleftrightarrow> x = y"
  "json_option (\<lambda>p. JString (port_id_str p)) v = (json_option (\<lambda>p. JString (port_id_str p)) w :: 'n json)
     \<longleftrightarrow> v = w"
  by (simp_all add: json_option_inject [where R = "(=)"] option.rel_eq)

lemma diagnostic_json_inject:
  assumes "inj mk"
  shows "json_option (error_diagnostic_metadata_to_json_value mk) x =
    json_option (error_diagnostic_metadata_to_json_value mk) y \<longleftrightarrow> x = y"
proof -
  have "error_diagnostic_metadata_to_json_value mk a = error_diagnostic_metadata_to_json_value mk b \<longleftrightarrow> a = b"
    for a b using assms by (cases a; cases b) (auto simp: json_object_inject inj_eq)
  moreover have "error_diagnostic_metadata_to_json_value mk a \<noteq> JNull" for a by (cases a) simp
  ultimately show ?thesis by (simp add: json_option_inject [where R = "(=)"] option.rel_eq)
qed

lemma context_option_json_inject:
  assumes "inj mk"
  shows "json_option (node_context_to_json_value mk st) x = json_option (node_context_to_json_value mk st) y
    \<longleftrightarrow> rel_option (same_context st) x y"
  by (rule json_option_inject) (simp add: node_context_to_json_value_def, rule context_json_inject [OF assms])

lemma action_json_inject [simp]:
  "rule_eval_action_to_json_value a = (rule_eval_action_to_json_value b :: 'n json) \<longleftrightarrow> a = b"
proof
  assume eq: "rule_eval_action_to_json_value a = (rule_eval_action_to_json_value b :: 'n json)"
  have "json_get (rule_eval_action_to_json_value a :: 'n json) k = json_get (rule_eval_action_to_json_value b) k"
    for k using eq by simp
  from this [of "''kind''"] this [of "''port''"] this [of "''reason''"] this [of "''key''"]
    this [of "''value''"] this [of "''message''"] show "a = b"
    by (cases a; cases b) (simp_all add: json_get_json_object)
qed simp

lemma tags_json_inject [simp]: "map tag_to_json_value xs = map tag_to_json_value ys \<longleftrightarrow> xs = ys"
  by (rule inj_map_eq_map) (auto intro!: injI simp: tag_to_json_value_def json_object_inject prod_eq_iff)

lemma traces_json_inject [simp]:
  "map condition_trace_to_json_value xs = (map condition_trace_to_json_value ys :: 'n json list) \<longleftrightarrow> xs = ys"
  by (rule inj_map_eq_map) (auto intro!: injI simp: condition_trace_to_json_value_def json_object_inject)

text \<open>What a reader of the log can tell apart.\<close>

fun same_observation :: "signal_store \<Rightarrow> 'n metadata_record \<Rightarrow> 'n metadata_record \<Rightarrow> bool" where
  "same_observation st (ExecutionContextRecord a) (ExecutionContextRecord b) \<longleftrightarrow> same_context st a b"
| "same_observation st (LifecycleRecord a) (LifecycleRecord b) \<longleftrightarrow>
     event_kind a = event_kind b \<and> same_context st (event_context a) (event_context b)"
| "same_observation st (MessageRecord a) (MessageRecord b) \<longleftrightarrow> a = b"
| "same_observation st (QueuePressureRecord a) (QueuePressureRecord b) \<longleftrightarrow>
     rel_option (same_context st) (queue_context a) (queue_context b) \<and>
     queue_direction a = queue_direction b \<and> queue_port a = queue_port b \<and> queue_kind a = queue_kind b \<and>
     connected_edge_count a = connected_edge_count b \<and> queue_capacity a = queue_capacity b \<and>
     queued_count a = queued_count b"
| "same_observation st (ErrorRecord a) (ErrorRecord b) \<longleftrightarrow>
     show_pureflow_error (error_value a) = show_pureflow_error (error_value b) \<and>
     error_kind a = error_kind b \<and> error_workflow a = error_workflow b \<and> error_node a = error_node b \<and>
     error_execution a = error_execution b \<and> error_diagnostic a = error_diagnostic b"
| "same_observation st (ExternalEffectRecord a) (ExternalEffectRecord b) \<longleftrightarrow>
     same_context st (effect_context a) (effect_context b) \<and> effect_kind a = effect_kind b \<and>
     effect_capability_used a = effect_capability_used b \<and> effect_operation a = effect_operation b \<and>
     effect_target a = effect_target b \<and> effect_response_status a = effect_response_status b"
| "same_observation st (RuleEvalRecord a) (RuleEvalRecord b) \<longleftrightarrow> a = b"
| "same_observation st _ _ \<longleftrightarrow> False"

fun record_type :: "'n metadata_record \<Rightarrow> string" where
  "record_type (ExecutionContextRecord c) = ''execution_context''"
| "record_type (LifecycleRecord e) = ''lifecycle''"
| "record_type (MessageRecord m) = ''message''"
| "record_type (QueuePressureRecord q) = ''queue_pressure''"
| "record_type (ErrorRecord e) = ''error''"
| "record_type (ExternalEffectRecord e) = ''external_effect''"
| "record_type (RuleEvalRecord r) = ''rule_eval''"

lemma json_record_type:
  "json_get (metadata_record_to_json_value mk st r) ''record_type'' = Some (JString (record_type r))"
  by (cases r) (simp_all add: json_get_json_object)

text \<open>
  C20: two records have the same JSON line exactly when they are of the same kind and agree on every
  fact they carry, up to the identity of the cancellation token (the log shows its state) and the
  structure of an error (the log shows its code and text).
\<close>

theorem json_projection_faithful:
  assumes "inj mk"
  shows "metadata_record_to_json_value mk st a = metadata_record_to_json_value mk st b \<longleftrightarrow>
    same_observation st a b"
proof (cases "record_type a = record_type b")
  case False
  then have "metadata_record_to_json_value mk st a \<noteq> metadata_record_to_json_value mk st b"
    by (metis json_record_type option.inject json.inject(3))
  moreover have "\<not> same_observation st a b" using False by (cases a; cases b) auto
  ultimately show ?thesis by simp
next
  case True
  note injs = json_object_inject context_json_inject [OF assms] context_option_json_inject [OF assms]
    message_json_inject [OF assms] execution_json_inject [OF assms] error_json_inject
    number_option_json_inject [OF assms] diagnostic_json_inject [OF assms] inj_eq [OF assms]
  show ?thesis using True by (cases a; cases b) (auto simp: injs)
qed

theorem json_projection_faithful_witness:
  "metadata_record_to_json_value id [None] (LifecycleRecord \<lparr>event_kind = NodeStarted, event_context = sample_context\<rparr>)
     \<noteq> metadata_record_to_json_value id [None]
         (LifecycleRecord \<lparr>event_kind = NodeCompleted, event_context = sample_context\<rparr>)"
  using json_projection_faithful [of id "[None]"
      "LifecycleRecord \<lparr>event_kind = NodeStarted, event_context = sample_context\<rparr>"
      "LifecycleRecord \<lparr>event_kind = NodeCompleted, event_context = sample_context\<rparr>"]
  by simp

end
