(* ===== verification/Ports.thy ===== *)
theory Ports
  imports Metadata
begin

text \<open>
  The module \<open>ports.rs\<close> of \<open>pureflow-core\<close>: the port handles a node sends and receives through, with
  the two-phase reserve and commit of an output packet.

  The bounded channels below the handles are \<open>asupersync::channel::mpsc\<close>, which is not part of the
  repository: its operations are the fields of \<open>channel_ops\<close>, an argument of every definition that
  uses them, over an abstract channel state \<open>'c\<close>.  A channel is named by a number; a sender, a
  receiver and a permit of a channel all carry its name.  What the code relies on is the locale
  \<open>bounded_channels\<close> below.

  Waiting is explicit: an \<open>await\<close> that has to wait is resumed after the other tasks of the run have
  changed the world, so a waiting operation takes the list of these changes, one for each time it is
  resumed, and \<open>None\<close> is the operation that is still waiting when the list is exhausted.
\<close>

section \<open>Channels\<close>

datatype send_failure = SendFull | SendDisconnected | SendCancelled
datatype recv_failure = RecvEmpty | RecvDisconnected | RecvCancelled

datatype 'n recv_poll = PollPacket "'n port_packet" | PollFailed recv_failure | PollPending

record ('n, 'c) channel_ops =
  ch_new :: "nat \<Rightarrow> 'c \<Rightarrow> nat \<times> 'c"
  ch_try_reserve :: "nat \<Rightarrow> 'c \<Rightarrow> send_failure option \<times> 'c"
  ch_commit :: "nat \<Rightarrow> 'n port_packet \<Rightarrow> 'c \<Rightarrow> 'c"
  ch_abort :: "nat \<Rightarrow> 'c \<Rightarrow> 'c"
  ch_try_recv :: "nat \<Rightarrow> 'c \<Rightarrow> (recv_failure + 'n port_packet) \<times> 'c"
  ch_poll_recv :: "nat \<Rightarrow> 'c \<Rightarrow> 'n recv_poll \<times> 'c"
  ch_capacity :: "'c \<Rightarrow> nat \<Rightarrow> nat"
  ch_len :: "'c \<Rightarrow> nat \<Rightarrow> nat"

record ('c, 's) world =
  chans :: 'c
  sink_state :: 's
  signals :: signal_store

section \<open>Errors\<close>

datatype port_send_error =
  SendUnknownPort port_id
| SendPortDisconnected port_id
| SendPortFull port_id
| SendPortCancelled port_id
| SendRejected port_id string

fun show_port_send_error :: "port_send_error \<Rightarrow> string" where
  "show_port_send_error (SendUnknownPort p) = ''output port '' @ quoted (port_id_str p) @ '' is not declared''"
| "show_port_send_error (SendPortDisconnected p) = ''output port '' @ quoted (port_id_str p) @ '' is disconnected''"
| "show_port_send_error (SendPortFull p) = ''output port '' @ quoted (port_id_str p) @ '' is full''"
| "show_port_send_error (SendPortCancelled p) = ''output port '' @ quoted (port_id_str p) @ '' send cancelled''"
| "show_port_send_error (SendRejected p r) =
     ''output port '' @ quoted (port_id_str p) @ '' rejected packet: '' @ r"

datatype port_recv_error =
  RecvUnknownPort port_id
| RecvPortDisconnected port_id
| RecvPortCancelled port_id

fun show_port_recv_error :: "port_recv_error \<Rightarrow> string" where
  "show_port_recv_error (RecvUnknownPort p) = ''input port '' @ quoted (port_id_str p) @ '' is not declared''"
| "show_port_recv_error (RecvPortDisconnected p) = ''input port '' @ quoted (port_id_str p) @ '' is disconnected''"
| "show_port_recv_error (RecvPortCancelled p) = ''input port '' @ quoted (port_id_str p) @ '' receive cancelled''"

section \<open>Handles\<close>

record input_port_handle =
  in_port_id :: port_id
  receivers :: "nat list"

record output_port_handle =
  out_port_id :: port_id
  senders :: "nat list"

definition input_disconnected :: "port_id \<Rightarrow> input_port_handle" where
  "input_disconnected p = \<lparr>in_port_id = p, receivers = []\<rparr>"

definition input_connected :: "port_id \<Rightarrow> nat \<Rightarrow> input_port_handle" where
  "input_connected p r = \<lparr>in_port_id = p, receivers = [r]\<rparr>"

definition input_append :: "input_port_handle \<Rightarrow> input_port_handle \<Rightarrow> input_port_handle" where
  "input_append other h = h\<lparr>receivers := receivers h @ receivers other\<rparr>"

definition output_disconnected :: "port_id \<Rightarrow> output_port_handle" where
  "output_disconnected p = \<lparr>out_port_id = p, senders = []\<rparr>"

definition output_connected :: "port_id \<Rightarrow> nat \<Rightarrow> output_port_handle" where
  "output_connected p s = \<lparr>out_port_id = p, senders = [s]\<rparr>"

definition output_append :: "output_port_handle \<Rightarrow> output_port_handle \<Rightarrow> output_port_handle" where
  "output_append other h = h\<lparr>senders := senders h @ senders other\<rparr>"

text \<open>The sums of capacities and queue lengths are those of \<open>usize\<close> below its maximum.\<close>

definition total_capacity :: "('n, 'c) channel_ops \<Rightarrow> 'c \<Rightarrow> nat list \<Rightarrow> nat option" where
  "total_capacity ops c xs = (if xs = [] then None else Some (sum_list (map (ch_capacity ops c) xs)))"

definition input_queued_count :: "('n, 'c) channel_ops \<Rightarrow> 'c \<Rightarrow> input_port_handle \<Rightarrow> nat" where
  "input_queued_count ops c h = sum_list (map (ch_len ops c) (receivers h))"

definition bounded_edge_channel ::
  "('n, 'c) channel_ops \<Rightarrow> port_id \<Rightarrow> port_id \<Rightarrow> nat \<Rightarrow> 'c
   \<Rightarrow> (output_port_handle \<times> input_port_handle) \<times> 'c" where
  "bounded_edge_channel ops out_port in_port capacity c =
     (let (i, c') = ch_new ops capacity c
      in ((output_connected out_port i, input_connected in_port i), c'))"

section \<open>Observations\<close>

text \<open>A record is offered to the sink when one is attached; the result of the sink is ignored.\<close>

fun emit :: "('n, 's) sink option \<Rightarrow> 'n metadata_record \<Rightarrow> ('c, 's) world \<Rightarrow> ('c, 's) world" where
  "emit None r w = w"
| "emit (Some sink) r w = w\<lparr>sink_state := snd (sink r (sink_state w))\<rparr>"

definition record_output_queue_pressure ::
  "('n, 'c) channel_ops \<Rightarrow> ('n, 's) sink option \<Rightarrow> node_context option \<Rightarrow> output_port_handle
   \<Rightarrow> queue_pressure_boundary_kind \<Rightarrow> ('c, 's) world \<Rightarrow> ('c, 's) world" where
  "record_output_queue_pressure ops sink ctx port kind w =
     emit sink
       (QueuePressureRecord
         \<lparr>queue_context = ctx, queue_direction = QueueOutput, queue_port = out_port_id port,
          queue_kind = kind, connected_edge_count = length (senders port),
          queue_capacity = total_capacity ops (chans w) (senders port), queued_count = None\<rparr>) w"

definition record_input_queue_pressure ::
  "('n, 'c) channel_ops \<Rightarrow> ('n, 's) sink option \<Rightarrow> node_context option \<Rightarrow> input_port_handle
   \<Rightarrow> queue_pressure_boundary_kind \<Rightarrow> ('c, 's) world \<Rightarrow> ('c, 's) world" where
  "record_input_queue_pressure ops sink ctx port kind w =
     emit sink
       (QueuePressureRecord
         \<lparr>queue_context = ctx, queue_direction = QueueInput, queue_port = in_port_id port,
          queue_kind = kind, connected_edge_count = length (receivers port),
          queue_capacity = total_capacity ops (chans w) (receivers port),
          queued_count = Some (input_queued_count ops (chans w) port)\<rparr>) w"

definition record_message_boundary ::
  "('n, 's) sink option \<Rightarrow> message_boundary_kind \<Rightarrow> message_metadata \<Rightarrow> ('c, 's) world \<Rightarrow> ('c, 's) world"
  where
  "record_message_boundary sink kind m w =
     emit sink (MessageRecord \<lparr>boundary_kind = kind, boundary_metadata = m\<rparr>) w"

section \<open>Reserving and sending\<close>

type_synonym 'n validator = "port_id \<Rightarrow> 'n port_packet \<Rightarrow> (unit, port_send_error) result"

record ('n, 's) send_permit =
  permit_port :: port_id
  permits :: "nat list"
  permit_sink :: "('n, 's) sink option"
  permit_validator :: "'n validator option"
  permit_context :: "node_context option"
  permit_edge_count :: nat
  permit_capacity :: "nat option"

text \<open>
  The loop over the leading senders and the attempt on the last one do the same thing.  On a
  failure the permits acquired so far come back with it.
\<close>

fun reserve_senders ::
  "('n, 'c) channel_ops \<Rightarrow> nat list \<Rightarrow> nat list \<Rightarrow> 'c \<Rightarrow> ((send_failure \<times> nat list) + nat list) \<times> 'c" where
  "reserve_senders ops [] acquired c = (Inr acquired, c)"
| "reserve_senders ops (s # ss) acquired c =
     (case ch_try_reserve ops s c of
        (None, c') \<Rightarrow> reserve_senders ops ss (acquired @ [s]) c'
      | (Some e, c') \<Rightarrow> (Inl (e, acquired), c'))"

definition abort_permits :: "('n, 'c) channel_ops \<Rightarrow> nat list \<Rightarrow> 'c \<Rightarrow> 'c" where
  "abort_permits ops ps c = fold (ch_abort ops) ps c"

definition commit_permits :: "('n, 'c) channel_ops \<Rightarrow> nat list \<Rightarrow> 'n port_packet \<Rightarrow> 'c \<Rightarrow> 'c" where
  "commit_permits ops ps x c = fold (\<lambda>p. ch_commit ops p x) ps c"

fun map_send_error :: "port_id \<Rightarrow> send_failure \<Rightarrow> port_send_error" where
  "map_send_error p SendDisconnected = SendPortDisconnected p"
| "map_send_error p SendCancelled = SendPortCancelled p"
| "map_send_error p SendFull = SendPortFull p"

definition output_try_reserve ::
  "('n, 'c) channel_ops \<Rightarrow> ('n, 's) sink option \<Rightarrow> 'n validator option \<Rightarrow> node_context option
   \<Rightarrow> output_port_handle \<Rightarrow> ('c, 's) world
   \<Rightarrow> (('n, 's) send_permit, port_send_error) result \<times> ('c, 's) world" where
  "output_try_reserve ops sink val ctx port w =
     (let w1 = record_output_queue_pressure ops sink ctx port ReserveAttempted w;
          permit = (\<lambda>ps w. \<lparr>permit_port = out_port_id port, permits = ps, permit_sink = sink,
             permit_validator = val, permit_context = ctx, permit_edge_count = length (senders port),
             permit_capacity = total_capacity ops (chans w) (senders port)\<rparr>)
      in if senders port = [] then
           let w2 = record_output_queue_pressure ops sink ctx port ReserveReady w1
           in (Ok (permit [] w2), w2)
         else case reserve_senders ops (senders port) [] (chans w1) of
           (Inr ps, c) \<Rightarrow>
             let w2 = record_output_queue_pressure ops sink ctx port ReserveReady (w1\<lparr>chans := c\<rparr>)
             in (Ok (permit ps w2), w2)
         | (Inl (e, ps), c) \<Rightarrow>
             let w2 = (if e = SendFull
                       then record_output_queue_pressure ops sink ctx port ReserveFull (w1\<lparr>chans := c\<rparr>)
                       else w1\<lparr>chans := c\<rparr>)
             in (Err (map_send_error (out_port_id port) e),
                 w2\<lparr>chans := abort_permits ops ps (chans w2)\<rparr>))"

definition permit_abort ::
  "('n, 'c) channel_ops \<Rightarrow> ('n, 's) send_permit \<Rightarrow> ('c, 's) world \<Rightarrow> ('c, 's) world" where
  "permit_abort ops p w = w\<lparr>chans := abort_permits ops (permits p) (chans w)\<rparr>"

definition permit_commit ::
  "('n, 'c) channel_ops \<Rightarrow> ('n, 's) send_permit \<Rightarrow> 'n port_packet \<Rightarrow> ('c, 's) world \<Rightarrow> ('c, 's) world" where
  "permit_commit ops p x w =
     (let w1 = emit (permit_sink p)
            (QueuePressureRecord
              \<lparr>queue_context = permit_context p, queue_direction = QueueOutput,
               queue_port = permit_port p,
               queue_kind = (if permits p = [] then SendDropped else SendCommitted),
               connected_edge_count = permit_edge_count p, queue_capacity = permit_capacity p,
               queued_count = None\<rparr>) w;
          w2 = record_message_boundary (permit_sink p)
            (if permits p = [] then Dropped else Enqueued) (envelope_metadata x) w1
      in w2\<lparr>chans := commit_permits ops (permits p) x (chans w2)\<rparr>)"

definition permit_send ::
  "('n, 'c) channel_ops \<Rightarrow> ('n, 's) send_permit \<Rightarrow> 'n port_packet \<Rightarrow> ('c, 's) world
   \<Rightarrow> (unit, port_send_error) result \<times> ('c, 's) world" where
  "permit_send ops p x w =
     (case (case permit_validator p of None \<Rightarrow> Ok () | Some v \<Rightarrow> v (permit_port p) x) of
        Ok _ \<Rightarrow> (Ok (), permit_commit ops p x w)
      | e \<Rightarrow> (e, permit_abort ops p w))"

text \<open>
  The waiting reservation.  \<open>resumes\<close> holds what the rest of the run does to the world at each
  \<open>yield_now\<close>.
\<close>

fun output_reserve ::
  "('n, 'c) channel_ops \<Rightarrow> cancellation_token \<Rightarrow> ('n, 's) sink option \<Rightarrow> 'n validator option
   \<Rightarrow> node_context option \<Rightarrow> output_port_handle \<Rightarrow> (('c, 's) world \<Rightarrow> ('c, 's) world) list \<Rightarrow> ('c, 's) world
   \<Rightarrow> (('n, 's) send_permit, port_send_error) result option \<times> ('c, 's) world" where
  "output_reserve ops tok sink val ctx port resumes w =
     (if is_cancelled (signals w) tok then (Some (Err (SendPortCancelled (out_port_id port))), w)
      else case output_try_reserve ops sink val ctx port w of
          (Err (SendPortFull _), w1) \<Rightarrow>
            (case resumes of
               [] \<Rightarrow> (None, w1)
             | step # rest \<Rightarrow> output_reserve ops tok sink val ctx port rest (step w1))
        | (r, w1) \<Rightarrow> (Some r, w1))"

declare output_reserve.simps [simp del]

section \<open>Output ports of a node\<close>

record ('n, 's) ports_out =
  out_port_ids :: "port_id list"
  out_ports :: "output_port_handle list"
  out_sink :: "('n, 's) sink option"
  out_validator :: "'n validator option"
  out_context :: "node_context option"

text \<open>
  Grouping the handles by port: a handle whose port is already present is appended to the one
  there (\<open>get_mut\<close>), otherwise it is inserted.  Then each declared port takes its handle out of the
  map, so that a second declaration of the same port gets a disconnected handle.
\<close>

fun group_handle :: "('h \<Rightarrow> port_id) \<Rightarrow> ('h \<Rightarrow> 'h \<Rightarrow> 'h) \<Rightarrow> 'h \<Rightarrow> (port_id, 'h) btree_map \<Rightarrow> (port_id, 'h) btree_map" where
  "group_handle pid app h m =
     (case map_of m (pid h) of
        Some _ \<Rightarrow> bt_modify (pid h) (app h) m
      | None \<Rightarrow> bt_insert (pid h) h m)"

fun take_handles :: "(port_id \<Rightarrow> 'h) \<Rightarrow> port_id list \<Rightarrow> (port_id, 'h) btree_map \<Rightarrow> 'h list" where
  "take_handles mk [] m = []"
| "take_handles mk (p # ps) m =
     (case map_of m p of Some h \<Rightarrow> h | None \<Rightarrow> mk p) # take_handles mk ps (bt_remove p m)"

definition ports_out_from_handles ::
  "port_id list \<Rightarrow> output_port_handle list \<Rightarrow> ('n, 's) ports_out" where
  "ports_out_from_handles ids handles =
     \<lparr>out_port_ids = ids,
      out_ports = take_handles output_disconnected ids
        (fold (group_handle out_port_id output_append) handles []),
      out_sink = None, out_validator = None, out_context = None\<rparr>"

definition new_ports_out :: "port_id list \<Rightarrow> ('n, 's) ports_out" where
  "new_ports_out ids = ports_out_from_handles ids []"

definition out_with_metadata_sink :: "('n, 's) sink \<Rightarrow> ('n, 's) ports_out \<Rightarrow> ('n, 's) ports_out" where
  "out_with_metadata_sink sink p = p\<lparr>out_sink := Some sink\<rparr>"

definition out_with_node_context :: "node_context \<Rightarrow> ('n, 's) ports_out \<Rightarrow> ('n, 's) ports_out" where
  "out_with_node_context ctx p = p\<lparr>out_context := Some ctx\<rparr>"

definition with_output_validator :: "'n validator \<Rightarrow> ('n, 's) ports_out \<Rightarrow> ('n, 's) ports_out" where
  "with_output_validator v p = p\<lparr>out_validator := Some v\<rparr>"

definition find_output :: "('n, 's) ports_out \<Rightarrow> port_id \<Rightarrow> output_port_handle option" where
  "find_output p pid = List.find (\<lambda>h. out_port_id h = pid) (out_ports p)"

definition out_connected_edge_count :: "('n, 's) ports_out \<Rightarrow> port_id \<Rightarrow> nat option" where
  "out_connected_edge_count p pid = map_option (\<lambda>h. length (senders h)) (find_output p pid)"

definition try_reserve ::
  "('n, 'c) channel_ops \<Rightarrow> ('n, 's) ports_out \<Rightarrow> port_id \<Rightarrow> ('c, 's) world
   \<Rightarrow> (('n, 's) send_permit, port_send_error) result \<times> ('c, 's) world" where
  "try_reserve ops p pid w =
     (case find_output p pid of
        None \<Rightarrow> (Err (SendUnknownPort pid), w)
      | Some port \<Rightarrow> output_try_reserve ops (out_sink p) (out_validator p) (out_context p) port w)"

definition reserve ::
  "('n, 'c) channel_ops \<Rightarrow> ('n, 's) ports_out \<Rightarrow> port_id \<Rightarrow> cancellation_token
   \<Rightarrow> (('c, 's) world \<Rightarrow> ('c, 's) world) list \<Rightarrow> ('c, 's) world
   \<Rightarrow> (('n, 's) send_permit, port_send_error) result option \<times> ('c, 's) world" where
  "reserve ops p pid tok resumes w =
     (case find_output p pid of
        None \<Rightarrow> (Some (Err (SendUnknownPort pid)), w)
      | Some port \<Rightarrow>
          output_reserve ops tok (out_sink p) (out_validator p) (out_context p) port resumes w)"

definition try_send ::
  "('n, 'c) channel_ops \<Rightarrow> ('n, 's) ports_out \<Rightarrow> port_id \<Rightarrow> 'n port_packet \<Rightarrow> ('c, 's) world
   \<Rightarrow> (unit, port_send_error) result \<times> ('c, 's) world" where
  "try_send ops p pid x w =
     (case try_reserve ops p pid w of
        (Ok permit, w1) \<Rightarrow> permit_send ops permit x w1
      | (Err e, w1) \<Rightarrow> (Err e, w1)
      | (Panic, w1) \<Rightarrow> (Panic, w1))"

definition send ::
  "('n, 'c) channel_ops \<Rightarrow> ('n, 's) ports_out \<Rightarrow> port_id \<Rightarrow> 'n port_packet \<Rightarrow> cancellation_token
   \<Rightarrow> (('c, 's) world \<Rightarrow> ('c, 's) world) list \<Rightarrow> ('c, 's) world
   \<Rightarrow> (unit, port_send_error) result option \<times> ('c, 's) world" where
  "send ops p pid x tok resumes w =
     (case reserve ops p pid tok resumes w of
        (None, w1) \<Rightarrow> (None, w1)
      | (Some (Ok permit), w1) \<Rightarrow> (let (r, w2) = permit_send ops permit x w1 in (Some r, w2))
      | (Some (Err e), w1) \<Rightarrow> (Some (Err e), w1)
      | (Some Panic, w1) \<Rightarrow> (Some Panic, w1))"

section \<open>Input ports of a node\<close>

record ('n, 's) ports_in =
  in_port_ids :: "port_id list"
  in_ports :: "input_port_handle list"
  in_sink :: "('n, 's) sink option"
  in_context :: "node_context option"

definition ports_in_from_handles ::
  "port_id list \<Rightarrow> input_port_handle list \<Rightarrow> ('n, 's) ports_in" where
  "ports_in_from_handles ids handles =
     \<lparr>in_port_ids = ids,
      in_ports = take_handles input_disconnected ids
        (fold (group_handle in_port_id input_append) handles []),
      in_sink = None, in_context = None\<rparr>"

definition new_ports_in :: "port_id list \<Rightarrow> ('n, 's) ports_in" where
  "new_ports_in ids = ports_in_from_handles ids []"

definition in_with_metadata_sink :: "('n, 's) sink \<Rightarrow> ('n, 's) ports_in \<Rightarrow> ('n, 's) ports_in" where
  "in_with_metadata_sink sink p = p\<lparr>in_sink := Some sink\<rparr>"

definition in_with_node_context :: "node_context \<Rightarrow> ('n, 's) ports_in \<Rightarrow> ('n, 's) ports_in" where
  "in_with_node_context ctx p = p\<lparr>in_context := Some ctx\<rparr>"

definition find_input :: "('n, 's) ports_in \<Rightarrow> port_id \<Rightarrow> input_port_handle option" where
  "find_input p pid = List.find (\<lambda>h. in_port_id h = pid) (in_ports p)"

definition in_connected_edge_count :: "('n, 's) ports_in \<Rightarrow> port_id \<Rightarrow> nat option" where
  "in_connected_edge_count p pid = map_option (\<lambda>h. length (receivers h)) (find_input p pid)"

text \<open>
  \<open>InputPortHandle::try_recv\<close>: the receivers in order until one has a packet; \<open>gone\<close> counts those
  that are disconnected.
\<close>

fun try_recv_scan ::
  "('n, 'c) channel_ops \<Rightarrow> port_id \<Rightarrow> nat list \<Rightarrow> nat \<Rightarrow> nat \<Rightarrow> 'c
   \<Rightarrow> ('n port_packet option, port_recv_error) result \<times> 'c" where
  "try_recv_scan ops pid [] gone count c =
     ((if 0 < count \<and> gone = count then Err (RecvPortDisconnected pid) else Ok None), c)"
| "try_recv_scan ops pid (r # rs) gone count c =
     (case ch_try_recv ops r c of
        (Inr x, c') \<Rightarrow> (Ok (Some x), c')
      | (Inl RecvEmpty, c') \<Rightarrow> try_recv_scan ops pid rs gone count c'
      | (Inl RecvDisconnected, c') \<Rightarrow> try_recv_scan ops pid rs (gone + 1) count c'
      | (Inl RecvCancelled, c') \<Rightarrow> (Err (RecvPortCancelled pid), c'))"

definition input_try_recv ::
  "('n, 'c) channel_ops \<Rightarrow> input_port_handle \<Rightarrow> 'c
   \<Rightarrow> ('n port_packet option, port_recv_error) result \<times> 'c" where
  "input_try_recv ops h c = try_recv_scan ops (in_port_id h) (receivers h) 0 (length (receivers h)) c"

text \<open>What \<open>try_recv\<close> and \<open>recv\<close> of a node report after the handle has answered.\<close>

definition observe_recv ::
  "('n, 'c) channel_ops \<Rightarrow> ('n, 's) ports_in \<Rightarrow> input_port_handle
   \<Rightarrow> ('n port_packet option, port_recv_error) result \<Rightarrow> ('c, 's) world
   \<Rightarrow> ('n port_packet option, port_recv_error) result \<times> ('c, 's) world" where
  "observe_recv ops p port r w =
     (let pressure = (\<lambda>kind. record_input_queue_pressure ops (in_sink p) (in_context p) port kind)
      in case r of
           Ok (Some x) \<Rightarrow>
             (r, record_message_boundary (in_sink p) Dequeued (envelope_metadata x) (pressure ReceiveReady w))
         | Ok None \<Rightarrow> (r, pressure ReceiveEmpty w)
         | Err (RecvPortDisconnected _) \<Rightarrow>
             (Err (RecvPortDisconnected (in_port_id port)), pressure ReceiveClosed w)
         | e \<Rightarrow> (e, w))"

definition try_recv ::
  "('n, 'c) channel_ops \<Rightarrow> ('n, 's) ports_in \<Rightarrow> port_id \<Rightarrow> ('c, 's) world
   \<Rightarrow> ('n port_packet option, port_recv_error) result \<times> ('c, 's) world" where
  "try_recv ops p pid w =
     (case find_input p pid of
        None \<Rightarrow> (Err (RecvUnknownPort pid), w)
      | Some port \<Rightarrow>
          let w1 = record_input_queue_pressure ops (in_sink p) (in_context p) port ReceiveAttempted w;
              (r, c) = input_try_recv ops port (chans w1)
          in observe_recv ops p port r (w1\<lparr>chans := c\<rparr>))"

text \<open>
  One poll over the receivers of a port, shared by \<open>recv\<close> and \<open>poll_any\<close>: a packet, all closed,
  cancelled by the runtime, or nothing yet.
\<close>

datatype 'n input_poll_result =
  InputPacket "'n port_packet" | InputPending | InputClosed | InputCancelled

fun poll_scan ::
  "('n, 'c) channel_ops \<Rightarrow> nat list \<Rightarrow> nat \<Rightarrow> nat \<Rightarrow> 'c \<Rightarrow> 'n input_poll_result \<times> 'c" where
  "poll_scan ops [] gone count c = ((if gone = count then InputClosed else InputPending), c)"
| "poll_scan ops (r # rs) gone count c =
     (case ch_poll_recv ops r c of
        (PollPacket x, c') \<Rightarrow> (InputPacket x, c')
      | (PollFailed RecvDisconnected, c') \<Rightarrow> poll_scan ops rs (gone + 1) count c'
      | (PollFailed RecvCancelled, c') \<Rightarrow> (InputCancelled, c')
      | (PollFailed RecvEmpty, c') \<Rightarrow> poll_scan ops rs gone count c'
      | (PollPending, c') \<Rightarrow> poll_scan ops rs gone count c')"

fun input_recv ::
  "('n, 'c) channel_ops \<Rightarrow> cancellation_token \<Rightarrow> input_port_handle
   \<Rightarrow> (('c, 's) world \<Rightarrow> ('c, 's) world) list \<Rightarrow> ('c, 's) world
   \<Rightarrow> ('n port_packet option, port_recv_error) result option \<times> ('c, 's) world" where
  "input_recv ops tok h resumes w =
     (if receivers h = [] then (Some (Ok None), w)
      else if is_cancelled (signals w) tok then (Some (Err (RecvPortCancelled (in_port_id h))), w)
      else case poll_scan ops (receivers h) 0 (length (receivers h)) (chans w) of
          (InputPacket x, c) \<Rightarrow> (Some (Ok (Some x)), w\<lparr>chans := c\<rparr>)
        | (InputClosed, c) \<Rightarrow> (Some (Err (RecvPortDisconnected (in_port_id h))), w\<lparr>chans := c\<rparr>)
        | (InputCancelled, c) \<Rightarrow> (Some (Err (RecvPortCancelled (in_port_id h))), w\<lparr>chans := c\<rparr>)
        | (InputPending, c) \<Rightarrow>
            (case resumes of
               [] \<Rightarrow> (None, w\<lparr>chans := c\<rparr>)
             | step # rest \<Rightarrow> input_recv ops tok h rest (step (w\<lparr>chans := c\<rparr>))))"

declare input_recv.simps [simp del]

definition recv ::
  "('n, 'c) channel_ops \<Rightarrow> ('n, 's) ports_in \<Rightarrow> port_id \<Rightarrow> cancellation_token
   \<Rightarrow> (('c, 's) world \<Rightarrow> ('c, 's) world) list \<Rightarrow> ('c, 's) world
   \<Rightarrow> ('n port_packet option, port_recv_error) result option \<times> ('c, 's) world" where
  "recv ops p pid tok resumes w =
     (case find_input p pid of
        None \<Rightarrow> (Some (Err (RecvUnknownPort pid)), w)
      | Some port \<Rightarrow>
          let w1 = record_input_queue_pressure ops (in_sink p) (in_context p) port ReceiveAttempted w
          in case input_recv ops tok port resumes w1 of
               (None, w2) \<Rightarrow> (None, w2)
             | (Some r, w2) \<Rightarrow> (let (r', w3) = observe_recv ops p port r w2 in (Some r', w3)))"

definition poll_any ::
  "('n, 'c) channel_ops \<Rightarrow> input_port_handle \<Rightarrow> 'c \<Rightarrow> 'n input_poll_result \<times> 'c" where
  "poll_any ops h c =
     (if receivers h = [] then (InputClosed, c)
      else poll_scan ops (receivers h) 0 (length (receivers h)) c)"

text \<open>One poll of \<open>recv_any\<close> over the ports in declaration order.\<close>

fun poll_ports ::
  "('n, 'c) channel_ops \<Rightarrow> ('n, 's) ports_in \<Rightarrow> input_port_handle list \<Rightarrow> nat \<Rightarrow> nat \<Rightarrow> ('c, 's) world
   \<Rightarrow> ((port_id \<times> 'n port_packet) option, port_recv_error) result option \<times> ('c, 's) world" where
  "poll_ports ops p [] gone count w = ((if gone = count then Some (Ok None) else None), w)"
| "poll_ports ops p (port # ports) gone count w =
     (let (r, c) = poll_any ops port (chans w); w1 = w\<lparr>chans := c\<rparr>;
          pressure = (\<lambda>kind. record_input_queue_pressure ops (in_sink p) (in_context p) port kind)
      in case r of
           InputPacket x \<Rightarrow>
             (Some (Ok (Some (in_port_id port, x))),
              record_message_boundary (in_sink p) Dequeued (envelope_metadata x) (pressure ReceiveReady w1))
         | InputClosed \<Rightarrow> poll_ports ops p ports (gone + 1) count (pressure ReceiveClosed w1)
         | InputCancelled \<Rightarrow> (Some (Err (RecvPortCancelled (in_port_id port))), w1)
         | InputPending \<Rightarrow> poll_ports ops p ports gone count w1)"

fun recv_any_wait ::
  "('n, 'c) channel_ops \<Rightarrow> ('n, 's) ports_in \<Rightarrow> cancellation_token
   \<Rightarrow> (('c, 's) world \<Rightarrow> ('c, 's) world) list \<Rightarrow> ('c, 's) world
   \<Rightarrow> ((port_id \<times> 'n port_packet) option, port_recv_error) result option \<times> ('c, 's) world" where
  "recv_any_wait ops p tok resumes w =
     (if is_cancelled (signals w) tok then
        (Some (case in_ports p of [] \<Rightarrow> Ok None | h # _ \<Rightarrow> Err (RecvPortCancelled (in_port_id h))), w)
      else case poll_ports ops p (in_ports p) 0 (length (in_ports p)) w of
          (Some r, w1) \<Rightarrow> (Some r, w1)
        | (None, w1) \<Rightarrow>
            (case resumes of
               [] \<Rightarrow> (None, w1)
             | step # rest \<Rightarrow> recv_any_wait ops p tok rest (step w1)))"

declare recv_any_wait.simps [simp del]

definition recv_any ::
  "('n, 'c) channel_ops \<Rightarrow> ('n, 's) ports_in \<Rightarrow> cancellation_token
   \<Rightarrow> (('c, 's) world \<Rightarrow> ('c, 's) world) list \<Rightarrow> ('c, 's) world
   \<Rightarrow> ((port_id \<times> 'n port_packet) option, port_recv_error) result option \<times> ('c, 's) world" where
  "recv_any ops p tok resumes w =
     (if in_ports p = [] then (Some (Ok None), w)
      else recv_any_wait ops p tok resumes
        (fold (\<lambda>port. record_input_queue_pressure ops (in_sink p) (in_context p) port ReceiveAttempted)
           (in_ports p) w))"

end
