(* ===== verification/Runtime.thy ===== *)
theory Runtime
  imports Ports
begin

text \<open>
  The crate \<open>pureflow-runtime\<close>: one node run through the boundary that attaches the observers, with
  the lifecycle and error facts it reports.

  The executor of a node is a parameter: given the context, the ports and the world it returns its
  result and the world it leaves (which includes what the rest of the run did meanwhile).  The
  lifecycle hook is a function like a sink; hook and sink share the state of the observers.  Trace
  output (feature \<open>tracing\<close>) is not modelled.
\<close>

type_synonym ('n, 'c, 's) executor =
  "node_context \<Rightarrow> ('n, 's) ports_in \<Rightarrow> ('n, 's) ports_out \<Rightarrow> ('c, 's) world
   \<Rightarrow> (unit, pureflow_error) result \<times> ('c, 's) world"

type_synonym 's hook = "lifecycle_event \<Rightarrow> 's \<Rightarrow> (unit, pureflow_error) result \<times> 's"

definition noop_hook :: "'s hook" where
  "noop_hook e s = (Ok (), s)"

section \<open>Errors of ports and channels as runtime errors\<close>

fun send_failure_error :: "send_failure \<Rightarrow> pureflow_error" where
  "send_failure_error SendDisconnected = Execution ''asupersync send failed: receiver disconnected''"
| "send_failure_error SendCancelled = Cancellation ''asupersync send cancelled''"
| "send_failure_error SendFull = Execution ''asupersync send failed: bounded channel full''"

fun recv_failure_error :: "recv_failure \<Rightarrow> pureflow_error" where
  "recv_failure_error RecvDisconnected = Execution ''asupersync receive failed: sender disconnected''"
| "recv_failure_error RecvCancelled = Cancellation ''asupersync receive cancelled''"
| "recv_failure_error RecvEmpty = Execution ''asupersync receive failed: channel empty''"

fun port_send_error_to_error :: "port_send_error \<Rightarrow> pureflow_error" where
  "port_send_error_to_error (SendPortCancelled p) = Cancellation (show_port_send_error (SendPortCancelled p))"
| "port_send_error_to_error e = Execution (show_port_send_error e)"

fun port_recv_error_to_error :: "port_recv_error \<Rightarrow> pureflow_error" where
  "port_recv_error_to_error (RecvPortCancelled p) = Cancellation (show_port_recv_error (RecvPortCancelled p))"
| "port_recv_error_to_error e = Execution (show_port_recv_error e)"

section \<open>Observations\<close>

definition observe_node_error ::
  "('n, 's) sink \<Rightarrow> node_context \<Rightarrow> pureflow_error \<Rightarrow> 's \<Rightarrow> (unit, pureflow_error) result \<times> 's" where
  "observe_node_error sink ctx e s = sink (ErrorRecord (node_failed ctx e)) s"

definition observe_lifecycle ::
  "'s hook \<Rightarrow> ('n, 's) sink \<Rightarrow> lifecycle_event_kind \<Rightarrow> node_context \<Rightarrow> 's
   \<Rightarrow> (unit, pureflow_error) result \<times> 's" where
  "observe_lifecycle hook sink kind ctx s =
     (let event = \<lparr>event_kind = kind, event_context = ctx\<rparr>;
          (r, s1) = sink (LifecycleRecord event) s
      in case r of Ok _ \<Rightarrow> hook event s1 | e \<Rightarrow> (e, s1))"

definition cancellation_error :: "signal_store \<Rightarrow> node_context \<Rightarrow> pureflow_error option" where
  "cancellation_error st ctx =
     (case context_cancellation st ctx of
        Active \<Rightarrow> None
      | Requested r \<Rightarrow> Some (Cancellation (reason r)))"

definition terminal_kind :: "pureflow_error \<Rightarrow> lifecycle_event_kind" where
  "terminal_kind e = (case e of Cancellation _ \<Rightarrow> NodeCancelled | _ \<Rightarrow> NodeFailed)"

section \<open>Running a node\<close>

definition run_node_with_observers ::
  "('n, 'c, 's) executor \<Rightarrow> node_context \<Rightarrow> ('n, 's) ports_in \<Rightarrow> ('n, 's) ports_out \<Rightarrow> 's hook
   \<Rightarrow> ('n, 's) sink \<Rightarrow> ('c, 's) world \<Rightarrow> (unit, pureflow_error) result \<times> ('c, 's) world" where
  "run_node_with_observers node ctx inputs outputs hook sink w =
     (let ins = in_with_node_context ctx (in_with_metadata_sink sink inputs);
          outs = out_with_node_context ctx (out_with_metadata_sink sink outputs);
          (started, s1) = observe_lifecycle hook sink NodeStarted ctx (sink_state w);
          w1 = w\<lparr>sink_state := s1\<rparr>
      in case started of
           Ok _ \<Rightarrow>
             (let (r, w2) = node ctx ins outs w1
              in case r of
                   Ok _ \<Rightarrow>
                     (let (t, s) = observe_lifecycle hook sink NodeCompleted ctx (sink_state w2)
                      in (t, w2\<lparr>sink_state := s\<rparr>))
                 | Err e \<Rightarrow>
                     (let (o1, s) = observe_node_error sink ctx e (sink_state w2);
                          (o2, s') = observe_lifecycle hook sink (terminal_kind e) ctx s
                      in (Err e, w2\<lparr>sink_state := s'\<rparr>))
                 | Panic \<Rightarrow> (Panic, w2))
         | e \<Rightarrow> (e, w1))"

definition run_node ::
  "('n, 'c, 's) executor \<Rightarrow> node_context \<Rightarrow> ('n, 's) ports_in \<Rightarrow> ('n, 's) ports_out \<Rightarrow> ('c, 's) world
   \<Rightarrow> (unit, pureflow_error) result \<times> ('c, 's) world" where
  "run_node node ctx inputs outputs w =
     run_node_with_observers node ctx inputs outputs noop_hook noop_sink w"

definition run_node_with_hook ::
  "('n, 'c, 's) executor \<Rightarrow> node_context \<Rightarrow> ('n, 's) ports_in \<Rightarrow> ('n, 's) ports_out \<Rightarrow> 's hook
   \<Rightarrow> ('c, 's) world \<Rightarrow> (unit, pureflow_error) result \<times> ('c, 's) world" where
  "run_node_with_hook node ctx inputs outputs hook w =
     run_node_with_observers node ctx inputs outputs hook noop_sink w"

definition run_node_with_metadata_sink ::
  "('n, 'c, 's) executor \<Rightarrow> node_context \<Rightarrow> ('n, 's) ports_in \<Rightarrow> ('n, 's) ports_out \<Rightarrow> ('n, 's) sink
   \<Rightarrow> ('c, 's) world \<Rightarrow> (unit, pureflow_error) result \<times> ('c, 's) world" where
  "run_node_with_metadata_sink node ctx inputs outputs sink w =
     run_node_with_observers node ctx inputs outputs noop_hook sink w"

text \<open>The methods of \<open>AsupersyncRuntime\<close>: nothing runs once cancellation has been requested.\<close>

definition runtime_run_node ::
  "('n, 'c, 's) executor \<Rightarrow> node_context \<Rightarrow> ('n, 's) ports_in \<Rightarrow> ('n, 's) ports_out \<Rightarrow> ('c, 's) world
   \<Rightarrow> (unit, pureflow_error) result \<times> ('c, 's) world" where
  "runtime_run_node node ctx inputs outputs w =
     (case cancellation_error (signals w) ctx of
        Some e \<Rightarrow> (Err e, w)
      | None \<Rightarrow> run_node node ctx inputs outputs w)"

definition runtime_run_node_with_cancellation_handle ::
  "('n, 'c, 's) executor \<Rightarrow> node_context \<Rightarrow> ('n, 's) ports_in \<Rightarrow> ('n, 's) ports_out
   \<Rightarrow> cancellation_handle \<Rightarrow> ('c, 's) world \<Rightarrow> (unit, pureflow_error) result \<times> ('c, 's) world" where
  "runtime_run_node_with_cancellation_handle node ctx inputs outputs h w =
     (let ctx' = with_cancellation_token (handle_token h) ctx
      in case cancellation_error (signals w) ctx' of
           Some e \<Rightarrow> (Err e, w)
         | None \<Rightarrow> run_node node ctx' inputs outputs w)"

definition runtime_run_node_with_metadata_sink ::
  "('n, 'c, 's) executor \<Rightarrow> node_context \<Rightarrow> ('n, 's) ports_in \<Rightarrow> ('n, 's) ports_out \<Rightarrow> ('n, 's) sink
   \<Rightarrow> ('c, 's) world \<Rightarrow> (unit, pureflow_error) result \<times> ('c, 's) world" where
  "runtime_run_node_with_metadata_sink node ctx inputs outputs sink w =
     (case cancellation_error (signals w) ctx of
        Some e \<Rightarrow> (Err e, w)
      | None \<Rightarrow> run_node_with_metadata_sink node ctx inputs outputs sink w)"

section \<open>What an observed run reports\<close>

text \<open>
  Observers that keep what they are told, whatever they answer: \<open>recs\<close> and \<open>evs\<close> read the records and the events from
  their state.
\<close>

definition keeps ::
  "('n, 's) sink \<Rightarrow> 's hook \<Rightarrow> ('s \<Rightarrow> 'n metadata_record list) \<Rightarrow> ('s \<Rightarrow> lifecycle_event list) \<Rightarrow> bool" where
  "keeps sink hook recs evs \<longleftrightarrow>
     (\<forall>r s. recs (snd (sink r s)) = recs s @ [r] \<and> evs (snd (sink r s)) = evs s) \<and>
     (\<forall>e s. evs (snd (hook e s)) = evs s @ [e] \<and> recs (snd (hook e s)) = recs s)"

definition event_of :: "lifecycle_event_kind \<Rightarrow> node_context \<Rightarrow> lifecycle_event" where
  "event_of kind ctx = \<lparr>event_kind = kind, event_context = ctx\<rparr>"

lemma observe_lifecycle_keeps:
  assumes "keeps sink hook recs evs" "observe_lifecycle hook sink kind ctx s = (a, s')"
  shows "recs s' = recs s @ [LifecycleRecord (event_of kind ctx)]"
    and "fst (sink (LifecycleRecord (event_of kind ctx)) s) = Ok () \<Longrightarrow> evs s' = evs s @ [event_of kind ctx]"
    and "a = Ok () \<Longrightarrow> fst (sink (LifecycleRecord (event_of kind ctx)) s) = Ok ()"
  using assms
  by (cases "sink (LifecycleRecord (event_of kind ctx)) s"; cases "fst (sink (LifecycleRecord (event_of kind ctx)) s)";
      auto simp: observe_lifecycle_def event_of_def keeps_def Let_def; metis snd_conv)+

lemma observe_node_error_keeps:
  assumes "keeps sink hook recs evs" "observe_node_error sink ctx e s = (a, s')"
  shows "recs s' = recs s @ [ErrorRecord (node_failed ctx e)]" "evs s' = evs s"
  using assms by (auto simp: observe_node_error_def keeps_def) (metis snd_conv)+

text \<open>The event that ends a run, from the documentation of the events: none after a panic.\<close>

fun outcome_event :: "(unit, pureflow_error) result \<Rightarrow> lifecycle_event_kind option" where
  "outcome_event (Ok u) = Some NodeCompleted"
| "outcome_event (Err (Cancellation m)) = Some NodeCancelled"
| "outcome_event (Err e) = Some NodeFailed"
| "outcome_event Panic = None"

definition outcome_events :: "node_context \<Rightarrow> (unit, pureflow_error) result \<Rightarrow> lifecycle_event list" where
  "outcome_events ctx r = (case outcome_event r of None \<Rightarrow> [] | Some k \<Rightarrow> [event_of k ctx])"

text \<open>The error record that precedes the end of a failed or cancelled run.\<close>

definition outcome_errors :: "node_context \<Rightarrow> (unit, pureflow_error) result \<Rightarrow> error_metadata_record list" where
  "outcome_errors ctx r =
     (case r of
        Err e \<Rightarrow> [\<lparr>error_kind = ErrorNodeFailed, error_workflow = context_workflow ctx, error_node = Some (context_node ctx),
                   error_execution = context_execution ctx, error_value = e, error_diagnostic = None\<rparr>]
      | _ \<Rightarrow> [])"

lemma terminal_kind_outcome: "outcome_event (Err e) = Some (terminal_kind e)"
  by (cases e) (simp_all add: terminal_kind_def)

text \<open>What a run returns for arbitrary observers.\<close>

lemma run_node_result:
  "fst (run_node_with_observers node ctx inputs outputs hook sink w) =
     (let (started, s1) = observe_lifecycle hook sink NodeStarted ctx (sink_state w);
          (r, w2) = node ctx (in_with_node_context ctx (in_with_metadata_sink sink inputs))
            (out_with_node_context ctx (out_with_metadata_sink sink outputs)) (w\<lparr>sink_state := s1\<rparr>)
      in case started of
           Ok _ \<Rightarrow> (case r of Ok _ \<Rightarrow> fst (observe_lifecycle hook sink NodeCompleted ctx (sink_state w2)) | _ \<Rightarrow> r)
         | _ \<Rightarrow> started)"
  by (auto simp: run_node_with_observers_def Let_def split: prod.split result.split)

text \<open>
  the error of an executor is never masked: whatever the sink and the hook answer, a run whose
  start was observed and whose executor returned an error returns that error, and a run never
  succeeds unless start, executor and completion all did.
\<close>

theorem executor_error_wins:
  assumes "observe_lifecycle hook sink NodeStarted ctx (sink_state w) = (started, s1)"
    and "node ctx (in_with_node_context ctx (in_with_metadata_sink sink inputs))
      (out_with_node_context ctx (out_with_metadata_sink sink outputs)) (w\<lparr>sink_state := s1\<rparr>) = (r, w2)"
  shows "(started = Ok () \<and> r = Err e \<longrightarrow>
      fst (run_node_with_observers node ctx inputs outputs hook sink w) = Err e) \<and>
    (fst (run_node_with_observers node ctx inputs outputs hook sink w) = Ok () \<longleftrightarrow>
      started = Ok () \<and> r = Ok () \<and>
      fst (observe_lifecycle hook sink NodeCompleted ctx (sink_state w2)) = Ok ())"
  using assms by (auto simp: run_node_result split: result.splits)

theorem executor_error_wins_witness:
  "fst (run_node_with_observers (\<lambda>ctx ins outs w. (Err (Execution ''boom''), w)) sample_context
      (new_ports_in [] :: (unit, unit) ports_in) (new_ports_out []) noop_hook noop_sink
      \<lparr>chans = (), sink_state = (), signals = [None]\<rparr>) = Err (Execution ''boom'')"
proof -
  define w :: "(unit, unit) world" where "w = \<lparr>chans = (), sink_state = (), signals = [None]\<rparr>"
  have "observe_lifecycle noop_hook (noop_sink :: (unit, unit) sink) NodeStarted sample_context
      (sink_state w) = (Ok (), ())"
    by (simp add: observe_lifecycle_def noop_sink_def noop_hook_def)
  from executor_error_wins [OF this, where node = "\<lambda>ctx ins outs w. (Err (Execution ''boom''), w)"
      and inputs = "new_ports_in []" and outputs = "new_ports_out []" and e = "Execution ''boom''"]
  show ?thesis by (simp add: w_def)
qed

text \<open>The ports that the boundary hands to an executor, and the world in which the executor starts.\<close>

definition observed_run ::
  "('n, 'c, 's) executor \<Rightarrow> node_context \<Rightarrow> ('n, 's) ports_in \<Rightarrow> ('n, 's) ports_out \<Rightarrow> ('n, 's) sink
   \<Rightarrow> ('c, 's) world \<Rightarrow> (unit, pureflow_error) result \<times> ('c, 's) world" where
  "observed_run node ctx inputs outputs sink w =
     node ctx (inputs\<lparr>in_sink := Some sink, in_context := Some ctx\<rparr>) (outputs\<lparr>out_sink := Some sink, out_context := Some ctx\<rparr>) w"

lemma observed_run_ports:
  "node ctx (in_with_node_context ctx (in_with_metadata_sink sink inputs))
     (out_with_node_context ctx (out_with_metadata_sink sink outputs)) w = observed_run node ctx inputs outputs sink w"
  by (simp add: observed_run_def in_with_node_context_def in_with_metadata_sink_def out_with_node_context_def
      out_with_metadata_sink_def)

lemma run_node_started:
  assumes "observe_lifecycle hook sink NodeStarted ctx (sink_state w) = (started, s1)"
    and "observed_run node ctx inputs outputs sink (w\<lparr>sink_state := s1\<rparr>) = (r, w1)"
  shows "run_node_with_observers node ctx inputs outputs hook sink w =
    (if started = Ok () then
       (case r of
          Ok _ \<Rightarrow> (case observe_lifecycle hook sink NodeCompleted ctx (sink_state w1) of (a, s) \<Rightarrow> (a, w1\<lparr>sink_state := s\<rparr>))
        | Err e \<Rightarrow>
            (case observe_node_error sink ctx e (sink_state w1) of
               (b, s) \<Rightarrow> (Err e, w1\<lparr>sink_state := snd (observe_lifecycle hook sink (terminal_kind e) ctx s)\<rparr>))
        | Panic \<Rightarrow> (Panic, w1))
     else (started, w\<lparr>sink_state := s1\<rparr>))"
  using assms
  by (cases started) (auto simp: run_node_with_observers_def observed_run_ports Let_def split: result.splits prod.splits)

text \<open>
  C21: what is reported of the run of a node, and what the observers can change.  For observers that keep what they are
  told, the start is the first record; when it is refused the executor does not run and the refusal is the result.
  Otherwise the records after those of the executor and its ports are: a completion; or the error, as a record of this
  node, followed by a cancellation if the error is one and by a failure otherwise; or none after a panic.  The hook is
  told the same events in the same order unless the sink refuses them.  Channels and cancellation flags are left as the
  executor left them, the error of an executor is never masked by the observers, and the run succeeds exactly when the
  executor and the report of its completion do.
\<close>

theorem node_run_reports:
  assumes "keeps sink hook recs evs"
    and "observe_lifecycle hook sink NodeStarted ctx (sink_state w) = (started, s1)"
    and "observed_run node ctx inputs outputs sink (w\<lparr>sink_state := s1\<rparr>) = (r, w1)"
    and "run_node_with_observers node ctx inputs outputs hook sink w = (res, w')"
  shows "recs s1 = recs (sink_state w) @ [LifecycleRecord (event_of NodeStarted ctx)] \<and>
    (started \<noteq> Ok () \<longrightarrow> res = started \<and> w' = w\<lparr>sink_state := s1\<rparr>) \<and>
    (started = Ok () \<longrightarrow>
      evs s1 = evs (sink_state w) @ [event_of NodeStarted ctx] \<and>
      chans w' = chans w1 \<and> signals w' = signals w1 \<and>
      recs (sink_state w') = recs (sink_state w1) @ map ErrorRecord (outcome_errors ctx r) @
        map LifecycleRecord (outcome_events ctx r) \<and>
      ((\<forall>x s. fst (sink x s) = Ok ()) \<longrightarrow> evs (sink_state w') = evs (sink_state w1) @ outcome_events ctx r) \<and>
      (r \<noteq> Ok () \<longrightarrow> res = r) \<and>
      (res = Ok () \<longleftrightarrow> r = Ok () \<and> fst (observe_lifecycle hook sink NodeCompleted ctx (sink_state w1)) = Ok ()))"
proof -
  note start = observe_lifecycle_keeps [OF assms(1,2)]
  note run = run_node_started [OF assms(2,3), unfolded assms(4)]
  have refused: "started \<noteq> Ok () \<longrightarrow> res = started \<and> w' = w\<lparr>sink_state := s1\<rparr>" using run by (auto split: if_splits)
  have "chans w' = chans w1 \<and> signals w' = signals w1 \<and>
      recs (sink_state w') = recs (sink_state w1) @ map ErrorRecord (outcome_errors ctx r) @
        map LifecycleRecord (outcome_events ctx r) \<and>
      ((\<forall>x s. fst (sink x s) = Ok ()) \<longrightarrow> evs (sink_state w') = evs (sink_state w1) @ outcome_events ctx r) \<and>
      (r \<noteq> Ok () \<longrightarrow> res = r) \<and>
      (res = Ok () \<longleftrightarrow> r = Ok () \<and> fst (observe_lifecycle hook sink NodeCompleted ctx (sink_state w1)) = Ok ())"
    if "started = Ok ()"
  proof (cases r)
    case (Ok u)
    obtain a s where o: "observe_lifecycle hook sink NodeCompleted ctx (sink_state w1) = (a, s)" by fastforce
    with run that Ok have "res = a" "w' = w1\<lparr>sink_state := s\<rparr>" by simp_all
    with o observe_lifecycle_keeps [OF assms(1) o] Ok show ?thesis by (simp add: outcome_events_def outcome_errors_def)
  next
    case (Err e)
    obtain b s where n: "observe_node_error sink ctx e (sink_state w1) = (b, s)" by fastforce
    obtain a s' where o: "observe_lifecycle hook sink (terminal_kind e) ctx s = (a, s')" by fastforce
    from run that Err n o have "res = Err e" "w' = w1\<lparr>sink_state := s'\<rparr>" by simp_all
    with observe_lifecycle_keeps [OF assms(1) o] observe_node_error_keeps [OF assms(1) n] Err show ?thesis
      by (simp add: outcome_events_def outcome_errors_def terminal_kind_outcome node_failed_def)
  next
    case Panic
    with run that show ?thesis by (simp add: outcome_events_def outcome_errors_def)
  qed
  then show ?thesis using start refused by blast
qed

text \<open>Observers that append to two lists.\<close>

type_synonym 'n log = "'n metadata_record list \<times> lifecycle_event list"

definition log_sink :: "('n, 'n log) sink" where
  "log_sink r s = (Ok (), (fst s @ [r], snd s))"

definition log_hook :: "'n log hook" where
  "log_hook e s = (Ok (), (fst s, snd s @ [e]))"

theorem node_run_reports_witness:
  "\<exists>w'. run_node_with_observers (\<lambda>ctx ins outs w. (Err (Cancellation ''stop''), w)) sample_context
      (new_ports_in [] :: (unit, unit log) ports_in) (new_ports_out []) log_hook log_sink
      \<lparr>chans = (), sink_state = ([], []), signals = [None]\<rparr> = (Err (Cancellation ''stop''), w') \<and>
    snd (sink_state w') = [event_of NodeStarted sample_context, event_of NodeCancelled sample_context] \<and>
    length (fst (sink_state w')) = 3"
proof -
  let ?node = "\<lambda>ctx ins outs (w :: (unit, unit log) world). (Err (Cancellation ''stop'') :: (unit, pureflow_error) result, w)"
  let ?w = "\<lparr>chans = (), sink_state = ([], []), signals = [None]\<rparr> :: (unit, unit log) world"
  let ?ins = "new_ports_in [] :: (unit, unit log) ports_in" and ?outs = "new_ports_out [] :: (unit, unit log) ports_out"
  let ?start = "([LifecycleRecord (event_of NodeStarted sample_context)], [event_of NodeStarted sample_context]) :: unit log"
  have keeps: "keeps log_sink log_hook fst snd" by (simp add: keeps_def log_sink_def log_hook_def)
  have accepts: "fst (log_sink x s) = Ok ()" for x and s :: "unit log" by (simp add: log_sink_def)
  have started: "observe_lifecycle log_hook log_sink NodeStarted sample_context (sink_state ?w) = (Ok (), ?start)"
    by (simp add: observe_lifecycle_def log_sink_def log_hook_def event_of_def Let_def)
  have ran: "observed_run ?node sample_context ?ins ?outs log_sink (?w\<lparr>sink_state := ?start\<rparr>) =
      (Err (Cancellation ''stop''), ?w\<lparr>sink_state := ?start\<rparr>)" by (simp add: observed_run_def)
  obtain res w' where res: "run_node_with_observers ?node sample_context ?ins ?outs log_hook log_sink ?w = (res, w')" by fastforce
  from node_run_reports [OF keeps started ran res] res accepts show ?thesis
    by (auto simp: outcome_events_def outcome_errors_def)
qed

text \<open>
  once cancellation has been requested on the token of a context, the runtime returns the
  cancellation with the recorded reason and does nothing else: the executor does not run and no
  observer is called.
\<close>

theorem cancelled_node_never_runs:
  assumes "token_request (signals w) (context_token ctx) = Some r"
  shows "runtime_run_node node ctx inputs outputs w = (Err (Cancellation (reason r)), w) \<and>
    runtime_run_node_with_metadata_sink node ctx inputs outputs sink w =
      (Err (Cancellation (reason r)), w) \<and>
    runtime_run_node_with_cancellation_handle node ctx' inputs outputs
      (CancellationHandle (context_token ctx)) w = (Err (Cancellation (reason r)), w)"
  using assms
  by (simp add: runtime_run_node_def runtime_run_node_with_metadata_sink_def
      runtime_run_node_with_cancellation_handle_def cancellation_error_def context_cancellation_def
      token_state_def with_cancellation_token_def Let_def)

theorem cancelled_node_never_runs_witness:
  "runtime_run_node (\<lambda>ctx ins outs w. (Ok (), w)) sample_context
      (new_ports_in [] :: (unit, unit) ports_in) (new_ports_out [])
      \<lparr>chans = (), sink_state = (), signals = [Some (CancellationRequest ''stop'')]\<rparr> =
    (Err (Cancellation ''stop''),
     \<lparr>chans = (), sink_state = (), signals = [Some (CancellationRequest ''stop'')]\<rparr>)"
  using cancelled_node_never_runs [where ctx = sample_context and r = "CancellationRequest ''stop''"
      and w = "\<lparr>chans = (), sink_state = (), signals = [Some (CancellationRequest ''stop'')]\<rparr>"
      and node = "\<lambda>ctx ins outs w. (Ok (), w)" and inputs = "new_ports_in [] :: (unit, unit) ports_in"
      and outputs = "new_ports_out []" and sink = noop_sink and ctx' = sample_context]
  by (simp add: token_request_def sample_context_def)

end
