(* ===== verification/Engine.thy ===== *)
theory Engine
  imports Runtime Contract
begin

text \<open>
  The crate \<open>pureflow-engine\<close>, first half: run policies, the summary of a run with its counters, the
  deadlock diagnostic, and the collection of node results.

  The node runs of a workflow are futures polled together; which one ends next is decided outside the
  repository.  The collection loops therefore take the sequence of what they observe, an \<open>observation\<close>
  for each time they are resumed: a node run that ended with its result, the deadline of the watchdog,
  or a failure to start the watchdog thread, each with what the run did to the world since the last
  one.  A loop that still waits when the sequence is exhausted has the value \<open>None\<close>.
\<close>

section \<open>Policies\<close>

datatype feedback_loop_startup = StartAllNodes
datatype feedback_loop_termination = AllNodesComplete

record feedback_loop_run_policy =
  loop_startup :: feedback_loop_startup
  loop_termination :: feedback_loop_termination

definition start_all_nodes_until_complete :: feedback_loop_run_policy where
  "start_all_nodes_until_complete = \<lparr>loop_startup = StartAllNodes, loop_termination = AllNodesComplete\<rparr>"

datatype cycle_run_policy = Reject | AllowFeedbackLoops feedback_loop_run_policy

text \<open>A \<open>Duration\<close> is its number of nanoseconds.\<close>

type_synonym duration = nat

datatype deadlock_watchdog_policy = DeadlockWatchdogPolicy duration

primrec no_progress_timeout :: "deadlock_watchdog_policy \<Rightarrow> duration" where
  "no_progress_timeout (DeadlockWatchdogPolicy d) = d"

datatype workflow_watchdog_policy = Disabled | Deadlock deadlock_watchdog_policy

definition deadlock_after :: "duration \<Rightarrow> workflow_watchdog_policy" where
  "deadlock_after d = Deadlock (DeadlockWatchdogPolicy d)"

record workflow_run_policy =
  cycle_policy :: cycle_run_policy
  watchdog_policy :: workflow_watchdog_policy

definition acyclic_policy :: workflow_run_policy where
  "acyclic_policy = \<lparr>cycle_policy = Reject, watchdog_policy = Disabled\<rparr>"

definition feedback_loops :: "feedback_loop_run_policy \<Rightarrow> workflow_run_policy" where
  "feedback_loops f = \<lparr>cycle_policy = AllowFeedbackLoops f, watchdog_policy = Disabled\<rparr>"

definition with_watchdog :: "workflow_watchdog_policy \<Rightarrow> workflow_run_policy \<Rightarrow> workflow_run_policy" where
  "with_watchdog wd p = p\<lparr>watchdog_policy := wd\<rparr>"

section \<open>Validation of the run policy\<close>

fun port_direction_label :: "port_direction \<Rightarrow> string" where
  "port_direction_label Input = ''input''"
| "port_direction_label Output = ''output''"

fun endpoint_role_label :: "edge_endpoint_role \<Rightarrow> string" where
  "endpoint_role_label Source = ''source''"
| "endpoint_role_label Target = ''target''"

fun show_workflow_validation_error :: "workflow_validation_error \<Rightarrow> string" where
  "show_workflow_validation_error (DuplicateNode n) =
     ''workflow graph contains duplicate node '' @ quoted (node_id_str n)"
| "show_workflow_validation_error (DuplicatePort n p) =
     ''node '' @ quoted (node_id_str n) @ '' contains duplicate port '' @ quoted (port_id_str p)"
| "show_workflow_validation_error (UnknownNode i r n) =
     ''edge '' @ show_nat i @ '' '' @ endpoint_role_label r @ '' references unknown node ''
       @ quoted (node_id_str n)"
| "show_workflow_validation_error (UnknownPort i r n p d) =
     ''edge '' @ show_nat i @ '' '' @ endpoint_role_label r @ '' references unknown ''
       @ port_direction_label d @ '' port '' @ quoted (port_id_str p) @ '' on node '' @ quoted (node_id_str n)"
| "show_workflow_validation_error (CycleDetected c) =
     ''workflow graph contains a cycle involving'' @ concat (map (\<lambda>n. '' '' @ quoted (node_id_str n)) c)"

definition cycle_label :: "node_id list \<Rightarrow> string" where
  "cycle_label cycle = join '' -> '' (map node_id_str cycle)"

definition validate_cycle_run_policy ::
  "workflow_definition \<Rightarrow> workflow_run_policy \<Rightarrow> node_id list \<Rightarrow> (unit, pureflow_error) result" where
  "validate_cycle_run_policy flow p cycle =
     (case cycle_policy p of
        Reject \<Rightarrow>
          Err (Execution (''workflow '' @ quoted (workflow_id_str (workflow_def_id flow))
            @ '' contains directed cycle '' @ cycle_label cycle
            @ ''; use an explicit feedback-loop run policy to execute cyclic graphs''))
      | AllowFeedbackLoops f \<Rightarrow>
          (case (loop_startup f, loop_termination f) of (StartAllNodes, AllNodesComplete) \<Rightarrow> Ok ()))"

definition validate_workflow_run_policy ::
  "workflow_definition \<Rightarrow> workflow_run_policy \<Rightarrow> (unit, pureflow_error) result" where
  "validate_workflow_run_policy flow p =
     (case graph_topological_order (workflow_graph flow) of
        Ok _ \<Rightarrow> Ok ()
      | Err (CycleDetected cycle) \<Rightarrow> validate_cycle_run_policy flow p cycle
      | Err e \<Rightarrow>
          Err (Execution (''workflow '' @ quoted (workflow_id_str (workflow_def_id flow))
            @ '' topology validation failed before execution: '' @ show_workflow_validation_error e))
      | Panic \<Rightarrow> Panic)"

section \<open>Summaries\<close>

datatype workflow_terminal_state = Completed | Failed | Cancelled

record workflow_deadlock_diagnostic =
  dd_workflow_id :: workflow_id
  dd_scheduled_node_count :: nat
  dd_pending_node_count :: nat
  dd_completed_node_count :: nat
  dd_failed_node_count :: nat
  dd_cancelled_node_count :: nat
  dd_bounded_edge_count :: nat
  dd_no_progress_timeout :: duration
  dd_cycle_policy :: cycle_run_policy

record workflow_run_summary =
  terminal_state :: workflow_terminal_state
  scheduled_node_count :: nat
  completed_node_count :: nat
  failed_node_count :: nat
  cancelled_node_count :: nat
  observed_message_count :: nat
  error_count :: nat
  first_error :: "pureflow_error option"
  deadlock_diagnostic :: "workflow_deadlock_diagnostic option"

definition new_summary :: "nat \<Rightarrow> workflow_run_summary" where
  "new_summary n =
     \<lparr>terminal_state = Completed, scheduled_node_count = n, completed_node_count = 0,
      failed_node_count = 0, cancelled_node_count = 0, observed_message_count = 0, error_count = 0,
      first_error = None, deadlock_diagnostic = None\<rparr>"

definition pending_node_count :: "workflow_run_summary \<Rightarrow> nat" where
  "pending_node_count s =
     scheduled_node_count s -
       saturating_add (saturating_add (completed_node_count s) (failed_node_count s)) (cancelled_node_count s)"

definition into_result :: "workflow_run_summary \<Rightarrow> (unit, pureflow_error) result" where
  "into_result s = (case first_error s of None \<Rightarrow> Ok () | Some e \<Rightarrow> Err e)"

fun is_cancellation :: "pureflow_error \<Rightarrow> bool" where
  "is_cancellation (Cancellation r) \<longleftrightarrow> True"
| "is_cancellation (Validation e) \<longleftrightarrow> False"
| "is_cancellation (Execution m) \<longleftrightarrow> False"
| "is_cancellation (Lifecycle m) \<longleftrightarrow> False"
| "is_cancellation (Metadata m) \<longleftrightarrow> False"

definition record_success :: "workflow_run_summary \<Rightarrow> workflow_run_summary" where
  "record_success s = s\<lparr>completed_node_count := saturating_add (completed_node_count s) 1\<rparr>"

definition note_first_error :: "pureflow_error \<Rightarrow> workflow_run_summary \<Rightarrow> workflow_run_summary" where
  "note_first_error e s =
     (if first_error s = None
      then s\<lparr>terminal_state := (if is_cancellation e then Cancelled else Failed), first_error := Some e\<rparr>
      else s)"

definition record_error :: "pureflow_error \<Rightarrow> workflow_run_summary \<Rightarrow> workflow_run_summary" where
  "record_error e s =
     (let s1 = s\<lparr>error_count := saturating_add (error_count s) 1\<rparr>;
          s2 = (if is_cancellation e
                then s1\<lparr>cancelled_node_count := saturating_add (cancelled_node_count s1) 1\<rparr>
                else s1\<lparr>failed_node_count := saturating_add (failed_node_count s1) 1\<rparr>)
      in note_first_error e s2)"

definition record_workflow_error :: "pureflow_error \<Rightarrow> workflow_run_summary \<Rightarrow> workflow_run_summary" where
  "record_workflow_error e s = note_first_error e (s\<lparr>error_count := saturating_add (error_count s) 1\<rparr>)"

definition record_deadlock_diagnostic ::
  "workflow_deadlock_diagnostic \<Rightarrow> workflow_run_summary \<Rightarrow> workflow_run_summary" where
  "record_deadlock_diagnostic d s = s\<lparr>deadlock_diagnostic := Some d\<rparr>"

section \<open>The deadlock diagnostic\<close>

definition diagnostic_from_run ::
  "workflow_definition \<Rightarrow> workflow_run_summary \<Rightarrow> workflow_run_policy \<Rightarrow> deadlock_watchdog_policy
   \<Rightarrow> workflow_deadlock_diagnostic" where
  "diagnostic_from_run flow s p wd =
     \<lparr>dd_workflow_id = workflow_def_id flow, dd_scheduled_node_count = scheduled_node_count s,
      dd_pending_node_count = pending_node_count s, dd_completed_node_count = completed_node_count s,
      dd_failed_node_count = failed_node_count s, dd_cancelled_node_count = cancelled_node_count s,
      dd_bounded_edge_count = length (workflow_edges flow),
      dd_no_progress_timeout = no_progress_timeout wd, dd_cycle_policy = cycle_policy p\<rparr>"

definition duration_millis_u64 :: "duration \<Rightarrow> nat" where
  "duration_millis_u64 d = min (d div 1000000) (2 ^ 64 - 1)"

fun cycle_run_policy_label :: "cycle_run_policy \<Rightarrow> string" where
  "cycle_run_policy_label Reject = ''reject''"
| "cycle_run_policy_label (AllowFeedbackLoops f) = ''allow_feedback_loops''"

fun feedback_loop_startup_label :: "feedback_loop_startup \<Rightarrow> string" where
  "feedback_loop_startup_label StartAllNodes = ''start_all_nodes''"

fun feedback_loop_termination_label :: "feedback_loop_termination \<Rightarrow> string" where
  "feedback_loop_termination_label AllNodesComplete = ''all_nodes_complete''"

definition to_metadata_diagnostic :: "workflow_deadlock_diagnostic \<Rightarrow> error_diagnostic_metadata" where
  "to_metadata_diagnostic d =
     (let m = with_terminal_counts (dd_completed_node_count d) (dd_failed_node_count d)
            (dd_cancelled_node_count d)
            (new_deadlock_diagnostic_metadata (dd_scheduled_node_count d) (dd_pending_node_count d)
              (dd_bounded_edge_count d) (duration_millis_u64 (dd_no_progress_timeout d))
              (cycle_run_policy_label (dd_cycle_policy d)))
      in case dd_cycle_policy d of
           Reject \<Rightarrow> WorkflowDeadlock m
         | AllowFeedbackLoops f \<Rightarrow>
             WorkflowDeadlock (with_feedback_loop (feedback_loop_startup_label (loop_startup f))
               (feedback_loop_termination_label (loop_termination f)) m))"

text \<open>
  \<open>{:?}\<close> of the policy is the derived \<open>Debug\<close>; \<open>{:?}\<close> of a \<open>Duration\<close> is the parameter \<open>fmt\<close>.
\<close>

fun debug_cycle_policy :: "cycle_run_policy \<Rightarrow> string" where
  "debug_cycle_policy Reject = ''Reject''"
| "debug_cycle_policy (AllowFeedbackLoops f) =
     ''AllowFeedbackLoops(FeedbackLoopRunPolicy { startup: StartAllNodes, termination: AllNodesComplete })''"

definition show_deadlock_diagnostic :: "(duration \<Rightarrow> string) \<Rightarrow> workflow_deadlock_diagnostic \<Rightarrow> string" where
  "show_deadlock_diagnostic fmt d =
     ''workflow '' @ quoted (workflow_id_str (dd_workflow_id d))
       @ '' watchdog detected no workflow progress for '' @ fmt (dd_no_progress_timeout d)
       @ '': scheduled_nodes='' @ show_nat (dd_scheduled_node_count d)
       @ '', pending_nodes='' @ show_nat (dd_pending_node_count d)
       @ '', completed_nodes='' @ show_nat (dd_completed_node_count d)
       @ '', failed_nodes='' @ show_nat (dd_failed_node_count d)
       @ '', cancelled_nodes='' @ show_nat (dd_cancelled_node_count d)
       @ '', bounded_edges='' @ show_nat (dd_bounded_edge_count d)
       @ '', cycle_policy='' @ debug_cycle_policy (dd_cycle_policy d)"

section \<open>Collecting node results\<close>

record ('n, 's) collection_context =
  cc_cancellation :: cancellation_handle
  cc_workflow :: workflow_definition
  cc_execution :: execution_metadata
  cc_sink :: "('n, 's) sink"
  cc_policy :: workflow_run_policy

text \<open>The steps shared by the two functions that record the first error of a run.\<close>

definition report_workflow_error ::
  "('n, 's) collection_context \<Rightarrow> error_metadata_record \<Rightarrow> pureflow_error \<Rightarrow> ('c, 's) world
   \<Rightarrow> (unit, pureflow_error) result \<times> ('c, 's) world" where
  "report_workflow_error ctx rec e w =
     (let (r, s) = cc_sink ctx (ErrorRecord rec) (sink_state w);
          w1 = w\<lparr>sink_state := s\<rparr>
      in case r of
           Ok _ \<Rightarrow>
             (Ok (), w1\<lparr>signals := snd (cancel (cc_cancellation ctx)
                (CancellationRequest (''node execution failed: '' @ show_pureflow_error e)) (signals w1))\<rparr>)
         | f \<Rightarrow> (f, w1))"

definition record_first_workflow_error ::
  "('n, 's) collection_context \<Rightarrow> pureflow_error \<Rightarrow> ('c, 's) world
   \<Rightarrow> (unit, pureflow_error) result \<times> ('c, 's) world" where
  "record_first_workflow_error ctx e w =
     report_workflow_error ctx
       (workflow_failed (workflow_def_id (cc_workflow ctx)) (cc_execution ctx) e) e w"

definition record_first_workflow_error_with_diagnostic ::
  "('n, 's) collection_context \<Rightarrow> pureflow_error \<Rightarrow> workflow_deadlock_diagnostic \<Rightarrow> ('c, 's) world
   \<Rightarrow> (unit, pureflow_error) result \<times> ('c, 's) world" where
  "record_first_workflow_error_with_diagnostic ctx e d w =
     report_workflow_error ctx
       (workflow_failed_with_diagnostic (workflow_def_id (cc_workflow ctx)) (cc_execution ctx) e
         (to_metadata_diagnostic d)) e w"

definition record_node_run_result ::
  "('n, 's) collection_context \<Rightarrow> (unit, pureflow_error) result \<Rightarrow> workflow_run_summary \<Rightarrow> ('c, 's) world
   \<Rightarrow> (workflow_run_summary, pureflow_error) result \<times> ('c, 's) world" where
  "record_node_run_result ctx r s w =
     (case r of
        Ok _ \<Rightarrow> (Ok (record_success s), w)
      | Err e \<Rightarrow>
          (let (o1, w1) = (if first_error s = None then record_first_workflow_error ctx e w else (Ok (), w))
           in (and_then o1 (\<lambda>_. Ok (record_error e s)), w1))
      | Panic \<Rightarrow> (Panic, w))"

datatype ('c, 's) observation =
  NodeEnded "('c, 's) world \<Rightarrow> ('c, 's) world" node_id "(unit, pureflow_error) result"
| DeadlineFired "('c, 's) world \<Rightarrow> ('c, 's) world"
| WatchdogNotStarted "('c, 's) world \<Rightarrow> ('c, 's) world" string

text \<open>
  \<open>pending\<close> is the number of futures left in the collection.  Without a watchdog only the end of a
  node resumes the loop; other observations are passed over.
\<close>

fun collect_until_complete ::
  "('n, 's) collection_context \<Rightarrow> nat \<Rightarrow> ('c, 's) observation list \<Rightarrow> workflow_run_summary \<Rightarrow> ('c, 's) world
   \<Rightarrow> (workflow_run_summary, pureflow_error) result option \<times> ('c, 's) world" where
  "collect_until_complete ctx 0 obs s w = (Some (Ok s), w)"
| "collect_until_complete ctx (Suc n) [] s w = (None, w)"
| "collect_until_complete ctx (Suc n) (NodeEnded step i r # obs) s w =
     (case record_node_run_result ctx r s (step w) of
        (Ok s1, w1) \<Rightarrow> collect_until_complete ctx n obs s1 w1
      | (f, w1) \<Rightarrow> (Some f, w1))"
| "collect_until_complete ctx (Suc n) (DeadlineFired step # obs) s w =
     collect_until_complete ctx (Suc n) obs s w"
| "collect_until_complete ctx (Suc n) (WatchdogNotStarted step m # obs) s w =
     collect_until_complete ctx (Suc n) obs s w"

fun collect_with_deadlock_watchdog ::
  "(duration \<Rightarrow> string) \<Rightarrow> ('n, 's) collection_context \<Rightarrow> deadlock_watchdog_policy \<Rightarrow> nat
   \<Rightarrow> ('c, 's) observation list \<Rightarrow> workflow_run_summary \<Rightarrow> ('c, 's) world
   \<Rightarrow> (workflow_run_summary, pureflow_error) result option \<times> ('c, 's) world" where
  "collect_with_deadlock_watchdog fmt ctx wd 0 obs s w = (Some (Ok s), w)"
| "collect_with_deadlock_watchdog fmt ctx wd (Suc n) [] s w = (None, w)"
| "collect_with_deadlock_watchdog fmt ctx wd (Suc n) (NodeEnded step i r # obs) s w =
     (case record_node_run_result ctx r s (step w) of
        (Ok s1, w1) \<Rightarrow> collect_with_deadlock_watchdog fmt ctx wd n obs s1 w1
      | (f, w1) \<Rightarrow> (Some f, w1))"
| "collect_with_deadlock_watchdog fmt ctx wd (Suc n) (DeadlineFired step # obs) s w =
     (let d = diagnostic_from_run (cc_workflow ctx) s (cc_policy ctx) wd;
          e = Execution (show_deadlock_diagnostic fmt d);
          (r, w1) = record_first_workflow_error_with_diagnostic ctx e d (step w)
      in (Some (and_then r (\<lambda>_. Ok (record_deadlock_diagnostic d (record_workflow_error e s)))), w1))"
| "collect_with_deadlock_watchdog fmt ctx wd (Suc n) (WatchdogNotStarted step m # obs) s w =
     (Some (Err (Execution (''failed to start workflow deadlock watchdog: '' @ m))), step w)"

definition collect_workflow_summary ::
  "(duration \<Rightarrow> string) \<Rightarrow> ('n, 's) collection_context \<Rightarrow> nat \<Rightarrow> ('c, 's) observation list \<Rightarrow> nat \<Rightarrow> ('c, 's) world
   \<Rightarrow> (workflow_run_summary, pureflow_error) result option \<times> ('c, 's) world" where
  "collect_workflow_summary fmt ctx runs obs scheduled w =
     (case watchdog_policy (cc_policy ctx) of
        Disabled \<Rightarrow> collect_until_complete ctx runs obs (new_summary scheduled) w
      | Deadlock wd \<Rightarrow> collect_with_deadlock_watchdog fmt ctx wd runs obs (new_summary scheduled) w)"

end
