(* ===== verification/EngineProps.thy ===== *)
theory EngineProps
  imports Engine WorkflowProps
begin

text \<open>
  What the engine's collection of node results guarantees: exact counts, the first error in completion
  order, cancellation of the rest of the run with that error as the reason, and an end whenever all
  nodes have ended or the watchdog has fired.  Then which workflows a run policy admits.
\<close>

section \<open>Results and summaries\<close>

fun result_of :: "('c, 's) observation \<Rightarrow> (unit, pureflow_error) result list" where
  "result_of (NodeEnded step i r) = [r]"
| "result_of (DeadlineFired step) = []"
| "result_of (WatchdogNotStarted step m) = []"

fun step_of :: "('c, 's) observation \<Rightarrow> ('c, 's) world \<Rightarrow> ('c, 's) world" where
  "step_of (NodeEnded step i r) = step"
| "step_of (DeadlineFired step) = step"
| "step_of (WatchdogNotStarted step m) = step"

definition results :: "('c, 's) observation list \<Rightarrow> (unit, pureflow_error) result list" where
  "results obs = concat (map result_of obs)"

fun error_of :: "(unit, pureflow_error) result \<Rightarrow> pureflow_error list" where
  "error_of (Ok u) = []"
| "error_of (Err e) = [e]"
| "error_of Panic = []"

definition errors :: "(unit, pureflow_error) result list \<Rightarrow> pureflow_error list" where
  "errors rs = concat (map error_of rs)"

definition state_for :: "pureflow_error option \<Rightarrow> workflow_terminal_state" where
  "state_for e = (case e of None \<Rightarrow> Completed | Some e \<Rightarrow> if is_cancellation e then Cancelled else Failed)"

fun first_of :: "'a list \<Rightarrow> 'a option" where
  "first_of [] = None"
| "first_of (x # xs) = Some x"

text \<open>The summary of a run of \<open>n\<close> nodes after the results \<open>rs\<close>, when \<open>extra\<close> is the watchdog's error.\<close>

definition summary_for ::
  "nat \<Rightarrow> (unit, pureflow_error) result list \<Rightarrow> pureflow_error list \<Rightarrow> workflow_deadlock_diagnostic option
   \<Rightarrow> workflow_run_summary" where
  "summary_for n rs extra d =
     \<lparr>terminal_state = state_for (first_of (errors rs @ extra)), scheduled_node_count = n,
      completed_node_count = length (filter is_ok rs),
      failed_node_count = length (filter (\<lambda>e. \<not> is_cancellation e) (errors rs)),
      cancelled_node_count = length (filter is_cancellation (errors rs)),
      observed_message_count = 0, error_count = length (errors rs) + length extra,
      first_error = first_of (errors rs @ extra), deadlock_diagnostic = d\<rparr>"

lemma results_simps [simp]: "results [] = []" "results (ob # obs) = result_of ob @ results obs"
  by (simp_all add: results_def)

lemma errors_simps [simp]:
  "errors [] = []" "errors (r # rs) = error_of r @ errors rs" "errors (rs @ qs) = errors rs @ errors qs"
  by (simp_all add: errors_def)

lemma first_of_append: "first_of (xs @ ys) = (case first_of xs of None \<Rightarrow> first_of ys | Some x \<Rightarrow> Some x)"
  by (cases xs) auto

lemma first_of_eq_None [simp]: "first_of xs = None \<longleftrightarrow> xs = []"
  by (cases xs) auto

lemma errors_length: "length (errors rs) \<le> length rs"
proof (induction rs)
  case (Cons r rs)
  then show ?case by (cases r) auto
qed simp

lemma count_results:
  assumes "Panic \<notin> set rs"
  shows "length (filter is_ok rs) + length (filter (\<lambda>e. \<not> is_cancellation e) (errors rs))
    + length (filter is_cancellation (errors rs)) = length rs"
  using assms
proof (induction rs)
  case (Cons r rs)
  then show ?case by (cases r) auto
qed simp

lemma saturating_small: "a + b \<le> USIZE_MAX \<Longrightarrow> saturating_add a b = a + b"
  by (simp add: saturating_add_def)

lemma new_summary_for: "new_summary n = summary_for n [] [] None"
  by (simp add: new_summary_def summary_for_def state_for_def)

lemma record_success_for:
  assumes "length rs < USIZE_MAX"
  shows "record_success (summary_for n rs [] None) = summary_for n (rs @ [Ok ()]) [] None"
proof -
  have "length (filter is_ok rs) \<le> length rs" by simp
  then have "length (filter is_ok rs) + 1 \<le> USIZE_MAX" using assms by linarith
  then show ?thesis by (simp add: record_success_def summary_for_def saturating_small)
qed

lemma record_error_for:
  assumes "length rs < USIZE_MAX"
  shows "record_error e (summary_for n rs [] None) = summary_for n (rs @ [Err e]) [] None"
proof -
  have le: "length (errors rs) + 1 \<le> USIZE_MAX"
    "length (filter is_cancellation (errors rs)) + 1 \<le> USIZE_MAX"
    "length (filter (\<lambda>e. \<not> is_cancellation e) (errors rs)) + 1 \<le> USIZE_MAX"
    using assms errors_length [of rs] length_filter_le [of is_cancellation "errors rs"]
      length_filter_le [of "\<lambda>e. \<not> is_cancellation e" "errors rs"] by linarith+
  show ?thesis
    using le
    by (auto simp: record_error_def note_first_error_def summary_for_def saturating_small state_for_def
        first_of_append Let_def split: option.splits)
qed

lemma record_workflow_error_for:
  assumes "length rs < USIZE_MAX"
  shows "record_deadlock_diagnostic d (record_workflow_error e (summary_for n rs [] None)) =
    summary_for n rs [e] (Some d)"
proof -
  have "length (errors rs) + 1 \<le> USIZE_MAX" using assms errors_length [of rs] by linarith
  then show ?thesis
    by (auto simp: record_deadlock_diagnostic_def record_workflow_error_def note_first_error_def
        summary_for_def saturating_small state_for_def first_of_append split: option.splits)
qed

lemma record_node_run_result_for:
  assumes "length rs < USIZE_MAX"
    and "record_node_run_result ctx r (summary_for n rs [] None) w = (Ok s, w')"
  shows "s = summary_for n (rs @ [r]) [] None \<and> r \<noteq> Panic"
proof (cases r)
  case (Ok u)
  then show ?thesis
    using assms record_success_for [OF assms(1), of n] by (simp add: record_node_run_result_def)
next
  case (Err e)
  then show ?thesis
    using assms record_error_for [OF assms(1), of e n]
    by (auto simp: record_node_run_result_def Let_def split: prod.splits if_splits)
next
  case Panic
  then show ?thesis using assms by (simp add: record_node_run_result_def)
qed

section \<open>The collection loops\<close>

lemma collect_until_complete_for:
  "collect_until_complete ctx k obs (summary_for n rs [] None) w = (Some (Ok s), w') \<Longrightarrow>
   length rs + k \<le> USIZE_MAX \<Longrightarrow>
   \<exists>qs. qs = take k (results obs) \<and> length qs = k \<and> Panic \<notin> set qs \<and> s = summary_for n (rs @ qs) [] None"
proof (induction ctx k obs "summary_for n rs [] None" w arbitrary: rs rule: collect_until_complete.induct)
  case (3 ctx k step i r obs w)
  obtain s1 w1 where s1: "record_node_run_result ctx r (summary_for n rs [] None) (step w) = (Ok s1, w1)"
    "collect_until_complete ctx k obs s1 w1 = (Some (Ok s), w')"
    using "3.prems"(1) by (auto split: prod.splits result.splits)
  have len: "length rs < USIZE_MAX" using "3.prems"(2) by simp
  have s1_eq: "s1 = summary_for n (rs @ [r]) [] None" "r \<noteq> Panic"
    using record_node_run_result_for [OF len s1(1)] by simp_all
  from "3.hyps" [OF s1(1) [symmetric] arg_cong [OF s1_eq(1), of Ok] s1(2) [unfolded s1_eq(1)]] "3.prems"(2) s1_eq show ?case by auto
qed auto

lemma collect_with_watchdog_for:
  "collect_with_deadlock_watchdog fmt ctx wd k obs (summary_for n rs [] None) w = (Some (Ok s), w') \<Longrightarrow>
   length rs + k \<le> USIZE_MAX \<Longrightarrow>
   \<exists>qs. Panic \<notin> set qs \<and> qs = take (length qs) (results obs) \<and>
     (length qs = k \<and> s = summary_for n (rs @ qs) [] None \<or>
      length qs < k \<and>
      (\<exists>d. d = diagnostic_from_run (cc_workflow ctx) (summary_for n (rs @ qs) [] None) (cc_policy ctx) wd \<and>
           s = summary_for n (rs @ qs) [Execution (show_deadlock_diagnostic fmt d)] (Some d)))"
proof (induction fmt ctx wd k obs "summary_for n rs [] None" w arbitrary: rs
    rule: collect_with_deadlock_watchdog.induct)
  case (1 fmt ctx wd obs w)
  then show ?case by (intro exI [of _ "[]"]) auto
next
  case (3 fmt ctx wd k step i r obs w)
  obtain s1 w1 where s1: "record_node_run_result ctx r (summary_for n rs [] None) (step w) = (Ok s1, w1)"
    "collect_with_deadlock_watchdog fmt ctx wd k obs s1 w1 = (Some (Ok s), w')"
    using "3.prems"(1) by (auto split: prod.splits result.splits)
  have len: "length rs < USIZE_MAX" using "3.prems"(2) by simp
  have s1_eq: "s1 = summary_for n (rs @ [r]) [] None" "r \<noteq> Panic"
    using record_node_run_result_for [OF len s1(1)] by simp_all
  from "3.hyps" [OF s1(1) [symmetric] arg_cong [OF s1_eq(1), of Ok] s1(2) [unfolded s1_eq(1)]] "3.prems"(2) s1_eq obtain qs where
    "Panic \<notin> set qs" "qs = take (length qs) (results obs)"
    "length qs = k \<and> s = summary_for n (rs @ r # qs) [] None \<or>
      length qs < k \<and>
      (\<exists>d. d = diagnostic_from_run (cc_workflow ctx) (summary_for n (rs @ r # qs) [] None) (cc_policy ctx) wd \<and>
           s = summary_for n (rs @ r # qs) [Execution (show_deadlock_diagnostic fmt d)] (Some d))"
    by auto
  then show ?case using s1_eq by (intro exI [of _ "r # qs"]) auto
next
  case (4 fmt ctx wd k step obs w)
  have len: "length rs < USIZE_MAX" using "4.prems"(2) by simp
  from "4.prems"(1) show ?case
    by (intro exI [of _ "[]"])
      (auto simp: Let_def record_workflow_error_for [OF len] split: prod.splits)
qed auto

section \<open>Cancellation of the run\<close>

text \<open>
  The handle of a run is created by the engine and nodes only get its token, which has no public
  operation that requests cancellation.  So what a node does leaves the signal of the run as it is.
\<close>

definition keeps_token :: "cancellation_token \<Rightarrow> (('c, 's) world \<Rightarrow> ('c, 's) world) \<Rightarrow> bool" where
  "keeps_token t step \<longleftrightarrow>
     (\<forall>w. token_valid (signals w) t \<longrightarrow>
        token_valid (signals (step w)) t \<and> token_request (signals (step w)) t = token_request (signals w) t)"

definition run_reason :: "pureflow_error \<Rightarrow> cancellation_request" where
  "run_reason e = CancellationRequest (''node execution failed: '' @ show_pureflow_error e)"

definition signal_follows :: "cancellation_token \<Rightarrow> workflow_run_summary \<Rightarrow> ('c, 's) world \<Rightarrow> bool" where
  "signal_follows t s w \<longleftrightarrow>
     token_valid (signals w) t \<and> token_request (signals w) t = map_option run_reason (first_error s)"

lemma report_workflow_error_signal:
  assumes "report_workflow_error ctx rec e w = (Ok u, w')"
    and "token_valid (signals w) (handle_token (cc_cancellation ctx))"
  shows "token_valid (signals w') (handle_token (cc_cancellation ctx))"
    "token_request (signals w') (handle_token (cc_cancellation ctx)) =
      (case token_request (signals w) (handle_token (cc_cancellation ctx)) of
         None \<Rightarrow> Some (run_reason e) | Some r \<Rightarrow> Some r)"
proof -
  let ?t = "handle_token (cc_cancellation ctx)"
  obtain r s where r: "cc_sink ctx (ErrorRecord rec) (sink_state w) = (r, s)" by fastforce
  have sig: "signals w' = snd (request_cancellation ?t (run_reason e) (signals w))"
    using assms(1) r by (cases r) (auto simp: report_workflow_error_def cancel_def run_reason_def)
  show "token_valid (signals w') ?t" using assms(2) sig by (simp add: token_valid_def)
  show "token_request (signals w') ?t = (case token_request (signals w) ?t of
      None \<Rightarrow> Some (run_reason e) | Some r \<Rightarrow> Some r)"
    using sig token_request_after [OF assms(2)] by (simp split: option.split)
qed

lemma note_first_error_first [simp]:
  "first_error (note_first_error e s) = (case first_error s of None \<Rightarrow> Some e | Some f \<Rightarrow> Some f)"
  by (auto simp: note_first_error_def split: option.split)

lemma first_error_updates [simp]:
  "first_error (record_success s) = first_error s"
  "first_error (record_error e s) = (case first_error s of None \<Rightarrow> Some e | Some f \<Rightarrow> Some f)"
  "first_error (record_workflow_error e s) = (case first_error s of None \<Rightarrow> Some e | Some f \<Rightarrow> Some f)"
  "first_error (record_deadlock_diagnostic d s) = first_error s"
  by (simp_all add: record_success_def record_error_def record_workflow_error_def
      record_deadlock_diagnostic_def Let_def)

lemma record_node_run_result_signal:
  assumes "record_node_run_result ctx r s w = (Ok s1, w1)"
    and "signal_follows (handle_token (cc_cancellation ctx)) s w"
  shows "signal_follows (handle_token (cc_cancellation ctx)) s1 w1"
proof (cases r)
  case (Ok u)
  then show ?thesis using assms by (auto simp: record_node_run_result_def signal_follows_def)
next
  case (Err e)
  show ?thesis
  proof (cases "first_error s")
    case None
    with Err assms(1) obtain u where
      "report_workflow_error ctx (workflow_failed (workflow_def_id (cc_workflow ctx)) (cc_execution ctx) e) e w
        = (Ok u, w1)" and s1: "s1 = record_error e s"
      by (auto simp: record_node_run_result_def record_first_workflow_error_def Let_def split: prod.splits)
    from report_workflow_error_signal [OF this(1)] assms(2) None s1 show ?thesis
      by (simp add: signal_follows_def)
  next
    case (Some f)
    then show ?thesis
      using Err assms by (auto simp: record_node_run_result_def signal_follows_def)
  qed
next
  case Panic
  then show ?thesis using assms by (simp add: record_node_run_result_def)
qed

lemma signal_follows_step:
  "keeps_token t step \<Longrightarrow> signal_follows t s w \<Longrightarrow> signal_follows t s (step w)"
  by (simp add: signal_follows_def keeps_token_def)

lemma collect_until_complete_signal:
  "collect_until_complete ctx k obs s w = (Some (Ok s'), w') \<Longrightarrow>
   list_all (\<lambda>ob. keeps_token (handle_token (cc_cancellation ctx)) (step_of ob)) obs \<Longrightarrow>
   signal_follows (handle_token (cc_cancellation ctx)) s w \<Longrightarrow>
   signal_follows (handle_token (cc_cancellation ctx)) s' w'"
proof (induction ctx k obs s w rule: collect_until_complete.induct)
  case (3 ctx k step i r obs s w)
  then show ?case
    by (auto split: prod.splits result.splits dest: record_node_run_result_signal intro: signal_follows_step)
qed auto

lemma collect_with_watchdog_signal:
  "collect_with_deadlock_watchdog fmt ctx wd k obs s w = (Some (Ok s'), w') \<Longrightarrow>
   list_all (\<lambda>ob. keeps_token (handle_token (cc_cancellation ctx)) (step_of ob)) obs \<Longrightarrow>
   signal_follows (handle_token (cc_cancellation ctx)) s w \<Longrightarrow>
   signal_follows (handle_token (cc_cancellation ctx)) s' w'"
proof (induction fmt ctx wd k obs s w rule: collect_with_deadlock_watchdog.induct)
  case (3 fmt ctx wd k step i r obs s w)
  then show ?case
    by (auto split: prod.splits result.splits dest: record_node_run_result_signal intro: signal_follows_step)
next
  case (4 fmt ctx wd k step obs s w)
  let ?d = "diagnostic_from_run (cc_workflow ctx) s (cc_policy ctx) wd"
  let ?e = "Execution (show_deadlock_diagnostic fmt ?d)"
  have "signal_follows (handle_token (cc_cancellation ctx)) s (step w)"
    using "4.prems" signal_follows_step by auto
  moreover from "4.prems"(1) obtain u where
    "report_workflow_error ctx (workflow_failed_with_diagnostic (workflow_def_id (cc_workflow ctx))
      (cc_execution ctx) ?e (to_metadata_diagnostic ?d)) ?e (step w) = (Ok u, w')"
    "s' = record_deadlock_diagnostic ?d (record_workflow_error ?e s)"
    by (auto simp: record_first_workflow_error_with_diagnostic_def Let_def split: prod.splits)
  ultimately show ?case
    using report_workflow_error_signal [OF \<open>report_workflow_error _ _ _ _ = _\<close>]
    by (auto simp: signal_follows_def split: option.split)
qed auto

section \<open>Properties of the collection\<close>

text \<open>A context for the examples.\<close>

definition sample_flow :: workflow_definition where
  "sample_flow =
     \<lparr>workflow_def_id = WorkflowId ''flow'',
      workflow_graph = \<lparr>graph_nodes = [sample_node ''a'', sample_node ''b''], graph_edges = [sample_edge ''a'' ''b'']\<rparr>\<rparr>"

definition sample_collection :: "workflow_run_policy \<Rightarrow> (unit, unit) collection_context" where
  "sample_collection p =
     \<lparr>cc_cancellation = CancellationHandle (CancellationToken 0), cc_workflow = sample_flow,
      cc_execution = first_attempt (ExecutionId ''run''), cc_sink = noop_sink, cc_policy = p\<rparr>"

definition sample_observations :: "(unit, unit) observation list" where
  "sample_observations =
     [NodeEnded id (NodeId ''b'') (Err (Execution ''boom'')), NodeEnded id (NodeId ''a'') (Ok ())]"

definition idle_world :: "(unit, unit) world" where
  "idle_world = \<lparr>chans = (), sink_state = (), signals = [None]\<rparr>"

lemmas collect_eval = collect_workflow_summary_def sample_collection_def sample_observations_def
  idle_world_def record_node_run_result_def record_first_workflow_error_def report_workflow_error_def
  noop_sink_def cancel_def request_cancellation_def record_error_def record_success_def
  note_first_error_def new_summary_def saturating_add_def acyclic_policy_def USIZE_MAX_def

lemma summary_for_pending:
  assumes "Panic \<notin> set rs" "length rs \<le> n" "n \<le> USIZE_MAX"
  shows "pending_node_count (summary_for n rs extra d) = n - length rs"
  using assms count_results [OF assms(1)]
  by (simp add: pending_node_count_def summary_for_def saturating_add_def)

lemma summary_for_sum:
  assumes "Panic \<notin> set rs" "length rs \<le> n" "n \<le> USIZE_MAX"
  shows "completed_node_count (summary_for n rs extra d) + failed_node_count (summary_for n rs extra d)
    + cancelled_node_count (summary_for n rs extra d) + pending_node_count (summary_for n rs extra d) = n"
  using summary_for_pending [OF assms, of extra d] assms count_results [OF assms(1)]
  by (simp add: summary_for_def)

text \<open>
  C3: the summary of a run is exact.  When the collection returns, there is a sequence of node results,
  a prefix of those observed, that it accounts for: completed, failed and cancelled nodes are counted
  one by one and with the pending ones make up all scheduled nodes; the first error is the first in
  the order in which the nodes ended, and it decides the terminal state.  All nodes are accounted for
  unless the watchdog fired, and then the diagnostic records the state at that moment and the
  watchdog's error counts as one more error.
\<close>

theorem run_summary_exact:
  assumes "collect_workflow_summary fmt ctx n obs n w = (Some (Ok s), w')" and "n \<le> USIZE_MAX"
  shows "\<exists>rs extra. rs = take (length rs) (results obs) \<and> Panic \<notin> set rs \<and>
    s = summary_for n rs extra (deadlock_diagnostic s) \<and>
    completed_node_count s + failed_node_count s + cancelled_node_count s + pending_node_count s = n \<and>
    (case deadlock_diagnostic s of
       None \<Rightarrow> length rs = n \<and> extra = []
     | Some d \<Rightarrow> length rs < n \<and> extra = [Execution (show_deadlock_diagnostic fmt d)] \<and>
         dd_pending_node_count d = n - length rs)"
proof (cases "watchdog_policy (cc_policy ctx)")
  case Disabled
  then have "collect_until_complete ctx n obs (summary_for n [] [] None) w = (Some (Ok s), w')"
    using assms(1) by (simp add: collect_workflow_summary_def new_summary_for)
  from collect_until_complete_for [OF this] assms(2) obtain rs where
    rs: "rs = take n (results obs)" "length rs = n" "Panic \<notin> set rs" "s = summary_for n rs [] None" by auto
  have "deadlock_diagnostic s = None" using rs(4) by (simp add: summary_for_def)
  with rs summary_for_sum [OF _ _ assms(2), of rs "[]" None] show ?thesis by (intro exI [of _ rs] exI [of _ "[]"]) simp
next
  case (Deadlock wd)
  then have "collect_with_deadlock_watchdog fmt ctx wd n obs (summary_for n [] [] None) w = (Some (Ok s), w')"
    using assms(1) by (simp add: collect_workflow_summary_def new_summary_for)
  from collect_with_watchdog_for [OF this] assms(2) obtain rs where
    rs: "Panic \<notin> set rs" "rs = take (length rs) (results obs)" and
    alt: "length rs = n \<and> s = summary_for n rs [] None \<or>
      length rs < n \<and>
      (\<exists>d. d = diagnostic_from_run (cc_workflow ctx) (summary_for n rs [] None) (cc_policy ctx) wd \<and>
           s = summary_for n rs [Execution (show_deadlock_diagnostic fmt d)] (Some d))" by auto
  from alt show ?thesis
  proof
    assume a: "length rs = n \<and> s = summary_for n rs [] None"
    then have "deadlock_diagnostic s = None" by (simp add: summary_for_def)
    with a rs summary_for_sum [OF _ _ assms(2), of rs "[]" None] show ?thesis by (intro exI [of _ rs] exI [of _ "[]"]) simp
  next
    assume "length rs < n \<and>
      (\<exists>d. d = diagnostic_from_run (cc_workflow ctx) (summary_for n rs [] None) (cc_policy ctx) wd \<and>
           s = summary_for n rs [Execution (show_deadlock_diagnostic fmt d)] (Some d))"
    then obtain d where d: "length rs < n"
      "d = diagnostic_from_run (cc_workflow ctx) (summary_for n rs [] None) (cc_policy ctx) wd"
      "s = summary_for n rs [Execution (show_deadlock_diagnostic fmt d)] (Some d)" by blast
    have "dd_pending_node_count d = n - length rs"
      using d summary_for_pending [OF rs(1) _ assms(2), of "[]" None] by (simp add: diagnostic_from_run_def)
    moreover have "deadlock_diagnostic s = Some d" using d(3) by (simp add: summary_for_def)
    ultimately show ?thesis
      using d rs summary_for_sum [OF _ _ assms(2), of rs "[Execution (show_deadlock_diagnostic fmt d)]" "Some d"]
      by (intro exI [of _ rs] exI [of _ "[Execution (show_deadlock_diagnostic fmt d)]"]) simp
  qed
qed

theorem run_summary_exact_witness:
  "\<exists>s w' rs. collect_workflow_summary (\<lambda>_. ''1s'') (sample_collection acyclic_policy) 2 sample_observations 2
      idle_world = (Some (Ok s), w') \<and> first_error s = Some (Execution ''boom'') \<and>
      rs = take (length rs) (results sample_observations) \<and>
      completed_node_count s + failed_node_count s + cancelled_node_count s + pending_node_count s = 2"
proof -
  obtain s w' where run: "collect_workflow_summary (\<lambda>_. ''1s'') (sample_collection acyclic_policy) 2
      sample_observations 2 idle_world = (Some (Ok s), w')" "first_error s = Some (Execution ''boom'')"
    by (simp add: collect_eval numeral_2_eq_2)
  have "(2::nat) \<le> USIZE_MAX" by (simp add: USIZE_MAX_def)
  from run_summary_exact [OF run(1) this] obtain rs where
    "rs = take (length rs) (results sample_observations)"
    "completed_node_count s + failed_node_count s + cancelled_node_count s + pending_node_count s = 2"
    by blast
  with run show ?thesis by blast
qed

text \<open>
  C22: the first error cancels the rest of the run.  When the collection returns, the token that all
  nodes of the run share shows a cancellation request exactly when there was an error, and its reason
  carries the first error.
\<close>

theorem first_error_cancels_run:
  assumes "collect_workflow_summary fmt ctx k obs n w = (Some (Ok s), w')"
    and "token_valid (signals w) (handle_token (cc_cancellation ctx))"
    and "token_request (signals w) (handle_token (cc_cancellation ctx)) = None"
    and "list_all (\<lambda>ob. keeps_token (handle_token (cc_cancellation ctx)) (step_of ob)) obs"
  shows "token_request (signals w') (handle_token (cc_cancellation ctx)) =
    map_option run_reason (first_error s)"
proof -
  have start: "signal_follows (handle_token (cc_cancellation ctx)) (new_summary n) w"
    using assms(2,3) by (simp add: signal_follows_def new_summary_def)
  have "signal_follows (handle_token (cc_cancellation ctx)) s w'"
    using assms(1,4) start collect_until_complete_signal collect_with_watchdog_signal
    by (cases "watchdog_policy (cc_policy ctx)") (auto simp: collect_workflow_summary_def)
  then show ?thesis by (simp add: signal_follows_def)
qed

theorem first_error_cancels_run_witness:
  "\<exists>s w'. collect_workflow_summary (\<lambda>_. ''1s'') (sample_collection acyclic_policy) 2 sample_observations 2
      idle_world = (Some (Ok s), w') \<and>
      token_request (signals w') (CancellationToken 0) = Some (run_reason (Execution ''boom''))"
proof -
  obtain s w' where run: "collect_workflow_summary (\<lambda>_. ''1s'') (sample_collection acyclic_policy) 2
      sample_observations 2 idle_world = (Some (Ok s), w')" "first_error s = Some (Execution ''boom'')"
    by (simp add: collect_eval numeral_2_eq_2)
  have tok: "handle_token (cc_cancellation (sample_collection acyclic_policy)) = CancellationToken 0"
    by (simp add: sample_collection_def)
  have "list_all (\<lambda>ob. keeps_token (CancellationToken 0) (step_of ob)) sample_observations"
    by (simp add: sample_observations_def keeps_token_def)
  with first_error_cancels_run [OF run(1)] tok run show ?thesis
    by (auto simp: idle_world_def token_valid_def token_request_def)
qed

text \<open>
  a run ends.  The collection has returned once as many nodes have ended as were started, and, under
  a watchdog policy, once a deadline has fired.
\<close>

theorem collection_ends:
  assumes "n \<le> length (results obs) \<or>
    (watchdog_policy (cc_policy ctx) \<noteq> Disabled \<and> list_ex (\<lambda>ob. \<exists>step. ob = DeadlineFired step) obs)"
  shows "\<exists>r w'. collect_workflow_summary fmt ctx n obs m w = (Some r, w')"
proof -
  have plain: "n \<le> length (results obs) \<Longrightarrow> fst (collect_until_complete ctx n obs s w) \<noteq> None" for s w
  proof (induction ctx n obs s w rule: collect_until_complete.induct)
    case (3 ctx k step i r obs s w)
    then show ?case by (auto split: prod.split result.split)
  qed auto
  have watched: "n \<le> length (results obs) \<or> list_ex (\<lambda>ob. \<exists>step. ob = DeadlineFired step) obs \<Longrightarrow>
      fst (collect_with_deadlock_watchdog fmt ctx wd n obs s w) \<noteq> None" for wd s w
  proof (induction fmt ctx wd n obs s w rule: collect_with_deadlock_watchdog.induct)
    case (3 fmt ctx wd k step i r obs s w)
    then show ?case by (auto split: prod.split result.split)
  qed (auto simp: Let_def split: prod.split)
  have "fst (collect_workflow_summary fmt ctx n obs m w) \<noteq> None"
    using assms plain watched
    by (cases "watchdog_policy (cc_policy ctx)") (auto simp: collect_workflow_summary_def)
  then show ?thesis by (metis eq_fst_iff not_None_eq)
qed

theorem collection_ends_witness:
  "\<exists>r w'. collect_workflow_summary (\<lambda>_. ''1s'')
     (sample_collection (with_watchdog (deadlock_after 5) acyclic_policy)) 2 [DeadlineFired id] 2 idle_world
     = (Some r, w')"
  by (rule collection_ends)
    (simp add: sample_collection_def with_watchdog_def deadlock_after_def)

end
