(* ===== verification/PortProps.thy ===== *)
theory PortProps
  imports Ports "HOL-Library.Multiset"
begin

text \<open>
  The contract of the bounded channels and what the ports guarantee on top of it: a send reaches
  every connected edge or none, reservations are never leaked, and a receive takes the oldest packet
  of the first edge that has one.

  The contract is the locale \<open>bounded_channels\<close>: the channel state shows each channel as a queue with
  a count of reserved slots, a capacity and the state of its two ends (\<open>chan_view\<close>), and each
  operation has its documented effect on that view.  It is interpreted on \<open>fifo_ops\<close>, bounded queues
  with reservations; the properties take the contract as a hypothesis, so that they hold for every
  channel implementation that meets it.
\<close>

section \<open>The contract of channels\<close>

record 'n chan_view =
  cv_queue :: "'n port_packet list"
  cv_reserved :: nat
  cv_capacity :: nat
  cv_rx_open :: bool
  cv_tx_open :: bool

definition cv_room :: "'n chan_view \<Rightarrow> nat \<Rightarrow> bool" where
  "cv_room v k \<longleftrightarrow> cv_rx_open v \<and> length (cv_queue v) + cv_reserved v + k \<le> cv_capacity v"

locale bounded_channels =
  fixes ops :: "('n, 'c) channel_ops"
    and view :: "'c \<Rightarrow> nat \<Rightarrow> 'n chan_view"
  assumes reserve_view:
      "ch_try_reserve ops i c = (None, c') \<Longrightarrow>
        view c' = (view c)(i := (view c i)\<lparr>cv_reserved := cv_reserved (view c i) + 1\<rparr>)"
    and reserve_fail_view: "ch_try_reserve ops i c = (Some f, c') \<Longrightarrow> view c' = view c"
    and reserve_room: "fst (ch_try_reserve ops i c) = None \<longleftrightarrow> cv_room (view c i) 1"
    and reserve_full:
      "fst (ch_try_reserve ops i c) = Some SendFull \<longleftrightarrow> cv_rx_open (view c i) \<and> \<not> cv_room (view c i) 1"
    and commit_view:
      "cv_rx_open (view c i) \<Longrightarrow> 0 < cv_reserved (view c i) \<Longrightarrow>
        view (ch_commit ops i x c) =
          (view c)(i := (view c i)\<lparr>cv_queue := cv_queue (view c i) @ [x],
                                   cv_reserved := cv_reserved (view c i) - 1\<rparr>)"
    and abort_view:
      "0 < cv_reserved (view c i) \<Longrightarrow>
        view (ch_abort ops i c) = (view c)(i := (view c i)\<lparr>cv_reserved := cv_reserved (view c i) - 1\<rparr>)"
    and recv_view:
      "ch_try_recv ops i c = (Inr x, c') \<Longrightarrow>
        cv_queue (view c i) = x # tl (cv_queue (view c i)) \<and>
        view c' = (view c)(i := (view c i)\<lparr>cv_queue := tl (cv_queue (view c i))\<rparr>)"
    and recv_fail_view: "ch_try_recv ops i c = (Inl e, c') \<Longrightarrow> view c' = view c \<and> cv_queue (view c i) = []"
    and recv_answer:
      "cv_queue (view c i) = [] \<Longrightarrow>
        fst (ch_try_recv ops i c) = Inl (if cv_tx_open (view c i) then RecvEmpty else RecvDisconnected)"
    and poll_view:
      "ch_poll_recv ops i c = (PollPacket x, c') \<Longrightarrow>
        cv_queue (view c i) = x # tl (cv_queue (view c i)) \<and>
        view c' = (view c)(i := (view c i)\<lparr>cv_queue := tl (cv_queue (view c i))\<rparr>)"
    and poll_fail_view:
      "ch_poll_recv ops i c = (PollFailed e, c') \<Longrightarrow>
        view c' = view c \<and> (e = RecvDisconnected \<longrightarrow> cv_queue (view c i) = [] \<and> \<not> cv_tx_open (view c i))"
    and poll_pending_view: "ch_poll_recv ops i c = (PollPending, c') \<Longrightarrow> view c' = view c \<and> cv_queue (view c i) = []"
    and capacity_view: "ch_capacity ops c i = cv_capacity (view c i)"
    and len_view: "ch_len ops c i = length (cv_queue (view c i))"

section \<open>Abstract sends and receives\<close>

text \<open>Reserving, releasing and delivering on a list of edges, as changes of the view.\<close>

definition hold :: "nat list \<Rightarrow> (nat \<Rightarrow> 'n chan_view) \<Rightarrow> nat \<Rightarrow> 'n chan_view" where
  "hold ss v = (\<lambda>i. (v i)\<lparr>cv_reserved := cv_reserved (v i) + count_list ss i\<rparr>)"

definition deliver :: "nat list \<Rightarrow> 'n port_packet \<Rightarrow> (nat \<Rightarrow> 'n chan_view) \<Rightarrow> nat \<Rightarrow> 'n chan_view" where
  "deliver ss x v = (\<lambda>i. (v i)\<lparr>cv_queue := cv_queue (v i) @ replicate (count_list ss i) x\<rparr>)"

definition has_room :: "(nat \<Rightarrow> 'n chan_view) \<Rightarrow> output_port_handle \<Rightarrow> bool" where
  "has_room v h \<longleftrightarrow> (\<forall>i\<in>set (senders h). cv_room (v i) (count_list (senders h) i))"

definition recv_spec ::
  "(nat \<Rightarrow> 'n chan_view) \<Rightarrow> input_port_handle
   \<Rightarrow> ('n port_packet option, port_recv_error) result \<times> (nat \<Rightarrow> 'n chan_view)" where
  "recv_spec v h =
     (case List.find (\<lambda>i. cv_queue (v i) \<noteq> []) (receivers h) of
        Some i \<Rightarrow> (Ok (Some (hd (cv_queue (v i)))), v(i := (v i)\<lparr>cv_queue := tl (cv_queue (v i))\<rparr>))
      | None \<Rightarrow>
          ((if receivers h \<noteq> [] \<and> list_all (\<lambda>i. \<not> cv_tx_open (v i)) (receivers h)
            then Err (RecvPortDisconnected (in_port_id h)) else Ok None), v))"

lemma hold_Nil [simp]: "hold [] v = v"
  by (simp add: hold_def)

lemma hold_Cons:
  "hold ss (v(s := (v s)\<lparr>cv_reserved := cv_reserved (v s) + 1\<rparr>)) = hold (s # ss) v"
  by (auto simp: hold_def fun_eq_iff)

lemma deliver_Nil [simp]: "deliver [] x v = v"
  by (simp add: deliver_def)

lemma emit_chans [simp]: "chans (emit sink r w) = chans w" "signals (emit sink r w) = signals w"
  by (cases sink; simp)+

lemma record_chans [simp]:
  "chans (record_output_queue_pressure ops sink ctx port kind w) = chans w"
  "signals (record_output_queue_pressure ops sink ctx port kind w) = signals w"
  "chans (record_input_queue_pressure ops sink ctx ip kind w) = chans w"
  "signals (record_input_queue_pressure ops sink ctx ip kind w) = signals w"
  "chans (record_message_boundary sink mk m w) = chans w"
  "signals (record_message_boundary sink mk m w) = signals w"
  by (simp_all add: record_output_queue_pressure_def record_input_queue_pressure_def
      record_message_boundary_def)

context bounded_channels
begin

lemma reserve_senders_Inr:
  "reserve_senders ops ss acq c = (Inr ps, c') \<Longrightarrow> ps = acq @ ss \<and> view c' = hold ss (view c)"
proof (induction ss arbitrary: acq c)
  case (Cons s ss)
  then obtain c1 where c1: "ch_try_reserve ops s c = (None, c1)"
    "reserve_senders ops ss (acq @ [s]) c1 = (Inr ps, c')"
    by (auto split: prod.splits option.splits)
  have "view c' = hold (s # ss) (view c)"
    using Cons.IH [OF c1(2)] by (simp only: reserve_view [OF c1(1)] hold_Cons)
  then show ?case using Cons.IH [OF c1(2)] by simp
qed simp

lemma reserve_senders_Inl:
  "reserve_senders ops ss acq c = (Inl (e, ps), c') \<Longrightarrow>
    \<exists>held. ps = acq @ held \<and> view c' = hold held (view c)"
proof (induction ss arbitrary: acq c)
  case (Cons s ss)
  show ?case
  proof (cases "ch_try_reserve ops s c")
    case (Pair a c1)
    show ?thesis
    proof (cases a)
      case None
      with Pair Cons.prems have "reserve_senders ops ss (acq @ [s]) c1 = (Inl (e, ps), c')" by simp
      from Cons.IH [OF this] obtain held where "ps = acq @ s # held" "view c' = hold held (view c1)"
        by auto
      moreover have "view c1 = (view c)(s := (view c s)\<lparr>cv_reserved := cv_reserved (view c s) + 1\<rparr>)"
        using reserve_view Pair None by blast
      ultimately have "ps = acq @ s # held" "view c' = hold (s # held) (view c)"
        by (simp_all only: hold_Cons)
      then show ?thesis by (intro exI [of _ "s # held"]) simp
    next
      case (Some f)
      then show ?thesis using Cons.prems Pair reserve_fail_view by (intro exI [of _ "[]"]) auto
    qed
  qed
qed simp

lemma reserve_senders_succeeds:
  "(\<exists>ps. fst (reserve_senders ops ss acq c) = Inr ps) \<longleftrightarrow>
     (\<forall>i\<in>set ss. cv_room (view c i) (count_list ss i))"
proof (induction ss arbitrary: acq c)
  case (Cons s ss)
  show ?case
  proof (cases "ch_try_reserve ops s c")
    case (Pair a c1)
    show ?thesis
    proof (cases a)
      case None
      then have c1: "view c1 = (view c)(s := (view c s)\<lparr>cv_reserved := cv_reserved (view c s) + 1\<rparr>)"
        using reserve_view Pair by blast
      have room: "cv_room (view c s) 1" using reserve_room [of s c] Pair None by simp
      have eq: "cv_room (view c1 i) (count_list ss i) \<longleftrightarrow> cv_room (view c i) (count_list (s # ss) i)" for i
        using c1 by (auto simp: cv_room_def)
      have "cv_room (view c s) (count_list (s # ss) s)" if "s \<notin> set ss"
        using room that by (simp add: count_list_0_iff)
      then have "(\<forall>i\<in>set ss. cv_room (view c1 i) (count_list ss i)) \<longleftrightarrow>
          (\<forall>i\<in>set (s # ss). cv_room (view c i) (count_list (s # ss) i))"
        unfolding eq by auto
      then show ?thesis using Cons.IH [of "acq @ [s]" c1] Pair None by simp
    next
      case (Some f)
      then have "\<not> cv_room (view c s) 1" using reserve_room [of s c] Pair by simp
      then have "\<not> cv_room (view c s) (count_list (s # ss) s)" by (auto simp: cv_room_def)
      then show ?thesis using Pair Some by auto
    qed
  qed
qed simp

lemma abort_permits_view:
  "(\<And>i. count_list ps i \<le> cv_reserved (view c i)) \<Longrightarrow>
    view (abort_permits ops ps c) =
      (\<lambda>i. (view c i)\<lparr>cv_reserved := cv_reserved (view c i) - count_list ps i\<rparr>)"
proof (induction ps arbitrary: c)
  case (Cons p ps)
  have pos: "0 < cv_reserved (view c p)" using Cons.prems [of p] by simp
  from abort_view [OF pos] have v:
    "view (ch_abort ops p c) = (view c)(p := (view c p)\<lparr>cv_reserved := cv_reserved (view c p) - 1\<rparr>)" .
  have "count_list ps i \<le> cv_reserved (view (ch_abort ops p c) i)" for i
    using Cons.prems [of i] v by (auto split: if_splits)
  from Cons.IH [OF this] v show ?case by (auto simp: abort_permits_def fun_eq_iff)
qed (simp add: abort_permits_def)

lemma abort_hold: "view c = hold held v \<Longrightarrow> view (abort_permits ops held c) = v"
  by (subst abort_permits_view) (auto simp: hold_def)

lemma commit_permits_view:
  "(\<And>i. count_list ps i \<le> cv_reserved (view c i)) \<Longrightarrow> (\<And>i. i \<in> set ps \<Longrightarrow> cv_rx_open (view c i)) \<Longrightarrow>
    view (commit_permits ops ps x c) =
      (\<lambda>i. (view c i)\<lparr>cv_queue := cv_queue (view c i) @ replicate (count_list ps i) x,
                       cv_reserved := cv_reserved (view c i) - count_list ps i\<rparr>)"
proof (induction ps arbitrary: c)
  case (Cons p ps)
  have pos: "0 < cv_reserved (view c p)" using Cons.prems(1) [of p] by simp
  have op: "cv_rx_open (view c p)" using Cons.prems(2) by simp
  note v = commit_view [OF op pos, of x]
  have "count_list ps i \<le> cv_reserved (view (ch_commit ops p x c) i)" for i
    using Cons.prems(1) [of i] v by (auto split: if_splits)
  moreover have "cv_rx_open (view (ch_commit ops p x c) i)" if "i \<in> set ps" for i
    using Cons.prems(2) that v by auto
  ultimately show ?case using Cons.IH v by (auto simp: commit_permits_def fun_eq_iff)
qed (simp add: commit_permits_def)

lemma commit_hold:
  assumes "view c = hold ss v" "\<And>i. i \<in> set ss \<Longrightarrow> cv_rx_open (v i)"
  shows "view (commit_permits ops ss x c) = deliver ss x v"
  using assms by (subst commit_permits_view) (auto simp: hold_def deliver_def)

lemma scan_spec:
  "list_all (\<lambda>i. cv_queue (view c i) = []) pre \<Longrightarrow>
   gone = length (filter (\<lambda>i. \<not> cv_tx_open (view c i)) pre) \<Longrightarrow>
   try_recv_scan ops pid rs gone (length (pre @ rs)) c = (r, c') \<Longrightarrow>
   (r, view c') = recv_spec (view c) \<lparr>in_port_id = pid, receivers = pre @ rs\<rparr>"
proof (induction rs arbitrary: pre gone c)
  case Nil
  have none: "List.find (\<lambda>i. cv_queue (view c i) \<noteq> []) pre = None"
    using Nil.prems(1) by (auto simp: find_None_iff list_all_iff)
  have "gone = length pre \<longleftrightarrow> list_all (\<lambda>i. \<not> cv_tx_open (view c i)) pre"
    using Nil.prems(2) by (auto simp: list_all_iff filter_id_conv intro: length_filter_less)
      (metis length_filter_less nat_less_le)
  then show ?case using Nil.prems none by (auto simp: recv_spec_def)
next
  case (Cons s rs)
  show ?case
  proof (cases "ch_try_recv ops s c")
    case (Pair a c1)
    show ?thesis
    proof (cases a)
      case (Inr x)
      with Pair recv_view have v: "cv_queue (view c s) = x # tl (cv_queue (view c s))"
        "view c1 = (view c)(s := (view c s)\<lparr>cv_queue := tl (cv_queue (view c s))\<rparr>)" by blast+
      have "List.find (\<lambda>i. cv_queue (view c i) \<noteq> []) (pre @ s # rs) = Some s"
        using Cons.prems(1) v(1) by (intro find_Some_split [THEN iffD2] exI [of _ pre] exI [of _ rs])
          (auto simp: list_all_iff)
      then show ?thesis using Cons.prems(3) Pair Inr v by (auto simp: recv_spec_def) (metis list.sel(1))
    next
      case (Inl e)
      with Pair recv_fail_view have v: "view c1 = view c" "cv_queue (view c s) = []" by blast+
      have e: "e = (if cv_tx_open (view c s) then RecvEmpty else RecvDisconnected)"
        using recv_answer [OF v(2)] Pair Inl by simp
      have "(r, view c') = recv_spec (view c1) \<lparr>in_port_id = pid, receivers = (pre @ [s]) @ rs\<rparr>"
        by (rule Cons.IH [where gone = "if cv_tx_open (view c s) then gone else gone + 1"])
          (use Cons.prems Pair Inl v e in \<open>auto split: if_splits\<close>)
      then show ?thesis using v by simp
    qed
  qed
qed

lemma input_try_recv_refines:
  assumes "input_try_recv ops h c = (r, c')"
  shows "(r, view c') = recv_spec (view c) h"
proof -
  have "(r, view c') = recv_spec (view c) \<lparr>in_port_id = in_port_id h, receivers = [] @ receivers h\<rparr>"
    by (rule scan_spec [where gone = 0]) (use assms in \<open>auto simp: input_try_recv_def\<close>)
  then show ?thesis by (cases h) simp
qed

lemma output_try_reserve_Ok:
  assumes "output_try_reserve ops sink val ctx h w = (Ok permit, w')"
  shows "permits permit = senders h" "permit_port permit = out_port_id h"
    "permit_validator permit = val" "permit_sink permit = sink" "signals w' = signals w"
    "view (chans w') = hold (senders h) (view (chans w))" "has_room (view (chans w)) h"
proof -
  note sc = reserve_senders_succeeds [of "senders h" "[]" "chans w"]
  show "permits permit = senders h" "permit_port permit = out_port_id h"
    "permit_validator permit = val" "permit_sink permit = sink" "signals w' = signals w"
    "view (chans w') = hold (senders h) (view (chans w))"
    using assms reserve_senders_Inr [of "senders h" "[]" "chans w"]
    by (auto simp: output_try_reserve_def Let_def split: if_splits prod.splits sum.splits)
  show "has_room (view (chans w)) h"
    using assms sc
    by (auto simp: output_try_reserve_def Let_def has_room_def split: if_splits prod.splits sum.splits)
qed

lemma output_try_reserve_Err:
  assumes "output_try_reserve ops sink val ctx h w = (Err e, w')"
  shows "view (chans w') = view (chans w)" "\<not> has_room (view (chans w)) h" "signals w' = signals w"
proof -
  have ne: "senders h \<noteq> []" using assms by (auto simp: output_try_reserve_def Let_def)
  obtain f ps c where c: "reserve_senders ops (senders h) [] (chans w) = (Inl (f, ps), c)"
    "chans w' = abort_permits ops ps c"
    using assms ne by (auto simp: output_try_reserve_def Let_def split: if_splits prod.splits sum.splits)
  show "view (chans w') = view (chans w)"
    using reserve_senders_Inl [OF c(1)] abort_hold c(2) by auto
  show "\<not> has_room (view (chans w)) h"
    using reserve_senders_succeeds [of "senders h" "[]" "chans w"] c(1) by (auto simp: has_room_def)
  show "signals w' = signals w"
    using assms ne by (auto simp: output_try_reserve_def Let_def split: if_splits prod.splits sum.splits)
qed

lemma output_try_reserve_not_Panic: "fst (output_try_reserve ops sink val ctx h w) \<noteq> Panic"
  by (simp add: output_try_reserve_def Let_def split: prod.splits sum.splits)

lemma permit_send_view:
  assumes "permits permit = ss" "view (chans w) = hold ss v" "\<And>i. i \<in> set ss \<Longrightarrow> cv_rx_open (v i)"
  shows "view (chans (snd (permit_send ops permit x w))) =
    (if fst (permit_send ops permit x w) = Ok () then deliver ss x v else v)"
proof -
  have commit: "view (chans (permit_commit ops permit x w)) = deliver ss x v"
    using assms commit_hold [of "chans w" ss v x] by (simp add: permit_commit_def Let_def)
  have abort: "view (chans (permit_abort ops permit w)) = v"
    using assms abort_hold [of "chans w" ss v] by (simp add: permit_abort_def)
  show ?thesis
    using commit abort by (auto simp: permit_send_def split: result.split option.split)
qed

lemma permit_send_result:
  "fst (permit_send ops permit x w) =
    (case permit_validator permit of None \<Rightarrow> Ok () | Some f \<Rightarrow> f (permit_port permit) x)"
  by (auto simp: permit_send_def split: result.split option.split)

lemma has_room_open: "has_room v h \<Longrightarrow> i \<in> set (senders h) \<Longrightarrow> cv_rx_open (v i)"
  by (auto simp: has_room_def cv_room_def)

end

section \<open>Sending\<close>

definition packet_accepted :: "('n, 's) ports_out \<Rightarrow> port_id \<Rightarrow> 'n port_packet \<Rightarrow> bool" where
  "packet_accepted p pid x \<longleftrightarrow> (case out_validator p of None \<Rightarrow> True | Some f \<Rightarrow> f pid x = Ok ())"

definition send_ok ::
  "(nat \<Rightarrow> 'n chan_view) \<Rightarrow> ('n, 's) ports_out \<Rightarrow> port_id \<Rightarrow> 'n port_packet \<Rightarrow> bool" where
  "send_ok v p pid x \<longleftrightarrow>
     (case find_output p pid of None \<Rightarrow> False | Some h \<Rightarrow> has_room v h \<and> packet_accepted p pid x)"

definition send_spec ::
  "(nat \<Rightarrow> 'n chan_view) \<Rightarrow> ('n, 's) ports_out \<Rightarrow> port_id \<Rightarrow> 'n port_packet \<Rightarrow> nat \<Rightarrow> 'n chan_view" where
  "send_spec v p pid x =
     (if send_ok v p pid x then deliver (senders (the (find_output p pid))) x v else v)"

lemma find_output_id: "find_output p pid = Some h \<Longrightarrow> out_port_id h = pid"
  by (auto simp: find_output_def find_Some_iff)

lemma find_input_id: "find_input p pid = Some h \<Longrightarrow> in_port_id h = pid"
  by (auto simp: find_input_def find_Some_iff)

context bounded_channels
begin

lemma try_send_refines:
  "fst (try_send ops p pid x w) = Ok () \<longleftrightarrow> send_ok (view (chans w)) p pid x"
  "view (chans (snd (try_send ops p pid x w))) = send_spec (view (chans w)) p pid x"
proof -
  have "(fst (try_send ops p pid x w) = Ok () \<longleftrightarrow> send_ok (view (chans w)) p pid x) \<and>
    view (chans (snd (try_send ops p pid x w))) = send_spec (view (chans w)) p pid x"
  proof (cases "find_output p pid")
    case None
    then show ?thesis by (simp add: try_send_def try_reserve_def send_ok_def send_spec_def)
  next
    case (Some h)
    obtain r w1 where r: "output_try_reserve ops (out_sink p) (out_validator p) (out_context p) h w = (r, w1)"
      by fastforce
    show ?thesis
    proof (cases r)
      case (Ok permit)
      note ok = output_try_reserve_Ok [OF r [unfolded Ok]]
      have "fst (permit_send ops permit x w1) = Ok () \<longleftrightarrow> packet_accepted p pid x"
        using ok find_output_id [OF Some]
        by (auto simp: permit_send_result packet_accepted_def split: option.split)
      then show ?thesis
        using permit_send_view [OF ok(1) ok(6), of x] has_room_open [OF ok(7)] ok(7) Some r Ok
        by (auto simp: try_send_def try_reserve_def send_ok_def send_spec_def)
    next
      case (Err e)
      then show ?thesis using output_try_reserve_Err [OF r [unfolded Err]] Some r
        by (simp add: try_send_def try_reserve_def send_ok_def send_spec_def)
    next
      case Panic
      then show ?thesis using output_try_reserve_not_Panic r by (metis fst_conv)
    qed
  qed
  then show "fst (try_send ops p pid x w) = Ok () \<longleftrightarrow> send_ok (view (chans w)) p pid x"
    "view (chans (snd (try_send ops p pid x w))) = send_spec (view (chans w)) p pid x" by blast+
qed

lemma output_reserve_returns:
  assumes "step \<in> set resumes"
    and "\<And>w. is_cancelled (signals (step w)) tok \<or> has_room (view (chans (step w))) h"
  shows "fst (output_reserve ops tok sink val ctx h resumes w) \<noteq> None"
  using assms(1)
proof (induction resumes arbitrary: w)
  case (Cons s rest)
  have good: "fst (output_reserve ops tok sink val ctx h rest u) \<noteq> None"
    if "is_cancelled (signals u) tok \<or> has_room (view (chans u)) h" for u
  proof (cases "is_cancelled (signals u) tok")
    case False
    obtain r u1 where r: "output_try_reserve ops sink val ctx h u = (r, u1)" by fastforce
    then show ?thesis
      using that False output_try_reserve_Err [of sink val ctx h u _ u1]
        output_try_reserve_not_Panic [of sink val ctx h u]
      by (cases r) (auto simp: output_reserve.simps [of ops tok sink val ctx h rest u])
  qed (simp add: output_reserve.simps [of ops tok sink val ctx h rest u])
  have "fst (output_reserve ops tok sink val ctx h rest (s u)) \<noteq> None" for u
    using Cons good assms(2) by auto
  then show ?case
    by (subst output_reserve.simps) (auto split: prod.split result.split port_send_error.split)
qed simp

end

section \<open>Bounded queues with reservations\<close>

record 'n fifo =
  fifo_next :: nat
  fifo_chan :: "nat \<Rightarrow> 'n chan_view"

definition empty_view :: "nat \<Rightarrow> 'n chan_view" where
  "empty_view cap = \<lparr>cv_queue = [], cv_reserved = 0, cv_capacity = cap, cv_rx_open = True, cv_tx_open = True\<rparr>"

definition fifo_upd :: "nat \<Rightarrow> ('n chan_view \<Rightarrow> 'n chan_view) \<Rightarrow> 'n fifo \<Rightarrow> 'n fifo" where
  "fifo_upd i f c = c\<lparr>fifo_chan := (fifo_chan c)(i := f (fifo_chan c i))\<rparr>"

definition fifo_ops :: "('n, 'n fifo) channel_ops" where
  "fifo_ops =
     \<lparr>ch_new = (\<lambda>cap c. (fifo_next c,
         c\<lparr>fifo_next := fifo_next c + 1, fifo_chan := (fifo_chan c)(fifo_next c := empty_view cap)\<rparr>)),
      ch_try_reserve = (\<lambda>i c.
         if \<not> cv_rx_open (fifo_chan c i) then (Some SendDisconnected, c)
         else if cv_room (fifo_chan c i) 1
         then (None, fifo_upd i (\<lambda>v. v\<lparr>cv_reserved := cv_reserved v + 1\<rparr>) c)
         else (Some SendFull, c)),
      ch_commit = (\<lambda>i x. fifo_upd i (\<lambda>v. v\<lparr>cv_queue := cv_queue v @ [x], cv_reserved := cv_reserved v - 1\<rparr>)),
      ch_abort = (\<lambda>i. fifo_upd i (\<lambda>v. v\<lparr>cv_reserved := cv_reserved v - 1\<rparr>)),
      ch_try_recv = (\<lambda>i c. case cv_queue (fifo_chan c i) of
           x # q \<Rightarrow> (Inr x, fifo_upd i (\<lambda>v. v\<lparr>cv_queue := q\<rparr>) c)
         | [] \<Rightarrow> (Inl (if cv_tx_open (fifo_chan c i) then RecvEmpty else RecvDisconnected), c)),
      ch_poll_recv = (\<lambda>i c. case cv_queue (fifo_chan c i) of
           x # q \<Rightarrow> (PollPacket x, fifo_upd i (\<lambda>v. v\<lparr>cv_queue := q\<rparr>) c)
         | [] \<Rightarrow> (if cv_tx_open (fifo_chan c i) then PollPending else PollFailed RecvDisconnected, c)),
      ch_capacity = (\<lambda>c i. cv_capacity (fifo_chan c i)),
      ch_len = (\<lambda>c i. length (cv_queue (fifo_chan c i)))\<rparr>"

interpretation fifo: bounded_channels fifo_ops fifo_chan
  by unfold_locales
    (auto simp: fifo_ops_def fifo_upd_def cv_room_def split: if_splits list.splits)

section \<open>Sequences of sends and receives\<close>

text \<open>
  Any sequence of \<open>try_send\<close> and \<open>try_recv\<close> calls of the nodes of a run, with the packets that enter
  and leave the channel \<open>i\<close>.
\<close>

datatype ('n, 's) port_op =
  OpSend "('n, 's) ports_out" port_id "'n port_packet"
| OpRecv "('n, 's) ports_in" port_id

fun run_op :: "('n, 'c) channel_ops \<Rightarrow> ('n, 's) port_op \<Rightarrow> ('c, 's) world \<Rightarrow> ('c, 's) world" where
  "run_op ops (OpSend p pid x) w = snd (try_send ops p pid x w)"
| "run_op ops (OpRecv q pid) w = snd (try_recv ops q pid w)"

fun op_sent :: "(nat \<Rightarrow> 'n chan_view) \<Rightarrow> nat \<Rightarrow> ('n, 's) port_op \<Rightarrow> 'n port_packet list" where
  "op_sent v i (OpSend p pid x) =
     (if send_ok v p pid x then replicate (count_list (senders (the (find_output p pid))) i) x else [])"
| "op_sent v i (OpRecv q pid) = []"

definition taken_from :: "(nat \<Rightarrow> 'n chan_view) \<Rightarrow> ('n, 's) ports_in \<Rightarrow> port_id \<Rightarrow> nat option" where
  "taken_from v q pid =
     (case find_input q pid of
        None \<Rightarrow> None
      | Some h \<Rightarrow> List.find (\<lambda>j. cv_queue (v j) \<noteq> []) (receivers h))"

fun op_taken :: "(nat \<Rightarrow> 'n chan_view) \<Rightarrow> nat \<Rightarrow> ('n, 's) port_op \<Rightarrow> 'n port_packet list" where
  "op_taken v i (OpSend p pid x) = []"
| "op_taken v i (OpRecv q pid) = (if taken_from v q pid = Some i then [hd (cv_queue (v i))] else [])"

fun run_ops :: "('n, 'c) channel_ops \<Rightarrow> ('n, 's) port_op list \<Rightarrow> ('c, 's) world \<Rightarrow> ('c, 's) world" where
  "run_ops ops [] w = w"
| "run_ops ops (a # as) w = run_ops ops as (run_op ops a w)"

fun sent_along ::
  "('n, 'c) channel_ops \<Rightarrow> ('c \<Rightarrow> nat \<Rightarrow> 'n chan_view) \<Rightarrow> nat \<Rightarrow> ('n, 's) port_op list \<Rightarrow> ('c, 's) world
   \<Rightarrow> 'n port_packet list" where
  "sent_along ops view i [] w = []"
| "sent_along ops view i (a # as) w =
     op_sent (view (chans w)) i a @ sent_along ops view i as (run_op ops a w)"

fun taken_along ::
  "('n, 'c) channel_ops \<Rightarrow> ('c \<Rightarrow> nat \<Rightarrow> 'n chan_view) \<Rightarrow> nat \<Rightarrow> ('n, 's) port_op list \<Rightarrow> ('c, 's) world
   \<Rightarrow> 'n port_packet list" where
  "taken_along ops view i [] w = []"
| "taken_along ops view i (a # as) w =
     op_taken (view (chans w)) i a @ taken_along ops view i as (run_op ops a w)"

definition within_capacity :: "'n chan_view \<Rightarrow> bool" where
  "within_capacity v \<longleftrightarrow> length (cv_queue v) + cv_reserved v \<le> cv_capacity v"

definition recv_port_spec ::
  "(nat \<Rightarrow> 'n chan_view) \<Rightarrow> ('n, 's) ports_in \<Rightarrow> port_id
   \<Rightarrow> ('n port_packet option, port_recv_error) result \<times> (nat \<Rightarrow> 'n chan_view)" where
  "recv_port_spec v q pid =
     (case find_input q pid of None \<Rightarrow> (Err (RecvUnknownPort pid), v) | Some h \<Rightarrow> recv_spec v h)"

lemma observe_recv_result:
  assumes "\<And>p. r = Err (RecvPortDisconnected p) \<Longrightarrow> p = in_port_id h"
  shows "fst (observe_recv ops q h r w) = r" "chans (snd (observe_recv ops q h r w)) = chans w"
    "signals (snd (observe_recv ops q h r w)) = signals w"
  using assms
  by (auto simp: observe_recv_def Let_def split: result.split option.split port_recv_error.split)

lemma recv_spec_disconnected:
  "fst (recv_spec v h) = Err (RecvPortDisconnected p) \<Longrightarrow> p = in_port_id h"
  by (auto simp: recv_spec_def split: option.splits if_splits)

context bounded_channels
begin

lemma try_recv_refines:
  "(fst (try_recv ops q pid w), view (chans (snd (try_recv ops q pid w)))) =
     recv_port_spec (view (chans w)) q pid"
proof (cases "find_input q pid")
  case None
  then show ?thesis by (simp add: try_recv_def recv_port_spec_def)
next
  case (Some h)
  obtain r c where r: "input_try_recv ops h (chans w) = (r, c)" by fastforce
  note spec = input_try_recv_refines [OF r]
  have "p = in_port_id h" if "r = Err (RecvPortDisconnected p)" for p
    using recv_spec_disconnected [of "view (chans w)" h p] spec that by (metis fst_conv)
  note obs = observe_recv_result [where r = r and h = h, OF this]
  show ?thesis
    using Some r spec by (simp add: obs try_recv_def recv_port_spec_def Let_def)
qed

lemma op_conservation:
  "cv_queue (view (chans w) i) @ op_sent (view (chans w)) i a =
     op_taken (view (chans w)) i a @ cv_queue (view (chans (run_op ops a w)) i)"
proof (cases a)
  case (OpSend p pid x)
  then show ?thesis
    using try_send_refines(2) [of p pid x w] by (simp add: send_spec_def deliver_def)
next
  case (OpRecv q pid)
  define v where "v = view (chans w)"
  have after: "view (chans (run_op ops a w)) = snd (recv_port_spec v q pid)"
    using try_recv_refines [of q pid w] OpRecv v_def by (metis run_op.simps(2) snd_conv)
  have "cv_queue (v j) \<noteq> []" if "taken_from v q pid = Some j" for j
    using that by (auto simp: taken_from_def find_Some_iff split: option.splits)
  then show ?thesis
    unfolding OpRecv op_sent.simps op_taken.simps after [unfolded OpRecv] v_def [symmetric]
    by (auto simp: recv_port_spec_def recv_spec_def taken_from_def split: option.splits)
qed

lemma op_capacity:
  assumes "within_capacity (view (chans w) i)"
  shows "within_capacity (view (chans (run_op ops a w)) i)"
proof (cases a)
  case (OpSend p pid x)
  show ?thesis
  proof (cases "send_ok (view (chans w)) p pid x")
    case True
    then obtain h where h: "find_output p pid = Some h" "has_room (view (chans w)) h"
      by (auto simp: send_ok_def split: option.splits)
    have "count_list (senders h) i = 0 \<or> cv_room (view (chans w) i) (count_list (senders h) i)"
      using h(2) by (auto simp: has_room_def count_list_0_iff)
    then show ?thesis
      using assms OpSend try_send_refines(2) [of p pid x w] True h
      by (auto simp: send_spec_def deliver_def within_capacity_def cv_room_def)
  qed (use assms OpSend try_send_refines(2) [of p pid x w] in \<open>simp add: send_spec_def\<close>)
next
  case (OpRecv q pid)
  have "view (chans (run_op ops a w)) = snd (recv_port_spec (view (chans w)) q pid)"
    using try_recv_refines [of q pid w] OpRecv by (metis run_op.simps(2) snd_conv)
  then show ?thesis
    using assms by (auto simp: recv_port_spec_def recv_spec_def within_capacity_def split: option.splits)
qed

lemma run_conservation:
  "cv_queue (view (chans w) i) @ sent_along ops view i as w =
     taken_along ops view i as w @ cv_queue (view (chans (run_ops ops as w)) i)"
proof (induction as arbitrary: w)
  case (Cons a as)
  then show ?case using op_conservation [of w i a] by (metis append.assoc run_ops.simps(2)
      sent_along.simps(2) taken_along.simps(2))
qed simp

lemma run_capacity:
  "within_capacity (view (chans w) i) \<Longrightarrow> within_capacity (view (chans (run_ops ops as w)) i)"
  by (induction as arbitrary: w) (auto intro: op_capacity)

end

section \<open>Grouping handles by port\<close>

locale port_handle =
  fixes pid :: "'h \<Rightarrow> port_id"
    and links :: "'h \<Rightarrow> nat list"
    and app :: "'h \<Rightarrow> 'h \<Rightarrow> 'h"
    and mk :: "port_id \<Rightarrow> 'h"
  assumes app_pid: "pid (app other h) = pid h"
    and app_links: "links (app other h) = links h @ links other"
    and mk_pid: "pid (mk p) = p"
    and mk_links: "links (mk p) = []"
begin

definition links_of :: "'h list \<Rightarrow> port_id \<Rightarrow> nat list" where
  "links_of hs p = concat (map links (filter (\<lambda>h. pid h = p) hs))"

definition grouped :: "'h list \<Rightarrow> (port_id, 'h) btree_map \<Rightarrow> bool" where
  "grouped hs m \<longleftrightarrow>
     (\<forall>p. map_of m p = None \<longrightarrow> links_of hs p = []) \<and>
     (\<forall>p h. map_of m p = Some h \<longrightarrow> pid h = p \<and> links h = links_of hs p)"

lemma links_of_snoc: "links_of (hs @ [h]) p = links_of hs p @ (if pid h = p then links h else [])"
  by (simp add: links_of_def)

lemma grouped_snoc: "grouped hs m \<Longrightarrow> grouped (hs @ [h]) (group_handle pid app h m)"
  by (auto simp: grouped_def links_of_snoc app_pid app_links split: option.splits)

lemma grouped_fold: "grouped hs (fold (group_handle pid app) hs [])"
proof (induction hs rule: rev_induct)
  case Nil
  then show ?case by (simp add: grouped_def links_of_def)
next
  case (snoc h hs)
  then show ?case using grouped_snoc by simp
qed

lemma find_take_handles:
  assumes "\<And>q h. map_of m q = Some h \<Longrightarrow> pid h = q"
  shows "List.find (\<lambda>h. pid h = p) (take_handles mk ids m) =
    (if p \<in> set ids then Some (case map_of m p of None \<Rightarrow> mk p | Some h \<Rightarrow> h) else None)"
  using assms
proof (induction ids arbitrary: m)
  case (Cons q ids)
  have "List.find (\<lambda>h. pid h = p) (take_handles mk ids (bt_remove q m)) =
      (if p \<in> set ids then Some (case map_of (bt_remove q m) p of None \<Rightarrow> mk p | Some h \<Rightarrow> h) else None)"
    by (rule Cons.IH) (use Cons.prems in \<open>auto split: if_splits\<close>)
  moreover have "pid (case map_of m q of None \<Rightarrow> mk q | Some h \<Rightarrow> h) = q"
    using Cons.prems mk_pid by (auto split: option.split)
  ultimately show ?case by auto
qed simp

lemma find_grouped:
  "case List.find (\<lambda>h. pid h = p) (take_handles mk ids (fold (group_handle pid app) hs [])) of
     None \<Rightarrow> p \<notin> set ids
   | Some h \<Rightarrow> p \<in> set ids \<and> pid h = p \<and> links h = links_of hs p"
proof -
  have g: "grouped hs (fold (group_handle pid app) hs [])" by (rule grouped_fold)
  have "pid h = q" if "map_of (fold (group_handle pid app) hs []) q = Some h" for q h
    using g that unfolding grouped_def by blast
  then have find: "List.find (\<lambda>h. pid h = p) (take_handles mk ids (fold (group_handle pid app) hs [])) =
      (if p \<in> set ids
       then Some (case map_of (fold (group_handle pid app) hs []) p of None \<Rightarrow> mk p | Some h \<Rightarrow> h) else None)"
    by (rule find_take_handles)
  show ?thesis
  proof (cases "map_of (fold (group_handle pid app) hs []) p")
    case None
    then show ?thesis using g find unfolding grouped_def by (simp add: mk_pid mk_links)
  next
    case (Some h)
    then show ?thesis using g find unfolding grouped_def by simp
  qed
qed

end

interpretation output_handles: port_handle out_port_id senders output_append output_disconnected
  by unfold_locales (simp_all add: output_append_def output_disconnected_def)

interpretation input_handles: port_handle in_port_id receivers input_append input_disconnected
  by unfold_locales (simp_all add: input_append_def input_disconnected_def)

definition out_links :: "output_port_handle list \<Rightarrow> port_id \<Rightarrow> nat list" where
  "out_links hs p = concat (map senders (filter (\<lambda>h. out_port_id h = p) hs))"

definition in_links :: "input_port_handle list \<Rightarrow> port_id \<Rightarrow> nat list" where
  "in_links hs p = concat (map receivers (filter (\<lambda>h. in_port_id h = p) hs))"

lemma find_output_from_handles:
  "find_output (ports_out_from_handles ids hs) p =
     (if p \<in> set ids then Some \<lparr>out_port_id = p, senders = out_links hs p\<rparr> else None)"
  using output_handles.find_grouped [of p ids hs]
  by (auto simp: find_output_def ports_out_from_handles_def out_links_def output_handles.links_of_def
      split: option.splits)

lemma find_input_from_handles:
  "find_input (ports_in_from_handles ids hs) p =
     (if p \<in> set ids then Some \<lparr>in_port_id = p, receivers = in_links hs p\<rparr> else None)"
  using input_handles.find_grouped [of p ids hs]
  by (auto simp: find_input_def ports_in_from_handles_def in_links_def input_handles.links_of_def
      split: option.splits)

section \<open>Properties\<close>

text \<open>A small world for the examples: one output port with two edges, one input port per edge.\<close>

definition sample_packet :: "string \<Rightarrow> unit port_packet" where
  "sample_packet b =
     \<lparr>envelope_metadata =
        \<lparr>message_id = MessageId ''m'', message_workflow = WorkflowId ''flow'',
         message_execution = first_attempt (ExecutionId ''run''),
         message_route = \<lparr>route_source = None,
                          route_target = \<lparr>message_node = NodeId ''n'', message_port = PortId ''in''\<rparr>\<rparr>\<rparr>,
      envelope_payload = Bytes b\<rparr>"

definition sample_out :: "(unit, unit) ports_out" where
  "sample_out = ports_out_from_handles [PortId ''out'']
     [output_connected (PortId ''out'') 0, output_connected (PortId ''out'') 1]"

definition sample_in :: "(unit, unit) ports_in" where
  "sample_in = ports_in_from_handles [PortId ''in''] [input_connected (PortId ''in'') 0]"

definition sample_world :: "(unit fifo, unit) world" where
  "sample_world = \<lparr>chans = \<lparr>fifo_next = 2, fifo_chan = (\<lambda>_. empty_view 1)\<rparr>, sink_state = (), signals = [None]\<rparr>"

text \<open>
  C2: sending is all or nothing.  \<open>try_send\<close> succeeds exactly when the port is declared, every edge
  connected to it has a free slot and an open receiver, and the validator accepts the packet; then
  the packet is appended once to every connected edge.  In every other case, whatever was reserved
  on the way, no queue, reservation or capacity of any channel has changed.
\<close>

theorem try_send_all_or_nothing:
  assumes "bounded_channels ops view"
  shows "(fst (try_send ops p pid x w) = Ok () \<longleftrightarrow> send_ok (view (chans w)) p pid x) \<and>
    view (chans (snd (try_send ops p pid x w))) = send_spec (view (chans w)) p pid x"
  using bounded_channels.try_send_refines [OF assms] by blast

theorem try_send_all_or_nothing_witness:
  "fst (try_send fifo_ops sample_out (PortId ''out'') (sample_packet ''a'') sample_world) = Ok () \<and>
   cv_queue (fifo_chan (chans (snd (try_send fifo_ops sample_out (PortId ''out'') (sample_packet ''a'')
     sample_world))) 1) = [sample_packet ''a'']"
proof -
  have f: "find_output sample_out (PortId ''out'') = Some \<lparr>out_port_id = PortId ''out'', senders = [0, 1]\<rparr>"
    by (simp add: find_output_def sample_out_def ports_out_from_handles_def output_connected_def
        output_append_def bt_modify_def)
  have "send_ok (fifo_chan (chans sample_world)) sample_out (PortId ''out'') (sample_packet ''a'')"
    by (simp add: send_ok_def f has_room_def cv_room_def packet_accepted_def sample_world_def
        empty_view_def) (simp add: sample_out_def ports_out_from_handles_def)
  then show ?thesis
    using try_send_all_or_nothing [OF fifo.bounded_channels_axioms, of sample_out "PortId ''out''"
        "sample_packet ''a''" sample_world]
    by (simp add: send_spec_def f deliver_def) (simp add: sample_world_def empty_view_def)
qed

text \<open>
  \<open>try_recv\<close> takes the oldest packet of the first connected edge that has one and changes nothing
  else; with no packet it reports disconnection exactly when the port has edges and all of their
  senders are gone, and otherwise reports that nothing is available.
\<close>

theorem try_recv_first_available:
  assumes "bounded_channels ops view"
  shows "(fst (try_recv ops q pid w), view (chans (snd (try_recv ops q pid w)))) =
    recv_port_spec (view (chans w)) q pid"
  using bounded_channels.try_recv_refines [OF assms] .

theorem try_recv_first_available_witness:
  "fst (try_recv fifo_ops sample_in (PortId ''in'') sample_world) = Ok None"
proof -
  have f: "find_input sample_in (PortId ''in'') = Some \<lparr>in_port_id = PortId ''in'', receivers = [0]\<rparr>"
    by (simp add: find_input_def sample_in_def ports_in_from_handles_def input_connected_def)
  have "recv_port_spec (fifo_chan (chans sample_world)) sample_in (PortId ''in'') =
      (Ok None, fifo_chan (chans sample_world))"
    by (simp add: recv_port_spec_def f recv_spec_def sample_world_def empty_view_def)
  then show ?thesis
    using try_recv_first_available [OF fifo.bounded_channels_axioms, of sample_in "PortId ''in''" sample_world]
    by simp
qed

text \<open>
  whatever the interleaving of sends and receives by the nodes of a run, on every edge the
  packets received so far followed by the packets still queued are the packets that were queued at
  the start followed by those sent since, in order: nothing is lost, duplicated or reordered.  And
  no edge ever holds more than its capacity.
\<close>

theorem edge_conservation:
  assumes "bounded_channels ops view"
  shows "cv_queue (view (chans w) i) @ sent_along ops view i as w =
      taken_along ops view i as w @ cv_queue (view (chans (run_ops ops as w)) i) \<and>
    (within_capacity (view (chans w) i) \<longrightarrow> within_capacity (view (chans (run_ops ops as w)) i))"
  using bounded_channels.run_conservation [OF assms] bounded_channels.run_capacity [OF assms] by blast

theorem edge_conservation_witness:
  "let as = [OpSend sample_out (PortId ''out'') (sample_packet ''a''), OpRecv sample_in (PortId ''in'')]
   in sent_along fifo_ops fifo_chan 0 as sample_world =
        taken_along fifo_ops fifo_chan 0 as sample_world @
        cv_queue (fifo_chan (chans (run_ops fifo_ops as sample_world)) 0) \<and>
      within_capacity (fifo_chan (chans (run_ops fifo_ops as sample_world)) 0)"
proof -
  have "cv_queue (fifo_chan (chans sample_world) 0) = []" "within_capacity (fifo_chan (chans sample_world) 0)"
    by (simp_all add: sample_world_def empty_view_def within_capacity_def)
  then show ?thesis
    unfolding Let_def
    using edge_conservation [OF fifo.bounded_channels_axioms, of sample_world 0
        "[OpSend sample_out (PortId ''out'') (sample_packet ''a''), OpRecv sample_in (PortId ''in'')]"]
    by (metis append_Nil)
qed

text \<open>
  a waiting send ends.  Whenever the run, at one of the points where the send is resumed, has
  requested cancellation or made room on every edge of the port, \<open>send\<close> has returned; it never waits
  past such a point.
\<close>

theorem send_returns:
  assumes "bounded_channels ops view" and "find_output p pid = Some h" and "step \<in> set resumes"
    and "\<And>w. is_cancelled (signals (step w)) tok \<or> has_room (view (chans (step w))) h"
  shows "\<exists>r w'. send ops p pid x tok resumes w = (Some r, w')"
proof -
  have "fst (reserve ops p pid tok resumes w) \<noteq> None"
    using bounded_channels.output_reserve_returns [OF assms(1) assms(3), of tok h] assms(2,4)
    by (simp add: reserve_def)
  then show ?thesis
    by (auto simp: send_def split: prod.split result.split option.split)
qed

theorem send_returns_witness:
  "\<exists>r w'. send fifo_ops sample_out (PortId ''out'') (sample_packet ''a'') (CancellationToken 0)
     [\<lambda>w. w\<lparr>signals := [Some (CancellationRequest ''stop'')]\<rparr>] sample_world = (Some r, w')"
proof (rule send_returns [OF fifo.bounded_channels_axioms])
  show "find_output sample_out (PortId ''out'') = Some \<lparr>out_port_id = PortId ''out'', senders = [0, 1]\<rparr>"
    by (simp add: find_output_def sample_out_def ports_out_from_handles_def output_connected_def
        output_append_def bt_modify_def)
qed (auto simp: is_cancelled_def token_request_def)

end
