(* ===== verification/EngineRun.thy ===== *)
theory EngineRun
  imports EngineProps PortProps
begin

text \<open>
  The crate \<open>pureflow-engine\<close>, second half: executor registries, the batch node adapter, output
  contracts and their validator, the wiring of ports to channels, and the entry points that run a
  workflow.

  \<open>schedule\<close> stands for the runtime that polls the node futures together: from the prepared node runs
  it gives the observations of the collection loop.
\<close>

section \<open>Registries\<close>

type_synonym ('n, 'c, 's) registry = "node_id \<Rightarrow> (('n, 'c, 's) executor, pureflow_error) result"

definition single_registry :: "('n, 'c, 's) executor \<Rightarrow> ('n, 'c, 's) registry" where
  "single_registry e = (\<lambda>_. Ok e)"

definition static_executor_for :: "(node_id, 'e) btree_map \<Rightarrow> node_id \<Rightarrow> ('e, pureflow_error) result" where
  "static_executor_for m n =
     ok_or (map_of m n)
       (Execution (''no executor registered for workflow node '' @ quoted (node_id_str n)))"

definition static_insert :: "node_id \<Rightarrow> 'e::type \<Rightarrow> (node_id, 'e) btree_map \<Rightarrow> 'e option \<times> (node_id, 'e) btree_map" where
  "static_insert n e m = (map_of m n, bt_insert n e m)"

section \<open>Batch nodes\<close>

text \<open>
  Draining the inputs: one \<open>recv_any\<close> after the other, each with what happens while it waits.
\<close>

fun drain_inputs ::
  "('n, 'c) channel_ops \<Rightarrow> ('n, 's) ports_in \<Rightarrow> cancellation_token
   \<Rightarrow> (('c, 's) world \<Rightarrow> ('c, 's) world) list list \<Rightarrow> 'n batch \<Rightarrow> ('c, 's) world
   \<Rightarrow> ('n batch, pureflow_error) result option \<times> ('c, 's) world" where
  "drain_inputs ops q tok [] b w = (None, w)"
| "drain_inputs ops q tok (resumes # waits) b w =
     (case recv_any ops q tok resumes w of
        (None, w1) \<Rightarrow> (None, w1)
      | (Some (Ok (Some (pid, x))), w1) \<Rightarrow> drain_inputs ops q tok waits (batch_push pid x b) w1
      | (Some (Ok None), w1) \<Rightarrow> (Some (Ok b), w1)
      | (Some (Err e), w1) \<Rightarrow> (Some (Err (port_recv_error_to_error e)), w1)
      | (Some Panic, w1) \<Rightarrow> (Some Panic, w1))"

fun send_batch_output_port ::
  "('n, 'c) channel_ops \<Rightarrow> ('n, 's) ports_out \<Rightarrow> cancellation_token \<Rightarrow> port_id \<Rightarrow> 'n port_packet list
   \<Rightarrow> (('c, 's) world \<Rightarrow> ('c, 's) world) list list \<Rightarrow> ('c, 's) world
   \<Rightarrow> (unit, pureflow_error) result option \<times> (('c, 's) world \<Rightarrow> ('c, 's) world) list list \<times> ('c, 's) world"
  where
  "send_batch_output_port ops p tok pid [] waits w = (Some (Ok ()), waits, w)"
| "send_batch_output_port ops p tok pid (x # xs) [] w = (None, [], w)"
| "send_batch_output_port ops p tok pid (x # xs) (resumes # waits) w =
     (case send ops p pid x tok resumes w of
        (None, w1) \<Rightarrow> (None, waits, w1)
      | (Some (Ok _), w1) \<Rightarrow> send_batch_output_port ops p tok pid xs waits w1
      | (Some (Err e), w1) \<Rightarrow> (Some (Err (port_send_error_to_error e)), waits, w1)
      | (Some Panic, w1) \<Rightarrow> (Some Panic, waits, w1))"

fun send_batch_outputs ::
  "('n, 'c) channel_ops \<Rightarrow> ('n, 's) ports_out \<Rightarrow> cancellation_token \<Rightarrow> (port_id \<times> 'n port_packet list) list
   \<Rightarrow> (('c, 's) world \<Rightarrow> ('c, 's) world) list list \<Rightarrow> ('c, 's) world
   \<Rightarrow> (unit, pureflow_error) result option \<times> ('c, 's) world" where
  "send_batch_outputs ops p tok [] waits w = (Some (Ok ()), w)"
| "send_batch_outputs ops p tok ((pid, xs) # rest) waits w =
     (case send_batch_output_port ops p tok pid xs waits w of
        (Some (Ok _), waits1, w1) \<Rightarrow> send_batch_outputs ops p tok rest waits1 w1
      | (r, waits1, w1) \<Rightarrow> (r, w1))"

definition run_batch_node_executor ::
  "('n, 'c) channel_ops \<Rightarrow> ('n batch \<Rightarrow> ('n batch, pureflow_error) result) \<Rightarrow> node_context
   \<Rightarrow> ('n, 's) ports_in \<Rightarrow> ('n, 's) ports_out \<Rightarrow> (('c, 's) world \<Rightarrow> ('c, 's) world) list list
   \<Rightarrow> (('c, 's) world \<Rightarrow> ('c, 's) world) list list \<Rightarrow> ('c, 's) world
   \<Rightarrow> (unit, pureflow_error) result option \<times> ('c, 's) world" where
  "run_batch_node_executor ops invoke ctx q p recv_waits send_waits w =
     (case drain_inputs ops q (context_token ctx) recv_waits new_batch w of
        (None, w1) \<Rightarrow> (None, w1)
      | (Some (Ok b), w1) \<Rightarrow>
          (case invoke b of
             Ok out \<Rightarrow> send_batch_outputs ops p (context_token ctx) (packets_by_port out) send_waits w1
           | Err e \<Rightarrow> (Some (Err e), w1)
           | Panic \<Rightarrow> (Some Panic, w1))
      | (Some (Err e), w1) \<Rightarrow> (Some (Err e), w1)
      | (Some Panic, w1) \<Rightarrow> (Some Panic, w1))"

section \<open>Output contracts\<close>

type_synonym output_contracts = "(node_id, (port_id, schema_ref option) btree_map) btree_map"

definition output_port_contract ::
  "node_definition \<Rightarrow> node_contract \<Rightarrow> (port_id, schema_ref option) btree_map \<Rightarrow> port_id
   \<Rightarrow> ((port_id, schema_ref option) btree_map, pureflow_error) result" where
  "output_port_contract n c acc p =
     and_then
       (ok_or (List.find (\<lambda>q. contract_port_id q = p) (contract_ports c))
         (Execution (''node '' @ quoted (node_id_str (node_def_id n)) @ '' output port ''
           @ quoted (port_id_str p) @ '' has no output contract'')))
       (\<lambda>pc. if contract_direction pc \<noteq> Output
          then Err (Execution (''node '' @ quoted (node_id_str (node_def_id n)) @ '' port ''
            @ quoted (port_id_str p) @ '' contract is not an output contract''))
          else Ok (bt_insert p (contract_schema pc) acc))"

definition node_output_contracts ::
  "(node_id, node_contract) btree_map \<Rightarrow> output_contracts \<Rightarrow> node_definition
   \<Rightarrow> (output_contracts, pureflow_error) result" where
  "node_output_contracts cm acc n =
     (case map_of cm (node_def_id n) of
        None \<Rightarrow>
          (if output_ports n = [] then Ok (bt_insert (node_def_id n) [] acc)
           else Err (Execution (''no output contract supplied for workflow node ''
             @ quoted (node_id_str (node_def_id n)))))
      | Some c \<Rightarrow>
          and_then (try_fold (output_port_contract n c) [] (output_ports n)) (\<lambda>m.
          and_then
            (try_each (\<lambda>pc.
               if contract_direction pc = Output \<and> contract_port_id pc \<notin> set (output_ports n)
               then Err (Execution (''node '' @ quoted (node_id_str (node_def_id n))
                 @ '' contract references unknown output port '' @ quoted (port_id_str (contract_port_id pc))))
               else Ok ()) (contract_ports c))
            (\<lambda>_. Ok (bt_insert (node_def_id n) m acc))))"

definition from_node_contracts ::
  "workflow_definition \<Rightarrow> node_contract list \<Rightarrow> (output_contracts, pureflow_error) result" where
  "from_node_contracts flow contracts =
     and_then (try_fold (node_output_contracts (contract_map_of contracts)) [] (workflow_nodes flow)) (\<lambda>m.
     and_then
       (try_each (\<lambda>c.
          if list_all (\<lambda>n. node_def_id n \<noteq> contract_id c) (workflow_nodes flow)
          then Err (Execution (''output contract references unknown workflow node ''
            @ quoted (node_id_str (contract_id c))))
          else Ok ()) contracts)
       (\<lambda>_. Ok m))"

record contract_output_validator =
  cv_workflow_id :: workflow_id
  cv_node_id :: node_id
  cv_execution :: execution_metadata
  cv_output_contracts :: "(port_id, schema_ref option) btree_map"

definition validate_output :: "contract_output_validator \<Rightarrow> 'n validator" where
  "validate_output v p x =
     (let m = envelope_metadata x
      in if map_of (cv_output_contracts v) p = None then
           Err (SendRejected p (''node '' @ quoted (node_id_str (cv_node_id v)) @ '' output port ''
             @ quoted (port_id_str p) @ '' has no output contract''))
         else if message_workflow m \<noteq> cv_workflow_id v then
           Err (SendRejected p (''packet workflow '' @ quoted (workflow_id_str (message_workflow m))
             @ '' does not match workflow '' @ quoted (workflow_id_str (cv_workflow_id v))))
         else if message_execution m \<noteq> cv_execution v then
           Err (SendRejected p (''packet execution ''
             @ quoted (execution_id_str (execution_id (message_execution m)))
             @ '' does not match execution '' @ quoted (execution_id_str (execution_id (cv_execution v)))))
         else case route_source (message_route m) of
             None \<Rightarrow> Err (SendRejected p ''packet route has no source endpoint'')
           | Some s \<Rightarrow>
               if message_node s \<noteq> cv_node_id v \<or> message_port s \<noteq> p then
                 Err (SendRejected p (''packet source ''
                   @ quoted (node_id_str (message_node s) @ '':'' @ port_id_str (message_port s))
                   @ '' does not match output ''
                   @ quoted (node_id_str (cv_node_id v) @ '':'' @ port_id_str p)))
               else Ok ())"

section \<open>Wiring\<close>

definition DEFAULT_EDGE_CAPACITY :: nat where
  "DEFAULT_EDGE_CAPACITY = 1"

definition bt_push :: "'k::linorder \<Rightarrow> 'v \<Rightarrow> ('k, 'v list) btree_map \<Rightarrow> ('k, 'v list) btree_map" where
  "bt_push k x m = bt_insert k ((case map_of m k of None \<Rightarrow> [] | Some xs \<Rightarrow> xs) @ [x]) m"

type_synonym port_wiring =
  "(node_id, input_port_handle list) btree_map \<times> (node_id, output_port_handle list) btree_map"

definition wire_edge ::
  "('n, 'c) channel_ops \<Rightarrow> edge_definition \<Rightarrow> port_wiring \<times> 'c \<Rightarrow> port_wiring \<times> 'c" where
  "wire_edge ops e wc =
     (let ((ins, outs), c) = wc;
          ((output, inp), c') = bounded_edge_channel ops (endpoint_port_id (edge_source e))
            (endpoint_port_id (edge_target e)) (resolve_capacity (edge_capacity e) DEFAULT_EDGE_CAPACITY) c
      in ((bt_push (edge_target_node e) inp ins, bt_push (edge_source_node e) output outs), c'))"

definition build_port_wiring ::
  "('n, 'c) channel_ops \<Rightarrow> workflow_definition \<Rightarrow> 'c \<Rightarrow> port_wiring \<times> 'c" where
  "build_port_wiring ops flow c = fold (wire_edge ops) (workflow_edges flow) (([], []), c)"

section \<open>Running a workflow\<close>

record ('n, 'c, 's) node_run =
  run_node_id :: node_id
  run_executor :: "('n, 'c, 's) executor"
  run_context :: node_context
  run_inputs :: "('n, 's) ports_in"
  run_outputs :: "('n, 's) ports_out"

definition attach_validator ::
  "workflow_definition \<Rightarrow> node_definition \<Rightarrow> execution_metadata \<Rightarrow> output_contracts option
   \<Rightarrow> ('n, 's) ports_out \<Rightarrow> (('n, 's) ports_out, pureflow_error) result" where
  "attach_validator flow n x oc outs =
     (case oc of
        None \<Rightarrow> Ok outs
      | Some cs \<Rightarrow>
          and_then (ok_or (map_of cs (node_def_id n))
              (Execution (''no output contracts supplied for workflow node ''
                @ quoted (node_id_str (node_def_id n)))))
            (\<lambda>m. Ok (with_output_validator (validate_output
               \<lparr>cv_workflow_id = workflow_def_id flow, cv_node_id = node_def_id n,
                cv_execution = x, cv_output_contracts = m\<rparr>) outs)))"

fun prepare_runs ::
  "('n, 'c, 's) registry \<Rightarrow> workflow_definition \<Rightarrow> execution_metadata \<Rightarrow> cancellation_handle
   \<Rightarrow> output_contracts option \<Rightarrow> node_definition list \<Rightarrow> port_wiring \<Rightarrow> signal_store
   \<Rightarrow> (('n, 'c, 's) node_run list, pureflow_error) result \<times> signal_store" where
  "prepare_runs reg flow x h oc [] wiring st = (Ok [], st)"
| "prepare_runs reg flow x h oc (n # ns) (ins, outs) st =
     (case reg (node_def_id n) of
        Ok ex \<Rightarrow>
          (let (ctx, st1) = new_node_context (workflow_def_id flow) (node_def_id n) x st;
               inputs = ports_in_from_handles (input_ports n)
                 (case map_of ins (node_def_id n) of None \<Rightarrow> [] | Some hs \<Rightarrow> hs);
               outputs = ports_out_from_handles (output_ports n)
                 (case map_of outs (node_def_id n) of None \<Rightarrow> [] | Some hs \<Rightarrow> hs)
           in case attach_validator flow n x oc outputs of
                Ok outputs' \<Rightarrow>
                  (let (rest, st2) = prepare_runs reg flow x h oc ns
                         (bt_remove (node_def_id n) ins, bt_remove (node_def_id n) outs) st1
                   in (and_then rest (\<lambda>runs. Ok
                         (\<lparr>run_node_id = node_def_id n, run_executor = ex,
                           run_context = with_cancellation_token (handle_token h) ctx,
                           run_inputs = inputs, run_outputs = outputs'\<rparr> # runs)), st2))
              | Err e \<Rightarrow> (Err e, st1)
              | Panic \<Rightarrow> (Panic, st1))
      | Err e \<Rightarrow> (Err e, st)
      | Panic \<Rightarrow> (Panic, st))"

type_synonym ('n, 'c, 's) scheduler =
  "'s hook \<Rightarrow> ('n, 's) sink \<Rightarrow> ('n, 'c, 's) node_run list \<Rightarrow> ('c, 's) world \<Rightarrow> ('c, 's) observation list"

text \<open>The parts of the platform that a run uses: channels, scheduling, printing of durations.\<close>

record ('n, 'c, 's) platform =
  pf_channels :: "('n, 'c) channel_ops"
  pf_schedule :: "('n, 'c, 's) scheduler"
  pf_duration :: "duration \<Rightarrow> string"

type_synonym ('c, 's) summary_outcome =
  "(workflow_run_summary, pureflow_error) result option \<times> ('c, 's) world"

type_synonym ('c, 's) outcome = "(unit, pureflow_error) result option \<times> ('c, 's) world"

definition run_workflow_with_registry_and_observers_summary_inner ::
  "('n, 'c, 's) platform \<Rightarrow> workflow_definition \<Rightarrow> execution_metadata \<Rightarrow> ('n, 'c, 's) registry \<Rightarrow> 's hook
   \<Rightarrow> ('n, 's) sink \<Rightarrow> workflow_run_policy \<Rightarrow> output_contracts option \<Rightarrow> ('c, 's) world
   \<Rightarrow> ('c, 's) summary_outcome" where
  "run_workflow_with_registry_and_observers_summary_inner pf flow x reg hook sink p oc w =
     (case validate_workflow_run_policy flow p of
        Ok _ \<Rightarrow>
          (let (wiring, c) = build_port_wiring (pf_channels pf) flow (chans w);
               (h, st) = new_handle (signals w);
               (prepared, st1) = prepare_runs reg flow x h oc (workflow_nodes flow) wiring st;
               w1 = w\<lparr>chans := c, signals := st1\<rparr>
           in case prepared of
                Ok runs \<Rightarrow>
                  collect_workflow_summary (pf_duration pf)
                    \<lparr>cc_cancellation = h, cc_workflow = flow, cc_execution = x, cc_sink = sink, cc_policy = p\<rparr>
                    (length runs) (pf_schedule pf hook sink runs w1) (length (workflow_nodes flow)) w1
              | Err e \<Rightarrow> (Some (Err e), w1)
              | Panic \<Rightarrow> (Some Panic, w1))
      | Err e \<Rightarrow> (Some (Err e), w)
      | Panic \<Rightarrow> (Some Panic, w))"

text \<open>\<open>summary?.into_result()\<close>.\<close>

definition then_into_result :: "('c, 's) summary_outcome \<Rightarrow> ('c, 's) outcome" where
  "then_into_result o1 = (map_option (\<lambda>r. and_then r into_result) (fst o1), snd o1)"

section \<open>Entry points\<close>

definition run_workflow_with_registry_and_observers_summary ::
  "('n, 'c, 's) platform \<Rightarrow> workflow_definition \<Rightarrow> execution_metadata \<Rightarrow> ('n, 'c, 's) registry \<Rightarrow> 's hook \<Rightarrow> ('n, 's) sink \<Rightarrow> ('c, 's) world
   \<Rightarrow> ('c, 's) summary_outcome" where
  "run_workflow_with_registry_and_observers_summary pf flow x reg hook sink =
     run_workflow_with_registry_and_observers_summary_inner pf flow x reg hook sink acyclic_policy None"

definition run_workflow_with_registry_summary ::
  "('n, 'c, 's) platform \<Rightarrow> workflow_definition \<Rightarrow> execution_metadata \<Rightarrow> ('n, 'c, 's) registry \<Rightarrow> ('c, 's) world
   \<Rightarrow> ('c, 's) summary_outcome" where
  "run_workflow_with_registry_summary pf flow x reg =
     run_workflow_with_registry_and_observers_summary pf flow x reg noop_hook noop_sink"

definition run_workflow_with_registry_policy_summary ::
  "('n, 'c, 's) platform \<Rightarrow> workflow_definition \<Rightarrow> execution_metadata \<Rightarrow> ('n, 'c, 's) registry \<Rightarrow> workflow_run_policy \<Rightarrow> ('c, 's) world
   \<Rightarrow> ('c, 's) summary_outcome" where
  "run_workflow_with_registry_policy_summary pf flow x reg p =
     run_workflow_with_registry_and_observers_summary_inner pf flow x reg noop_hook noop_sink p None"

definition run_workflow_with_registry ::
  "('n, 'c, 's) platform \<Rightarrow> workflow_definition \<Rightarrow> execution_metadata \<Rightarrow> ('n, 'c, 's) registry \<Rightarrow> ('c, 's) world
   \<Rightarrow> ('c, 's) outcome" where
  "run_workflow_with_registry pf flow x reg =
     (\<lambda>w. then_into_result (run_workflow_with_registry_summary pf flow x reg w))"

definition run_workflow_with_registry_policy ::
  "('n, 'c, 's) platform \<Rightarrow> workflow_definition \<Rightarrow> execution_metadata \<Rightarrow> ('n, 'c, 's) registry \<Rightarrow> workflow_run_policy \<Rightarrow> ('c, 's) world
   \<Rightarrow> ('c, 's) outcome" where
  "run_workflow_with_registry_policy pf flow x reg p =
     (\<lambda>w. then_into_result (run_workflow_with_registry_policy_summary pf flow x reg p w))"

definition run_workflow_with_registry_policy_and_metadata_sink_summary ::
  "('n, 'c, 's) platform \<Rightarrow> workflow_definition \<Rightarrow> execution_metadata \<Rightarrow> ('n, 'c, 's) registry \<Rightarrow> workflow_run_policy \<Rightarrow> ('n, 's) sink \<Rightarrow> ('c, 's) world
   \<Rightarrow> ('c, 's) summary_outcome" where
  "run_workflow_with_registry_policy_and_metadata_sink_summary pf flow x reg p sink =
     run_workflow_with_registry_and_observers_summary_inner pf flow x reg noop_hook sink p None"

definition run_workflow_with_registry_policy_and_metadata_sink ::
  "('n, 'c, 's) platform \<Rightarrow> workflow_definition \<Rightarrow> execution_metadata \<Rightarrow> ('n, 'c, 's) registry \<Rightarrow> workflow_run_policy \<Rightarrow> ('n, 's) sink \<Rightarrow> ('c, 's) world
   \<Rightarrow> ('c, 's) outcome" where
  "run_workflow_with_registry_policy_and_metadata_sink pf flow x reg p sink =
     (\<lambda>w. then_into_result (run_workflow_with_registry_policy_and_metadata_sink_summary pf flow x reg p sink w))"

definition run_workflow_with_registry_and_metadata_sink_summary ::
  "('n, 'c, 's) platform \<Rightarrow> workflow_definition \<Rightarrow> execution_metadata \<Rightarrow> ('n, 'c, 's) registry \<Rightarrow> ('n, 's) sink \<Rightarrow> ('c, 's) world
   \<Rightarrow> ('c, 's) summary_outcome" where
  "run_workflow_with_registry_and_metadata_sink_summary pf flow x reg sink =
     run_workflow_with_registry_and_observers_summary pf flow x reg noop_hook sink"

definition run_workflow_with_registry_contracts_and_observers_summary ::
  "('n, 'c, 's) platform \<Rightarrow> workflow_definition \<Rightarrow> execution_metadata \<Rightarrow> ('n, 'c, 's) registry \<Rightarrow> node_contract list \<Rightarrow> 's hook \<Rightarrow> ('n, 's) sink \<Rightarrow> ('c, 's) world
   \<Rightarrow> ('c, 's) summary_outcome" where
  "run_workflow_with_registry_contracts_and_observers_summary pf flow x reg contracts hook sink =
     (\<lambda>w. case from_node_contracts flow contracts of
        Ok oc \<Rightarrow> run_workflow_with_registry_and_observers_summary_inner pf flow x reg hook sink acyclic_policy (Some oc) w
      | Err e \<Rightarrow> (Some (Err e), w)
      | Panic \<Rightarrow> (Some Panic, w))"

definition run_workflow_with_registry_contracts_and_observers ::
  "('n, 'c, 's) platform \<Rightarrow> workflow_definition \<Rightarrow> execution_metadata \<Rightarrow> ('n, 'c, 's) registry \<Rightarrow> node_contract list \<Rightarrow> 's hook \<Rightarrow> ('n, 's) sink \<Rightarrow> ('c, 's) world
   \<Rightarrow> ('c, 's) outcome" where
  "run_workflow_with_registry_contracts_and_observers pf flow x reg contracts hook sink =
     (\<lambda>w. then_into_result (run_workflow_with_registry_contracts_and_observers_summary pf flow x reg contracts hook sink w))"

definition run_workflow_with_registry_contracts_summary ::
  "('n, 'c, 's) platform \<Rightarrow> workflow_definition \<Rightarrow> execution_metadata \<Rightarrow> ('n, 'c, 's) registry \<Rightarrow> node_contract list \<Rightarrow> ('c, 's) world
   \<Rightarrow> ('c, 's) summary_outcome" where
  "run_workflow_with_registry_contracts_summary pf flow x reg contracts =
     run_workflow_with_registry_contracts_and_observers_summary pf flow x reg contracts noop_hook noop_sink"

definition run_workflow_with_registry_contracts ::
  "('n, 'c, 's) platform \<Rightarrow> workflow_definition \<Rightarrow> execution_metadata \<Rightarrow> ('n, 'c, 's) registry \<Rightarrow> node_contract list \<Rightarrow> ('c, 's) world
   \<Rightarrow> ('c, 's) outcome" where
  "run_workflow_with_registry_contracts pf flow x reg contracts =
     (\<lambda>w. then_into_result (run_workflow_with_registry_contracts_summary pf flow x reg contracts w))"

definition run_workflow_with_registry_and_observers ::
  "('n, 'c, 's) platform \<Rightarrow> workflow_definition \<Rightarrow> execution_metadata \<Rightarrow> ('n, 'c, 's) registry \<Rightarrow> 's hook \<Rightarrow> ('n, 's) sink \<Rightarrow> ('c, 's) world
   \<Rightarrow> ('c, 's) outcome" where
  "run_workflow_with_registry_and_observers pf flow x reg hook sink =
     (\<lambda>w. then_into_result (run_workflow_with_registry_and_observers_summary pf flow x reg hook sink w))"

definition run_workflow_with_registry_and_metadata_sink ::
  "('n, 'c, 's) platform \<Rightarrow> workflow_definition \<Rightarrow> execution_metadata \<Rightarrow> ('n, 'c, 's) registry \<Rightarrow> ('n, 's) sink \<Rightarrow> ('c, 's) world
   \<Rightarrow> ('c, 's) outcome" where
  "run_workflow_with_registry_and_metadata_sink pf flow x reg sink =
     (\<lambda>w. then_into_result (run_workflow_with_registry_and_metadata_sink_summary pf flow x reg sink w))"

definition run_workflow ::
  "('n, 'c, 's) platform \<Rightarrow> workflow_definition \<Rightarrow> execution_metadata \<Rightarrow> ('n, 'c, 's) executor \<Rightarrow> ('c, 's) world
   \<Rightarrow> ('c, 's) outcome" where
  "run_workflow pf flow x ex =
     run_workflow_with_registry pf flow x (single_registry ex)"

definition run_workflow_summary ::
  "('n, 'c, 's) platform \<Rightarrow> workflow_definition \<Rightarrow> execution_metadata \<Rightarrow> ('n, 'c, 's) executor \<Rightarrow> ('c, 's) world
   \<Rightarrow> ('c, 's) summary_outcome" where
  "run_workflow_summary pf flow x ex =
     run_workflow_with_registry_summary pf flow x (single_registry ex)"

definition run_workflow_with_policy_summary ::
  "('n, 'c, 's) platform \<Rightarrow> workflow_definition \<Rightarrow> execution_metadata \<Rightarrow> ('n, 'c, 's) executor \<Rightarrow> workflow_run_policy \<Rightarrow> ('c, 's) world
   \<Rightarrow> ('c, 's) summary_outcome" where
  "run_workflow_with_policy_summary pf flow x ex p =
     run_workflow_with_registry_policy_summary pf flow x (single_registry ex) p"

definition run_workflow_with_policy ::
  "('n, 'c, 's) platform \<Rightarrow> workflow_definition \<Rightarrow> execution_metadata \<Rightarrow> ('n, 'c, 's) executor \<Rightarrow> workflow_run_policy \<Rightarrow> ('c, 's) world
   \<Rightarrow> ('c, 's) outcome" where
  "run_workflow_with_policy pf flow x ex p =
     run_workflow_with_registry_policy pf flow x (single_registry ex) p"

definition run_workflow_with_observers_summary ::
  "('n, 'c, 's) platform \<Rightarrow> workflow_definition \<Rightarrow> execution_metadata \<Rightarrow> ('n, 'c, 's) executor \<Rightarrow> 's hook \<Rightarrow> ('n, 's) sink \<Rightarrow> ('c, 's) world
   \<Rightarrow> ('c, 's) summary_outcome" where
  "run_workflow_with_observers_summary pf flow x ex hook sink =
     run_workflow_with_registry_and_observers_summary pf flow x (single_registry ex) hook sink"

definition run_workflow_with_observers ::
  "('n, 'c, 's) platform \<Rightarrow> workflow_definition \<Rightarrow> execution_metadata \<Rightarrow> ('n, 'c, 's) executor \<Rightarrow> 's hook \<Rightarrow> ('n, 's) sink \<Rightarrow> ('c, 's) world
   \<Rightarrow> ('c, 's) outcome" where
  "run_workflow_with_observers pf flow x ex hook sink =
     run_workflow_with_registry_and_observers pf flow x (single_registry ex) hook sink"

definition run_workflow_with_contracts_summary ::
  "('n, 'c, 's) platform \<Rightarrow> workflow_definition \<Rightarrow> execution_metadata \<Rightarrow> ('n, 'c, 's) executor \<Rightarrow> node_contract list \<Rightarrow> ('c, 's) world
   \<Rightarrow> ('c, 's) summary_outcome" where
  "run_workflow_with_contracts_summary pf flow x ex contracts =
     run_workflow_with_registry_contracts_summary pf flow x (single_registry ex) contracts"

definition run_workflow_with_contracts ::
  "('n, 'c, 's) platform \<Rightarrow> workflow_definition \<Rightarrow> execution_metadata \<Rightarrow> ('n, 'c, 's) executor \<Rightarrow> node_contract list \<Rightarrow> ('c, 's) world
   \<Rightarrow> ('c, 's) outcome" where
  "run_workflow_with_contracts pf flow x ex contracts =
     run_workflow_with_registry_contracts pf flow x (single_registry ex) contracts"

definition run_workflow_with_metadata_sink ::
  "('n, 'c, 's) platform \<Rightarrow> workflow_definition \<Rightarrow> execution_metadata \<Rightarrow> ('n, 'c, 's) executor \<Rightarrow> ('n, 's) sink \<Rightarrow> ('c, 's) world
   \<Rightarrow> ('c, 's) outcome" where
  "run_workflow_with_metadata_sink pf flow x ex sink =
     run_workflow_with_registry_and_metadata_sink pf flow x (single_registry ex) sink"

definition run_workflow_with_metadata_sink_summary ::
  "('n, 'c, 's) platform \<Rightarrow> workflow_definition \<Rightarrow> execution_metadata \<Rightarrow> ('n, 'c, 's) executor \<Rightarrow> ('n, 's) sink \<Rightarrow> ('c, 's) world
   \<Rightarrow> ('c, 's) summary_outcome" where
  "run_workflow_with_metadata_sink_summary pf flow x ex sink =
     run_workflow_with_registry_and_metadata_sink_summary pf flow x (single_registry ex) sink"

end
