(* ===== verification/EngineRunProps.thy ===== *)
theory EngineRunProps
  imports EngineRun
begin

text \<open>
  Properties of the engine's set-up and of whole runs: which workflows a policy admits, the wiring of
  ports to channels, output contracts and their validator, and the outcome of \<open>run_workflow\<close>.
\<close>

section \<open>Run policies\<close>

lemma topological_order_by_shape:
  assumes "structurally_valid (workflow_nodes flow) (workflow_edges flow)"
  shows "order_result (workflow_nodes flow) (workflow_edges flow)
    (graph_topological_order (workflow_graph flow))"
proof -
  have "workflow_graph flow = \<lparr>graph_nodes = workflow_nodes flow, graph_edges = workflow_edges flow\<rparr>" by simp
  then show ?thesis using graph_topological_order_result [OF assms] by metis
qed

lemma topological_order_invalid:
  assumes "\<not> structurally_valid (workflow_nodes flow) (workflow_edges flow)"
  shows "\<exists>e. graph_topological_order (workflow_graph flow) = Err e \<and> (\<forall>c. e \<noteq> CycleDetected c)"
proof -
  from new_graph_invalid [OF assms] obtain e where
    e: "from_graph (workflow_nodes flow) (workflow_edges flow) = Err e" by blast
  moreover have "e \<noteq> CycleDetected c" for c
    using e from_graph_not_cycle by metis
  ultimately show ?thesis by (auto simp: graph_topological_order_def)
qed

lemma new_graph_shape:
  assumes "new_graph nodes edges = Ok g"
  shows "structurally_valid nodes edges \<and> acyclic (edge_relation edges) \<and> no_parallel_edges edges \<and>
    g = \<lparr>graph_nodes = nodes, graph_edges = edges\<rparr>"
proof -
  have valid: "structurally_valid nodes edges"
    using assms new_graph_invalid [of nodes edges] by auto
  from new_graph_result [OF this] obtain t where "order_result nodes edges (topological_order t)"
    "Ok g = and_then (topological_order t) (\<lambda>_. Ok \<lparr>graph_nodes = nodes, graph_edges = edges\<rparr>)"
    using assms by auto
  then show ?thesis using valid by (cases "topological_order t") (auto simp: order_result_def)
qed

lemma validate_cycle_run_policy_Ok [simp]:
  "validate_cycle_run_policy flow p c = Ok () \<longleftrightarrow> cycle_policy p \<noteq> Reject"
  "validate_cycle_run_policy flow p c \<noteq> Panic"
  by (auto simp: validate_cycle_run_policy_def
      split: cycle_run_policy.split feedback_loop_startup.split feedback_loop_termination.split)

lemma validate_run_policy_cases:
  "validate_workflow_run_policy flow p \<noteq> Panic \<and>
   (validate_workflow_run_policy flow p = Ok () \<longleftrightarrow>
      structurally_valid (workflow_nodes flow) (workflow_edges flow) \<and>
      (cycle_policy p \<noteq> Reject \<or>
       acyclic (edge_relation (workflow_edges flow)) \<and> no_parallel_edges (workflow_edges flow)))"
proof (cases "structurally_valid (workflow_nodes flow) (workflow_edges flow)")
  case True
  from topological_order_by_shape [OF True] show ?thesis
    using True
    by (cases "graph_topological_order (workflow_graph flow)")
      (auto simp: validate_workflow_run_policy_def order_result_def split: if_splits)
next
  case False
  from topological_order_invalid [OF False] obtain e where
    "graph_topological_order (workflow_graph flow) = Err e" "\<And>c. e \<noteq> CycleDetected c" by blast
  with False show ?thesis
    by (cases e) (auto simp: validate_workflow_run_policy_def)
qed

section \<open>Wiring\<close>

text \<open>
  What opening a channel promises: a name that is not in use, whose channel is empty and open with the
  requested capacity, and no change of any other channel.
\<close>

locale channel_factory = bounded_channels ops view
  for ops :: "('n, 'c) channel_ops" and view :: "'c \<Rightarrow> nat \<Rightarrow> 'n chan_view" +
  fixes live :: "'c \<Rightarrow> nat set"
  assumes new_fresh: "0 < cap \<Longrightarrow> fst (ch_new ops cap c) \<notin> live c"
    and new_live: "0 < cap \<Longrightarrow> live (snd (ch_new ops cap c)) = insert (fst (ch_new ops cap c)) (live c)"
    and new_view: "0 < cap \<Longrightarrow>
      view (snd (ch_new ops cap c)) = (view c)(fst (ch_new ops cap c) := empty_view cap)"

definition handles_at :: "(node_id, 'h list) btree_map \<Rightarrow> node_id \<Rightarrow> 'h list" where
  "handles_at m n = (case map_of m n of None \<Rightarrow> [] | Some hs \<Rightarrow> hs)"

text \<open>The channels of the edges that leave, or enter, port \<open>p\<close> of node \<open>n\<close>, in the order of the edges.\<close>

definition edge_channels ::
  "(edge_definition \<Rightarrow> edge_endpoint) \<Rightarrow> edge_definition list \<Rightarrow> nat list \<Rightarrow> node_id \<Rightarrow> port_id \<Rightarrow> nat list" where
  "edge_channels end es ids n p =
     map snd (filter (\<lambda>(e, i). endpoint_node_id (end e) = n \<and> endpoint_port_id (end e) = p) (zip es ids))"

definition edge_size :: "edge_definition \<Rightarrow> nat" where
  "edge_size e = resolve_capacity (edge_capacity e) DEFAULT_EDGE_CAPACITY"

definition wired ::
  "(nat \<Rightarrow> 'n chan_view) \<Rightarrow> nat set \<Rightarrow> edge_definition list \<Rightarrow> nat list \<Rightarrow> port_wiring \<Rightarrow> (nat \<Rightarrow> 'n chan_view) \<Rightarrow> bool"
  where
  "wired v used es ids wiring v' \<longleftrightarrow>
     length ids = length es \<and> distinct ids \<and> set ids \<inter> used = {} \<and>
     (\<forall>i. v' i = (case map_of (zip ids es) i of None \<Rightarrow> v i | Some e \<Rightarrow> empty_view (edge_size e))) \<and>
     (\<forall>n p. out_links (handles_at (snd wiring) n) p = edge_channels edge_source es ids n p \<and>
            in_links (handles_at (fst wiring) n) p = edge_channels edge_target es ids n p)"

lemma handles_at_push [simp]:
  "handles_at (bt_push k x m) n = (if n = k then handles_at m n @ [x] else handles_at m n)"
  by (auto simp: handles_at_def bt_push_def)

lemma links_snoc [simp]:
  "out_links (hs @ [output_connected q i]) p = out_links hs p @ (if q = p then [i] else [])"
  "in_links (gs @ [input_connected q i]) p = in_links gs p @ (if q = p then [i] else [])"
  by (simp_all add: out_links_def in_links_def output_connected_def input_connected_def)

lemma edge_channels_snoc:
  "length ids = length es \<Longrightarrow>
   edge_channels end (es @ [e]) (ids @ [i]) n p =
     edge_channels end es ids n p @
       (if endpoint_node_id (end e) = n \<and> endpoint_port_id (end e) = p then [i] else [])"
  by (simp add: edge_channels_def)

lemma edge_size_pos: "capacity_ok (edge_capacity e) \<Longrightarrow> 0 < edge_size e"
  by (cases "edge_capacity e") (simp_all add: edge_size_def DEFAULT_EDGE_CAPACITY_def)

context channel_factory
begin

lemma wire_edge_step:
  assumes "wired v used es ids wiring (view c)" "live c = set ids \<union> used" "capacity_ok (edge_capacity e)"
    and "wire_edge ops e (wiring, c) = (wiring', c')"
  shows "\<exists>i. wired v used (es @ [e]) (ids @ [i]) wiring' (view c') \<and> live c' = insert i (live c)"
proof -
  let ?i = "fst (ch_new ops (edge_size e) c)"
  have pos: "0 < edge_size e" by (rule edge_size_pos [OF assms(3)])
  have fresh: "?i \<notin> set ids \<union> used" using new_fresh [OF pos] assms(2) by metis
  have out: "c' = snd (ch_new ops (edge_size e) c)"
    "wiring' = (bt_push (edge_target_node e) (input_connected (endpoint_port_id (edge_target e)) ?i) (fst wiring),
                bt_push (edge_source_node e) (output_connected (endpoint_port_id (edge_source e)) ?i) (snd wiring))"
    using assms(4) by (auto simp: wire_edge_def bounded_edge_channel_def edge_size_def [symmetric] Let_def
        split: prod.splits)
  have len: "length ids = length es" using assms(1) by (simp add: wired_def)
  have "view c' j = (case map_of (zip (ids @ [?i]) (es @ [e])) j of None \<Rightarrow> v j | Some e \<Rightarrow> empty_view (edge_size e))" for j
    using assms(1) fresh len out(1) new_view [OF pos, of c]
    by (auto simp: wired_def map_add_def split: option.splits dest!: map_of_SomeD set_zip_leftD)
  moreover have "live c' = insert ?i (live c)" using out(1) new_live [OF pos] by simp
  ultimately show ?thesis
    using assms(1) fresh len out(2)
    by (intro exI [of _ ?i]) (auto simp: wired_def edge_channels_snoc)
qed

lemma wire_edges:
  assumes "list_all (\<lambda>e. capacity_ok (edge_capacity e)) es"
    and "fold (wire_edge ops) es (([], []), c) = (wiring, c')"
  shows "\<exists>ids. wired (view c) (live c) es ids wiring (view c') \<and> live c' = set ids \<union> live c"
  using assms
proof (induction es arbitrary: wiring c' rule: rev_induct)
  case Nil
  then show ?case
    by (intro exI [of _ "[]"])
      (auto simp: wired_def edge_channels_def handles_at_def out_links_def in_links_def)
next
  case (snoc e es)
  obtain wr cc where mid: "fold (wire_edge ops) es (([], []), c) = (wr, cc)" by (metis surj_pair)
  from snoc.IH [OF _ this] snoc.prems(1) obtain ids where
    ids: "wired (view c) (live c) es ids wr (view cc)" "live cc = set ids \<union> live c" by auto
  have "wire_edge ops e (wr, cc) = (wiring, c')" using snoc.prems(2) mid by simp
  from wire_edge_step [OF ids _ this] snoc.prems(1) obtain i where
    "wired (view c) (live c) (es @ [e]) (ids @ [i]) wiring (view c')" "live c' = insert i (live cc)" by auto
  then show ?case using ids(2) by (intro exI [of _ "ids @ [i]"]) auto
qed

end

interpretation fifo_factory: channel_factory fifo_ops fifo_chan "\<lambda>c. {..<fifo_next c}"
  by unfold_locales (auto simp: fifo_ops_def)


section \<open>Prepared node runs\<close>

definition run_prepared ::
  "('n, 'c, 's) registry \<Rightarrow> workflow_definition \<Rightarrow> execution_metadata \<Rightarrow> cancellation_handle \<Rightarrow> port_wiring
   \<Rightarrow> node_definition \<Rightarrow> ('n, 'c, 's) node_run \<Rightarrow> bool" where
  "run_prepared reg flow x h wiring n r \<longleftrightarrow>
     run_node_id r = node_def_id n \<and> reg (node_def_id n) = Ok (run_executor r) \<and>
     context_workflow (run_context r) = workflow_def_id flow \<and> context_node (run_context r) = node_def_id n \<and>
     context_execution (run_context r) = x \<and> context_token (run_context r) = handle_token h \<and>
     find_input (run_inputs r) =
       find_input (ports_in_from_handles (input_ports n) (handles_at (fst wiring) (node_def_id n)) :: ('n, 's) ports_in) \<and>
     find_output (run_outputs r) =
       find_output (ports_out_from_handles (output_ports n) (handles_at (snd wiring) (node_def_id n)) :: ('n, 's) ports_out)"

lemma attach_validator_ports:
  "attach_validator flow n x oc outs = Ok outs' \<Longrightarrow> find_output outs' = find_output outs"
  by (auto simp: attach_validator_def with_output_validator_def find_output_def fun_eq_iff
      split: option.splits)

lemma run_prepared_removed:
  assumes "node_def_id m \<noteq> node_def_id n"
  shows "run_prepared reg flow x h (bt_remove (node_def_id m) ins, bt_remove (node_def_id m) outs) n r =
    run_prepared reg flow x h (ins, outs) n r"
  using assms by (simp add: run_prepared_def handles_at_def)

lemma prepare_runs_spec:
  fixes reg :: "('n, 'c, 's) registry"
  shows "prepare_runs reg flow x h oc ns wiring st = (Ok runs, st') \<Longrightarrow> distinct (map node_def_id ns) \<Longrightarrow>
   list_all2 (run_prepared reg flow x h wiring) ns runs"
proof (induction ns arbitrary: wiring st runs st')
  case (Cons n ns)
  obtain ins outs where wiring: "wiring = (ins, outs)" by force
  let ?ctx = "new_node_context (workflow_def_id flow) (node_def_id n) x st"
  let ?out = "ports_out_from_handles (output_ports n) (handles_at outs (node_def_id n)) :: ('n, 's) ports_out"
  let ?in = "ports_in_from_handles (input_ports n) (handles_at ins (node_def_id n)) :: ('n, 's) ports_in"
  obtain ex where ex: "reg (node_def_id n) = Ok ex"
    using Cons.prems(1) wiring by (cases "reg (node_def_id n)") auto
  obtain out' where out: "attach_validator flow n x oc ?out = Ok out'"
    using Cons.prems(1) wiring ex
    by (cases "attach_validator flow n x oc ?out") (auto simp: Let_def handles_at_def split: prod.splits)
  obtain rest st2 where rest: "prepare_runs reg flow x h oc ns
      (bt_remove (node_def_id n) ins, bt_remove (node_def_id n) outs) (snd ?ctx) = (Ok rest, st2)"
    and runs: "runs = \<lparr>run_node_id = node_def_id n, run_executor = ex,
        run_context = with_cancellation_token (handle_token h) (fst ?ctx),
        run_inputs = ?in, run_outputs = out'\<rparr> # rest"
    using Cons.prems(1) wiring ex out
    by (auto simp: Let_def handles_at_def split: prod.splits)
  have "list_all2 (run_prepared reg flow x h (bt_remove (node_def_id n) ins, bt_remove (node_def_id n) outs)) ns rest"
    using Cons.IH [OF rest] Cons.prems(2) by simp
  then have "list_all2 (run_prepared reg flow x h (ins, outs)) ns rest"
    by (rule list.rel_mono_strong) (use Cons.prems(2) run_prepared_removed in \<open>force\<close>)
  moreover have "run_prepared reg flow x h (ins, outs) n (hd runs)"
    using ex attach_validator_ports [OF out] runs
    by (simp add: run_prepared_def new_node_context_def with_cancellation_token_def split: prod.split)
  ultimately show ?case using runs wiring by simp
qed simp
lemma prepare_runs_total:
  assumes "\<forall>n\<in>set ns. \<exists>ex. reg (node_def_id n) = Ok ex"
  shows "\<exists>runs st'. prepare_runs reg flow x h None ns wiring st = (Ok runs, st')"
  using assms
proof (induction ns arbitrary: wiring st)
  case (Cons n ns)
  obtain ins outs where wiring: "wiring = (ins, outs)" by force
  obtain ex where "reg (node_def_id n) = Ok ex" using Cons.prems by auto
  then show ?case
    using Cons.IH [of "(bt_remove (node_def_id n) ins, bt_remove (node_def_id n) outs)"
        "snd (new_node_context (workflow_def_id flow) (node_def_id n) x st)"] Cons.prems
    by (auto simp: wiring attach_validator_def split: prod.split)
qed simp

lemma prepare_runs_single:
  "\<exists>runs st'. prepare_runs (single_registry ex) flow x h None ns wiring st = (Ok runs, st')"
  by (rule prepare_runs_total) (simp add: single_registry_def)

lemma run_prepared_executors:
  assumes "list_all2 (run_prepared reg flow x h wiring) ns runs"
  shows "map run_node_id runs = map node_def_id ns \<and> list_all (\<lambda>r. reg (run_node_id r) = Ok (run_executor r)) runs"
  using assms
  by (induction rule: list_all2_induct) (auto simp: run_prepared_def)

section \<open>Whole runs\<close>

text \<open>
  What the runtime promises a run without a watchdog: every node future it was given is resolved once,
  in some order.
\<close>

fun ended_node :: "('c, 's) observation \<Rightarrow> node_id option" where
  "ended_node (NodeEnded step i r) = Some i"
| "ended_node (DeadlineFired step) = None"
| "ended_node (WatchdogNotStarted step m) = None"

definition fair_schedule :: "('n, 'c, 's) scheduler \<Rightarrow> bool" where
  "fair_schedule sch \<longleftrightarrow>
     (\<forall>hook sink runs w. mset (map ended_node (sch hook sink runs w)) = mset (map (Some \<circ> run_node_id) runs) \<and>
        Panic \<notin> set (results (sch hook sink runs w)))"

lemma all_ended_results:
  "None \<notin> set (map ended_node obs) \<Longrightarrow> length (results obs) = length obs"
proof (induction obs)
  case (Cons ob obs)
  then show ?case by (cases ob) auto
qed simp

lemma fair_results:
  assumes "fair_schedule sch"
  shows "length (results (sch hook sink runs w)) = length runs"
proof -
  have m: "mset (map ended_node (sch hook sink runs w)) = mset (map (Some \<circ> run_node_id) runs)"
    using assms by (simp add: fair_schedule_def)
  then have "None \<notin> set (map ended_node (sch hook sink runs w))"
    by (metis (no_types, lifting) comp_apply imageE list.set_map option.simps(3) set_mset_mset)
  moreover have "length (sch hook sink runs w) = length runs"
    using m by (metis length_map size_mset)
  ultimately show ?thesis using all_ended_results by metis
qed

definition sink_accepts :: "('n, 's) sink \<Rightarrow> bool" where
  "sink_accepts sink \<longleftrightarrow> (\<forall>r s. fst (sink r s) = Ok ())"

lemma noop_sink_accepts: "sink_accepts noop_sink"
  by (simp add: sink_accepts_def noop_sink_def)

lemma accepting_sink_reports:
  assumes "sink_accepts (cc_sink ctx)"
  shows "\<exists>w'. report_workflow_error ctx rec e w = (Ok (), w')"
proof -
  have "fst (cc_sink ctx (ErrorRecord rec) (sink_state w)) = Ok ()"
    using assms by (simp add: sink_accepts_def)
  then show ?thesis by (simp add: report_workflow_error_def Let_def case_prod_unfold)
qed

lemma accepting_sink_collects:
  assumes "sink_accepts (cc_sink ctx)" "k \<le> length (results obs)" "Panic \<notin> set (results obs)"
  shows "\<exists>s w'. collect_until_complete ctx k obs s0 w = (Some (Ok s), w')"
  using assms
proof (induction ctx k obs s0 w rule: collect_until_complete.induct)
  case (3 ctx n step i r obs s w)
  have "\<exists>s1 w1. record_node_run_result ctx r s (step w) = (Ok s1, w1)"
  proof (cases r)
    case (Err e)
    obtain w' where "record_first_workflow_error ctx e (step w) = (Ok (), w')"
      unfolding record_first_workflow_error_def using accepting_sink_reports [OF "3.prems"(1)] by blast
    then show ?thesis by (simp add: record_node_run_result_def Err)
  qed (use 3 in \<open>auto simp: record_node_run_result_def\<close>)
  then obtain s1 w1 where "record_node_run_result ctx r s (step w) = (Ok s1, w1)" by blast
  then show ?case using 3 by auto
qed auto

lemma plain_collection:
  assumes "sink_accepts (cc_sink ctx)" "watchdog_policy (cc_policy ctx) = Disabled"
    and "length (results obs) = n" "Panic \<notin> set (results obs)" "n \<le> USIZE_MAX"
  shows "\<exists>w'. collect_workflow_summary fmt ctx n obs n w = (Some (Ok (summary_for n (results obs) [] None)), w')"
proof -
  obtain s w' where s: "collect_until_complete ctx n obs (summary_for n [] [] None) w = (Some (Ok s), w')"
    using accepting_sink_collects [OF assms(1) _ assms(4)] assms(3) by blast
  from collect_until_complete_for [OF this] assms have "s = summary_for n (results obs) [] None" by auto
  with s assms(2) show ?thesis by (simp add: collect_workflow_summary_def new_summary_for)
qed

text \<open>A prepared run that mirrors node \<open>n\<close> of the graph, when the edges have the channels \<open>ids\<close>.\<close>

definition run_mirrors ::
  "('n, 'c, 's) registry \<Rightarrow> workflow_definition \<Rightarrow> cancellation_handle \<Rightarrow> nat list \<Rightarrow> node_definition
   \<Rightarrow> ('n, 'c, 's) node_run \<Rightarrow> bool" where
  "run_mirrors reg flow h ids n r \<longleftrightarrow>
     run_node_id r = node_def_id n \<and> reg (node_def_id n) = Ok (run_executor r) \<and>
     context_node (run_context r) = node_def_id n \<and> context_token (run_context r) = handle_token h \<and>
     (\<forall>p. find_output (run_outputs r) p =
        (if p \<in> set (output_ports n)
         then Some \<lparr>out_port_id = p, senders = edge_channels edge_source (workflow_edges flow) ids (node_def_id n) p\<rparr>
         else None)) \<and>
     (\<forall>p. find_input (run_inputs r) p =
        (if p \<in> set (input_ports n)
         then Some \<lparr>in_port_id = p, receivers = edge_channels edge_target (workflow_edges flow) ids (node_def_id n) p\<rparr>
         else None))"

section \<open>Properties\<close>

text \<open>
  which workflows a run starts.  A run is admitted exactly when node ids are distinct, every edge
  joins a declared output to a declared input, and, unless the policy allows feedback loops, the graph
  has no directed cycle and no parallel edges.  A run that is not admitted ends with an execution
  error before any channel, token or record is made.
\<close>

theorem run_admission:
  "(validate_workflow_run_policy flow p = Ok () \<longleftrightarrow>
      structurally_valid (workflow_nodes flow) (workflow_edges flow) \<and>
      (case cycle_policy p of
         AllowFeedbackLoops f \<Rightarrow> True
       | Reject \<Rightarrow> acyclic (edge_relation (workflow_edges flow)) \<and> no_parallel_edges (workflow_edges flow))) \<and>
   (validate_workflow_run_policy flow p = Ok () \<or>
      (\<exists>m. run_workflow_with_registry_and_observers_summary_inner pf flow x reg hook sink p oc w =
         (Some (Err (Execution m)), w)))"
proof -
  have "\<exists>m. e = Execution m" if "validate_workflow_run_policy flow p = Err e" for e
    using that
    by (auto simp: validate_workflow_run_policy_def validate_cycle_run_policy_def
        split: result.splits workflow_validation_error.splits cycle_run_policy.splits
          feedback_loop_startup.splits feedback_loop_termination.splits)
  then show ?thesis
    using validate_run_policy_cases [of flow p]
    by (cases "validate_workflow_run_policy flow p"; cases "cycle_policy p")
      (auto simp: run_workflow_with_registry_and_observers_summary_inner_def)
qed

text \<open>
  C5: the wiring of a run mirrors the graph.  Each edge gets a channel of its own, fresh, empty and of
  the edge's capacity, and no other channel changes.  There is one prepared run per node, in order,
  with the node's executor, its own context and the cancellation token of the run; its declared
  output ports send on exactly the channels of the edges that leave them and its input ports receive
  from exactly the channels of the edges that enter them, in the order of the edges.
\<close>

theorem run_wiring_mirrors_graph:
  assumes "channel_factory ops view live"
    and "list_all (\<lambda>e. capacity_ok (edge_capacity e)) (workflow_edges flow)"
    and "distinct (map node_def_id (workflow_nodes flow))"
    and "build_port_wiring ops flow c = (wiring, c')"
    and "prepare_runs reg flow x h oc (workflow_nodes flow) wiring st = (Ok runs, st')"
  shows "\<exists>ids. length ids = length (workflow_edges flow) \<and> distinct ids \<and> set ids \<inter> live c = {} \<and>
    (\<forall>i. view c' i = (case map_of (zip ids (workflow_edges flow)) i of
        None \<Rightarrow> view c i | Some e \<Rightarrow> empty_view (edge_size e))) \<and>
    list_all2 (run_mirrors reg flow h ids) (workflow_nodes flow) runs"
proof -
  from channel_factory.wire_edges [OF assms(1,2) assms(4) [unfolded build_port_wiring_def]] obtain ids where
    ids: "wired (view c) (live c) (workflow_edges flow) ids wiring (view c')" by blast
  from prepare_runs_spec [OF assms(5,3)] have
    "list_all2 (run_mirrors reg flow h ids) (workflow_nodes flow) runs"
    by (rule list.rel_mono_strong)
      (use ids in \<open>simp add: run_prepared_def run_mirrors_def wired_def find_output_from_handles
          find_input_from_handles\<close>)
  with ids show ?thesis
    by (intro exI [of _ ids]) (simp add: wired_def)
qed

definition empty_fifo :: "unit fifo" where
  "empty_fifo = \<lparr>fifo_next = 0, fifo_chan = (\<lambda>_. empty_view 1)\<rparr>"

definition idle_executor :: "(unit, unit fifo, unit) executor" where
  "idle_executor ctx ins outs w = (Ok (), w)"

theorem run_wiring_mirrors_graph_witness:
  "\<exists>wiring c' runs st' ids.
     build_port_wiring fifo_ops sample_flow empty_fifo = (wiring, c') \<and>
     prepare_runs (single_registry idle_executor) sample_flow (first_attempt (ExecutionId ''run''))
       (CancellationHandle (CancellationToken 0)) None (workflow_nodes sample_flow) wiring [None] = (Ok runs, st') \<and>
     length ids = 1 \<and>
     list_all2 (run_mirrors (single_registry idle_executor) sample_flow (CancellationHandle (CancellationToken 0)) ids)
       (workflow_nodes sample_flow) runs"
proof -
  obtain wiring c' where wiring: "build_port_wiring fifo_ops sample_flow empty_fifo = (wiring, c')"
    by (metis surj_pair)
  obtain runs st' where runs: "prepare_runs (single_registry idle_executor) sample_flow
      (first_attempt (ExecutionId ''run'')) (CancellationHandle (CancellationToken 0)) None
      (workflow_nodes sample_flow) wiring [None] = (Ok runs, st')"
    using prepare_runs_single by blast
  have "list_all (\<lambda>e. capacity_ok (edge_capacity e)) (workflow_edges sample_flow)"
    "distinct (map node_def_id (workflow_nodes sample_flow))" "length (workflow_edges sample_flow) = 1"
    by (simp_all add: sample_flow_def sample_defs)
  with run_wiring_mirrors_graph [OF fifo_factory.channel_factory_axioms _ _ wiring runs] wiring runs
  show ?thesis by (metis (no_types, lifting))
qed

text \<open>
  A whole run of a valid acyclic workflow: one run is prepared for every node, and once the runtime has
  resolved each of them the summary is that of their results.
\<close>

lemma acyclic_run_summary:
  fixes pf :: "('n, 'c, 's) platform"
  assumes valid: "structurally_valid (workflow_nodes flow) (workflow_edges flow)"
      "acyclic (edge_relation (workflow_edges flow))" "no_parallel_edges (workflow_edges flow)"
    and "fair_schedule (pf_schedule pf)" and "length (workflow_nodes flow) \<le> USIZE_MAX" and "sink_accepts sink"
    and total: "\<forall>n\<in>set (workflow_nodes flow). \<exists>ex. reg (node_def_id n) = Ok ex"
  shows "\<exists>runs w1 w'. map run_node_id runs = map node_def_id (workflow_nodes flow) \<and>
    list_all (\<lambda>r. reg (run_node_id r) = Ok (run_executor r)) runs \<and>
    run_workflow_with_registry_and_observers_summary_inner pf flow x reg hook sink acyclic_policy None w =
      (Some (Ok (summary_for (length (workflow_nodes flow)) (results (pf_schedule pf hook sink runs w1)) [] None)), w')"
proof -
  let ?n = "length (workflow_nodes flow)"
  have admitted: "validate_workflow_run_policy flow acyclic_policy = Ok ()"
    using validate_run_policy_cases [of flow acyclic_policy] valid by simp
  obtain wiring c where wiring: "build_port_wiring (pf_channels pf) flow (chans w) = (wiring, c)"
    by (metis surj_pair)
  obtain h st where h: "new_handle (signals w) = (h, st)" by force
  obtain runs st1 where runs: "prepare_runs reg flow x h None (workflow_nodes flow) wiring st = (Ok runs, st1)"
    using prepare_runs_total [OF total] by blast
  let ?w = "w\<lparr>chans := c, signals := st1\<rparr>"
  let ?obs = "pf_schedule pf hook sink runs ?w"
  let ?ctx = "\<lparr>cc_cancellation = h, cc_workflow = flow, cc_execution = x, cc_sink = sink,
    cc_policy = acyclic_policy\<rparr> :: ('n, 's) collection_context"
  have "distinct (map node_def_id (workflow_nodes flow))" using valid(1) by (simp add: structurally_valid_def)
  from prepare_runs_spec [OF runs this] have shape: "map run_node_id runs = map node_def_id (workflow_nodes flow)"
    "list_all (\<lambda>r. reg (run_node_id r) = Ok (run_executor r)) runs"
    by (auto dest: run_prepared_executors)
  then have len: "length runs = ?n" by (metis length_map)
  obtain w' where "collect_workflow_summary (pf_duration pf) ?ctx ?n ?obs ?n ?w =
      (Some (Ok (summary_for ?n (results ?obs) [] None)), w')"
    using plain_collection [of ?ctx ?obs ?n "pf_duration pf" ?w] assms(4,5,6) len fair_results [OF assms(4)]
    by (auto simp: acyclic_policy_def fair_schedule_def)
  then have "run_workflow_with_registry_and_observers_summary_inner pf flow x reg hook sink acyclic_policy None w =
      (Some (Ok (summary_for ?n (results ?obs) [] None)), w')"
    using admitted wiring h runs len
    by (simp add: run_workflow_with_registry_and_observers_summary_inner_def Let_def)
  then show ?thesis using shape by blast
qed

text \<open>
  C7: the outcome of \<open>run_workflow\<close>.  For a workflow whose graph was built by \<open>WorkflowGraph::new\<close>, one
  run of the executor is scheduled for every node, in order, and once the runtime has resolved each of
  them the call returns: \<open>Ok\<close> when every node succeeded, and otherwise the error of the node that
  failed first in the order in which the nodes ended.
\<close>

theorem run_workflow_outcome:
  fixes pf :: "('n, 'c, 's) platform"
  assumes "new_graph nodes edges = Ok (workflow_graph flow)"
    and "fair_schedule (pf_schedule pf)" and "length nodes \<le> USIZE_MAX"
  shows "\<exists>runs w1. map run_node_id runs = map node_def_id nodes \<and> list_all (\<lambda>r. run_executor r = ex) runs \<and>
    fst (run_workflow pf flow x ex w) =
      Some (case first_of (errors (results (pf_schedule pf noop_hook noop_sink runs w1))) of
              None \<Rightarrow> Ok () | Some e \<Rightarrow> Err e)"
proof -
  have graph: "workflow_nodes flow = nodes" "workflow_edges flow = edges" and
    ok: "structurally_valid nodes edges" "acyclic (edge_relation edges)" "no_parallel_edges edges"
    using new_graph_shape [OF assms(1)] by auto
  obtain runs w1 w' where runs: "map run_node_id runs = map node_def_id nodes"
    "list_all (\<lambda>r. single_registry ex (run_node_id r) = Ok (run_executor r)) runs"
    "run_workflow_with_registry_and_observers_summary_inner pf flow x (single_registry ex) noop_hook noop_sink
       acyclic_policy None w =
      (Some (Ok (summary_for (length nodes) (results (pf_schedule pf noop_hook noop_sink runs w1)) [] None)), w')"
    using acyclic_run_summary [of flow pf noop_sink "single_registry ex" x noop_hook w] graph ok assms(2,3) noop_sink_accepts
    by (auto simp: single_registry_def)
  then have "fst (run_workflow pf flow x ex w) =
      Some (case first_of (errors (results (pf_schedule pf noop_hook noop_sink runs w1))) of None \<Rightarrow> Ok () | Some e \<Rightarrow> Err e)"
    by (simp add: run_workflow_def run_workflow_with_registry_def run_workflow_with_registry_summary_def
        run_workflow_with_registry_and_observers_summary_def then_into_result_def into_result_def summary_for_def)
  moreover have "list_all (\<lambda>r. run_executor r = ex) runs"
    using runs(2) by (auto simp: list_all_iff single_registry_def)
  ultimately show ?thesis using runs(1) by blast
qed

text \<open>A platform for the example: the nodes end in order, the first one with an error.\<close>

definition sample_schedule :: "(unit, unit fifo, unit) scheduler" where
  "sample_schedule hook sink runs w =
     map (\<lambda>r. NodeEnded id (run_node_id r)
        (if run_node_id r = NodeId ''a'' then Err (Execution ''boom'') else Ok ())) runs"

definition sample_platform :: "(unit, unit fifo, unit) platform" where
  "sample_platform = \<lparr>pf_channels = fifo_ops, pf_schedule = sample_schedule, pf_duration = (\<lambda>_. ''1s'')\<rparr>"

lemma sample_schedule_fair: "fair_schedule sample_schedule"
proof -
  have "Panic \<notin> set (results (sample_schedule hook sink runs w))" for hook sink runs w
    by (induction runs) (auto simp: sample_schedule_def)
  then show ?thesis by (simp add: fair_schedule_def sample_schedule_def comp_def)
qed

theorem run_workflow_outcome_witness:
  "new_graph [sample_node ''a'', sample_node ''b''] [sample_edge ''a'' ''b''] = Ok (workflow_graph sample_flow) \<and>
   fst (run_workflow sample_platform sample_flow (first_attempt (ExecutionId ''run'')) idle_executor
     \<lparr>chans = empty_fifo, sink_state = (), signals = []\<rparr>) = Some (Err (Execution ''boom''))"
proof -
  have g: "new_graph [sample_node ''a'', sample_node ''b''] [sample_edge ''a'' ''b''] = Ok (workflow_graph sample_flow)"
    by (simp add: sample_flow_def new_graph_def build_graph_eq graph_eval sample_defs Let_def)
  have fair: "fair_schedule (pf_schedule sample_platform)" and
    size: "length [sample_node ''a'', sample_node ''b''] \<le> USIZE_MAX"
    using sample_schedule_fair by (simp_all add: sample_platform_def USIZE_MAX_def)
  have ids: "map node_def_id [sample_node ''a'', sample_node ''b''] = [NodeId ''a'', NodeId ''b'']"
    by (simp add: sample_defs)
  obtain runs w1 where runs: "map run_node_id runs = [NodeId ''a'', NodeId ''b'']"
    "fst (run_workflow sample_platform sample_flow (first_attempt (ExecutionId ''run'')) idle_executor
      \<lparr>chans = empty_fifo, sink_state = (), signals = []\<rparr>) =
      Some (case first_of (errors (results (pf_schedule sample_platform noop_hook noop_sink runs w1))) of
              None \<Rightarrow> Ok () | Some e \<Rightarrow> Err e)"
    using run_workflow_outcome [OF g, of sample_platform idle_executor "first_attempt (ExecutionId ''run'')"
        "\<lparr>chans = empty_fifo, sink_state = (), signals = []\<rparr>"] fair size ids
    by metis
  then have "first_of (errors (results (pf_schedule sample_platform noop_hook noop_sink runs w1))) =
      Some (Execution ''boom'')"
    by (auto simp: sample_platform_def sample_schedule_def map_eq_Cons_conv)
  with g runs show ?thesis by simp
qed

end
