(* ===== verification/EngineContracts.thy ===== *)
theory EngineContracts
  imports EngineRunProps
begin

text \<open>
  Runs with output contracts: which contracts are accepted, what the tables built from them hold, and
  that no node can send a packet through a port without a contract or under a false identity.
\<close>

section \<open>The tables of output contracts\<close>

definition port_contract_of :: "node_contract \<Rightarrow> port_id \<Rightarrow> port_contract option" where
  "port_contract_of c p = List.find (\<lambda>q. contract_port_id q = p) (contract_ports c)"

text \<open>The contract of a node covers its outputs: each has an output contract, and no output contract is left over.\<close>

definition outputs_covered :: "node_definition \<Rightarrow> node_contract option \<Rightarrow> bool" where
  "outputs_covered n oc \<longleftrightarrow>
     (case oc of
        None \<Rightarrow> output_ports n = []
      | Some c \<Rightarrow>
          list_all (\<lambda>p. \<exists>pc. port_contract_of c p = Some pc \<and> contract_direction pc = Output) (output_ports n) \<and>
          list_all (\<lambda>pc. contract_direction pc = Output \<longrightarrow> contract_port_id pc \<in> set (output_ports n))
            (contract_ports c))"

definition contracted :: "node_definition \<Rightarrow> (port_id, schema_ref option) btree_map \<Rightarrow> bool" where
  "contracted n m \<longleftrightarrow> fst ` set m = set (output_ports n)"

lemma output_port_contract_Ok:
  "output_port_contract n c acc p = Ok acc' \<longleftrightarrow>
     (\<exists>pc. port_contract_of c p = Some pc \<and> contract_direction pc = Output \<and>
        acc' = bt_insert p (contract_schema pc) acc)"
  by (auto simp: output_port_contract_def port_contract_of_def)

lemma output_port_contracts_keys:
  "try_fold (output_port_contract n c) acc ps = Ok m \<Longrightarrow> fst ` set m = fst ` set acc \<union> set ps"
proof (induction ps arbitrary: acc)
  case (Cons p ps)
  then obtain s where "try_fold (output_port_contract n c) (bt_insert p s acc) ps = Ok m"
    by (auto simp: output_port_contract_Ok)
  from Cons.IH [OF this] show ?case by (simp only: set_keys_bt_insert) auto
qed simp

lemma output_port_contracts_Ok:
  "(\<exists>m. try_fold (output_port_contract n c) acc ps = Ok m) \<longleftrightarrow>
     list_all (\<lambda>p. \<exists>pc. port_contract_of c p = Some pc \<and> contract_direction pc = Output) ps"
  by (induction ps arbitrary: acc) (auto simp: output_port_contract_Ok)

lemma node_output_contracts_Ok:
  "(\<exists>acc'. node_output_contracts cm acc n = Ok acc') \<longleftrightarrow> outputs_covered n (map_of cm (node_def_id n))"
  using output_port_contracts_Ok [of n _ "[]" "output_ports n"]
  by (auto simp: node_output_contracts_def outputs_covered_def list_all_iff split: option.splits if_splits)

lemma node_output_contracts_insert:
  "node_output_contracts cm acc n = Ok acc' \<Longrightarrow> \<exists>m. contracted n m \<and> acc' = bt_insert (node_def_id n) m acc"
  using output_port_contracts_keys [of n _ "[]" "output_ports n"]
  by (fastforce simp: node_output_contracts_def contracted_def split: option.splits if_splits)

lemma node_tables_Ok:
  "(\<exists>m. try_fold (node_output_contracts cm) acc ns = Ok m) \<longleftrightarrow>
     list_all (\<lambda>n. outputs_covered n (map_of cm (node_def_id n))) ns"
proof (induction ns arbitrary: acc)
  case (Cons n ns)
  then show ?case using node_output_contracts_Ok [of cm acc n] by auto
qed simp

lemma node_tables_lookup:
  "try_fold (node_output_contracts cm) acc ns = Ok m \<Longrightarrow>
   map_of m i = (if i \<in> node_def_id ` set ns then map_of m i else map_of acc i) \<and>
   (n \<in> set ns \<longrightarrow> distinct (map node_def_id ns) \<longrightarrow> (\<exists>t. map_of m (node_def_id n) = Some t \<and> contracted n t))"
proof (induction ns arbitrary: acc i)
  case (Cons k ns)
  from Cons.prems obtain acc' where acc': "node_output_contracts cm acc k = Ok acc'"
    "try_fold (node_output_contracts cm) acc' ns = Ok m" by auto
  from node_output_contracts_insert [OF acc'(1)] obtain t where
    t: "contracted k t" "acc' = bt_insert (node_def_id k) t acc" by blast
  have keep: "map_of m i = (if i \<in> node_def_id ` set ns then map_of m i else map_of acc' i)" for i
    using Cons.IH [OF acc'(2), of i] by blast
  have "\<exists>t. map_of m (node_def_id n) = Some t \<and> contracted n t"
    if "n \<in> set (k # ns)" "distinct (map node_def_id (k # ns))"
  proof (cases "n = k")
    case True
    then show ?thesis using keep [of "node_def_id k"] that t by auto
  next
    case False
    then show ?thesis using Cons.IH [OF acc'(2), of i] that by auto
  qed
  moreover have "map_of m i = (if i \<in> node_def_id ` set (k # ns) then map_of m i else map_of acc i)"
    using keep [of i] t by auto
  ultimately show ?case by blast
qed simp

lemma from_node_contracts_table:
  assumes "from_node_contracts flow cs = Ok oc" "distinct (map node_def_id (workflow_nodes flow))"
    and "n \<in> set (workflow_nodes flow)"
  shows "\<exists>t. map_of oc (node_def_id n) = Some t \<and> contracted n t"
  using assms by (auto simp: from_node_contracts_def dest!: node_tables_lookup)

section \<open>The validator\<close>

text \<open>A packet that says truthfully where it comes from.\<close>

definition genuine :: "workflow_id \<Rightarrow> execution_metadata \<Rightarrow> node_id \<Rightarrow> port_id \<Rightarrow> 'n port_packet \<Rightarrow> bool" where
  "genuine flow x n p pkt \<longleftrightarrow>
     message_workflow (envelope_metadata pkt) = flow \<and> message_execution (envelope_metadata pkt) = x \<and>
     route_source (message_route (envelope_metadata pkt)) = Some \<lparr>message_node = n, message_port = p\<rparr>"

lemma validate_output_Ok:
  "validate_output v p pkt = Ok () \<longleftrightarrow>
     p \<in> fst ` set (cv_output_contracts v) \<and>
     genuine (cv_workflow_id v) (cv_execution v) (cv_node_id v) p pkt"
  by (auto simp: validate_output_def genuine_def Let_def map_of_eq_None_iff split: option.splits)

text \<open>
  The ways a node has of sending a packet through its ports: at once, waiting for room, or in two phases with a permit
  that was reserved, with or without waiting, at any earlier moment.
\<close>

definition let_through :: "('n, 'c) channel_ops \<Rightarrow> ('n, 's) ports_out \<Rightarrow> port_id \<Rightarrow> 'n port_packet \<Rightarrow> bool" where
  "let_through ops outs p pkt \<longleftrightarrow>
     (\<exists>w. fst (try_send ops outs p pkt w) = Ok ()) \<or>
     (\<exists>tok resumes w. fst (send ops outs p pkt tok resumes w) = Some (Ok ())) \<or>
     (\<exists>permit w w1 w2. try_reserve ops outs p w = (Ok permit, w1) \<and> fst (permit_send ops permit pkt w2) = Ok ()) \<or>
     (\<exists>permit tok resumes w w1 w2. reserve ops outs p tok resumes w = (Some (Ok permit), w1) \<and>
        fst (permit_send ops permit pkt w2) = Ok ())"

lemma output_try_reserve_permit:
  "output_try_reserve ops sink val ctx h w = (Ok permit, w1) \<Longrightarrow> permit_validator permit = val \<and> permit_port permit = out_port_id h"
  by (auto simp: output_try_reserve_def Let_def split: if_splits prod.splits sum.splits)

lemma output_reserve_permit:
  "output_reserve ops tok sink val ctx h resumes w = (Some (Ok permit), w1) \<Longrightarrow>
    permit_validator permit = val \<and> permit_port permit = out_port_id h"
proof (induction resumes arbitrary: w)
  case Nil
  then show ?case
    by (auto simp: output_reserve.simps [of _ _ _ _ _ _ "[]"] dest: output_try_reserve_permit
        split: if_splits prod.splits result.splits port_send_error.splits)
next
  case (Cons step rest)
  then show ?case
    by (auto simp: output_reserve.simps [of _ _ _ _ _ _ "step # rest"] dest: output_try_reserve_permit
        split: if_splits prod.splits result.splits port_send_error.splits)
qed

lemma try_reserve_permit:
  "try_reserve ops outs p w = (Ok permit, w1) \<Longrightarrow> permit_validator permit = out_validator outs \<and> permit_port permit = p"
  by (auto simp: try_reserve_def dest: output_try_reserve_permit find_output_id split: option.splits)

lemma reserve_permit:
  "reserve ops outs p tok resumes w = (Some (Ok permit), w1) \<Longrightarrow>
    permit_validator permit = out_validator outs \<and> permit_port permit = p"
  by (auto simp: reserve_def dest: output_reserve_permit find_output_id split: option.splits)

lemma permit_send_accepted:
  assumes "permit_validator permit = out_validator outs \<and> permit_port permit = p" "fst (permit_send ops permit x w) = Ok ()"
  shows "packet_accepted outs p x"
  using assms by (auto simp: permit_send_def packet_accepted_def split: option.splits result.splits)

lemma try_send_accepted:
  assumes "fst (try_send ops outs p x w) = Ok ()"
  shows "packet_accepted outs p x"
proof -
  obtain permit w1 where r: "try_reserve ops outs p w = (Ok permit, w1)" "fst (permit_send ops permit x w1) = Ok ()"
    using assms by (auto simp: try_send_def split: prod.splits result.splits)
  show ?thesis by (rule permit_send_accepted [OF try_reserve_permit [OF r(1)] r(2)])
qed

lemma send_accepted:
  assumes "fst (send ops outs p x tok resumes w) = Some (Ok ())"
  shows "packet_accepted outs p x"
proof -
  obtain permit w1 where r: "reserve ops outs p tok resumes w = (Some (Ok permit), w1)" "fst (permit_send ops permit x w1) = Ok ()"
    using assms by (auto simp: send_def Let_def split: prod.splits result.splits option.splits)
  show ?thesis by (rule permit_send_accepted [OF reserve_permit [OF r(1)] r(2)])
qed

lemma let_through_accepted:
  assumes "let_through ops outs p x"
  shows "packet_accepted outs p x"
  using assms unfolding let_through_def
proof (elim disjE exE conjE)
  fix permit w w1 w2
  assume "try_reserve ops outs p w = (Ok permit, w1)" "fst (permit_send ops permit x w2) = Ok ()"
  then show ?thesis using permit_send_accepted try_reserve_permit by blast
next
  fix permit tok resumes w w1 w2
  assume "reserve ops outs p tok resumes w = (Some (Ok permit), w1)" "fst (permit_send ops permit x w2) = Ok ()"
  then show ?thesis using permit_send_accepted reserve_permit by blast
qed (auto intro: try_send_accepted send_accepted)

lemma prepare_runs_validators:
  assumes "prepare_runs reg flow x h (Some oc) ns wiring st = (Ok runs, st')"
  shows "list_all2 (\<lambda>n r. run_node_id r = node_def_id n \<and>
    (\<exists>t. map_of oc (node_def_id n) = Some t \<and> out_validator (run_outputs r) =
      Some (validate_output \<lparr>cv_workflow_id = workflow_def_id flow, cv_node_id = node_def_id n,
        cv_execution = x, cv_output_contracts = t\<rparr>))) ns runs"
  using assms
proof (induction ns arbitrary: wiring st runs st')
  case (Cons n ns)
  obtain ins outs where wiring: "wiring = (ins, outs)" by force
  show ?case
    using Cons.prems Cons.IH
    by (fastforce simp: wiring attach_validator_def Let_def with_output_validator_def
        split: result.splits prod.splits option.splits)
qed simp

section \<open>Properties\<close>

text \<open>
  which output contracts a run accepts.  The table is built, without a panic, exactly when every node
  with outputs has a contract, the last one given for it, that declares each of its output ports as an
  output and no others, a node without a contract has no outputs, and every contract names a node of
  the workflow.  The table then has an entry for exactly the output ports of each node.
\<close>

theorem output_contracts_accepted_iff:
  "from_node_contracts flow cs \<noteq> Panic \<and>
   ((\<exists>oc. from_node_contracts flow cs = Ok oc) \<longleftrightarrow>
      list_all (\<lambda>n. outputs_covered n (map_of (contract_map_of cs) (node_def_id n))) (workflow_nodes flow) \<and>
      contract_id ` set cs \<subseteq> node_def_id ` set (workflow_nodes flow))"
proof -
  have known: "list_all (\<lambda>n. node_def_id n \<noteq> i) ns \<longleftrightarrow> i \<notin> node_def_id ` set ns" for i ns
    by (auto simp: list_all_iff)
  have port: "output_port_contract n c acc p \<noteq> Panic" for n c acc p
    by (auto simp: output_port_contract_def and_then_eq_Panic)
  have node: "node_output_contracts cm acc n \<noteq> Panic" for cm acc n
    using port by (auto simp: node_output_contracts_def and_then_eq_Panic
        dest!: try_fold_no_panic [THEN notE, rotated] try_each_no_panic [THEN notE, rotated]
        split: option.splits if_splits)
  have "from_node_contracts flow cs \<noteq> Panic"
    using node by (auto simp: from_node_contracts_def and_then_eq_Panic
        dest!: try_fold_no_panic [THEN notE, rotated] try_each_no_panic [THEN notE, rotated] split: if_splits)
  then show ?thesis
    using node_tables_Ok [of "contract_map_of cs" "[]" "workflow_nodes flow"]
    by (auto simp: from_node_contracts_def known)
qed

text \<open>
  C9: under output contracts no node forges packets.  In a run prepared with the contracts of a workflow,
  a packet that the output ports of a node let through, in any of the ways a node has of sending, at any
  moment and also once the runtime has attached its observers to the ports, left through a declared output
  port of that node and carries the workflow, the execution and the source endpoint of that node and port.
\<close>

theorem contract_runs_send_genuine_packets:
  assumes "from_node_contracts flow cs = Ok oc"
    and "distinct (map node_def_id (workflow_nodes flow))"
    and "prepare_runs reg flow x h (Some oc) (workflow_nodes flow) wiring st = (Ok runs, st')"
    and "r \<in> set runs"
    and "outs \<in> {run_outputs r, out_with_node_context ctx (out_with_metadata_sink sink (run_outputs r))}"
    and "let_through ops outs p pkt"
  shows "\<exists>n\<in>set (workflow_nodes flow). run_node_id r = node_def_id n \<and> p \<in> set (output_ports n) \<and>
    genuine (workflow_def_id flow) x (run_node_id r) p pkt"
proof -
  from prepare_runs_validators [OF assms(3)] assms(4) obtain n t where
    n: "n \<in> set (workflow_nodes flow)" "run_node_id r = node_def_id n" "map_of oc (node_def_id n) = Some t" and
    v: "out_validator (run_outputs r) = Some (validate_output \<lparr>cv_workflow_id = workflow_def_id flow,
      cv_node_id = node_def_id n, cv_execution = x, cv_output_contracts = t\<rparr>)"
    by (auto simp: list_all2_conv_all_nth in_set_conv_nth) metis
  have "out_validator outs = out_validator (run_outputs r)"
    using assms(5) by (auto simp: out_with_node_context_def out_with_metadata_sink_def)
  moreover have "contracted n t" using from_node_contracts_table [OF assms(1,2) n(1)] n(3) by simp
  ultimately show ?thesis
    using let_through_accepted [OF assms(6)] v n
    by (auto simp: packet_accepted_def contracted_def validate_output_Ok intro!: bexI [of _ n])
qed

text \<open>One node with an output, its contract, and a packet of that node.\<close>

definition solo_flow :: workflow_definition where
  "solo_flow =
     \<lparr>workflow_def_id = WorkflowId ''flow'', workflow_graph = \<lparr>graph_nodes = [sample_node ''a''], graph_edges = []\<rparr>\<rparr>"

definition solo_contract :: node_contract where
  "solo_contract =
     \<lparr>contract_id = NodeId ''a'',
      contract_ports = [\<lparr>contract_port_id = PortId ''out'', contract_direction = Output, contract_schema = None\<rparr>],
      contract_execution_mode = Native, contract_determinism = Deterministic, contract_retry = RetryNever\<rparr>"

definition solo_packet :: "unit port_packet" where
  "solo_packet =
     \<lparr>envelope_metadata =
        \<lparr>message_id = MessageId ''m'', message_workflow = WorkflowId ''flow'',
         message_execution = first_attempt (ExecutionId ''run''),
         message_route = \<lparr>route_source = Some \<lparr>message_node = NodeId ''a'', message_port = PortId ''out''\<rparr>,
                          route_target = \<lparr>message_node = NodeId ''b'', message_port = PortId ''in''\<rparr>\<rparr>\<rparr>,
      envelope_payload = Bytes ''x''\<rparr>"

theorem contract_runs_send_genuine_packets_witness:
  "\<exists>oc r runs st'. from_node_contracts solo_flow [solo_contract] = Ok oc \<and>
     prepare_runs (single_registry idle_executor) solo_flow (first_attempt (ExecutionId ''run''))
       (CancellationHandle (CancellationToken 0)) (Some oc) (workflow_nodes solo_flow) ([], []) [None] = (Ok runs, st') \<and>
     r \<in> set runs \<and>
     fst (send fifo_ops (run_outputs r) (PortId ''out'') solo_packet (CancellationToken 0) [] sample_world) = Some (Ok ()) \<and>
     genuine (WorkflowId ''flow'') (first_attempt (ExecutionId ''run'')) (run_node_id r) (PortId ''out'') solo_packet"
proof -
  let ?x = "first_attempt (ExecutionId ''run'')"
  obtain oc where oc: "from_node_contracts solo_flow [solo_contract] = Ok oc"
    "oc = [(NodeId ''a'', [(PortId ''out'', None)])]"
    by (simp add: from_node_contracts_def node_output_contracts_def output_port_contract_def solo_flow_def
        solo_contract_def sample_defs contract_map_of_def bt_from_list_def)
  obtain r st' where r: "prepare_runs (single_registry idle_executor) solo_flow ?x
      (CancellationHandle (CancellationToken 0)) (Some oc) (workflow_nodes solo_flow) ([], []) [None] = (Ok [r], st')"
    "run_outputs r = with_output_validator (validate_output \<lparr>cv_workflow_id = WorkflowId ''flow'',
        cv_node_id = NodeId ''a'', cv_execution = ?x, cv_output_contracts = [(PortId ''out'', None)]\<rparr>)
        (ports_out_from_handles [PortId ''out''] [])"
    by (simp add: solo_flow_def oc(2) single_registry_def attach_validator_def sample_defs Let_def
        new_node_context_def token_active_def)
  have sent: "fst (send fifo_ops (run_outputs r) (PortId ''out'') solo_packet (CancellationToken 0) [] sample_world) = Some (Ok ())"
    by (simp add: r(2) send_def reserve_def find_output_def with_output_validator_def output_reserve.simps
        ports_out_from_handles_def output_disconnected_def output_try_reserve_def permit_send_def validate_output_def
        solo_packet_def is_cancelled_def token_request_def sample_world_def Let_def)
  then have "let_through fifo_ops (run_outputs r) (PortId ''out'') solo_packet" unfolding let_through_def by blast
  moreover have "distinct (map node_def_id (workflow_nodes solo_flow))" by (simp add: solo_flow_def)
  ultimately have "genuine (WorkflowId ''flow'') ?x (run_node_id r) (PortId ''out'') solo_packet"
    using contract_runs_send_genuine_packets [OF oc(1) _ r(1), of r "run_outputs r" undefined undefined fifo_ops
        "PortId ''out''" solo_packet] by (auto simp: solo_flow_def)
  with sent oc(1) r(1) show ?thesis by (intro exI [of _ oc] exI [of _ r] exI [of _ "[r]"] exI [of _ st']) simp
qed

end
