(* ===== verification/RuleNode.thy ===== *)
theory RuleNode
  imports RuleContract EngineContracts
begin

text \<open>
  The module \<open>node.rs\<close> of \<open>pureflow-rules\<close>: the built-in node that evaluates a rule set on every packet
  and routes it.  The loop takes, for each packet, what the rest of the run does while it waits to
  receive and while it waits to send; \<open>None\<close> is a loop that is still waiting.  Construction and
  printing of JSON values belong to \<open>serde_json\<close> and are the fields of \<open>json_ops\<close>.
\<close>

section \<open>The node\<close>

definition CONTRACT_ID :: string where
  "CONTRACT_ID = ''pureflow.rules.v1''"

definition IN_PORT :: string where
  "IN_PORT = ''in''"

record 'n json_ops =
  js_int :: "int \<Rightarrow> 'n json"
  js_float :: "f64 \<Rightarrow> 'n json"
  js_text :: "'n json \<Rightarrow> string"

text \<open>\<open>packet_counter\<close> is a 64-bit counter that wraps; it is the state of the node.\<close>

record ('n, 's) rule_node =
  node_rule_set :: rule_set
  node_sink :: "('n, 's) sink option"
  packet_counter :: nat

definition new_rule_node :: "rule_set \<Rightarrow> ('n, 's) rule_node" where
  "new_rule_node rs = \<lparr>node_rule_set = rs, node_sink = None, packet_counter = 0\<rparr>"

definition rule_node_with_metadata_sink :: "('n, 's) sink \<Rightarrow> ('n, 's) rule_node \<Rightarrow> ('n, 's) rule_node" where
  "rule_node_with_metadata_sink sink node = node\<lparr>node_sink := Some sink\<rparr>"

definition fetch_add_counter :: "('n, 's) rule_node \<Rightarrow> nat \<times> ('n, 's) rule_node" where
  "fetch_add_counter node =
     (packet_counter node, node\<lparr>packet_counter := (packet_counter node + 1) mod 2 ^ 64\<rparr>)"

section \<open>Records\<close>

fun strategy_to_eval :: "evaluation_strategy \<Rightarrow> rule_eval_strategy" where
  "strategy_to_eval FirstMatch = EvalFirstMatch"
| "strategy_to_eval AllMatches = EvalAllMatches"
| "strategy_to_eval Score = EvalScore"

fun scalar_to_json :: "'n json_ops \<Rightarrow> scalar_value \<Rightarrow> 'n json" where
  "scalar_to_json js (SString s) = JString s"
| "scalar_to_json js (SInteger i) = js_int js i"
| "scalar_to_json js (SFloat f) = js_float js f"
| "scalar_to_json js (SBoolean b) = JBool b"
| "scalar_to_json js SNull = JNull"

fun action_to_eval :: "'n json_ops \<Rightarrow> rule_action \<Rightarrow> rule_eval_action" where
  "action_to_eval js (Route p) = EvalRoute p"
| "action_to_eval js Drop = EvalDrop"
| "action_to_eval js (DeadLetter r) = EvalDeadLetter r"
| "action_to_eval js (Tag k v) = EvalTag k (js_text js (scalar_to_json js v))"
| "action_to_eval js (Halt m) = EvalHalt m"

definition build_rule_eval_record ::
  "'n json_ops \<Rightarrow> node_context \<Rightarrow> rule_set \<Rightarrow> 'n port_packet \<Rightarrow> rule_decision
   \<Rightarrow> (string, scalar_value) btree_map \<Rightarrow> 'n rule_eval_record" where
  "build_rule_eval_record js ctx rs x d tags_at_eval =
     (let route = message_route (envelope_metadata x)
      in \<lparr>re_node_id = context_node ctx, re_workflow_id = context_workflow ctx,
          re_execution = context_execution ctx, re_rule_set_id = rule_set_id rs,
          re_strategy = strategy_to_eval (strategy rs), re_matched_rule = matched_rule d,
          re_action_taken = action_to_eval js (decision_action d),
          re_rules_evaluated = length (rules rs) mod 2 ^ 32,
          re_tags_applied = map (\<lambda>(k, v). (k, scalar_to_json js v)) (tags_applied d),
          re_source_node = map_option message_node (route_source route),
          re_arrival_port = Some (message_port (route_target route)), re_hop_count = 0,
          re_tags_present_at_eval = map (\<lambda>(k, v). (k, scalar_to_json js v)) tags_at_eval,
          re_conditions_evaluated = conditions_evaluated d\<rparr>)"

section \<open>Forwarding\<close>

definition forward_packet ::
  "node_context \<Rightarrow> port_id \<Rightarrow> nat \<Rightarrow> 'n port_packet \<Rightarrow> ('n port_packet, pureflow_error) result" where
  "forward_packet ctx p seq x =
     (let ep = \<lparr>message_node = context_node ctx, message_port = p\<rparr>
      in and_then
           (map_err (\<lambda>e. Execution (''rule node message id error: '' @ show_identifier_error e))
             (new_message_id
               (node_id_str (context_node ctx) @ ''-rule-'' @ port_id_str p @ ''-'' @ show_nat seq)))
           (\<lambda>m. Ok \<lparr>envelope_metadata =
                      \<lparr>message_id = m, message_workflow = context_workflow ctx,
                       message_execution = context_execution ctx,
                       message_route = \<lparr>route_source = Some ep, route_target = ep\<rparr>\<rparr>,
                    envelope_payload = envelope_payload x\<rparr>))"

text \<open>The send of a forwarded packet; \<open>fault\<close> is how its errors are reported.\<close>

definition forward_to ::
  "('n, 'c) channel_ops \<Rightarrow> node_context \<Rightarrow> port_id \<Rightarrow> nat \<Rightarrow> 'n port_packet \<Rightarrow> ('n, 's) ports_out
   \<Rightarrow> cancellation_token \<Rightarrow> (port_send_error \<Rightarrow> pureflow_error)
   \<Rightarrow> (('c, 's) world \<Rightarrow> ('c, 's) world) list \<Rightarrow> ('c, 's) world
   \<Rightarrow> (unit, pureflow_error) result option \<times> ('c, 's) world" where
  "forward_to ops ctx p seq x outs tok fault resumes w =
     (case forward_packet ctx p seq x of
        Ok y \<Rightarrow> (let (r, w1) = send ops outs p y tok resumes w in (map_option (map_err fault) r, w1))
      | Err e \<Rightarrow> (Some (Err e), w)
      | Panic \<Rightarrow> (Some Panic, w))"

fun execute_action ::
  "('n, 'c) channel_ops \<Rightarrow> rule_action \<Rightarrow> node_context \<Rightarrow> nat \<Rightarrow> 'n port_packet \<Rightarrow> ('n, 's) ports_out
   \<Rightarrow> cancellation_token \<Rightarrow> (('c, 's) world \<Rightarrow> ('c, 's) world) list \<Rightarrow> ('c, 's) world
   \<Rightarrow> (unit, pureflow_error) result option \<times> ('c, 's) world" where
  "execute_action ops (Route p) ctx seq x outs tok resumes w =
     forward_to ops ctx p seq x outs tok (\<lambda>e. Execution (show_port_send_error e)) resumes w"
| "execute_action ops Drop ctx seq x outs tok resumes w = (Some (Ok ()), w)"
| "execute_action ops (Tag k v) ctx seq x outs tok resumes w = (Some (Ok ()), w)"
| "execute_action ops (DeadLetter why) ctx seq x outs tok resumes w =
     (case map_err (\<lambda>e. Execution (''invalid port id: '' @ show_identifier_error e))
             (new_port_id ''dead_letter'') of
        Ok p \<Rightarrow>
          forward_to ops ctx p seq x outs tok
            (\<lambda>e. Execution (''dead-letter send failed ('' @ why @ ''): '' @ show_port_send_error e)) resumes w
      | Err e \<Rightarrow> (Some (Err e), w)
      | Panic \<Rightarrow> (Some Panic, w))"
| "execute_action ops (Halt m) ctx seq x outs tok resumes w =
     (Some (Err (Execution (''rule halted: '' @ m))), w)"

section \<open>The loop\<close>

definition packet_context :: "node_context \<Rightarrow> 'n port_packet \<Rightarrow> eval_context" where
  "packet_context ctx x =
     (let route = message_route (envelope_metadata x)
      in \<lparr>ctx_tags = [], ctx_source_node = map_option message_node (route_source route),
          ctx_arrival_port = Some (message_port (route_target route)), ctx_hop_count = 0,
          ctx_workflow_id = context_workflow ctx, ctx_execution_metadata = []\<rparr>)"

fun show_rule_action :: "(f64 \<Rightarrow> string) \<Rightarrow> rule_action \<Rightarrow> string" where
  "show_rule_action fmt (Route p) = ''Route('' @ port_id_str p @ '')''"
| "show_rule_action fmt Drop = ''Drop''"
| "show_rule_action fmt (DeadLetter r) = ''DeadLetter('' @ r @ '')''"
| "show_rule_action fmt (Tag k v) = ''Tag('' @ k @ ''='' @ show_scalar fmt v @ '')''"
| "show_rule_action fmt (Halt m) = ''Halt('' @ m @ '')''"

fun show_rule_error :: "(f64 \<Rightarrow> string) \<Rightarrow> rule_error \<Rightarrow> string" where
  "show_rule_error fmt (AllMatchesTerminalAction r a) =
     ''rule '' @ quoted r @ '' in AllMatches rule set uses terminal action '' @ quoted (show_rule_action fmt a)
       @ '': AllMatches rules may only use Tag actions''"
| "show_rule_error fmt EmptyRuleId = ''rule id must not be empty''"
| "show_rule_error fmt EmptyRuleSetId = ''rule set id must not be empty''"
| "show_rule_error fmt EmptyFieldPath = ''field path must not be empty''"

text \<open>The parts of \<open>serde_json\<close> and of float formatting that the node uses.\<close>

record 'n rule_platform =
  rp_numbers :: "'n number_ops"
  rp_json :: "'n json_ops"
  rp_float_text :: "f64 \<Rightarrow> string"

text \<open>What one iteration does with a packet it has received.\<close>

definition process_packet ::
  "('n, 'c) channel_ops \<Rightarrow> 'n rule_platform \<Rightarrow> node_context \<Rightarrow> ('n, 's) ports_out
   \<Rightarrow> (('c, 's) world \<Rightarrow> ('c, 's) world) list \<Rightarrow> 'n port_packet \<Rightarrow> ('n, 's) rule_node \<Rightarrow> ('c, 's) world
   \<Rightarrow> (unit, pureflow_error) result option \<times> ('n, 's) rule_node \<times> ('c, 's) world" where
  "process_packet ops rp ctx outs resumes x node w =
     (case evaluate (rp_numbers rp) (rp_float_text rp) (node_rule_set node) (envelope_payload x)
             (packet_context ctx x) of
        Ok d \<Rightarrow>
          (let w1 = emit (node_sink node)
                 (RuleEvalRecord (build_rule_eval_record (rp_json rp) ctx (node_rule_set node) x d [])) w;
               (seq, node1) = fetch_add_counter node;
               (r, w2) = execute_action ops (decision_action d) ctx seq x outs (context_token ctx) resumes w1
           in (r, node1, w2))
      | Err e \<Rightarrow> (Some (Err (Execution (''rule evaluation error: '' @ show_rule_error (rp_float_text rp) e))), node, w)
      | Panic \<Rightarrow> (Some Panic, node, w))"

fun rule_node_loop ::
  "('n, 'c) channel_ops \<Rightarrow> 'n rule_platform \<Rightarrow> node_context \<Rightarrow> port_id \<Rightarrow> ('n, 's) ports_in \<Rightarrow> ('n, 's) ports_out
   \<Rightarrow> ((('c, 's) world \<Rightarrow> ('c, 's) world) list \<times> (('c, 's) world \<Rightarrow> ('c, 's) world) list) list
   \<Rightarrow> ('n, 's) rule_node \<Rightarrow> ('c, 's) world
   \<Rightarrow> (unit, pureflow_error) result option \<times> ('n, 's) rule_node \<times> ('c, 's) world" where
  "rule_node_loop ops rp ctx port ins outs [] node w = (None, node, w)"
| "rule_node_loop ops rp ctx port ins outs ((recv_waits, send_waits) # waits) node w =
     (case recv ops ins port (context_token ctx) recv_waits w of
        (None, w1) \<Rightarrow> (None, node, w1)
      | (Some (Ok (Some x)), w1) \<Rightarrow>
          (case process_packet ops rp ctx outs send_waits x node w1 of
             (Some (Ok _), node1, w2) \<Rightarrow>
               if is_cancelled (signals w2) (context_token ctx)
               then (Some (Err (Cancellation ''rule node cancelled after processing packet'')), node1, w2)
               else rule_node_loop ops rp ctx port ins outs waits node1 w2
           | other \<Rightarrow> other)
      | (Some (Ok None), w1) \<Rightarrow> (Some (Ok ()), node, w1)
      | (Some (Err (RecvPortDisconnected p)), w1) \<Rightarrow> (Some (Ok ()), node, w1)
      | (Some (Err (RecvUnknownPort p)), w1) \<Rightarrow>
          (Some (Err (Execution (''rule node: input port '' @ quoted (port_id_str p) @ '' not declared''))), node, w1)
      | (Some (Err (RecvPortCancelled p)), w1) \<Rightarrow>
          (Some (Err (Cancellation ''rule node cancelled while waiting for input'')), node, w1)
      | (Some Panic, w1) \<Rightarrow> (Some Panic, node, w1))"

definition rule_node_run ::
  "('n, 'c) channel_ops \<Rightarrow> 'n rule_platform \<Rightarrow> node_context \<Rightarrow> ('n, 's) ports_in \<Rightarrow> ('n, 's) ports_out
   \<Rightarrow> ((('c, 's) world \<Rightarrow> ('c, 's) world) list \<times> (('c, 's) world \<Rightarrow> ('c, 's) world) list) list
   \<Rightarrow> ('n, 's) rule_node \<Rightarrow> ('c, 's) world
   \<Rightarrow> (unit, pureflow_error) result option \<times> ('n, 's) rule_node \<times> ('c, 's) world" where
  "rule_node_run ops rp ctx ins outs waits node w =
     (case map_err (\<lambda>e. Execution (''invalid port id: '' @ show_identifier_error e)) (new_port_id IN_PORT) of
        Ok port \<Rightarrow> rule_node_loop ops rp ctx port ins outs waits node w
      | Err e \<Rightarrow> (Some (Err e), node, w)
      | Panic \<Rightarrow> (Some Panic, node, w))"

section \<open>Forwarded packets\<close>

lemma new_port_id_ascii: "ascii_graphic s \<Longrightarrow> s = t \<Longrightarrow> new_port_id s = Ok (PortId t)"
  using valid_identifier_ascii [of s] by (simp add: new_port_id_def new_id_def id_simps)

lemma digit_neq_dash: "c \<in> set (show_nat n) \<Longrightarrow> c \<noteq> CHR ''-''"
proof (induction n rule: show_nat.induct)
  case (1 n)
  then show ?case
    using digit_neq_minus [of n] digit_neq_minus [of "n mod 10"]
    by (cases "n < 10") (auto simp: show_nat.simps [of n])
qed

lemma dash_suffix_inj:
  assumes "a @ ''-'' @ show_nat m = b @ ''-'' @ show_nat n"
  shows "m = n"
proof -
  let ?tail = "\<lambda>s. takeWhile (\<lambda>c. c \<noteq> CHR ''-'') (rev s)"
  have tail: "?tail (s @ ''-'' @ show_nat k) = rev (show_nat k)" for s k
    using digit_neq_dash [of _ k] by (auto simp: takeWhile_append)
  have "rev (show_nat m) = rev (show_nat n)"
    using arg_cong [OF assms, of ?tail] by (simp only: tail)
  then show ?thesis using show_nat_inj by simp
qed

definition forward_id :: "node_context \<Rightarrow> port_id \<Rightarrow> nat \<Rightarrow> string" where
  "forward_id ctx p seq = (node_id_str (context_node ctx) @ ''-rule-'' @ port_id_str p) @ ''-'' @ show_nat seq"

lemma forward_packet_Ok:
  "forward_packet ctx p seq x = Ok y \<longleftrightarrow>
     valid_identifier (forward_id ctx p seq) \<and> envelope_payload y = envelope_payload x \<and>
     message_id (envelope_metadata y) = MessageId (forward_id ctx p seq) \<and>
     genuine (context_workflow ctx) (context_execution ctx) (context_node ctx) p y \<and>
     route_target (message_route (envelope_metadata y)) = \<lparr>message_node = context_node ctx, message_port = p\<rparr>"
  by (cases y; cases "envelope_metadata y"; cases "message_route (envelope_metadata y)")
    (auto simp: forward_packet_def forward_id_def genuine_def new_message_id_def new_id_def id_simps Let_def)

lemma forward_packet_not_Panic [simp]: "forward_packet ctx p seq x \<noteq> Panic"
  by (auto simp: forward_packet_def new_message_id_def new_id_def Let_def and_then_eq_Panic)

text \<open>Room for several packets on the edges of a port, and their delivery one after the other.\<close>

definition room_for :: "nat \<Rightarrow> (nat \<Rightarrow> 'n chan_view) \<Rightarrow> output_port_handle \<Rightarrow> bool" where
  "room_for n v h \<longleftrightarrow> (\<forall>i \<in> set (senders h). cv_room (v i) (n * count_list (senders h) i))"

lemma room_for_deliver: "room_for (Suc n) v h \<Longrightarrow> has_room v h \<and> room_for n (deliver (senders h) x v) h"
  by (auto simp: room_for_def has_room_def cv_room_def deliver_def)

abbreviation deliver_all :: "nat list \<Rightarrow> 'n port_packet list \<Rightarrow> (nat \<Rightarrow> 'n chan_view) \<Rightarrow> nat \<Rightarrow> 'n chan_view" where
  "deliver_all ss xs v \<equiv> fold (deliver ss) xs v"

lemma room_for_deliver_all:
  "room_for (length xs + n) v h \<Longrightarrow> room_for n (deliver_all (senders h) xs v) h"
  by (induction xs arbitrary: v) (auto dest: room_for_deliver)

section \<open>What ports report\<close>

text \<open>
  A sink that keeps what it is told: \<open>recs\<close> reads the records from its state.  Ports report pressure on queues and the
  boundaries that messages cross, and never the evaluation of a rule set.
\<close>

definition observed :: "('s \<Rightarrow> 'n metadata_record list) \<Rightarrow> ('n, 's) sink option \<Rightarrow> bool" where
  "observed recs sink \<longleftrightarrow> (\<forall>f r s. sink = Some f \<longrightarrow> recs (snd (f r s)) = recs s @ [r])"

definition port_records :: "('s \<Rightarrow> 'n metadata_record list) \<Rightarrow> ('c, 's) world \<Rightarrow> ('c, 's) world \<Rightarrow> bool" where
  "port_records recs w w' \<longleftrightarrow>
     (\<exists>ps. recs (sink_state w') = recs (sink_state w) @ ps \<and> list_all (\<lambda>r. \<forall>e. r \<noteq> RuleEvalRecord e) ps)"

lemma port_records_refl [simp]: "port_records recs w w"
  by (simp add: port_records_def)

lemma port_records_trans: "port_records recs u v \<Longrightarrow> port_records recs v w \<Longrightarrow> port_records recs u w"
  by (auto simp: port_records_def)

lemma port_records_chans [simp]: "port_records recs w (w'\<lparr>chans := c\<rparr>) = port_records recs w w'"
  by (simp add: port_records_def)

lemma emit_port_records:
  "observed recs sink \<Longrightarrow> (\<And>e. r \<noteq> RuleEvalRecord e) \<Longrightarrow> port_records recs w' w \<Longrightarrow> port_records recs w' (emit sink r w)"
  by (cases sink) (auto simp: observed_def port_records_def)

lemma record_port_records:
  assumes "observed recs sink" "port_records recs w' w"
  shows "port_records recs w' (record_output_queue_pressure ops sink ctx h kind w)"
    "port_records recs w' (record_message_boundary sink mk m w)"
  using assms by (simp_all add: record_output_queue_pressure_def record_message_boundary_def emit_port_records)

lemma output_try_reserve_records:
  assumes "observed recs sink" "output_try_reserve ops sink val ctx h w = (r, w1)"
  shows "port_records recs w w1"
  using assms(2)
  by (auto simp: output_try_reserve_def Let_def record_port_records [OF assms(1)] split: if_splits prod.splits sum.splits)

lemma permit_send_records:
  assumes "observed recs (permit_sink permit)"
  shows "port_records recs w (snd (permit_send ops permit x w))"
proof -
  have "port_records recs w (permit_commit ops permit x w)"
    by (simp add: permit_commit_def Let_def record_port_records [OF assms] emit_port_records [OF assms])
  moreover have "port_records recs w (permit_abort ops permit w)" by (simp add: permit_abort_def)
  ultimately show ?thesis by (auto simp: permit_send_def split: result.split option.split)
qed

context bounded_channels
begin

text \<open>With room, a send takes its permit at once.\<close>

lemma send_at_once:
  assumes "find_output p pid = Some h" "\<not> is_cancelled (signals w) tok" "has_room (view (chans w)) h"
  obtains permit w1 where "output_try_reserve ops (out_sink p) (out_validator p) (out_context p) h w = (Ok permit, w1)"
    "\<And>x resumes. send ops p pid x tok resumes w = (Some (fst (permit_send ops permit x w1)), snd (permit_send ops permit x w1))"
proof -
  let ?attempt = "output_try_reserve ops (out_sink p) (out_validator p) (out_context p) h w"
  obtain permit w1 where r: "?attempt = (Ok permit, w1)"
    using output_try_reserve_Err output_try_reserve_not_Panic assms(3)
    by (metis prod.collapse result.exhaust)
  have "reserve ops p pid tok resumes w = (Some (Ok permit), w1)" for resumes
    using assms(1,2) r by (simp add: reserve_def output_reserve.simps [of _ _ _ _ _ _ resumes w])
  then have "send ops p pid x tok resumes w = (Some (fst (permit_send ops permit x w1)), snd (permit_send ops permit x w1))"
    for x resumes by (simp add: send_def Let_def split: prod.split)
  with r show ?thesis by (rule that)
qed

lemma send_now:
  assumes "find_output p pid = Some h" "\<not> is_cancelled (signals w) tok" "has_room (view (chans w)) h"
    and "packet_accepted p pid x"
  shows "fst (send ops p pid x tok resumes w) = Some (Ok ()) \<and>
    view (chans (snd (send ops p pid x tok resumes w))) = deliver (senders h) x (view (chans w)) \<and>
    signals (snd (send ops p pid x tok resumes w)) = signals w"
proof -
  obtain permit w1 where r: "output_try_reserve ops (out_sink p) (out_validator p) (out_context p) h w = (Ok permit, w1)"
    and send: "\<And>x resumes. send ops p pid x tok resumes w =
      (Some (fst (permit_send ops permit x w1)), snd (permit_send ops permit x w1))"
    by (rule send_at_once [OF assms(1-3)], rule that)
  note ok = output_try_reserve_Ok [OF r]
  have acc: "fst (permit_send ops permit x w1) = Ok ()"
    using assms(4) ok find_output_id [OF assms(1)]
    by (auto simp: permit_send_result packet_accepted_def split: option.splits)
  have sig: "signals (snd (permit_send ops permit x w1)) = signals w"
    using ok(5) by (simp add: permit_send_def permit_commit_def permit_abort_def Let_def split: result.split option.split)
  show ?thesis
    using acc sig send permit_send_view [OF ok(1) ok(6), of x] has_room_open [OF ok(7)] by simp
qed

lemma send_now_records:
  assumes "find_output p pid = Some h" "\<not> is_cancelled (signals w) tok" "has_room (view (chans w)) h"
    and "observed recs (out_sink p)"
  shows "port_records recs w (snd (send ops p pid x tok resumes w))"
proof -
  obtain permit w1 where r: "output_try_reserve ops (out_sink p) (out_validator p) (out_context p) h w = (Ok permit, w1)"
    and send: "\<And>x resumes. send ops p pid x tok resumes w =
      (Some (fst (permit_send ops permit x w1)), snd (permit_send ops permit x w1))"
    by (rule send_at_once [OF assms(1-3)], rule that)
  have "observed recs (permit_sink permit)" using output_try_reserve_Ok(4) [OF r] assms(4) by simp
  from permit_send_records [OF this, of w1 ops x] output_try_reserve_records [OF assms(4) r] send
  show ?thesis by (simp add: port_records_trans)
qed

lemma send_cancelled_while_full:
  assumes "find_output p pid = Some h" "senders h = [i]" "\<not> is_cancelled (signals w) tok"
    and "cv_rx_open (view (chans w) i)" "\<not> cv_room (view (chans w) i) 1"
    and "\<And>u. is_cancelled (signals (step u)) tok" and "observed recs (out_sink p)"
  shows "\<exists>w1. send ops p pid x tok (step # rest) w = (Some (Err (SendPortCancelled pid)), step w1) \<and>
    view (chans w1) = view (chans w) \<and> port_records recs w w1"
proof -
  let ?attempt = "output_try_reserve ops (out_sink p) (out_validator p) (out_context p) h w"
  have "fst (ch_try_reserve ops i (chans w)) = Some SendFull" using assms(4,5) reserve_full by blast
  then obtain c where "ch_try_reserve ops i (chans w) = (Some SendFull, c)" by (metis prod.collapse)
  then obtain w1 where w1: "?attempt = (Err (SendPortFull pid), w1)"
    using assms(2) find_output_id [OF assms(1)] by (simp add: output_try_reserve_def Let_def)
  have "send ops p pid x tok (step # rest) w = (Some (Err (SendPortCancelled pid)), step w1)"
    using assms(1,3,6) w1 find_output_id [OF assms(1)]
    by (simp add: send_def reserve_def output_reserve.simps [of _ _ _ _ _ _ "step # rest" w]
        output_reserve.simps [of _ _ _ _ _ _ rest "step w1"])
  then show ?thesis using output_try_reserve_Err(1) [OF w1] output_try_reserve_records [OF assms(7) w1] by blast
qed

end

section \<open>Properties\<close>

text \<open>
  What a packet that the node has received becomes under an action, on the channels: a copy of it that names the node and
  the port as its source, with a number, or nothing.
\<close>

definition copy_of :: "node_context \<Rightarrow> port_id \<Rightarrow> nat \<Rightarrow> 'n port_packet \<Rightarrow> 'n port_packet \<Rightarrow> bool" where
  "copy_of ctx p seq x y \<longleftrightarrow>
     envelope_payload y = envelope_payload x \<and> message_id (envelope_metadata y) = MessageId (forward_id ctx p seq) \<and>
     genuine (context_workflow ctx) (context_execution ctx) (context_node ctx) p y \<and>
     route_target (message_route (envelope_metadata y)) = \<lparr>message_node = context_node ctx, message_port = p\<rparr>"

definition routed ::
  "node_context \<Rightarrow> output_port_handle list \<Rightarrow> nat \<Rightarrow> rule_action \<Rightarrow> 'n port_packet
   \<Rightarrow> (nat \<Rightarrow> 'n chan_view) \<Rightarrow> (nat \<Rightarrow> 'n chan_view) \<Rightarrow> bool" where
  "routed ctx hs seq action x v v' \<longleftrightarrow>
     (case action of
        Route p \<Rightarrow> \<exists>y. copy_of ctx p seq x y \<and> v' = deliver (out_links hs p) y v
      | DeadLetter r \<Rightarrow>
          \<exists>y. copy_of ctx (PortId ''dead_letter'') seq x y \<and> v' = deliver (out_links hs (PortId ''dead_letter'')) y v
      | _ \<Rightarrow> v' = v)"

text \<open>What the record of an evaluation says, and that exactly one is added when the node has a sink.\<close>

definition records_action :: "rule_action \<Rightarrow> rule_eval_action \<Rightarrow> bool" where
  "records_action action taken \<longleftrightarrow>
     (case action of
        Route p \<Rightarrow> taken = EvalRoute p
      | Drop \<Rightarrow> taken = EvalDrop
      | DeadLetter r \<Rightarrow> taken = EvalDeadLetter r
      | Tag k v \<Rightarrow> \<exists>t. taken = EvalTag k t
      | Halt m \<Rightarrow> taken = EvalHalt m)"

definition eval_record_of ::
  "node_context \<Rightarrow> rule_set \<Rightarrow> 'n port_packet \<Rightarrow> rule_decision \<Rightarrow> 'n rule_eval_record \<Rightarrow> bool" where
  "eval_record_of ctx rs x d e \<longleftrightarrow>
     re_node_id e = context_node ctx \<and> re_workflow_id e = context_workflow ctx \<and> re_execution e = context_execution ctx \<and>
     re_rule_set_id e = rule_set_id rs \<and> re_matched_rule e = matched_rule d \<and>
     records_action (decision_action d) (re_action_taken e) \<and>
     map fst (re_tags_applied e) = map fst (tags_applied d) \<and> re_conditions_evaluated e = conditions_evaluated d \<and>
     re_source_node e = map_option message_node (route_source (message_route (envelope_metadata x))) \<and>
     re_arrival_port e = Some (message_port (route_target (message_route (envelope_metadata x))))"

definition evaluation_recorded ::
  "('s \<Rightarrow> 'n metadata_record list) \<Rightarrow> ('n, 's) rule_node \<Rightarrow> node_context \<Rightarrow> 'n port_packet \<Rightarrow> rule_decision
   \<Rightarrow> ('c, 's) world \<Rightarrow> ('c, 's) world \<Rightarrow> bool" where
  "evaluation_recorded recs node ctx x d w w' \<longleftrightarrow>
     (\<exists>es ps. recs (sink_state w') = recs (sink_state w) @ map RuleEvalRecord es @ ps \<and>
        length es = (if node_sink node = None then 0 else 1) \<and> list_all (eval_record_of ctx (node_rule_set node) x d) es \<and>
        list_all (\<lambda>r. \<forall>e. r \<noteq> RuleEvalRecord e) ps)"

lemma build_rule_eval_record_spec: "eval_record_of ctx rs x d (build_rule_eval_record js ctx rs x d ts)"
  by (cases "decision_action d") (auto simp: eval_record_of_def build_rule_eval_record_def records_action_def Let_def)

lemma emitted_evaluation:
  assumes "observed recs (node_sink node)"
    and "port_records recs
      (emit (node_sink node) (RuleEvalRecord (build_rule_eval_record js ctx (node_rule_set node) x d [])) w) w'"
  shows "evaluation_recorded recs node ctx x d w w'"
proof (cases "node_sink node")
  case None
  with assms(2) show ?thesis by (simp add: evaluation_recorded_def port_records_def)
next
  case (Some f)
  let ?e = "build_rule_eval_record js ctx (node_rule_set node) x d []"
  obtain ps where "recs (sink_state w') = recs (sink_state w) @ map RuleEvalRecord [?e] @ ps"
    "list_all (\<lambda>r. \<forall>e. r \<noteq> RuleEvalRecord e) ps"
    using assms Some by (auto simp: observed_def port_records_def)
  then show ?thesis
    using Some build_rule_eval_record_spec [of ctx "node_rule_set node" x d js "[]"]
    unfolding evaluation_recorded_def by (intro exI [of _ "[?e]"] exI [of _ ps]) simp
qed

lemma forward_packet_copy:
  assumes "valid_identifier (forward_id ctx p seq)"
  obtains y where "forward_packet ctx p seq x = Ok y" "copy_of ctx p seq x y"
proof -
  obtain y where y: "forward_packet ctx p seq x = Ok y"
    using assms by (auto simp: forward_packet_def new_message_id_def new_id_def forward_id_def id_simps Let_def)
  with that show ?thesis by (simp add: forward_packet_Ok copy_of_def)
qed

text \<open>Output ports that are connected by the handles of a node and have no validator.\<close>

definition connected_by :: "('n, 's) ports_out \<Rightarrow> port_id list \<Rightarrow> output_port_handle list \<Rightarrow> bool" where
  "connected_by outs ports hs \<longleftrightarrow>
     out_ports outs = out_ports (ports_out_from_handles ports hs :: ('n, 's) ports_out) \<and> out_validator outs = None"

lemma connected_by_find:
  fixes outs :: "('n, 's) ports_out"
  assumes "connected_by outs ports hs" "p \<in> set ports"
  shows "find_output outs p = Some \<lparr>out_port_id = p, senders = out_links hs p\<rparr>"
proof -
  have "find_output outs p = find_output (ports_out_from_handles ports hs :: ('n, 's) ports_out) p"
    using assms(1) by (simp add: connected_by_def find_output_def)
  then show ?thesis using assms(2) by (simp add: find_output_from_handles)
qed

context bounded_channels
begin

lemma forward_to_now:
  assumes "connected_by outs ports hs" "p \<in> set ports" "\<not> is_cancelled (signals w) tok"
    and "has_room (view (chans w)) \<lparr>out_port_id = p, senders = out_links hs p\<rparr>"
    and "valid_identifier (forward_id ctx p seq)" and "observed recs (out_sink outs)"
  shows "\<exists>y w'. forward_to ops ctx p seq x outs tok fault resumes w = (Some (Ok ()), w') \<and> copy_of ctx p seq x y \<and>
    view (chans w') = deliver (out_links hs p) y (view (chans w)) \<and> port_records recs w w'"
proof -
  obtain y where y: "forward_packet ctx p seq x = Ok y" "copy_of ctx p seq x y"
    using forward_packet_copy [OF assms(5)] by blast
  note h = connected_by_find [OF assms(1,2)]
  have "packet_accepted outs p y" using assms(1) by (simp add: connected_by_def packet_accepted_def)
  from send_now [OF h assms(3,4) this, of resumes] send_now_records [OF h assms(3,4,6), of y resumes] y show ?thesis
    by (auto simp: forward_to_def Let_def split: prod.split)
qed

lemma execute_action_now:
  assumes "connected_by outs (output_ports host) hs" "action_fits host action" "\<not> is_cancelled (signals w) tok"
    and "list_all (\<lambda>p. has_room (view (chans w)) \<lparr>out_port_id = p, senders = out_links hs p\<rparr> \<and>
      valid_identifier (forward_id ctx p seq)) (output_ports host)"
    and "observed recs (out_sink outs)"
  shows "\<exists>w'. execute_action ops action ctx seq x outs tok resumes w =
      (Some (case action of Halt m \<Rightarrow> Err (Execution (''rule halted: '' @ m)) | _ \<Rightarrow> Ok ()), w') \<and>
    routed ctx hs seq action x (view (chans w)) (view (chans w')) \<and> port_records recs w w'"
proof (cases action)
  case (Route p)
  then have "p \<in> set (output_ports host)" using assms(2) by (simp add: action_fits_def)
  with forward_to_now [OF assms(1) this assms(3) _ _ assms(5)] assms(4) Route show ?thesis
    by (fastforce simp: routed_def list_all_iff)
next
  case (DeadLetter r)
  then have "PortId ''dead_letter'' \<in> set (output_ports host)"
    using assms(2) by (simp add: action_fits_def DEAD_LETTER_PORT_def)
  moreover have "new_port_id ''dead_letter'' = Ok (PortId ''dead_letter'')"
    by (rule new_port_id_ascii) (simp_all add: ascii_graphic_def byte_def)
  ultimately show ?thesis using forward_to_now [OF assms(1) _ assms(3) _ _ assms(5)] assms(4) DeadLetter
    by (fastforce simp: routed_def list_all_iff)
qed (auto simp: routed_def)

end

lemma evaluate_Ok: "\<exists>d. evaluate num fmt rs payload ctx = Ok d"
  by (simp add: evaluate_def Let_def split: evaluation_strategy.split)

text \<open>
  C23: a rule node carries out its decisions and records them.  On a host node for which its rule set was validated, and
  with room on the edges, the node takes one decision per packet and the packet goes where it says: a
  copy with the same payload, the node and the port as its source and the number of the packet in its identifier is
  appended once to every edge of the chosen port, or of the dead letter port, and to no other edge; a dropped packet
  reaches no edge; a halt ends the node with its message and reaches no edge.  A sink of the node that keeps its records
  is given exactly one record of the evaluation, before what the ports report, with the rule that matched and the action;
  and the counter of the node advances by one.
\<close>

theorem rule_node_routes_packet:
  assumes "bounded_channels ops view"
    and "validate_rule_set flow (context_node ctx) (node_rule_set node) = Ok ()"
    and "List.find (\<lambda>n. node_def_id n = context_node ctx) (workflow_nodes flow) = Some host"
    and "\<not> is_cancelled (signals w) (context_token ctx)"
    and "list_all (\<lambda>p. has_room (view (chans w)) \<lparr>out_port_id = p, senders = out_links hs p\<rparr> \<and>
      valid_identifier (forward_id ctx p (packet_counter node))) (output_ports host)"
    and "connected_by outs (output_ports host) hs"
    and "observed recs (node_sink node)" and "observed recs (out_sink outs)"
  shows "\<exists>d r node' w'.
    evaluate (rp_numbers rp) (rp_float_text rp) (node_rule_set node) (envelope_payload x) (packet_context ctx x) = Ok d \<and>
    process_packet ops rp ctx outs resumes x node w = (Some r, node', w') \<and>
    r = (case decision_action d of Halt m \<Rightarrow> Err (Execution (''rule halted: '' @ m)) | _ \<Rightarrow> Ok ()) \<and>
    routed ctx hs (packet_counter node) (decision_action d) x (view (chans w)) (view (chans w')) \<and>
    evaluation_recorded recs node ctx x d w w' \<and>
    node' = node\<lparr>packet_counter := (packet_counter node + 1) mod 2 ^ 64\<rparr>"
proof -
  obtain d where d: "evaluate (rp_numbers rp) (rp_float_text rp) (node_rule_set node) (envelope_payload x)
      (packet_context ctx x) = Ok d" using evaluate_Ok by blast
  have "rule_set_fits flow host (node_rule_set node)"
    using assms(2,3) unfolding validate_rule_set_Ok_iff by auto
  then have fit: "action_fits host (decision_action d)"
    using decision_action_from_rules [OF d] by (auto simp: rule_set_fits_def list_all_iff)
  let ?w = "emit (node_sink node)
    (RuleEvalRecord (build_rule_eval_record (rp_json rp) ctx (node_rule_set node) x d [])) w"
  obtain w' where w': "execute_action ops (decision_action d) ctx (packet_counter node) x outs (context_token ctx) resumes ?w =
      (Some (case decision_action d of Halt m \<Rightarrow> Err (Execution (''rule halted: '' @ m)) | _ \<Rightarrow> Ok ()), w')"
    "routed ctx hs (packet_counter node) (decision_action d) x (view (chans ?w)) (view (chans w'))" "port_records recs ?w w'"
    using bounded_channels.execute_action_now
        [OF assms(1,6) fit, of ?w "context_token ctx" ctx "packet_counter node" recs x resumes]
      assms(4,5,8) by auto
  then have "process_packet ops rp ctx outs resumes x node w =
      (Some (case decision_action d of Halt m \<Rightarrow> Err (Execution (''rule halted: '' @ m)) | _ \<Rightarrow> Ok ()),
       node\<lparr>packet_counter := (packet_counter node + 1) mod 2 ^ 64\<rparr>, w')"
    using d by (simp add: process_packet_def fetch_add_counter_def Let_def)
  with d w'(2) emitted_evaluation [OF assms(7) w'(3)] show ?thesis by simp
qed

definition router_rules :: rule_set where
  "router_rules = \<lparr>rule_set_id = ''rs'', strategy = FirstMatch, rules = [],
     default_action = Route (PortId ''out''), trace_conditions = False\<rparr>"

definition router_platform :: "unit rule_platform" where
  "router_platform =
     \<lparr>rp_numbers = \<lparr>num_as_i64 = (\<lambda>_. None), num_as_f64 = (\<lambda>_. None)\<rparr>,
      rp_json = \<lparr>js_int = (\<lambda>_. JNull), js_float = (\<lambda>_. JNull), js_text = (\<lambda>_. ''null'')\<rparr>,
      rp_float_text = (\<lambda>_. ''0'')\<rparr>"

definition router_context :: node_context where
  "router_context = \<lparr>context_workflow = WorkflowId ''flow'', context_node = NodeId ''a'',
     context_execution = first_attempt (ExecutionId ''run''), context_token = CancellationToken 0\<rparr>"

lemma router_validated: "validate_rule_set solo_flow (NodeId ''a'') router_rules = Ok ()"
  by (simp add: validate_rule_set_def rule_set_violations_def validate_action_def solo_flow_def sample_defs
      router_rules_def bs_from_list_def)

lemma collecting_sink_observed [simp]: "observed (\<lambda>s. s) (Some collecting_sink)" "observed recs None"
  by (simp_all add: observed_def collecting_sink_def)

definition router_node :: "(unit, unit metadata_record list) rule_node" where
  "router_node = rule_node_with_metadata_sink collecting_sink (new_rule_node router_rules)"

definition router_out :: "(unit, unit metadata_record list) ports_out" where
  "router_out = out_with_metadata_sink collecting_sink
     (ports_out_from_handles [PortId ''out''] [output_connected (PortId ''out'') 0])"

definition router_world :: "unit port_packet list \<Rightarrow> (unit fifo, unit metadata_record list) world" where
  "router_world xs =
     \<lparr>chans = \<lparr>fifo_next = 1, fifo_chan = (\<lambda>_. (empty_view 1)\<lparr>cv_queue := xs\<rparr>)\<rparr>, sink_state = [], signals = [None]\<rparr>"

lemma router_forward_id: "valid_identifier (forward_id router_context (PortId ''out'') 0)"
  by (rule valid_identifier_ascii)
    (simp add: forward_id_def router_context_def ascii_graphic_def byte_def show_nat.simps digit_def)

lemma router_links [simp]: "out_links [output_connected (PortId ''out'') 0] (PortId ''out'') = [0]"
  by (simp add: out_links_def output_connected_def)

lemma router_out_simps [simp]: "out_sink router_out = Some collecting_sink"
  "connected_by router_out [PortId ''out''] [output_connected (PortId ''out'') 0]"
  by (simp_all add: router_out_def out_with_metadata_sink_def connected_by_def) (simp add: ports_out_from_handles_def)

lemma router_node_simps [simp]: "node_sink router_node = Some collecting_sink" "packet_counter router_node = 0"
  "node_rule_set router_node = router_rules"
  by (simp_all add: router_node_def rule_node_with_metadata_sink_def new_rule_node_def)

theorem rule_node_routes_packet_witness:
  "\<exists>y e node' w'.
     process_packet fifo_ops router_platform router_context router_out [] (sample_packet ''x'') router_node (router_world []) =
       (Some (Ok ()), node', w') \<and>
     envelope_payload y = Bytes ''x'' \<and> cv_queue (fifo_chan (chans w') 0) = [y] \<and>
     RuleEvalRecord e \<in> set (sink_state w') \<and> re_action_taken e = EvalRoute (PortId ''out'')"
proof -
  let ?hs = "[output_connected (PortId ''out'') 0]" and ?x = "sample_packet ''x''"
  have host: "List.find (\<lambda>n. node_def_id n = context_node router_context) (workflow_nodes solo_flow) =
      Some (sample_node ''a'')" "output_ports (sample_node ''a'') = [PortId ''out'']"
    by (simp_all add: solo_flow_def router_context_def sample_defs)
  have valid: "validate_rule_set solo_flow (context_node router_context) (node_rule_set router_node) = Ok ()"
    using router_validated by (simp add: router_context_def)
  have quiet: "\<not> is_cancelled (signals (router_world [])) (context_token router_context)"
    by (simp add: router_world_def router_context_def is_cancelled_def token_request_def)
  have room: "list_all (\<lambda>p. has_room (fifo_chan (chans (router_world []))) \<lparr>out_port_id = p, senders = out_links ?hs p\<rparr> \<and>
      valid_identifier (forward_id router_context p (packet_counter router_node))) (output_ports (sample_node ''a''))"
    using router_forward_id by (simp add: host(2) has_room_def cv_room_def router_world_def empty_view_def)
  have out: "connected_by router_out (output_ports (sample_node ''a'')) ?hs" by (simp add: host(2))
  from rule_node_routes_packet [OF fifo.bounded_channels_axioms valid host(1) quiet room out, of "\<lambda>s. s" router_platform ?x "[]"]
  obtain d r node' w' where
    p: "evaluate (rp_numbers router_platform) (rp_float_text router_platform) router_rules (envelope_payload ?x)
        (packet_context router_context ?x) = Ok d"
      "process_packet fifo_ops router_platform router_context router_out [] ?x router_node (router_world []) = (Some r, node', w')"
      "r = (case decision_action d of Halt m \<Rightarrow> Err (Execution (''rule halted: '' @ m)) | _ \<Rightarrow> Ok ())"
      "routed router_context ?hs 0 (decision_action d) ?x (fifo_chan (chans (router_world []))) (fifo_chan (chans w'))"
      "evaluation_recorded (\<lambda>s. s) router_node router_context ?x d (router_world []) w'"
    by auto
  have d: "decision_action d = Route (PortId ''out'')" using p(1) by (auto simp: evaluate_def router_rules_def)
  from p(4) d obtain y where y: "copy_of router_context (PortId ''out'') 0 ?x y"
    "fifo_chan (chans w') = deliver [0] y (fifo_chan (chans (router_world [])))" by (auto simp: routed_def)
  from p(5) obtain e ps where e: "sink_state w' = RuleEvalRecord e # ps" "eval_record_of router_context router_rules ?x d e"
    by (auto simp: evaluation_recorded_def router_world_def length_Suc_conv)
  have "process_packet fifo_ops router_platform router_context router_out [] ?x router_node (router_world []) =
      (Some (Ok ()), node', w')" using p(2,3) d by simp
  moreover have "envelope_payload y = Bytes ''x''" "cv_queue (fifo_chan (chans w') 0) = [y]"
    using y by (simp_all add: copy_of_def sample_packet_def deliver_def router_world_def empty_view_def)
  moreover have "re_action_taken e = EvalRoute (PortId ''out'')" using e(2) d by (simp add: eval_record_of_def records_action_def)
  ultimately show ?thesis using e(1) by (metis list.set_intros(1))
qed

text \<open>
  C24: the packet in flight is not drained on cancellation.  When the node has decided to route a packet to
  a port whose edge is full, and the run is cancelled while the node waits for room, the send is
  abandoned: the packet, already taken from the input, reaches no edge, and the node ends with an
  execution error instead of a cancellation.  Yet a sink that keeps its records has been told that the packet was routed
  to the port, whatever the rest of the run reported meanwhile.
\<close>

theorem rule_node_loses_packet_on_cancel:
  assumes "bounded_channels ops view"
    and "evaluate (rp_numbers rp) (rp_float_text rp) (node_rule_set node) (envelope_payload x)
      (packet_context ctx x) = Ok d" and "decision_action d = Route p"
    and "valid_identifier (forward_id ctx p (packet_counter node))"
    and "find_output outs p = Some h" and "senders h = [i]"
    and "\<not> is_cancelled (signals w) (context_token ctx)"
    and "cv_rx_open (view (chans w) i)" and "\<not> cv_room (view (chans w) i) 1"
    and "\<And>u. is_cancelled (signals (step u)) (context_token ctx) \<and> view (chans (step u)) = view (chans u) \<and>
      (\<exists>rs. recs (sink_state (step u)) = recs (sink_state u) @ rs)"
    and "node_sink node = Some f" and "observed recs (Some f)" and "observed recs (out_sink outs)"
  shows "\<exists>node' w' e rs. process_packet ops rp ctx outs (step # rest) x node w =
      (Some (Err (Execution (show_port_send_error (SendPortCancelled p)))), node', w') \<and>
    view (chans w') = view (chans w) \<and>
    recs (sink_state w') = recs (sink_state w) @ RuleEvalRecord e # rs \<and>
    eval_record_of ctx (node_rule_set node) x d e \<and> re_action_taken e = EvalRoute p"
proof -
  let ?e = "build_rule_eval_record (rp_json rp) ctx (node_rule_set node) x d []"
  let ?w = "emit (node_sink node) (RuleEvalRecord ?e) w"
  obtain y where y: "forward_packet ctx p (packet_counter node) x = Ok y"
    using forward_packet_copy [OF assms(4)] by blast
  from bounded_channels.send_cancelled_while_full
      [OF assms(1) assms(5,6), of ?w "context_token ctx" step recs y rest] assms(7-10,13)
  obtain w1 where w1: "send ops outs p y (context_token ctx) (step # rest) ?w = (Some (Err (SendPortCancelled p)), step w1)"
    "view (chans w1) = view (chans w)" "port_records recs ?w w1" by auto
  have "process_packet ops rp ctx outs (step # rest) x node w =
      (Some (Err (Execution (show_port_send_error (SendPortCancelled p)))), snd (fetch_add_counter node), step w1)"
    using assms(2,3) y w1(1) by (simp add: process_packet_def fetch_add_counter_def forward_to_def Let_def)
  moreover have "view (chans (step w1)) = view (chans w)" using assms(10) w1(2) by simp
  moreover obtain rs where "recs (sink_state (step w1)) = recs (sink_state w) @ RuleEvalRecord ?e # rs"
    using assms(10) [of w1] w1(3) assms(11,12) by (auto simp: port_records_def observed_def)
  moreover have "eval_record_of ctx (node_rule_set node) x d ?e" by (rule build_rule_eval_record_spec)
  moreover from this have "re_action_taken ?e = EvalRoute p" using assms(3) by (simp add: eval_record_of_def records_action_def)
  ultimately show ?thesis by blast
qed

text \<open>The only edge is full.\<close>

theorem rule_node_loses_packet_on_cancel_witness:
  "\<exists>node' w' e rs. process_packet fifo_ops router_platform router_context router_out
       [\<lambda>w. w\<lparr>signals := [Some (CancellationRequest ''stop'')]\<rparr>] (sample_packet ''x'') router_node
       (router_world [sample_packet ''old'']) = (Some (Err (Execution ''output port `out` send cancelled'')), node', w') \<and>
     cv_queue (fifo_chan (chans w') 0) = [sample_packet ''old''] \<and>
     sink_state w' = RuleEvalRecord e # rs \<and> re_action_taken e = EvalRoute (PortId ''out'')"
proof -
  let ?x = "sample_packet ''x''" and ?w = "router_world [sample_packet ''old'']"
  let ?step = "\<lambda>w :: (unit fifo, unit metadata_record list) world. w\<lparr>signals := [Some (CancellationRequest ''stop'')]\<rparr>"
  obtain d where d: "evaluate (rp_numbers router_platform) (rp_float_text router_platform) (node_rule_set router_node)
      (envelope_payload ?x) (packet_context router_context ?x) = Ok d" "decision_action d = Route (PortId ''out'')"
    by (simp add: evaluate_def router_rules_def)
  have ident: "valid_identifier (forward_id router_context (PortId ''out'') (packet_counter router_node))"
    using router_forward_id by simp
  have h: "find_output router_out (PortId ''out'') = Some \<lparr>out_port_id = PortId ''out'', senders = [0]\<rparr>"
    using connected_by_find [OF router_out_simps(2), of "PortId ''out''"] by simp
  have "\<exists>node' w' e rs. process_packet fifo_ops router_platform router_context router_out (?step # []) ?x router_node ?w =
      (Some (Err (Execution (show_port_send_error (SendPortCancelled (PortId ''out''))))), node', w') \<and>
    fifo_chan (chans w') = fifo_chan (chans ?w) \<and> sink_state w' = sink_state ?w @ RuleEvalRecord e # rs \<and>
    eval_record_of router_context (node_rule_set router_node) ?x d e \<and> re_action_taken e = EvalRoute (PortId ''out'')"
    by (rule rule_node_loses_packet_on_cancel [where recs = "\<lambda>s. s" and f = collecting_sink,
          OF fifo.bounded_channels_axioms d ident h])
      (simp_all add: router_world_def router_context_def is_cancelled_def token_request_def empty_view_def cv_room_def)
  then show ?thesis by (auto simp: router_world_def quoted_def)
qed

text \<open>
  the packets that a rule node forwards are its own and are told apart.  A forwarded packet passes the
  output validator of the node under any contract that has the port, keeps the payload, and two
  packets forwarded under different values of the counter have different message ids.
\<close>

theorem forwarded_packets_pass_contracts:
  assumes "forward_packet ctx p seq x = Ok y" and "p \<in> fst ` set contracts"
    and "forward_packet ctx q seq2 x2 = Ok y2" and "seq \<noteq> seq2"
  shows "validate_output \<lparr>cv_workflow_id = context_workflow ctx, cv_node_id = context_node ctx,
      cv_execution = context_execution ctx, cv_output_contracts = contracts\<rparr> p y = Ok () \<and>
    envelope_payload y = envelope_payload x \<and>
    message_id (envelope_metadata y) \<noteq> message_id (envelope_metadata y2)"
proof -
  have "forward_id ctx p seq \<noteq> forward_id ctx q seq2"
    using assms(4) dash_suffix_inj unfolding forward_id_def by blast
  then show ?thesis
    using assms(1-3) by (auto simp: forward_packet_Ok validate_output_Ok)
qed

theorem forwarded_packets_pass_contracts_witness:
  "\<exists>y z. forward_packet router_context (PortId ''out'') 0 (sample_packet ''x'') = Ok y \<and>
     forward_packet router_context (PortId ''out'') 1 (sample_packet ''x'') = Ok z \<and>
     message_id (envelope_metadata y) \<noteq> message_id (envelope_metadata z)"
proof -
  have "ascii_graphic (forward_id router_context (PortId ''out'') 0)"
    "ascii_graphic (forward_id router_context (PortId ''out'') 1)"
    by (simp_all add: forward_id_def router_context_def ascii_graphic_def byte_def show_nat.simps digit_def)
  then have "valid_identifier (forward_id router_context (PortId ''out'') 0)"
    "valid_identifier (forward_id router_context (PortId ''out'') 1)"
    by (simp_all add: valid_identifier_ascii)
  then obtain y z where yz: "forward_packet router_context (PortId ''out'') 0 (sample_packet ''x'') = Ok y"
    "forward_packet router_context (PortId ''out'') 1 (sample_packet ''x'') = Ok z"
    by (auto simp: forward_packet_def new_message_id_def new_id_def forward_id_def id_simps Let_def)
  from forwarded_packets_pass_contracts [OF yz(1) _ yz(2), of "[(PortId ''out'', None)]"] yz show ?thesis by auto
qed

end
