(* ===== verification/Format.thy ===== *)
theory Format
  imports EngineRunProps Rules
begin

text \<open>
  The crate \<open>pureflow-workflow-format\<close>: raw workflow documents and their conversion into validated
  workflows (\<open>lib.rs\<close>), and the resolution of rule set references (\<open>rule_source.rs\<close>).

  Text is decoded and encoded by \<open>serde_json\<close>, \<open>toml\<close> and \<open>serde_yml\<close> through derived code; these
  functions are the fields of \<open>codec\<close>, over an abstract type of decoder errors with its text.  The file
  system is the parameter \<open>file_system\<close>.
\<close>

section \<open>Raw documents\<close>

definition CURRENT_PUREFLOW_VERSION :: string where
  "CURRENT_PUREFLOW_VERSION = ''1''"

record 'n raw_node_definition =
  raw_node_id :: string
  raw_inputs :: "string list"
  raw_outputs :: "string list"
  raw_rule_set :: "'n json option"
  raw_rule_set_ref :: "string option"

record raw_edge_endpoint =
  raw_node :: string
  raw_port :: string

record raw_edge_definition =
  raw_source :: raw_edge_endpoint
  raw_target :: raw_edge_endpoint
  raw_capacity :: "nat option"

record 'n raw_workflow_definition =
  pureflow_version :: "string option"
  raw_id :: string
  raw_nodes :: "'n raw_node_definition list"
  raw_edges :: "raw_edge_definition list"

section \<open>Errors\<close>

datatype identifier_context =
  WorkflowContext
| NodeContext nat
| InputPortContext nat nat
| OutputPortContext nat nat
| EdgeSourceNode nat
| EdgeSourcePort nat
| EdgeTargetNode nat
| EdgeTargetPort nat

fun show_identifier_context :: "identifier_context \<Rightarrow> string" where
  "show_identifier_context WorkflowContext = ''workflow id''"
| "show_identifier_context (NodeContext i) = ''node '' @ show_nat i @ '' id''"
| "show_identifier_context (InputPortContext i p) = ''node '' @ show_nat i @ '' input port '' @ show_nat p"
| "show_identifier_context (OutputPortContext i p) = ''node '' @ show_nat i @ '' output port '' @ show_nat p"
| "show_identifier_context (EdgeSourceNode i) = ''edge '' @ show_nat i @ '' source node''"
| "show_identifier_context (EdgeSourcePort i) = ''edge '' @ show_nat i @ '' source port''"
| "show_identifier_context (EdgeTargetNode i) = ''edge '' @ show_nat i @ '' target node''"
| "show_identifier_context (EdgeTargetPort i) = ''edge '' @ show_nat i @ '' target port''"

datatype rule_source_error =
  UnknownScheme string
| FileNotFound string
| ReadError string string
| ParseError string

fun show_rule_source_error :: "rule_source_error \<Rightarrow> string" where
  "show_rule_source_error (UnknownScheme s) = ''no source registered for URI scheme '' @ quoted s"
| "show_rule_source_error (FileNotFound p) = ''rule set file not found: '' @ quoted p"
| "show_rule_source_error (ReadError p r) = ''failed to read rule set file '' @ quoted p @ '': '' @ r"
| "show_rule_source_error (ParseError r) = ''failed to parse rule set: '' @ r"

datatype rule_set_binding_error =
  BindingConflict
| BindingResolve rule_source_error
| BindingParse string

fun show_rule_set_binding_error :: "rule_set_binding_error \<Rightarrow> string" where
  "show_rule_set_binding_error BindingConflict = ''node declares both an inline rule_set and a rule_set_ref''"
| "show_rule_set_binding_error (BindingResolve e) =
     ''failed to resolve rule_set_ref: '' @ show_rule_source_error e"
| "show_rule_set_binding_error (BindingParse r) = ''inline rule_set is invalid: '' @ r"

datatype workflow_format_error =
  MissingVersion
| UnsupportedVersion string
| FormatIdentifier identifier_context identifier_error
| InvalidEdgeCapacity nat nat
| FormatWorkflow workflow_validation_error
| FormatRuleSet nat rule_set_binding_error

fun show_workflow_format_error :: "workflow_format_error \<Rightarrow> string" where
  "show_workflow_format_error MissingVersion = ''workflow document is missing pureflow_version''"
| "show_workflow_format_error (UnsupportedVersion v) =
     ''workflow document uses unsupported pureflow_version '' @ quoted v"
| "show_workflow_format_error (FormatIdentifier c e) =
     show_identifier_context c @ '' is invalid: '' @ show_identifier_error e"
| "show_workflow_format_error (InvalidEdgeCapacity i c) =
     ''edge '' @ show_nat i @ '' explicit capacity must be greater than zero, got '' @ show_nat c"
| "show_workflow_format_error (FormatWorkflow e) =
     ''workflow validation failed: '' @ show_workflow_validation_error e"
| "show_workflow_format_error (FormatRuleSet i e) =
     ''node '' @ show_nat i @ '' rule set is invalid: '' @ show_rule_set_binding_error e"

section \<open>Conversion\<close>

fun validate_version :: "string option \<Rightarrow> (unit, workflow_format_error) result" where
  "validate_version (Some v) = (if v = CURRENT_PUREFLOW_VERSION then Ok () else Err (UnsupportedVersion v))"
| "validate_version None = Err MissingVersion"

definition raw_ports ::
  "(nat \<Rightarrow> identifier_context) \<Rightarrow> string list \<Rightarrow> (port_id list, workflow_format_error) result" where
  "raw_ports context ports =
     try_map (\<lambda>(i, p). map_err (FormatIdentifier (context i)) (new_port_id p)) (enumerate 0 ports)"

fun raw_node_to_definition ::
  "nat \<times> 'n raw_node_definition \<Rightarrow> (node_definition, workflow_format_error) result" where
  "raw_node_to_definition (i, raw) =
     and_then (map_err (FormatIdentifier (NodeContext i)) (new_node_id (raw_node_id raw))) (\<lambda>n.
     and_then (raw_ports (InputPortContext i) (raw_inputs raw)) (\<lambda>inputs.
     and_then (raw_ports (OutputPortContext i) (raw_outputs raw)) (\<lambda>outputs.
     map_err FormatWorkflow (new_node n inputs outputs))))"

definition raw_endpoint_to_definition ::
  "raw_edge_endpoint \<Rightarrow> identifier_context \<Rightarrow> identifier_context
   \<Rightarrow> (edge_endpoint, workflow_format_error) result" where
  "raw_endpoint_to_definition raw node_context port_context =
     and_then (map_err (FormatIdentifier node_context) (new_node_id (raw_node raw))) (\<lambda>n.
     and_then (map_err (FormatIdentifier port_context) (new_port_id (raw_port raw))) (\<lambda>p.
     Ok \<lparr>endpoint_node_id = n, endpoint_port_id = p\<rparr>))"

fun raw_edge_to_definition ::
  "nat \<times> raw_edge_definition \<Rightarrow> (edge_definition, workflow_format_error) result" where
  "raw_edge_to_definition (i, raw) =
     and_then (raw_endpoint_to_definition (raw_source raw) (EdgeSourceNode i) (EdgeSourcePort i)) (\<lambda>source.
     and_then (raw_endpoint_to_definition (raw_target raw) (EdgeTargetNode i) (EdgeTargetPort i)) (\<lambda>target.
     case raw_capacity raw of
       None \<Rightarrow> Ok (new_edge source target)
     | Some c \<Rightarrow> if c = 0 then Err (InvalidEdgeCapacity i c) else Ok (edge_with_capacity source target c)))"

definition to_workflow :: "'n raw_workflow_definition \<Rightarrow> (workflow_definition, workflow_format_error) result" where
  "to_workflow raw =
     and_then (validate_version (pureflow_version raw)) (\<lambda>_.
     and_then (map_err (FormatIdentifier WorkflowContext) (new_workflow_id (raw_id raw))) (\<lambda>w.
     and_then (try_map raw_node_to_definition (enumerate 0 (raw_nodes raw))) (\<lambda>nodes.
     and_then (try_map raw_edge_to_definition (enumerate 0 (raw_edges raw))) (\<lambda>edges.
     map_err FormatWorkflow (workflow_from_parts w nodes edges)))))"

section \<open>Rule set sources\<close>

record file_system =
  fs_exists :: "string \<Rightarrow> bool"
  fs_read :: "string \<Rightarrow> (string, string) result"

text \<open>The derived decoders and encoders; their errors are known by their text only.\<close>

record 'n codec =
  rule_set_from_json :: "'n json \<Rightarrow> (rule_set, string) result"
  rule_set_from_str :: "string \<Rightarrow> (rule_set, string) result"
  rule_set_to_json :: "rule_set \<Rightarrow> ('n json, string) result"
  document_from_json :: "string \<Rightarrow> ('n raw_workflow_definition, string) result"
  document_from_toml :: "string \<Rightarrow> ('n raw_workflow_definition, string) result"
  document_from_yaml :: "string \<Rightarrow> ('n raw_workflow_definition, string) result"
  document_to_json :: "'n raw_workflow_definition \<Rightarrow> (string, string) result"

type_synonym rule_set_source = "string \<Rightarrow> (rule_set, rule_source_error) result"

text \<open>\<open>str::find\<close> of a pattern, \<open>str::strip_prefix\<close>, and \<open>Path::join\<close> on Unix.\<close>

fun find_str :: "string \<Rightarrow> string \<Rightarrow> nat option" where
  "find_str pat [] = (if pat = [] then Some 0 else None)"
| "find_str pat (c # s) =
     (if take (length pat) (c # s) = pat then Some 0 else map_option Suc (find_str pat s))"

definition strip_prefix :: "string \<Rightarrow> string \<Rightarrow> string option" where
  "strip_prefix pat s = (if take (length pat) s = pat then Some (drop (length pat) s) else None)"

definition is_absolute :: "string \<Rightarrow> bool" where
  "is_absolute p \<longleftrightarrow> take 1 p = ''/''"

definition path_join :: "string \<Rightarrow> string \<Rightarrow> string" where
  "path_join base p =
     (if is_absolute p then p
      else if base = [] \<or> last base = CHR ''/'' then base @ p
      else base @ ''/'' @ p)"

definition extract_scheme :: "string \<Rightarrow> string option" where
  "extract_scheme uri = map_option (\<lambda>i. take i uri) (find_str ''://'' uri)"

definition local_resolve_path :: "string \<Rightarrow> string \<Rightarrow> string" where
  "local_resolve_path base uri =
     (let path = (case strip_prefix ''file://'' uri of Some p \<Rightarrow> p | None \<Rightarrow> uri)
      in if is_absolute path then path else path_join base path)"

definition local_fs_source :: "'n codec \<Rightarrow> file_system \<Rightarrow> string \<Rightarrow> rule_set_source" where
  "local_fs_source cd fs base uri =
     (let path = local_resolve_path base uri
      in if \<not> fs_exists fs path then Err (FileNotFound path)
         else and_then (map_err (ReadError path) (fs_read fs path)) (\<lambda>content.
           map_err (\<lambda>e. ParseError (path @ '': '' @ e)) (rule_set_from_str cd content)))"

definition embedded_source :: "rule_set \<Rightarrow> rule_set_source" where
  "embedded_source rs = (\<lambda>_. Ok rs)"

definition embedded_from_json :: "'n codec \<Rightarrow> 'n json \<Rightarrow> (rule_set_source, rule_source_error) result" where
  "embedded_from_json cd j = and_then (map_err ParseError (rule_set_from_json cd j)) (\<lambda>rs. Ok (embedded_source rs))"

record source_registry =
  registry_sources :: "(string \<times> rule_set_source) list"
  registry_base_dir :: "string option"

definition new_source_registry :: source_registry where
  "new_source_registry = \<lparr>registry_sources = [], registry_base_dir = None\<rparr>"

definition registry_with_base_dir :: "string \<Rightarrow> source_registry" where
  "registry_with_base_dir d = \<lparr>registry_sources = [], registry_base_dir = Some d\<rparr>"

definition register_source :: "string \<Rightarrow> rule_set_source \<Rightarrow> source_registry \<Rightarrow> source_registry" where
  "register_source scheme src reg = reg\<lparr>registry_sources := registry_sources reg @ [(scheme, src)]\<rparr>"

definition registry_load :: "'n codec \<Rightarrow> file_system \<Rightarrow> source_registry \<Rightarrow> rule_set_source" where
  "registry_load cd fs reg uri =
     (case extract_scheme uri of
        Some scheme \<Rightarrow>
          (case map_of (registry_sources reg) scheme of
             Some src \<Rightarrow> src uri
           | None \<Rightarrow> Err (UnknownScheme scheme))
      | None \<Rightarrow>
          local_fs_source cd fs (case registry_base_dir reg of Some d \<Rightarrow> d | None \<Rightarrow> ''.'') uri)"

section \<open>Rule sets of a document\<close>

fun resolve_node_rule_set ::
  "'n codec \<Rightarrow> file_system \<Rightarrow> source_registry \<Rightarrow> nat \<times> 'n raw_node_definition
   \<Rightarrow> (rule_set option, workflow_format_error) result" where
  "resolve_node_rule_set cd fs reg (i, raw) =
     (case (raw_rule_set raw, raw_rule_set_ref raw) of
        (Some _, Some _) \<Rightarrow> Err (FormatRuleSet i BindingConflict)
      | (Some inline, None) \<Rightarrow>
          and_then (map_err (\<lambda>e. FormatRuleSet i (BindingParse e)) (rule_set_from_json cd inline)) (\<lambda>rs. Ok (Some rs))
      | (None, Some uri) \<Rightarrow>
          and_then (map_err (\<lambda>e. FormatRuleSet i (BindingResolve e)) (registry_load cd fs reg uri)) (\<lambda>rs. Ok (Some rs))
      | (None, None) \<Rightarrow> Ok None)"

definition resolve_raw_node ::
  "'n codec \<Rightarrow> file_system \<Rightarrow> source_registry \<Rightarrow> nat \<times> 'n raw_node_definition
   \<Rightarrow> ('n raw_node_definition, workflow_format_error) result" where
  "resolve_raw_node cd fs reg ir =
     and_then (resolve_node_rule_set cd fs reg ir) (\<lambda>rs.
     and_then
       (case rs of
          None \<Rightarrow> Ok None
        | Some s \<Rightarrow>
            and_then (map_err (\<lambda>e. FormatRuleSet (fst ir) (BindingParse e)) (rule_set_to_json cd s)) (\<lambda>j. Ok (Some j)))
       (\<lambda>j. Ok ((snd ir)\<lparr>raw_rule_set := j, raw_rule_set_ref := None\<rparr>)))"

definition resolve_rule_sets ::
  "'n codec \<Rightarrow> file_system \<Rightarrow> source_registry \<Rightarrow> 'n raw_workflow_definition
   \<Rightarrow> ('n raw_workflow_definition, workflow_format_error) result" where
  "resolve_rule_sets cd fs reg raw =
     and_then (try_map (resolve_raw_node cd fs reg) (enumerate 0 (raw_nodes raw))) (\<lambda>nodes.
     Ok (raw\<lparr>raw_nodes := nodes\<rparr>))"

record loaded_workflow =
  loaded_definition :: workflow_definition
  loaded_rule_sets :: "(node_id, rule_set) btree_map"

definition load_node_rule_set ::
  "'n codec \<Rightarrow> file_system \<Rightarrow> source_registry \<Rightarrow> (node_id, rule_set) btree_map \<Rightarrow> nat \<times> 'n raw_node_definition
   \<Rightarrow> ((node_id, rule_set) btree_map, workflow_format_error) result" where
  "load_node_rule_set cd fs reg m ir =
     and_then (resolve_node_rule_set cd fs reg ir) (\<lambda>rs.
     case rs of
       None \<Rightarrow> Ok m
     | Some s \<Rightarrow>
         and_then (map_err (FormatIdentifier (NodeContext (fst ir))) (new_node_id (raw_node_id (snd ir)))) (\<lambda>n.
         Ok (bt_insert n s m)))"

definition load_workflow ::
  "'n codec \<Rightarrow> file_system \<Rightarrow> source_registry \<Rightarrow> 'n raw_workflow_definition
   \<Rightarrow> (loaded_workflow, workflow_format_error) result" where
  "load_workflow cd fs reg raw =
     and_then (to_workflow raw) (\<lambda>w.
     and_then (try_fold (load_node_rule_set cd fs reg) [] (enumerate 0 (raw_nodes raw))) (\<lambda>m.
     Ok \<lparr>loaded_definition = w, loaded_rule_sets = m\<rparr>))"

section \<open>Text formats\<close>

datatype workflow_text_error =
  TextDecode string
| TextFormat workflow_format_error
| TextEncode string

definition show_workflow_text_error :: "string \<Rightarrow> workflow_text_error \<Rightarrow> string" where
  "show_workflow_text_error fmt e =
     (case e of
        TextDecode s \<Rightarrow> ''failed to decode workflow '' @ fmt @ '': '' @ s
      | TextFormat f \<Rightarrow> ''workflow '' @ fmt @ '' is invalid: '' @ show_workflow_format_error f
      | TextEncode s \<Rightarrow> ''failed to encode workflow '' @ fmt @ '': '' @ s)"

definition raw_workflow_from_json_str ::
  "'n codec \<Rightarrow> string \<Rightarrow> ('n raw_workflow_definition, workflow_text_error) result" where
  "raw_workflow_from_json_str cd s = map_err TextDecode (document_from_json cd s)"

definition workflow_from_json_str :: "'n codec \<Rightarrow> string \<Rightarrow> (workflow_definition, workflow_text_error) result" where
  "workflow_from_json_str cd s =
     and_then (raw_workflow_from_json_str cd s) (\<lambda>raw. map_err TextFormat (to_workflow raw))"

definition raw_workflow_from_toml_str ::
  "'n codec \<Rightarrow> string \<Rightarrow> ('n raw_workflow_definition, workflow_text_error) result" where
  "raw_workflow_from_toml_str cd s = map_err TextDecode (document_from_toml cd s)"

definition workflow_from_toml_str :: "'n codec \<Rightarrow> string \<Rightarrow> (workflow_definition, workflow_text_error) result" where
  "workflow_from_toml_str cd s =
     and_then (raw_workflow_from_toml_str cd s) (\<lambda>raw. map_err TextFormat (to_workflow raw))"

definition raw_workflow_from_yaml_str ::
  "'n codec \<Rightarrow> string \<Rightarrow> ('n raw_workflow_definition, workflow_text_error) result" where
  "raw_workflow_from_yaml_str cd s = map_err TextDecode (document_from_yaml cd s)"

definition workflow_from_yaml_str :: "'n codec \<Rightarrow> string \<Rightarrow> (workflow_definition, workflow_text_error) result" where
  "workflow_from_yaml_str cd s =
     and_then (raw_workflow_from_yaml_str cd s) (\<lambda>raw. map_err TextFormat (to_workflow raw))"

definition raw_workflow_to_json_string ::
  "'n codec \<Rightarrow> 'n raw_workflow_definition \<Rightarrow> (string, workflow_text_error) result" where
  "raw_workflow_to_json_string cd raw = map_err TextEncode (document_to_json cd raw)"

end
