(* ===== verification/FormatProps.thy ===== *)
theory FormatProps
  imports Format
begin

text \<open>
  What the workflow format guarantees: documents and validated workflows correspond one to one, rule
  sets are bound to the nodes that declare them, and inlining references does not change what a
  document means.
\<close>

section \<open>Documents of workflows\<close>

fun raw_endpoint_of :: "edge_endpoint \<Rightarrow> raw_edge_endpoint" where
  "raw_endpoint_of ep = \<lparr>raw_node = node_id_str (endpoint_node_id ep), raw_port = port_id_str (endpoint_port_id ep)\<rparr>"

definition raw_edge_of :: "edge_definition \<Rightarrow> raw_edge_definition" where
  "raw_edge_of e =
     \<lparr>raw_source = raw_endpoint_of (edge_source e), raw_target = raw_endpoint_of (edge_target e),
      raw_capacity = (case edge_capacity e of DefaultCapacity \<Rightarrow> None | Explicit c \<Rightarrow> Some c)\<rparr>"

definition raw_node_of :: "node_definition \<Rightarrow> 'n raw_node_definition" where
  "raw_node_of n =
     \<lparr>raw_node_id = node_id_str (node_def_id n), raw_inputs = map port_id_str (input_ports n),
      raw_outputs = map port_id_str (output_ports n), raw_rule_set = None, raw_rule_set_ref = None\<rparr>"

definition raw_of :: "workflow_definition \<Rightarrow> 'n raw_workflow_definition" where
  "raw_of w =
     \<lparr>pureflow_version = Some CURRENT_PUREFLOW_VERSION, raw_id = workflow_id_str (workflow_def_id w),
      raw_nodes = map raw_node_of (workflow_nodes w), raw_edges = map raw_edge_of (workflow_edges w)\<rparr>"

definition erase_node :: "'n raw_node_definition \<Rightarrow> 'n raw_node_definition" where
  "erase_node raw = raw\<lparr>raw_rule_set := None, raw_rule_set_ref := None\<rparr>"

definition erase_rule_sets :: "'n raw_workflow_definition \<Rightarrow> 'n raw_workflow_definition" where
  "erase_rule_sets raw = raw\<lparr>raw_nodes := map erase_node (raw_nodes raw)\<rparr>"

definition endpoint_ok :: "edge_endpoint \<Rightarrow> bool" where
  "endpoint_ok ep \<longleftrightarrow>
     valid_identifier (node_id_str (endpoint_node_id ep)) \<and> valid_identifier (port_id_str (endpoint_port_id ep))"

definition edge_ok :: "edge_definition \<Rightarrow> bool" where
  "edge_ok e \<longleftrightarrow> endpoint_ok (edge_source e) \<and> endpoint_ok (edge_target e) \<and> capacity_ok (edge_capacity e)"

definition node_ok :: "node_definition \<Rightarrow> bool" where
  "node_ok n \<longleftrightarrow>
     valid_identifier (node_id_str (node_def_id n)) \<and> distinct (input_ports n @ output_ports n) \<and>
     list_all (\<lambda>p. valid_identifier (port_id_str p)) (input_ports n @ output_ports n)"

text \<open>What the constructors of the domain types guarantee of a workflow without cycles.\<close>

definition workflow_ok :: "workflow_definition \<Rightarrow> bool" where
  "workflow_ok w \<longleftrightarrow>
     valid_identifier (workflow_id_str (workflow_def_id w)) \<and>
     list_all node_ok (workflow_nodes w) \<and> list_all edge_ok (workflow_edges w) \<and>
     structurally_valid (workflow_nodes w) (workflow_edges w) \<and>
     acyclic (edge_relation (workflow_edges w)) \<and> no_parallel_edges (workflow_edges w)"

section \<open>Conversion, part by part\<close>

lemma try_map_enumerate:
  assumes "\<And>i x y. f (i, x) = Ok y \<longleftrightarrow> P x y"
  shows "try_map f (enumerate k xs) = Ok ys \<longleftrightarrow> list_all2 P xs ys"
  unfolding try_map_Ok_iff
proof (induction xs arbitrary: k ys)
  case (Cons x xs)
  then show ?case using assms by (auto simp: list_all2_Cons1)
qed simp

lemma list_all2_view:
  "list_all2 (\<lambda>x y. good y \<and> f x = g y) xs ys \<longleftrightarrow> list_all good ys \<and> map f xs = map g ys"
  by (induction xs arbitrary: ys) (auto simp: list_all2_Cons1 Cons_eq_map_conv)

lemma raw_ports_Ok:
  "raw_ports ctx ps = Ok qs \<longleftrightarrow> list_all (\<lambda>q. valid_identifier (port_id_str q)) qs \<and> ps = map port_id_str qs"
proof -
  have "raw_ports ctx ps = Ok qs \<longleftrightarrow> list_all2 (\<lambda>p q. valid_identifier (port_id_str q) \<and> id p = port_id_str q) ps qs"
    unfolding raw_ports_def by (rule try_map_enumerate) (auto simp: port_ident.new_Ok_iff)
  then show ?thesis by (simp only: list_all2_view list.map_id)
qed

lemma raw_node_Ok: "raw_node_to_definition (i, raw) = Ok n \<longleftrightarrow> node_ok n \<and> erase_node raw = raw_node_of n"
  by (cases raw; cases n)
    (auto simp: raw_ports_Ok node_ident.new_Ok_iff new_node_def reject_duplicate_ports_def dup_ports.check_Ok_iff
      node_ok_def erase_node_def raw_node_of_def)

lemma raw_endpoint_Ok:
  "raw_endpoint_to_definition raw c d = Ok ep \<longleftrightarrow> endpoint_ok ep \<and> raw = raw_endpoint_of ep"
  by (cases raw; cases ep)
    (auto simp: raw_endpoint_to_definition_def endpoint_ok_def node_ident.new_Ok_iff port_ident.new_Ok_iff)

lemma raw_edge_Ok: "raw_edge_to_definition (i, raw) = Ok e \<longleftrightarrow> edge_ok e \<and> raw = raw_edge_of e"
  by (cases raw; cases e; cases "edge_capacity e"; cases "raw_capacity raw")
    (auto simp: raw_endpoint_Ok edge_ok_def raw_edge_of_def new_edge_def edge_with_capacity_def)

lemma raw_nodes_Ok:
  "try_map raw_node_to_definition (enumerate k raws) = Ok ns \<longleftrightarrow>
     list_all node_ok ns \<and> map erase_node raws = map raw_node_of ns"
proof -
  have "try_map raw_node_to_definition (enumerate k raws) = Ok ns \<longleftrightarrow>
      list_all2 (\<lambda>r n. node_ok n \<and> erase_node r = raw_node_of n) raws ns"
    by (rule try_map_enumerate) (rule raw_node_Ok)
  then show ?thesis by (simp only: list_all2_view)
qed

lemma raw_edges_Ok:
  "try_map raw_edge_to_definition (enumerate k raws) = Ok es \<longleftrightarrow> list_all edge_ok es \<and> raws = map raw_edge_of es"
proof -
  have "try_map raw_edge_to_definition (enumerate k raws) = Ok es \<longleftrightarrow>
      list_all2 (\<lambda>r e. edge_ok e \<and> id r = raw_edge_of e) raws es"
    by (rule try_map_enumerate) (simp only: raw_edge_Ok id_apply)
  then show ?thesis by (simp only: list_all2_view list.map_id)
qed

lemma validate_version_Ok [simp]: "validate_version v = Ok () \<longleftrightarrow> v = Some CURRENT_PUREFLOW_VERSION"
  by (cases v) auto

lemma new_graph_Ok_iff:
  "new_graph nodes edges = Ok g \<longleftrightarrow>
     structurally_valid nodes edges \<and> acyclic (edge_relation edges) \<and> no_parallel_edges edges \<and>
     g = \<lparr>graph_nodes = nodes, graph_edges = edges\<rparr>"
proof
  assume "structurally_valid nodes edges \<and> acyclic (edge_relation edges) \<and> no_parallel_edges edges \<and>
    g = \<lparr>graph_nodes = nodes, graph_edges = edges\<rparr>"
  moreover from this obtain t where "order_result nodes edges (topological_order t)"
    "new_graph nodes edges = and_then (topological_order t) (\<lambda>_. Ok \<lparr>graph_nodes = nodes, graph_edges = edges\<rparr>)"
    using new_graph_result by blast
  ultimately show "new_graph nodes edges = Ok g"
    by (cases "topological_order t") (auto simp: order_result_def)
qed (rule new_graph_shape)

lemma to_workflow_Ok: "to_workflow raw = Ok w \<longleftrightarrow> workflow_ok w \<and> erase_rule_sets raw = raw_of w"
  by (cases raw; cases w; cases "workflow_graph w")
    (auto simp: to_workflow_def raw_nodes_Ok raw_edges_Ok workflow_ident.new_Ok_iff workflow_from_parts_def
      new_graph_Ok_iff workflow_ok_def erase_rule_sets_def raw_of_def)

section \<open>Rule sets of nodes\<close>

text \<open>Decoding what was encoded gives the rule set back.\<close>

definition faithful_codec :: "'n codec \<Rightarrow> bool" where
  "faithful_codec cd \<longleftrightarrow> (\<forall>rs j. rule_set_to_json cd rs = Ok j \<longrightarrow> rule_set_from_json cd j = Ok rs)"

lemma resolve_raw_node_spec:
  assumes "faithful_codec cd" "resolve_raw_node cd fs reg (i, raw) = Ok raw'"
  shows "erase_node raw' = erase_node raw \<and> raw_rule_set_ref raw' = None \<and>
    resolve_node_rule_set cd fs reg2 (i, raw') = resolve_node_rule_set cd fs reg (i, raw)"
proof -
  obtain rs where rs: "resolve_node_rule_set cd fs reg (i, raw) = Ok rs"
    using assms(2) by (auto simp: resolve_raw_node_def simp del: resolve_node_rule_set.simps)
  then show ?thesis
    using assms by (cases rs)
      (auto simp: resolve_raw_node_def faithful_codec_def erase_node_def
        resolve_node_rule_set.simps [of _ _ reg2] simp del: resolve_node_rule_set.simps)
qed

lemma load_fold_cong:
  assumes "list_all2 (\<lambda>(i, r) (j, s). i = j \<and> raw_node_id r = raw_node_id s \<and>
    resolve_node_rule_set cd fs reg (i, r) = resolve_node_rule_set cd fs reg2 (j, s)) irs jss"
  shows "try_fold (load_node_rule_set cd fs reg) m irs = try_fold (load_node_rule_set cd fs reg2) m jss"
  using assms
proof (induction arbitrary: m rule: list_all2_induct)
  case (Cons ir irs js jss)
  then have "load_node_rule_set cd fs reg m ir = load_node_rule_set cd fs reg2 m js"
    by (cases ir; cases js) (simp add: load_node_rule_set_def del: resolve_node_rule_set.simps)
  then show ?case using Cons.IH by (auto intro: and_then_cong)
qed simp

lemma load_node_rule_set_Ok:
  "load_node_rule_set cd fs reg m (i, raw) = Ok m' \<longleftrightarrow>
     (\<exists>rs. resolve_node_rule_set cd fs reg (i, raw) = Ok rs \<and>
        (case rs of None \<Rightarrow> m' = m
         | Some s \<Rightarrow> valid_identifier (raw_node_id raw) \<and> m' = bt_insert (NodeId (raw_node_id raw)) s m))"
proof -
  have "new_node_id (raw_node_id raw) = Ok n \<longleftrightarrow> valid_identifier (raw_node_id raw) \<and> n = NodeId (raw_node_id raw)" for n
    by (cases n) (auto simp: node_ident.new_Ok_iff)
  then show ?thesis
    by (auto simp: load_node_rule_set_def simp del: resolve_node_rule_set.simps split: option.splits)
qed

lemma load_fold_lookup:
  assumes "try_fold (load_node_rule_set cd fs reg) [] (enumerate 0 raws) = Ok m"
    and "distinct (map raw_node_id raws)"
  shows "\<forall>i<length raws. resolve_node_rule_set cd fs reg (i, raws ! i) = Ok (map_of m (NodeId (raw_node_id (raws ! i))))"
proof -
  define I where "I = (\<lambda>(ps :: (nat \<times> 'a raw_node_definition) list) m.
    (\<forall>(i, r)\<in>set ps. resolve_node_rule_set cd fs reg (i, r) = Ok (map_of m (NodeId (raw_node_id r)))) \<and>
    (\<forall>n. n \<notin> raw_node_id ` snd ` set ps \<longrightarrow> map_of m (NodeId n) = None))"
  have "I ps m" if "try_fold (load_node_rule_set cd fs reg) [] ps = Ok m" "distinct (map (raw_node_id \<circ> snd) ps)" for ps m
    using that
  proof (induction ps arbitrary: m rule: rev_induct)
    case (snoc ir ps)
    obtain i r where ir: "ir = (i, r)" by force
    from snoc.prems(1) obtain m1 where m1: "try_fold (load_node_rule_set cd fs reg) [] ps = Ok m1"
      "load_node_rule_set cd fs reg m1 (i, r) = Ok m" by (auto simp: try_fold_append ir)
    have inv: "I ps m1" using snoc.IH [OF m1(1)] snoc.prems(2) by simp
    have fresh: "raw_node_id r \<notin> raw_node_id ` snd ` set ps" using snoc.prems(2) by (auto simp: ir)
    from m1(2) obtain rs where rs: "resolve_node_rule_set cd fs reg (i, r) = Ok rs"
      "case rs of None \<Rightarrow> m = m1 | Some s \<Rightarrow> m = bt_insert (NodeId (raw_node_id r)) s m1"
      unfolding load_node_rule_set_Ok by (auto split: option.splits)
    have "map_of m1 (NodeId (raw_node_id r)) = None" using inv fresh by (simp add: I_def)
    moreover have "raw_node_id r' \<noteq> raw_node_id r" if "(j, r') \<in> set ps" for j r'
      using fresh that by (metis image_eqI snd_conv)
    ultimately show ?case using inv rs fresh unfolding I_def
      by (cases rs) (auto simp: ir simp del: resolve_node_rule_set.simps)
  qed (simp add: I_def)
  moreover have "map (raw_node_id \<circ> snd) (enumerate 0 raws) = map raw_node_id raws"
    by (metis list.map_comp map_snd_enumerate)
  ultimately have "I (enumerate 0 raws) m" using assms by metis
  moreover have "(i, raws ! i) \<in> set (enumerate 0 raws)" if "i < length raws" for i
    using that by (auto simp: in_set_enumerate_eq)
  ultimately show ?thesis unfolding I_def by blast
qed

lemma to_workflow_distinct:
  assumes "to_workflow raw = Ok w"
  shows "distinct (map raw_node_id (raw_nodes raw))"
proof -
  have "map raw_node_id (map erase_node (raw_nodes raw)) = map node_id_str (map node_def_id (workflow_nodes w))"
  proof -
    have "map erase_node (raw_nodes raw) = map raw_node_of (workflow_nodes w)"
      using assms unfolding to_workflow_Ok
      by (auto simp: erase_rule_sets_def raw_of_def dest!: arg_cong [of _ _ raw_nodes])
    from arg_cong [OF this, of "map raw_node_id"] show ?thesis by (simp add: raw_node_of_def comp_def)
  qed
  moreover have "map raw_node_id (map erase_node (raw_nodes raw)) = map raw_node_id (raw_nodes raw)"
    by (simp add: erase_node_def)
  moreover have "distinct (map node_def_id (workflow_nodes w))"
    using assms unfolding to_workflow_Ok by (simp add: workflow_ok_def structurally_valid_def)
  then have "distinct (map node_id_str (map node_def_id (workflow_nodes w)))"
    by (subst distinct_map) (simp add: inj_on_def)
  ultimately show ?thesis by simp
qed

lemma try_map_cong_map:
  "(\<And>i x. f (i, x) = f (i, g x)) \<Longrightarrow> try_map f (enumerate k xs) = try_map f (enumerate k (map g xs))"
  by (induction xs arbitrary: k) auto

lemma to_workflow_erase: "to_workflow raw = to_workflow (erase_rule_sets raw)"
proof -
  have "try_map raw_node_to_definition (enumerate 0 (raw_nodes raw)) =
      try_map raw_node_to_definition (enumerate 0 (map erase_node (raw_nodes raw)))"
    by (rule try_map_cong_map) (simp add: erase_node_def)
  then show ?thesis by (simp add: to_workflow_def erase_rule_sets_def)
qed

section \<open>Properties\<close>

text \<open>
  C25: documents and workflows correspond one to one.  A document converts into a workflow exactly when the
  workflow is valid and the document, apart from its rule sets, is the workflow written out under the
  current version.  So writing out a valid workflow and converting it gives the workflow back, no
  information of a document is lost, and nothing else is accepted.
\<close>

theorem workflow_document_roundtrip:
  "to_workflow raw = Ok w \<longleftrightarrow> workflow_ok w \<and> erase_rule_sets raw = raw_of w"
  by (rule to_workflow_Ok)

text \<open>
  C26: rule sets are bound to their nodes.  When a document loads, the workflow is that of the document and
  the table of rule sets has for every node exactly what its inline rule set or its reference resolves
  to, and nothing for a node without one.
\<close>

theorem load_workflow_binds_rule_sets:
  assumes "load_workflow cd fs reg raw = Ok lw"
  shows "to_workflow raw = Ok (loaded_definition lw) \<and>
    (\<forall>i<length (raw_nodes raw). resolve_node_rule_set cd fs reg (i, raw_nodes raw ! i) =
       Ok (map_of (loaded_rule_sets lw) (NodeId (raw_node_id (raw_nodes raw ! i)))))"
proof -
  have w: "to_workflow raw = Ok (loaded_definition lw)"
    "try_fold (load_node_rule_set cd fs reg) [] (enumerate 0 (raw_nodes raw)) = Ok (loaded_rule_sets lw)"
    using assms by (auto simp: load_workflow_def)
  then show ?thesis using load_fold_lookup [OF w(2) to_workflow_distinct [OF w(1)]] by blast
qed

text \<open>A document with a referenced rule set, a registry that knows it, and a codec for one rule set.\<close>

definition doc_rules :: rule_set where
  "doc_rules = \<lparr>rule_set_id = ''rs'', strategy = FirstMatch, rules = [], default_action = Drop, trace_conditions = False\<rparr>"

definition doc_codec :: "unit codec" where
  "doc_codec =
     \<lparr>rule_set_from_json = (\<lambda>j. if j = JBool True then Ok doc_rules else Err ''no rule set''),
      rule_set_from_str = (\<lambda>_. Err ''no rule set''),
      rule_set_to_json = (\<lambda>rs. if rs = doc_rules then Ok (JBool True) else Err ''unknown''),
      document_from_json = (\<lambda>_. Err ''no document''), document_from_toml = (\<lambda>_. Err ''no document''),
      document_from_yaml = (\<lambda>_. Err ''no document''), document_to_json = (\<lambda>_. Err ''no text'')\<rparr>"

definition doc_fs :: file_system where
  "doc_fs = \<lparr>fs_exists = (\<lambda>_. False), fs_read = (\<lambda>_. Err ''none'')\<rparr>"

definition doc_registry :: source_registry where
  "doc_registry = register_source ''db'' (embedded_source doc_rules) new_source_registry"

definition sample_document :: "unit raw_workflow_definition" where
  "sample_document =
     \<lparr>pureflow_version = Some ''1'', raw_id = ''w'',
      raw_nodes = [\<lparr>raw_node_id = ''a'', raw_inputs = [], raw_outputs = [], raw_rule_set = None,
                    raw_rule_set_ref = Some ''db://x''\<rparr>],
      raw_edges = []\<rparr>"

lemmas doc_eval = doc_rules_def doc_codec_def doc_fs_def doc_registry_def sample_document_def register_source_def
  new_source_registry_def embedded_source_def registry_load_def extract_scheme_def load_workflow_def
  load_node_rule_set_def resolve_rule_sets_def resolve_raw_node_def

lemma sample_document_converts:
  "to_workflow sample_document = Ok \<lparr>workflow_def_id = WorkflowId ''w'', workflow_graph =
     \<lparr>graph_nodes = [\<lparr>node_def_id = NodeId ''a'', input_ports = [], output_ports = []\<rparr>], graph_edges = []\<rparr>\<rparr>"
proof -
  have "valid_identifier ''w''" "valid_identifier ''a''"
    by (rule valid_identifier_ascii, simp add: ascii_graphic_def byte_def)+
  then show ?thesis
    by (simp add: to_workflow_Ok workflow_ok_def node_ok_def structurally_valid_def edge_relation_def no_parallel_edges_def
        erase_rule_sets_def erase_node_def raw_of_def raw_node_of_def sample_document_def CURRENT_PUREFLOW_VERSION_def
        acyclic_def)
qed

lemma doc_node_id: "new_node_id ''a'' = Ok (NodeId ''a'')"
proof -
  have "valid_identifier ''a''" by (rule valid_identifier_ascii, simp add: ascii_graphic_def byte_def)
  then show ?thesis by (simp add: node_ident.new_Ok_iff)
qed

lemma sample_document_loads:
  "\<exists>lw. load_workflow doc_codec doc_fs doc_registry sample_document = Ok lw \<and>
     loaded_rule_sets lw = [(NodeId ''a'', doc_rules)]"
  using sample_document_converts doc_node_id by (simp add: doc_eval)

theorem load_workflow_binds_rule_sets_witness:
  "\<exists>lw. load_workflow doc_codec doc_fs doc_registry sample_document = Ok lw \<and>
     resolve_node_rule_set doc_codec doc_fs doc_registry (0, raw_nodes sample_document ! 0) =
       Ok (map_of (loaded_rule_sets lw) (NodeId ''a'')) \<and>
     map_of (loaded_rule_sets lw) (NodeId ''a'') = Some doc_rules"
proof -
  obtain lw where lw: "load_workflow doc_codec doc_fs doc_registry sample_document = Ok lw"
    "loaded_rule_sets lw = [(NodeId ''a'', doc_rules)]" using sample_document_loads by blast
  have "raw_node_id (raw_nodes sample_document ! 0) = ''a''" "0 < length (raw_nodes sample_document)"
    by (simp_all add: sample_document_def)
  with load_workflow_binds_rule_sets [OF lw(1)] have
    "resolve_node_rule_set doc_codec doc_fs doc_registry (0, raw_nodes sample_document ! 0) =
      Ok (map_of (loaded_rule_sets lw) (NodeId ''a''))" by metis
  with lw show ?thesis by simp
qed

text \<open>
  inlining keeps the meaning.  When the encoder of rule sets is undone by its decoder, a document whose
  references were resolved loads, under any registry, to the same workflow and rule sets as the
  original document under the registry it was resolved with, and it has no references left.
\<close>

theorem resolved_document_loads_alike:
  assumes "faithful_codec cd" and "resolve_rule_sets cd fs reg raw = Ok raw'"
  shows "load_workflow cd fs reg2 raw' = load_workflow cd fs reg raw \<and>
    list_all (\<lambda>n. raw_rule_set_ref n = None) (raw_nodes raw')"
proof -
  obtain ns where ns: "list_all2 (\<lambda>ir n. resolve_raw_node cd fs reg ir = Ok n) (enumerate 0 (raw_nodes raw)) ns"
    "raw' = raw\<lparr>raw_nodes := ns\<rparr>"
    using assms(2) by (auto simp: resolve_rule_sets_def try_map_Ok_iff)
  have len: "length ns = length (raw_nodes raw)" using ns(1) by (auto dest: list_all2_lengthD)
  have each: "erase_node (ns ! i) = erase_node (raw_nodes raw ! i) \<and> raw_rule_set_ref (ns ! i) = None \<and>
      resolve_node_rule_set cd fs reg2 (i, ns ! i) = resolve_node_rule_set cd fs reg (i, raw_nodes raw ! i)"
    if "i < length ns" for i
    using list_all2_nthD2 [OF ns(1) that] that len
    by (intro resolve_raw_node_spec [OF assms(1)]) (simp add: nth_enumerate_eq)
  have "map erase_node ns = map erase_node (raw_nodes raw)"
    using each len by (intro nth_equalityI) auto
  then have "erase_rule_sets raw' = erase_rule_sets raw" by (simp add: ns(2) erase_rule_sets_def)
  then have conv: "to_workflow raw' = to_workflow raw" by (metis to_workflow_erase)
  have ids: "raw_node_id (ns ! i) = raw_node_id (raw_nodes raw ! i)" if "i < length ns" for i
    using each [OF that] by (metis erase_node_def raw_node_definition.ext_inject raw_node_definition.surjective
        raw_node_definition.update_convs(4,5))
  have "try_fold (load_node_rule_set cd fs reg2) [] (enumerate 0 ns) =
      try_fold (load_node_rule_set cd fs reg) [] (enumerate 0 (raw_nodes raw))"
    by (rule load_fold_cong, rule list_all2_all_nthI)
      (use each ids len in \<open>auto simp: nth_enumerate_eq simp del: resolve_node_rule_set.simps\<close>)
  then have "load_workflow cd fs reg2 raw' = load_workflow cd fs reg raw"
    using conv by (simp add: load_workflow_def ns(2))
  moreover have "list_all (\<lambda>n. raw_rule_set_ref n = None) ns" using each by (simp add: list_all_length)
  ultimately show ?thesis by (simp add: ns(2))
qed

theorem resolved_document_loads_alike_witness:
  "\<exists>raw'. resolve_rule_sets doc_codec doc_fs doc_registry sample_document = Ok raw' \<and>
     load_workflow doc_codec doc_fs new_source_registry raw' = load_workflow doc_codec doc_fs doc_registry sample_document"
proof -
  have faithful: "faithful_codec doc_codec" by (auto simp: faithful_codec_def doc_codec_def split: if_splits)
  obtain raw' where raw': "resolve_rule_sets doc_codec doc_fs doc_registry sample_document = Ok raw'"
    by (simp add: doc_eval)
  with resolved_document_loads_alike [OF faithful raw', of new_source_registry] show ?thesis by blast
qed

text \<open>
  a reference with the scheme \<open>file\<close> is not resolved.  A registry without a registration for that
  scheme answers with an unknown scheme, whatever the path and the base directory, although the
  documentation of the registry lists such references as always available.
\<close>

theorem file_scheme_needs_registration:
  "registry_load cd fs (registry_with_base_dir d) (''file://'' @ path) = Err (UnknownScheme ''file'')"
  by (simp add: registry_load_def registry_with_base_dir_def extract_scheme_def)

end
