(* ===== verification/WasmBatch.thy ===== *)
theory WasmBatch
  imports EngineContracts
begin

text \<open>
  The crate \<open>pureflow-wasm\<close>, \<open>lib.rs\<close>: batches of packets as values of the WebAssembly Component Model
  and back, and the invocation of a guest.

  \<open>val\<close> are the dynamic values of \<open>wasmtime\<close> that the crate uses.  Wasmtime itself (engines, compilation,
  instantiation, fuel and epochs) is a parameter, the fields of \<open>wasmtime\<close>.  The text of JSON values is that of \<open>serde_json\<close>, the fields of
  \<open>json_text\<close>.
\<close>

section \<open>Component Model values\<close>

datatype val =
  VBool bool
| VU8 nat
| VU32 nat
| VS64 int
| VFloat64 f64
| VString string
| VList "val list"
| VRecord "(string \<times> val) list"
| VVariant string "val option"
| VEnum string
| VOption "val option"
| VOk "val option"
| VErr "val option"

record 'n json_text =
  json_to_text :: "'n json \<Rightarrow> string"
  json_from_text :: "string \<Rightarrow> ('n json, string) result"

type_synonym 'a outcome_result = "('a, pureflow_error) result"

abbreviation fault :: "string \<Rightarrow> 'a outcome_result" where
  "fault m \<equiv> Err (Execution m)"

text \<open>\<open>?\<close> on the result of an identifier constructor: the error becomes a validation error.\<close>

definition checked_id :: "('i, identifier_error) result \<Rightarrow> 'i outcome_result" where
  "checked_id r = map_err (\<lambda>e. Validation (IdentifierInvalid e)) r"

section \<open>The WIT-facing types\<close>

datatype wit_payload = WitBytes "char list" | WitControl string

record wit_packet =
  wit_metadata :: message_metadata
  wit_payload :: wit_payload

record wit_port_batch =
  wit_port_id :: string
  wit_packets :: "wit_packet list"

definition to_wit_packet :: "'n json_text \<Rightarrow> 'n port_packet \<Rightarrow> wit_packet" where
  "to_wit_packet jt x =
     \<lparr>wit_metadata = envelope_metadata x,
      wit_payload = (case envelope_payload x of
          Bytes b \<Rightarrow> WitBytes b | ControlPayload v \<Rightarrow> WitControl (json_to_text jt v))\<rparr>"

definition from_wit_packet :: "'n json_text \<Rightarrow> wit_packet \<Rightarrow> 'n port_packet outcome_result" where
  "from_wit_packet jt p =
     and_then
       (case wit_payload p of
          WitBytes b \<Rightarrow> Ok (Bytes b)
        | WitControl s \<Rightarrow>
            and_then (map_err (\<lambda>e. Execution (''guest returned invalid control payload: '' @ e)) (json_from_text jt s))
              (\<lambda>v. Ok (ControlPayload v)))
       (\<lambda>payload. Ok \<lparr>envelope_metadata = wit_metadata p, envelope_payload = payload\<rparr>)"

definition to_wit_port_batches :: "'n json_text \<Rightarrow> 'n batch \<Rightarrow> wit_port_batch list" where
  "to_wit_port_batches jt inputs =
     map (\<lambda>(p, xs). \<lparr>wit_port_id = port_id_str p, wit_packets = map (to_wit_packet jt) xs\<rparr>) (packets_by_port inputs)"

definition push_wit_packet :: "'n json_text \<Rightarrow> port_id \<Rightarrow> 'n batch \<Rightarrow> wit_packet \<Rightarrow> 'n batch outcome_result" where
  "push_wit_packet jt p b x = and_then (from_wit_packet jt x) (\<lambda>y. Ok (batch_push p y b))"

definition push_wit_port_batch :: "'n json_text \<Rightarrow> 'n batch \<Rightarrow> wit_port_batch \<Rightarrow> 'n batch outcome_result" where
  "push_wit_port_batch jt b pb =
     and_then (checked_id (new_port_id (wit_port_id pb))) (\<lambda>p.
     try_fold (push_wit_packet jt p) b (wit_packets pb))"

definition from_wit_port_batches :: "'n json_text \<Rightarrow> wit_port_batch list \<Rightarrow> 'n batch outcome_result" where
  "from_wit_port_batches jt pbs = try_fold (push_wit_port_batch jt) new_batch pbs"

section \<open>Encoding\<close>

definition endpoint_to_val :: "message_endpoint \<Rightarrow> val" where
  "endpoint_to_val e =
     VRecord [(''node-id'', VString (node_id_str (message_node e))), (''port-id'', VString (port_id_str (message_port e)))]"

definition route_to_val :: "message_route \<Rightarrow> val" where
  "route_to_val r =
     VRecord [(''source'', VOption (map_option endpoint_to_val (route_source r))),
              (''target'', endpoint_to_val (route_target r))]"

definition metadata_to_val :: "message_metadata \<Rightarrow> val" where
  "metadata_to_val m =
     VRecord
       [(''message-id'', VString (message_id_str (message_id m))),
        (''workflow-id'', VString (workflow_id_str (message_workflow m))),
        (''execution'', VRecord
           [(''execution-id'', VString (execution_id_str (execution_id (message_execution m)))),
            (''attempt'', VU32 (attempt_get (attempt (message_execution m))))]),
        (''route'', route_to_val (message_route m))]"

definition bytes_to_list_val :: "char list \<Rightarrow> val" where
  "bytes_to_list_val b = VList (map (\<lambda>c. VU8 (of_char c)) b)"

fun payload_to_val :: "wit_payload \<Rightarrow> val" where
  "payload_to_val (WitBytes b) = VVariant ''bytes'' (Some (bytes_to_list_val b))"
| "payload_to_val (WitControl s) = VVariant ''control'' (Some (VString s))"

definition packet_to_val :: "wit_packet \<Rightarrow> val" where
  "packet_to_val p =
     VRecord [(''metadata'', metadata_to_val (wit_metadata p)), (''payload'', payload_to_val (wit_payload p))]"

definition port_batch_to_val :: "wit_port_batch \<Rightarrow> val" where
  "port_batch_to_val pb =
     VRecord [(''port-id'', VString (wit_port_id pb)), (''packets'', VList (map packet_to_val (wit_packets pb)))]"

definition batch_inputs_to_val :: "'n json_text \<Rightarrow> 'n batch \<Rightarrow> val" where
  "batch_inputs_to_val jt inputs = VList (map port_batch_to_val (to_wit_port_batches jt inputs))"

section \<open>Decoding\<close>

fun record_fields :: "val \<Rightarrow> string \<Rightarrow> (string \<times> val) list outcome_result" where
  "record_fields (VRecord fs) ctx = Ok fs"
| "record_fields v ctx = fault (''guest returned non-record '' @ ctx)"

definition required_field :: "(string \<times> val) list \<Rightarrow> string \<Rightarrow> string \<Rightarrow> val outcome_result" where
  "required_field fs name ctx =
     ok_or (map_of fs name) (Execution (''guest omitted '' @ ctx @ '' field '' @ name))"

definition required_string_field :: "(string \<times> val) list \<Rightarrow> string \<Rightarrow> string \<Rightarrow> string outcome_result" where
  "required_string_field fs name ctx =
     and_then (required_field fs name ctx) (\<lambda>v.
     case v of VString s \<Rightarrow> Ok s | _ \<Rightarrow> fault (''guest returned non-string '' @ ctx @ '' field '' @ name))"

definition required_u32_field :: "(string \<times> val) list \<Rightarrow> string \<Rightarrow> string \<Rightarrow> nat outcome_result" where
  "required_u32_field fs name ctx =
     and_then (required_field fs name ctx) (\<lambda>v.
     case v of VU32 n \<Rightarrow> Ok n | _ \<Rightarrow> fault (''guest returned non-u32 '' @ ctx @ '' field '' @ name))"

definition required_list_field :: "(string \<times> val) list \<Rightarrow> string \<Rightarrow> string \<Rightarrow> val list outcome_result" where
  "required_list_field fs name ctx =
     and_then (required_field fs name ctx) (\<lambda>v.
     case v of VList vs \<Rightarrow> Ok vs | _ \<Rightarrow> fault (''guest returned non-list '' @ ctx @ '' field '' @ name))"

definition endpoint_from_val :: "val \<Rightarrow> message_endpoint outcome_result" where
  "endpoint_from_val v =
     and_then (record_fields v ''message endpoint'') (\<lambda>fs.
     and_then (and_then (required_string_field fs ''node-id'' ''message endpoint'') (\<lambda>s. checked_id (new_node_id s))) (\<lambda>n.
     and_then (and_then (required_string_field fs ''port-id'' ''message endpoint'') (\<lambda>s. checked_id (new_port_id s))) (\<lambda>p.
     Ok \<lparr>message_node = n, message_port = p\<rparr>)))"

definition route_from_val :: "val \<Rightarrow> message_route outcome_result" where
  "route_from_val v =
     and_then (record_fields v ''message route'') (\<lambda>fs.
     and_then
       (and_then (required_field fs ''source'' ''message route'') (\<lambda>s.
          case s of
            VOption (Some e) \<Rightarrow> and_then (endpoint_from_val e) (\<lambda>ep. Ok (Some ep))
          | VOption None \<Rightarrow> Ok None
          | _ \<Rightarrow> fault ''guest returned non-option route source'')) (\<lambda>source.
     and_then (and_then (required_field fs ''target'' ''message route'') endpoint_from_val) (\<lambda>target.
     Ok \<lparr>route_source = source, route_target = target\<rparr>)))"

definition execution_from_val :: "val \<Rightarrow> execution_metadata outcome_result" where
  "execution_from_val v =
     and_then (record_fields v ''execution metadata'') (\<lambda>fs.
     and_then (and_then (required_string_field fs ''execution-id'' ''execution metadata'') (\<lambda>s. checked_id (new_execution_id s))) (\<lambda>i.
     and_then (required_u32_field fs ''attempt'' ''execution metadata'') (\<lambda>a.
     if a = 0 then fault ''guest returned zero execution attempt''
     else Ok \<lparr>execution_id = i, attempt = ExecutionAttempt a\<rparr>)))"

definition metadata_from_val :: "val \<Rightarrow> message_metadata outcome_result" where
  "metadata_from_val v =
     and_then (record_fields v ''message metadata'') (\<lambda>fs.
     and_then (and_then (required_string_field fs ''message-id'' ''message metadata'') (\<lambda>s. checked_id (new_message_id s))) (\<lambda>m.
     and_then (and_then (required_string_field fs ''workflow-id'' ''message metadata'') (\<lambda>s. checked_id (new_workflow_id s))) (\<lambda>w.
     and_then (and_then (required_field fs ''execution'' ''message metadata'') execution_from_val) (\<lambda>x.
     and_then (and_then (required_field fs ''route'' ''message metadata'') route_from_val) (\<lambda>r.
     Ok \<lparr>message_id = m, message_workflow = w, message_execution = x, message_route = r\<rparr>)))))"

definition bytes_from_val :: "val \<Rightarrow> char list outcome_result" where
  "bytes_from_val v =
     (case v of
        VList vs \<Rightarrow>
          try_map (\<lambda>v. case v of VU8 b \<Rightarrow> Ok (char_of b) | _ \<Rightarrow> fault ''guest returned non-u8 byte payload element'') vs
      | _ \<Rightarrow> fault ''guest returned non-list bytes payload'')"

definition payload_from_val :: "val \<Rightarrow> wit_payload outcome_result" where
  "payload_from_val v =
     (case v of
        VVariant name payload \<Rightarrow>
          (if name = ''bytes'' \<and> payload \<noteq> None then and_then (bytes_from_val (the payload)) (\<lambda>b. Ok (WitBytes b))
           else if name = ''control'' \<and> payload \<noteq> None then
             (case the payload of
                VString s \<Rightarrow> Ok (WitControl s) | _ \<Rightarrow> fault ''guest returned non-string control payload'')
           else fault (''guest returned unsupported payload variant: '' @ name))
      | _ \<Rightarrow> fault ''guest returned non-variant payload'')"

definition packet_from_val :: "val \<Rightarrow> wit_packet outcome_result" where
  "packet_from_val v =
     and_then (record_fields v ''packet'') (\<lambda>fs.
     and_then (and_then (required_field fs ''metadata'' ''packet'') metadata_from_val) (\<lambda>m.
     and_then (and_then (required_field fs ''payload'' ''packet'') payload_from_val) (\<lambda>p.
     Ok \<lparr>wit_metadata = m, wit_payload = p\<rparr>)))"

definition port_batch_from_val :: "val \<Rightarrow> wit_port_batch outcome_result" where
  "port_batch_from_val v =
     and_then (record_fields v ''port batch'') (\<lambda>fs.
     and_then (required_string_field fs ''port-id'' ''port batch'') (\<lambda>i.
     and_then (and_then (required_list_field fs ''packets'' ''port batch'') (try_map packet_from_val)) (\<lambda>ps.
     Ok \<lparr>wit_port_id = i, wit_packets = ps\<rparr>)))"

definition port_batches_from_val :: "val \<Rightarrow> wit_port_batch list outcome_result" where
  "port_batches_from_val v =
     (case v of VList vs \<Rightarrow> try_map port_batch_from_val vs | _ \<Rightarrow> fault ''guest returned non-list batch output'')"

definition batch_error_from_val :: "val \<Rightarrow> pureflow_error" where
  "batch_error_from_val v =
     (case v of
        VVariant name (Some (VString m)) \<Rightarrow> Execution (''guest returned '' @ name @ '': '' @ m)
      | VVariant name (Some _) \<Rightarrow> Execution (''guest returned malformed '' @ name @ '' error'')
      | VVariant name None \<Rightarrow> Execution (''guest returned '' @ name @ '' without detail'')
      | _ \<Rightarrow> Execution ''guest returned malformed batch error'')"

definition batch_outputs_from_result_val :: "'n json_text \<Rightarrow> val \<Rightarrow> 'n batch outcome_result" where
  "batch_outputs_from_result_val jt v =
     (case v of
        VOk (Some w) \<Rightarrow> and_then (port_batches_from_val w) (from_wit_port_batches jt)
      | VOk None \<Rightarrow> fault ''guest returned empty ok result from batch.invoke''
      | VErr (Some w) \<Rightarrow> Err (batch_error_from_val w)
      | VErr None \<Rightarrow> fault ''guest returned empty error from batch.invoke''
      | _ \<Rightarrow> fault ''guest returned non-result from batch.invoke'')"

section \<open>Capabilities, limits and invocation\<close>

definition validate_wasm_capabilities :: "node_capabilities \<Rightarrow> (unit, pureflow_error) result" where
  "validate_wasm_capabilities c =
     (case cap_effects c of
        [] \<Rightarrow> Ok ()
      | e # _ \<Rightarrow> Err (Validation (CapabilityInvalid (UnenforceableEffectCapability (cap_node_id c) e))))"

text \<open>Durations are counted in milliseconds.\<close>

record execution_limits =
  limit_fuel :: nat
  cancellation_epoch_deadline :: nat
  cancellation_poll_interval :: nat

definition DEFAULT_GUEST_FUEL :: nat where
  "DEFAULT_GUEST_FUEL = 100000000"

definition DEFAULT_CANCELLATION_EPOCH_DEADLINE :: nat where
  "DEFAULT_CANCELLATION_EPOCH_DEADLINE = 1"

definition DEFAULT_CANCELLATION_POLL_INTERVAL :: nat where
  "DEFAULT_CANCELLATION_POLL_INTERVAL = 1"

definition new_limits :: "nat \<Rightarrow> execution_limits" where
  "new_limits n =
     \<lparr>limit_fuel = n, cancellation_epoch_deadline = DEFAULT_CANCELLATION_EPOCH_DEADLINE,
      cancellation_poll_interval = DEFAULT_CANCELLATION_POLL_INTERVAL\<rparr>"

definition limits_with_epoch_deadline :: "nat \<Rightarrow> execution_limits \<Rightarrow> execution_limits" where
  "limits_with_epoch_deadline ticks l = l\<lparr>cancellation_epoch_deadline := ticks\<rparr>"

definition limits_with_poll_interval :: "nat \<Rightarrow> execution_limits \<Rightarrow> execution_limits" where
  "limits_with_poll_interval d l = l\<lparr>cancellation_poll_interval := d\<rparr>"

definition default_limits :: execution_limits where
  "default_limits = new_limits DEFAULT_GUEST_FUEL"

text \<open>
  What the crate uses of Wasmtime and of the thread library.  A compiled component is a value of type
  \<open>'c\<close>; \<open>func_call\<close> is a call of an exported function in a fresh instance, given the fuel of the store,
  its epoch deadline and whether the watcher incremented the epoch during the call.
\<close>

record guest_call =
  call_result :: "(val, string) result"
  remaining_fuel :: "nat option"

record 'c wasmtime =
  engine_new :: "(unit, string) result"
  component_from_binary :: "char list \<Rightarrow> ('c, string) result"
  store_set_fuel :: "nat \<Rightarrow> (unit, string) result"
  spawn_watcher :: "(unit, string) result"
  linker_instantiate :: "'c \<Rightarrow> (unit, string) result"
  export_index :: "'c \<Rightarrow> string list \<Rightarrow> bool"
  export_func :: "'c \<Rightarrow> string list \<Rightarrow> bool"
  func_call :: "'c \<Rightarrow> string list \<Rightarrow> nat \<Rightarrow> nat \<Rightarrow> bool \<Rightarrow> val list \<Rightarrow> guest_call"

record 'c batch_component =
  guest_component :: 'c
  guest_limits :: execution_limits

definition from_component_bytes_with_limits ::
  "'c wasmtime \<Rightarrow> char list \<Rightarrow> execution_limits \<Rightarrow> ('c batch_component, pureflow_error) result" where
  "from_component_bytes_with_limits wt bytes l =
     and_then (map_err (\<lambda>e. Execution (''failed to create Wasmtime engine: '' @ e)) (engine_new wt)) (\<lambda>_.
     and_then (map_err (\<lambda>e. Execution (''failed to compile component: '' @ e)) (component_from_binary wt bytes)) (\<lambda>c.
     Ok \<lparr>guest_component = c, guest_limits = l\<rparr>))"

definition from_component_bytes ::
  "'c wasmtime \<Rightarrow> char list \<Rightarrow> ('c batch_component, pureflow_error) result" where
  "from_component_bytes wt bytes = from_component_bytes_with_limits wt bytes default_limits"

definition from_component_bytes_with_capabilities_and_limits ::
  "'c wasmtime \<Rightarrow> char list \<Rightarrow> node_capabilities \<Rightarrow> execution_limits \<Rightarrow> ('c batch_component, pureflow_error) result" where
  "from_component_bytes_with_capabilities_and_limits wt bytes caps l =
     and_then (validate_wasm_capabilities caps) (\<lambda>_. from_component_bytes_with_limits wt bytes l)"

definition from_component_bytes_with_capabilities ::
  "'c wasmtime \<Rightarrow> char list \<Rightarrow> node_capabilities \<Rightarrow> ('c batch_component, pureflow_error) result" where
  "from_component_bytes_with_capabilities wt bytes caps =
     from_component_bytes_with_capabilities_and_limits wt bytes caps default_limits"

text \<open>
  The watcher thread polls the token until the call has completed.  The list holds the signals at its
  polls before it sees the completion; the result says whether it interrupted the call.
\<close>

fun watch :: "cancellation_token \<Rightarrow> signal_store list \<Rightarrow> bool" where
  "watch t [] = False"
| "watch t (st # polls) = (if is_cancelled st t then True else watch t polls)"

definition to_ascii_lowercase :: "string \<Rightarrow> string" where
  "to_ascii_lowercase s =
     map (\<lambda>c. if 65 \<le> (of_char c :: nat) \<and> (of_char c :: nat) \<le> 90 then char_of ((of_char c :: nat) + 32) else c) s"

fun contains_str :: "string \<Rightarrow> string \<Rightarrow> bool" where
  "contains_str p [] = (p = [])"
| "contains_str p (c # s) = (take (length p) (c # s) = p \<or> contains_str p s)"

definition map_guest_call_error :: "string \<Rightarrow> execution_limits \<Rightarrow> nat option \<Rightarrow> pureflow_error" where
  "map_guest_call_error e l remaining =
     (if remaining = Some 0 \<or> contains_str ''fuel'' (to_ascii_lowercase e)
      then Execution (''guest exceeded Wasmtime fuel limit of '' @ show_nat (limit_fuel l) @ '' units'')
      else Execution (''guest invoke failed: '' @ e))"

definition ensure :: "bool \<Rightarrow> string \<Rightarrow> (unit, pureflow_error) result" where
  "ensure b m = (if b then Ok () else fault m)"

definition BATCH_EXPORT :: string where
  "BATCH_EXPORT = ''pureflow:batch/batch@0.1.0''"

text \<open>\<open>st\<close> and \<open>st'\<close> are the signals when the call starts and after the watcher has finished.\<close>

definition invoke_with_cancellation ::
  "'c wasmtime \<Rightarrow> 'n json_text \<Rightarrow> 'c batch_component \<Rightarrow> 'n batch \<Rightarrow> cancellation_token
   \<Rightarrow> signal_store \<Rightarrow> signal_store list \<Rightarrow> signal_store \<Rightarrow> 'n batch outcome_result" where
  "invoke_with_cancellation wt jt bc inputs t st polls st' =
     (case token_request st t of
        Some r \<Rightarrow> Err (Cancellation (reason r))
      | None \<Rightarrow>
          and_then (map_err (\<lambda>e. Execution (''failed to configure guest fuel: '' @ e))
            (store_set_fuel wt (limit_fuel (guest_limits bc)))) (\<lambda>_.
          and_then (map_err (\<lambda>e. Execution (''failed to start WASM cancellation watcher: '' @ e)) (spawn_watcher wt)) (\<lambda>_.
          and_then (map_err (\<lambda>e. Execution (''failed to instantiate component: '' @ e))
            (linker_instantiate wt (guest_component bc))) (\<lambda>_.
          and_then (ensure (export_index wt (guest_component bc) [BATCH_EXPORT])
            (''component does not export '' @ BATCH_EXPORT)) (\<lambda>_.
          and_then (ensure (export_index wt (guest_component bc) [BATCH_EXPORT, ''invoke''])
            ''component does not export batch.invoke'') (\<lambda>_.
          and_then (ensure (export_func wt (guest_component bc) [BATCH_EXPORT, ''invoke''])
            ''batch.invoke export is not a function'') (\<lambda>_.
          let interrupted = watch t polls;
              call = func_call wt (guest_component bc) [BATCH_EXPORT, ''invoke''] (limit_fuel (guest_limits bc))
                (cancellation_epoch_deadline (guest_limits bc)) interrupted [batch_inputs_to_val jt inputs] in
          if interrupted
          then Err (Cancellation (case token_request st' t of
                 None \<Rightarrow> ''wasm guest invocation cancelled'' | Some r \<Rightarrow> reason r))
          else and_then (map_err (\<lambda>e. map_guest_call_error e (guest_limits bc) (remaining_fuel call)) (call_result call))
                 (batch_outputs_from_result_val jt))))))))"

text \<open>\<open>invoke\<close> passes a token of its own that nobody can cancel: its signal is fresh.\<close>

definition invoke ::
  "'c wasmtime \<Rightarrow> 'n json_text \<Rightarrow> 'c batch_component \<Rightarrow> 'n batch \<Rightarrow> nat \<Rightarrow> 'n batch outcome_result" where
  "invoke wt jt bc inputs polls =
     (let (t, st) = token_active [] in
      invoke_with_cancellation wt jt bc inputs t st (replicate polls st) st)"

end
