(* ===== verification/WasmRules.thy ===== *)
theory WasmRules
  imports WasmBatch Rules
begin

text \<open>
  The host side of the rule guests, \<open>rules.rs\<close> of \<open>pureflow-wasm\<close>: rule sets and evaluation contexts as
  Component Model values, the call of a guest and the decoding of its decision.  Conditions are recursive
  and the values are not, so a condition becomes an arena of nodes that name their children by index.
\<close>

section \<open>Contexts and components\<close>

definition RULES_INTERFACE_EXPORT :: string where
  "RULES_INTERFACE_EXPORT = ''pureflow:rules/rules@0.1.0''"

definition EVALUATE_EXPORT :: string where
  "EVALUATE_EXPORT = ''evaluate''"

record 'n host_eval_context =
  host_payload :: "'n packet_payload"
  host_tags :: "(string, scalar_value) btree_map"
  host_source_node :: "string option"
  host_arrival_port :: "string option"
  host_hop_count :: nat
  host_workflow_id :: string
  host_execution_metadata :: "(string, scalar_value) btree_map"

definition default_host_context :: "'n host_eval_context" where
  "default_host_context =
     \<lparr>host_payload = Bytes [], host_tags = [], host_source_node = None, host_arrival_port = None,
      host_hop_count = 0, host_workflow_id = [], host_execution_metadata = []\<rparr>"

record 'c rule_component =
  rule_guest :: 'c
  rule_limits :: execution_limits

definition rule_component_with_limits ::
  "'c wasmtime \<Rightarrow> char list \<Rightarrow> execution_limits \<Rightarrow> ('c rule_component, pureflow_error) result" where
  "rule_component_with_limits wt bytes l =
     and_then (map_err (\<lambda>e. Execution (''failed to create Wasmtime engine: '' @ e)) (engine_new wt)) (\<lambda>_.
     and_then (map_err (\<lambda>e. Execution (''failed to compile rule component: '' @ e)) (component_from_binary wt bytes)) (\<lambda>c.
     Ok \<lparr>rule_guest = c, rule_limits = l\<rparr>))"

definition rule_component_from_bytes ::
  "'c wasmtime \<Rightarrow> char list \<Rightarrow> ('c rule_component, pureflow_error) result" where
  "rule_component_from_bytes wt bytes = rule_component_with_limits wt bytes default_limits"

definition rule_component_with_capabilities ::
  "'c wasmtime \<Rightarrow> char list \<Rightarrow> node_capabilities \<Rightarrow> ('c rule_component, pureflow_error) result" where
  "rule_component_with_capabilities wt bytes caps =
     and_then (validate_wasm_capabilities caps) (\<lambda>_. rule_component_from_bytes wt bytes)"

section \<open>Encoding\<close>

abbreviation U32_MAX :: nat where
  "U32_MAX \<equiv> 2 ^ 32 - 1"

definition variant :: "string \<Rightarrow> val option \<Rightarrow> val" where
  "variant name payload = VVariant name payload"

fun scalar_to_val :: "scalar_value \<Rightarrow> val" where
  "scalar_to_val (SString s) = variant ''text'' (Some (VString s))"
| "scalar_to_val (SInteger i) = variant ''integer'' (Some (VS64 i))"
| "scalar_to_val (SFloat x) = variant ''float-value'' (Some (VFloat64 x))"
| "scalar_to_val (SBoolean b) = variant ''boolean'' (Some (VBool b))"
| "scalar_to_val SNull = variant ''null-value'' None"

definition scalar_entry_to_val :: "string \<Rightarrow> scalar_value \<Rightarrow> val" where
  "scalar_entry_to_val k v = VRecord [(''key'', VString k), (''value'', scalar_to_val v)]"

fun field_predicate :: "field_path \<Rightarrow> scalar_value \<Rightarrow> val" where
  "field_predicate (FieldPath p) v = VRecord [(''path'', VString p), (''value'', scalar_to_val v)]"

text \<open>The new node is pushed after its children; its index saturates at the largest \<open>u32\<close>.\<close>

definition push_val :: "val \<Rightarrow> val list \<Rightarrow> nat \<times> val list" where
  "push_val node nodes = (min (length nodes) U32_MAX, nodes @ [node])"

fun push_condition :: "condition \<Rightarrow> val list \<Rightarrow> nat \<times> val list"
  and push_conditions :: "condition list \<Rightarrow> val list \<Rightarrow> val list \<times> val list" where
  "push_condition (FieldEq p v) nodes = push_val (variant ''field-eq'' (Some (field_predicate p v))) nodes"
| "push_condition (FieldNeq p v) nodes = push_val (variant ''field-neq'' (Some (field_predicate p v))) nodes"
| "push_condition (FieldGt p v) nodes = push_val (variant ''field-gt'' (Some (field_predicate p v))) nodes"
| "push_condition (FieldLt p v) nodes = push_val (variant ''field-lt'' (Some (field_predicate p v))) nodes"
| "push_condition (FieldGte p v) nodes = push_val (variant ''field-gte'' (Some (field_predicate p v))) nodes"
| "push_condition (FieldLte p v) nodes = push_val (variant ''field-lte'' (Some (field_predicate p v))) nodes"
| "push_condition (FieldIn p vs) nodes =
     push_val (variant ''field-in'' (Some (VRecord
       [(''path'', VString (show_path p)), (''values'', VList (map scalar_to_val vs))]))) nodes"
| "push_condition (FieldExists p) nodes = push_val (variant ''field-exists'' (Some (VString (show_path p)))) nodes"
| "push_condition (FieldAbsent p) nodes = push_val (variant ''field-absent'' (Some (VString (show_path p)))) nodes"
| "push_condition (FieldMatches p g) nodes =
     push_val (variant ''field-matches'' (Some (VRecord
       [(''path'', VString (show_path p)), (''pattern'', VString (show_glob g))]))) nodes"
| "push_condition (TagEq k v) nodes = push_val (variant ''tag-eq'' (Some (scalar_entry_to_val k v))) nodes"
| "push_condition (TagExists k) nodes = push_val (variant ''tag-exists'' (Some (VString k))) nodes"
| "push_condition (TagAbsent k) nodes = push_val (variant ''tag-absent'' (Some (VString k))) nodes"
| "push_condition (SourceNode n) nodes = push_val (variant ''source-node'' (Some (VString (node_id_str n)))) nodes"
| "push_condition (ArrivedOnPort p) nodes =
     push_val (variant ''arrived-on-port'' (Some (VString (port_id_str p)))) nodes"
| "push_condition (HopCountGt n) nodes = push_val (variant ''hop-count-gt'' (Some (VU32 n))) nodes"
| "push_condition (HopCountLte n) nodes = push_val (variant ''hop-count-lte'' (Some (VU32 n))) nodes"
| "push_condition (WorkflowIs w) nodes = push_val (variant ''workflow-is'' (Some (VString (workflow_id_str w)))) nodes"
| "push_condition (ExecutionMetadataEq k v) nodes =
     push_val (variant ''execution-metadata-eq'' (Some (scalar_entry_to_val k v))) nodes"
| "push_condition (And cs) nodes =
     (let (indices, nodes1) = push_conditions cs nodes in push_val (variant ''and-node'' (Some (VList indices))) nodes1)"
| "push_condition (Or cs) nodes =
     (let (indices, nodes1) = push_conditions cs nodes in push_val (variant ''or-node'' (Some (VList indices))) nodes1)"
| "push_condition (Not c) nodes =
     (let (index, nodes1) = push_condition c nodes in push_val (variant ''not-node'' (Some (VU32 index))) nodes1)"
| "push_condition Always nodes = push_val (variant ''always'' None) nodes"
| "push_condition Never nodes = push_val (variant ''never'' None) nodes"
| "push_conditions [] nodes = ([], nodes)"
| "push_conditions (c # cs) nodes =
     (let (index, nodes1) = push_condition c nodes; (indices, nodes2) = push_conditions cs nodes1
      in (VU32 index # indices, nodes2))"

definition condition_tree_to_val :: "condition \<Rightarrow> val" where
  "condition_tree_to_val c =
     (let (root_index, nodes) = push_condition c []
      in VRecord [(''nodes'', VList nodes), (''root'', VU32 root_index)])"

fun action_to_val :: "rule_action \<Rightarrow> val" where
  "action_to_val (Route p) = variant ''route'' (Some (VString (port_id_str p)))"
| "action_to_val Drop = variant ''drop'' None"
| "action_to_val (DeadLetter r) = variant ''dead-letter'' (Some (VString r))"
| "action_to_val (Tag k v) = variant ''tag'' (Some (scalar_entry_to_val k v))"
| "action_to_val (Halt m) = variant ''halt'' (Some (VString m))"

fun strategy_to_val :: "evaluation_strategy \<Rightarrow> val" where
  "strategy_to_val FirstMatch = VEnum ''first-match''"
| "strategy_to_val AllMatches = VEnum ''all-matches''"
| "strategy_to_val Score = VEnum ''score''"

definition rule_to_val :: "rule \<Rightarrow> val" where
  "rule_to_val r =
     VRecord [(''id'', VString (rule_id r)), (''condition'', condition_tree_to_val (rule_condition r)),
       (''action'', action_to_val (rule_action r)), (''priority'', VU32 (rule_priority r)),
       (''description'', VString (rule_description r))]"

definition rule_set_to_val :: "rule_set \<Rightarrow> val" where
  "rule_set_to_val rs =
     VRecord [(''id'', VString (rule_set_id rs)), (''strategy'', strategy_to_val (strategy rs)),
       (''rules'', VList (map rule_to_val (rules rs))), (''default-action'', action_to_val (default_action rs)),
       (''trace-conditions'', VBool (trace_conditions rs))]"

definition scalar_entries_to_val :: "(string, scalar_value) btree_map \<Rightarrow> val list" where
  "scalar_entries_to_val m = map (\<lambda>(k, v). scalar_entry_to_val k v) m"

fun packet_payload_to_val :: "'n json_text \<Rightarrow> 'n packet_payload \<Rightarrow> val" where
  "packet_payload_to_val jt (Bytes b) = variant ''bytes'' (Some (VList (map (\<lambda>c. VU8 (of_char c)) b)))"
| "packet_payload_to_val jt (ControlPayload v) = variant ''control'' (Some (VString (json_to_text jt v)))"

definition eval_context_to_val :: "'n json_text \<Rightarrow> 'n host_eval_context \<Rightarrow> val" where
  "eval_context_to_val jt c =
     VRecord [(''payload'', packet_payload_to_val jt (host_payload c)),
       (''tags'', VList (scalar_entries_to_val (host_tags c))),
       (''source-node'', VOption (map_option VString (host_source_node c))),
       (''arrival-port'', VOption (map_option VString (host_arrival_port c))),
       (''hop-count'', VU32 (host_hop_count c)), (''workflow-id'', VString (host_workflow_id c)),
       (''execution-metadata'', VList (scalar_entries_to_val (host_execution_metadata c)))]"

section \<open>Decoding\<close>

definition as_string :: "val \<Rightarrow> string \<Rightarrow> string outcome_result" where
  "as_string v ctx = (case v of VString s \<Rightarrow> Ok s | _ \<Rightarrow> fault (''guest returned non-string '' @ ctx))"

definition as_variant :: "val \<Rightarrow> string \<Rightarrow> (string \<times> val option) outcome_result" where
  "as_variant v ctx =
     (case v of VVariant name payload \<Rightarrow> Ok (name, payload) | _ \<Rightarrow> fault (''guest returned non-variant '' @ ctx))"

definition optional_string :: "val \<Rightarrow> string option outcome_result" where
  "optional_string v =
     (case v of
        VOption (Some i) \<Rightarrow> and_then (as_string i ''option string'') (\<lambda>s. Ok (Some s))
      | VOption None \<Rightarrow> Ok None
      | _ \<Rightarrow> fault ''guest returned non-option value'')"

definition surface_from_val :: "val \<Rightarrow> condition_surface outcome_result" where
  "surface_from_val v =
     (case v of
        VEnum name \<Rightarrow>
          (if name = ''payload'' then Ok PayloadSurface
           else if name = ''tag'' then Ok TagSurface
           else if name = ''provenance'' then Ok ProvenanceSurface
           else if name = ''execution-context'' then Ok ExecutionContextSurface
           else if name = ''combinator'' then Ok CombinatorSurface
           else if name = ''constant'' then Ok ConstantSurface
           else fault (''guest returned unknown condition surface: '' @ name))
      | _ \<Rightarrow> fault ''guest returned non-enum condition surface'')"

definition condition_trace_from_val :: "val \<Rightarrow> condition_trace outcome_result" where
  "condition_trace_from_val v =
     and_then (record_fields v ''condition trace'') (\<lambda>fs.
     and_then (required_string_field fs ''rule-id'' ''condition trace'') (\<lambda>i.
     and_then (and_then (required_field fs ''surface'' ''condition trace'') surface_from_val) (\<lambda>s.
     and_then (required_field fs ''matched'' ''condition trace'') (\<lambda>b.
     case b of
       VBool matched \<Rightarrow>
         Ok \<lparr>trace_rule_id = i, trace_description = [], trace_matched = matched, trace_surface = s\<rparr>
     | _ \<Rightarrow> fault ''guest returned non-bool condition trace match''))))"

definition scalar_from_val :: "val \<Rightarrow> scalar_value outcome_result" where
  "scalar_from_val v =
     and_then (as_variant v ''scalar value'') (\<lambda>(name, payload).
     if name = ''text'' \<and> payload \<noteq> None
       then and_then (as_string (the payload) ''text scalar'') (\<lambda>s. Ok (SString s))
     else if name = ''integer'' \<and> payload \<noteq> None
       then (case the payload of VS64 i \<Rightarrow> Ok (SInteger i) | _ \<Rightarrow> fault ''guest returned non-s64 integer scalar'')
     else if name = ''float-value'' \<and> payload \<noteq> None
       then (case the payload of VFloat64 x \<Rightarrow> Ok (SFloat x) | _ \<Rightarrow> fault ''guest returned non-f64 float scalar'')
     else if name = ''boolean'' \<and> payload \<noteq> None
       then (case the payload of VBool b \<Rightarrow> Ok (SBoolean b) | _ \<Rightarrow> fault ''guest returned non-bool boolean scalar'')
     else if name = ''null-value'' then Ok SNull
     else fault (''guest returned unsupported scalar value: '' @ name))"

definition scalar_entry_from_val :: "val \<Rightarrow> (string \<times> scalar_value) outcome_result" where
  "scalar_entry_from_val v =
     and_then (record_fields v ''scalar entry'') (\<lambda>fs.
     and_then (required_string_field fs ''key'' ''scalar entry'') (\<lambda>k.
     and_then (and_then (required_field fs ''value'' ''scalar entry'') scalar_from_val) (\<lambda>s.
     Ok (k, s))))"

definition action_from_val :: "val \<Rightarrow> rule_action outcome_result" where
  "action_from_val v =
     and_then (as_variant v ''rule action'') (\<lambda>(name, payload).
     if name = ''route'' \<and> payload \<noteq> None
       then and_then (as_string (the payload) ''route port'') (\<lambda>s. and_then (checked_id (new_port_id s)) (\<lambda>p. Ok (Route p)))
     else if name = ''drop'' then Ok Drop
     else if name = ''dead-letter'' \<and> payload \<noteq> None
       then and_then (as_string (the payload) ''dead-letter reason'') (\<lambda>s. Ok (DeadLetter s))
     else if name = ''tag'' \<and> payload \<noteq> None
       then and_then (scalar_entry_from_val (the payload)) (\<lambda>(k, s). Ok (Tag k s))
     else if name = ''halt'' \<and> payload \<noteq> None
       then and_then (as_string (the payload) ''halt message'') (\<lambda>s. Ok (Halt s))
     else fault (''guest returned unsupported rule action: '' @ name))"

definition decision_from_val :: "val \<Rightarrow> rule_decision outcome_result" where
  "decision_from_val v =
     and_then (record_fields v ''rule decision'') (\<lambda>fs.
     and_then (and_then (required_field fs ''action'' ''rule decision'') action_from_val) (\<lambda>a.
     and_then (and_then (required_field fs ''matched-rule'' ''rule decision'') optional_string) (\<lambda>m.
     and_then (and_then (required_list_field fs ''tags-applied'' ''rule decision'') (try_map scalar_entry_from_val)) (\<lambda>ts.
     and_then (and_then (required_list_field fs ''conditions-evaluated'' ''rule decision'') (try_map condition_trace_from_val)) (\<lambda>cs.
     Ok \<lparr>decision_action = a, matched_rule = m, tags_applied = ts, conditions_evaluated = cs\<rparr>)))))"

definition rule_error_from_val :: "val \<Rightarrow> pureflow_error" where
  "rule_error_from_val v =
     (case v of
        VVariant name (Some (VString m)) \<Rightarrow> Execution (''guest rule '' @ name @ '': '' @ m)
      | VVariant name (Some _) \<Rightarrow> Execution (''guest returned malformed '' @ name @ '' rule error'')
      | VVariant name None \<Rightarrow> Execution (''guest returned '' @ name @ '' without detail'')
      | _ \<Rightarrow> Execution ''guest returned malformed rule error'')"

definition decision_from_result_val :: "val \<Rightarrow> rule_decision outcome_result" where
  "decision_from_result_val v =
     (case v of
        VOk (Some w) \<Rightarrow> decision_from_val w
      | VOk None \<Rightarrow> fault ''guest returned empty ok result from rules.evaluate''
      | VErr (Some w) \<Rightarrow> Err (rule_error_from_val w)
      | VErr None \<Rightarrow> fault ''guest returned empty error from rules.evaluate''
      | _ \<Rightarrow> fault ''guest returned non-result from rules.evaluate'')"

section \<open>The call\<close>

text \<open>As for batches, \<open>st\<close>, \<open>polls\<close> and \<open>st'\<close> are the signals before, during and after the call.\<close>

definition evaluate_with_cancellation ::
  "'c wasmtime \<Rightarrow> 'n json_text \<Rightarrow> 'c rule_component \<Rightarrow> rule_set \<Rightarrow> 'n host_eval_context \<Rightarrow> cancellation_token
   \<Rightarrow> signal_store \<Rightarrow> signal_store list \<Rightarrow> signal_store \<Rightarrow> rule_decision outcome_result" where
  "evaluate_with_cancellation wt jt rc rs c t st polls st' =
     (case token_request st t of
        Some r \<Rightarrow> Err (Cancellation (reason r))
      | None \<Rightarrow>
          and_then (map_err (\<lambda>e. Execution (''failed to configure guest fuel: '' @ e))
            (store_set_fuel wt (limit_fuel (rule_limits rc)))) (\<lambda>_.
          and_then (map_err (\<lambda>e. Execution (''failed to start WASM cancellation watcher: '' @ e)) (spawn_watcher wt)) (\<lambda>_.
          and_then (map_err (\<lambda>e. Execution (''failed to instantiate rule component: '' @ e))
            (linker_instantiate wt (rule_guest rc))) (\<lambda>_.
          and_then (ensure (export_index wt (rule_guest rc) [RULES_INTERFACE_EXPORT])
            (''component does not export '' @ RULES_INTERFACE_EXPORT)) (\<lambda>_.
          and_then (ensure (export_index wt (rule_guest rc) [RULES_INTERFACE_EXPORT, EVALUATE_EXPORT])
            ''component does not export rules.evaluate'') (\<lambda>_.
          and_then (ensure (export_func wt (rule_guest rc) [RULES_INTERFACE_EXPORT, EVALUATE_EXPORT])
            ''rules.evaluate export is not a function'') (\<lambda>_.
          let interrupted = watch t polls;
              call = func_call wt (rule_guest rc) [RULES_INTERFACE_EXPORT, EVALUATE_EXPORT] (limit_fuel (rule_limits rc))
                (cancellation_epoch_deadline (rule_limits rc)) interrupted
                [rule_set_to_val rs, eval_context_to_val jt c] in
          if interrupted
          then Err (Cancellation (case token_request st' t of
                 None \<Rightarrow> ''wasm rule evaluation cancelled'' | Some r \<Rightarrow> reason r))
          else and_then (map_err (\<lambda>e. map_guest_call_error e (rule_limits rc) (remaining_fuel call)) (call_result call))
                 decision_from_result_val)))))))"

definition evaluate_in_guest ::
  "'c wasmtime \<Rightarrow> 'n json_text \<Rightarrow> 'c rule_component \<Rightarrow> rule_set \<Rightarrow> 'n host_eval_context \<Rightarrow> nat
   \<Rightarrow> rule_decision outcome_result" where
  "evaluate_in_guest wt jt rc rs c polls =
     (let (t, st) = token_active [] in
      evaluate_with_cancellation wt jt rc rs c t st (replicate polls st) st)"

end
