(* ===== verification/RulesGuest.thy ===== *)
theory RulesGuest
  imports WasmRules
begin

text \<open>
  The guest side of rule evaluation: the types of \<open>wit/pureflow-rules.wit\<close>, how their values appear as
  Component Model values, and the evaluator of the sample guest \<open>fixtures/rules-guest\<close>.

  The guest follows the indices of an arena it is given, and nothing in the types rules out a cycle
  there: \<open>eval_node\<close> is a partial function, with the value \<open>None\<close> when it does not return.  The
  \<open>serde_json\<close> of the guest is the parameter \<open>json_text\<close>.
\<close>

section \<open>The types of the interface\<close>

datatype wit_scalar = WText string | WInteger int | WFloat f64 | WBoolean bool | WNull

record wit_entry =
  entry_key :: string
  entry_value :: wit_scalar

record wit_predicate =
  predicate_path :: string
  predicate_value :: wit_scalar

record wit_in_predicate =
  in_path :: string
  in_values :: "wit_scalar list"

record wit_match_predicate =
  match_path :: string
  match_pattern :: string

datatype condition_node =
  NFieldEq wit_predicate
| NFieldNeq wit_predicate
| NFieldGt wit_predicate
| NFieldLt wit_predicate
| NFieldGte wit_predicate
| NFieldLte wit_predicate
| NFieldIn wit_in_predicate
| NFieldExists string
| NFieldAbsent string
| NFieldMatches wit_match_predicate
| NTagEq wit_entry
| NTagExists string
| NTagAbsent string
| NSourceNode string
| NArrivedOnPort string
| NHopCountGt nat
| NHopCountLte nat
| NWorkflowIs string
| NExecutionMetadataEq wit_entry
| NAnd "nat list"
| NOr "nat list"
| NNot nat
| NAlways
| NNever

record condition_tree =
  tree_nodes :: "condition_node list"
  tree_root :: nat

datatype wit_action = WRoute string | WDrop | WDeadLetter string | WTag wit_entry | WHalt string

record wit_rule =
  wit_rule_id :: string
  wit_condition :: condition_tree
  wit_action :: wit_action
  wit_priority :: nat
  wit_description :: string

record wit_rule_set =
  wit_set_id :: string
  wit_strategy :: evaluation_strategy
  wit_rules :: "wit_rule list"
  wit_default_action :: wit_action
  wit_trace_conditions :: bool

record wit_context =
  wit_ctx_payload :: wit_payload
  wit_tags :: "wit_entry list"
  wit_source_node :: "string option"
  wit_arrival_port :: "string option"
  wit_hop_count :: nat
  wit_workflow_id :: string
  wit_execution_metadata :: "wit_entry list"

record wit_trace =
  wit_trace_rule_id :: string
  wit_trace_surface :: condition_surface
  wit_trace_matched :: bool

record wit_decision =
  wit_decision_action :: wit_action
  wit_matched_rule :: "string option"
  wit_tags_applied :: "wit_entry list"
  wit_conditions_evaluated :: "wit_trace list"

datatype wit_rule_error = MalformedRuleSet string | EvaluationFailure string

section \<open>Values of the interface\<close>

fun scalar_val :: "wit_scalar \<Rightarrow> val" where
  "scalar_val (WText s) = VVariant ''text'' (Some (VString s))"
| "scalar_val (WInteger i) = VVariant ''integer'' (Some (VS64 i))"
| "scalar_val (WFloat x) = VVariant ''float-value'' (Some (VFloat64 x))"
| "scalar_val (WBoolean b) = VVariant ''boolean'' (Some (VBool b))"
| "scalar_val WNull = VVariant ''null-value'' None"

definition entry_val :: "wit_entry \<Rightarrow> val" where
  "entry_val e = VRecord [(''key'', VString (entry_key e)), (''value'', scalar_val (entry_value e))]"

definition predicate_val :: "wit_predicate \<Rightarrow> val" where
  "predicate_val p = VRecord [(''path'', VString (predicate_path p)), (''value'', scalar_val (predicate_value p))]"

definition in_predicate_val :: "wit_in_predicate \<Rightarrow> val" where
  "in_predicate_val p = VRecord [(''path'', VString (in_path p)), (''values'', VList (map scalar_val (in_values p)))]"

definition match_predicate_val :: "wit_match_predicate \<Rightarrow> val" where
  "match_predicate_val p = VRecord [(''path'', VString (match_path p)), (''pattern'', VString (match_pattern p))]"

fun node_val :: "condition_node \<Rightarrow> val" where
  "node_val (NFieldEq p) = VVariant ''field-eq'' (Some (predicate_val p))"
| "node_val (NFieldNeq p) = VVariant ''field-neq'' (Some (predicate_val p))"
| "node_val (NFieldGt p) = VVariant ''field-gt'' (Some (predicate_val p))"
| "node_val (NFieldLt p) = VVariant ''field-lt'' (Some (predicate_val p))"
| "node_val (NFieldGte p) = VVariant ''field-gte'' (Some (predicate_val p))"
| "node_val (NFieldLte p) = VVariant ''field-lte'' (Some (predicate_val p))"
| "node_val (NFieldIn p) = VVariant ''field-in'' (Some (in_predicate_val p))"
| "node_val (NFieldExists s) = VVariant ''field-exists'' (Some (VString s))"
| "node_val (NFieldAbsent s) = VVariant ''field-absent'' (Some (VString s))"
| "node_val (NFieldMatches p) = VVariant ''field-matches'' (Some (match_predicate_val p))"
| "node_val (NTagEq e) = VVariant ''tag-eq'' (Some (entry_val e))"
| "node_val (NTagExists s) = VVariant ''tag-exists'' (Some (VString s))"
| "node_val (NTagAbsent s) = VVariant ''tag-absent'' (Some (VString s))"
| "node_val (NSourceNode s) = VVariant ''source-node'' (Some (VString s))"
| "node_val (NArrivedOnPort s) = VVariant ''arrived-on-port'' (Some (VString s))"
| "node_val (NHopCountGt n) = VVariant ''hop-count-gt'' (Some (VU32 n))"
| "node_val (NHopCountLte n) = VVariant ''hop-count-lte'' (Some (VU32 n))"
| "node_val (NWorkflowIs s) = VVariant ''workflow-is'' (Some (VString s))"
| "node_val (NExecutionMetadataEq e) = VVariant ''execution-metadata-eq'' (Some (entry_val e))"
| "node_val (NAnd is) = VVariant ''and-node'' (Some (VList (map VU32 is)))"
| "node_val (NOr is) = VVariant ''or-node'' (Some (VList (map VU32 is)))"
| "node_val (NNot i) = VVariant ''not-node'' (Some (VU32 i))"
| "node_val NAlways = VVariant ''always'' None"
| "node_val NNever = VVariant ''never'' None"

definition tree_val :: "condition_tree \<Rightarrow> val" where
  "tree_val t = VRecord [(''nodes'', VList (map node_val (tree_nodes t))), (''root'', VU32 (tree_root t))]"

fun wit_action_val :: "wit_action \<Rightarrow> val" where
  "wit_action_val (WRoute p) = VVariant ''route'' (Some (VString p))"
| "wit_action_val WDrop = VVariant ''drop'' None"
| "wit_action_val (WDeadLetter r) = VVariant ''dead-letter'' (Some (VString r))"
| "wit_action_val (WTag e) = VVariant ''tag'' (Some (entry_val e))"
| "wit_action_val (WHalt m) = VVariant ''halt'' (Some (VString m))"

definition rule_val :: "wit_rule \<Rightarrow> val" where
  "rule_val r =
     VRecord [(''id'', VString (wit_rule_id r)), (''condition'', tree_val (wit_condition r)),
       (''action'', wit_action_val (wit_action r)), (''priority'', VU32 (wit_priority r)),
       (''description'', VString (wit_description r))]"

fun strategy_val :: "evaluation_strategy \<Rightarrow> val" where
  "strategy_val FirstMatch = VEnum ''first-match''"
| "strategy_val AllMatches = VEnum ''all-matches''"
| "strategy_val Score = VEnum ''score''"

definition wit_rule_set_val :: "wit_rule_set \<Rightarrow> val" where
  "wit_rule_set_val rs =
     VRecord [(''id'', VString (wit_set_id rs)), (''strategy'', strategy_val (wit_strategy rs)),
       (''rules'', VList (map rule_val (wit_rules rs))), (''default-action'', wit_action_val (wit_default_action rs)),
       (''trace-conditions'', VBool (wit_trace_conditions rs))]"

definition wit_context_val :: "wit_context \<Rightarrow> val" where
  "wit_context_val c =
     VRecord [(''payload'', payload_to_val (wit_ctx_payload c)), (''tags'', VList (map entry_val (wit_tags c))),
       (''source-node'', VOption (map_option VString (wit_source_node c))),
       (''arrival-port'', VOption (map_option VString (wit_arrival_port c))),
       (''hop-count'', VU32 (wit_hop_count c)), (''workflow-id'', VString (wit_workflow_id c)),
       (''execution-metadata'', VList (map entry_val (wit_execution_metadata c)))]"

fun surface_val :: "condition_surface \<Rightarrow> val" where
  "surface_val PayloadSurface = VEnum ''payload''"
| "surface_val TagSurface = VEnum ''tag''"
| "surface_val ProvenanceSurface = VEnum ''provenance''"
| "surface_val ExecutionContextSurface = VEnum ''execution-context''"
| "surface_val CombinatorSurface = VEnum ''combinator''"
| "surface_val ConstantSurface = VEnum ''constant''"

definition trace_val :: "wit_trace \<Rightarrow> val" where
  "trace_val t =
     VRecord [(''rule-id'', VString (wit_trace_rule_id t)), (''surface'', surface_val (wit_trace_surface t)),
       (''matched'', VBool (wit_trace_matched t))]"

definition decision_val :: "wit_decision \<Rightarrow> val" where
  "decision_val d =
     VRecord [(''action'', wit_action_val (wit_decision_action d)),
       (''matched-rule'', VOption (map_option VString (wit_matched_rule d))),
       (''tags-applied'', VList (map entry_val (wit_tags_applied d))),
       (''conditions-evaluated'', VList (map trace_val (wit_conditions_evaluated d)))]"

fun wit_rule_error_val :: "wit_rule_error \<Rightarrow> val" where
  "wit_rule_error_val (MalformedRuleSet m) = VVariant ''malformed-rule-set'' (Some (VString m))"
| "wit_rule_error_val (EvaluationFailure m) = VVariant ''evaluation-failure'' (Some (VString m))"

text \<open>The result of the exported function.\<close>

fun evaluate_result_val :: "wit_decision + wit_rule_error \<Rightarrow> val" where
  "evaluate_result_val (Inl d) = VOk (Some (decision_val d))"
| "evaluate_result_val (Inr e) = VErr (Some (wit_rule_error_val e))"

section \<open>Comparisons\<close>

definition guest_resolve :: "'n json option \<Rightarrow> string \<Rightarrow> 'n json option" where
  "guest_resolve payload path =
     Option.bind payload (resolve_segments (split_on (CHR ''.'') path))"

fun json_eq :: "'n number_ops \<Rightarrow> 'n json \<Rightarrow> wit_scalar \<Rightarrow> bool" where
  "json_eq ops (JString s) (WText r) \<longleftrightarrow> s = r"
| "json_eq ops (JNumber n) (WInteger i) \<longleftrightarrow> num_as_i64 ops n = Some i"
| "json_eq ops (JNumber n) (WFloat x) \<longleftrightarrow> (case num_as_f64 ops n of Some v \<Rightarrow> f64_eq v x | None \<Rightarrow> False)"
| "json_eq ops (JBool b) (WBoolean r) \<longleftrightarrow> b = r"
| "json_eq ops JNull WNull \<longleftrightarrow> True"
| "json_eq ops _ _ \<longleftrightarrow> False"

definition json_cmp :: "'n number_ops \<Rightarrow> 'n json \<Rightarrow> wit_scalar \<Rightarrow> ordering option" where
  "json_cmp ops json scalar =
     Option.bind (json_as_f64 ops json) (\<lambda>json_f.
     case scalar of
       WInteger i \<Rightarrow> partial_cmp json_f (i64_to_f64 i)
     | WFloat x \<Rightarrow> partial_cmp json_f x
     | _ \<Rightarrow> None)"

fun guest_scalar_eq :: "wit_scalar \<Rightarrow> wit_scalar \<Rightarrow> bool" where
  "guest_scalar_eq (WText a) (WText b) \<longleftrightarrow> a = b"
| "guest_scalar_eq (WInteger a) (WInteger b) \<longleftrightarrow> a = b"
| "guest_scalar_eq (WFloat a) (WFloat b) \<longleftrightarrow> f64_eq a b"
| "guest_scalar_eq (WBoolean a) (WBoolean b) \<longleftrightarrow> a = b"
| "guest_scalar_eq WNull WNull \<longleftrightarrow> True"
| "guest_scalar_eq _ _ \<longleftrightarrow> False"

definition tag_value :: "wit_entry list \<Rightarrow> string \<Rightarrow> wit_scalar option" where
  "tag_value entries key = map_option entry_value (find (\<lambda>e. entry_key e = key) entries)"

fun guest_glob_inner :: "nat list \<Rightarrow> nat list \<Rightarrow> bool" where
  "guest_glob_inner [] [] \<longleftrightarrow> True"
| "guest_glob_inner [] (v # vs) \<longleftrightarrow> False"
| "guest_glob_inner (p # ps) [] \<longleftrightarrow> (if p = 42 then guest_glob_inner ps [] else False)"
| "guest_glob_inner (p # ps) (v # vs) \<longleftrightarrow>
     (if p = 42 then
        (if guest_glob_inner ps (v # vs) then True else guest_glob_inner (p # ps) vs)
      else if p = 63 then guest_glob_inner ps vs
      else if p = v then guest_glob_inner ps vs
      else False)"

definition guest_glob_match :: "string \<Rightarrow> string \<Rightarrow> bool" where
  "guest_glob_match pattern value \<longleftrightarrow> guest_glob_inner (chars pattern) (chars value)"

section \<open>Evaluation of a node\<close>

text \<open>\<open>Iterator::all\<close> and \<open>any\<close>, left to right and short-circuiting, over results that may not return.\<close>

fun all_nodes :: "(nat \<Rightarrow> bool option) \<Rightarrow> nat list \<Rightarrow> bool option" where
  "all_nodes f [] = Some True"
| "all_nodes f (i # is) = Option.bind (f i) (\<lambda>b. if b then all_nodes f is else Some False)"

fun any_nodes :: "(nat \<Rightarrow> bool option) \<Rightarrow> nat list \<Rightarrow> bool option" where
  "any_nodes f [] = Some False"
| "any_nodes f (i # is) = Option.bind (f i) (\<lambda>b. if b then Some True else any_nodes f is)"

definition nodes_get :: "'a list \<Rightarrow> nat \<Rightarrow> 'a option" where
  "nodes_get xs i = (if i < length xs then Some (xs ! i) else None)"

definition some_and :: "('a \<Rightarrow> bool) \<Rightarrow> 'a option \<Rightarrow> bool" where
  "some_and p x = (case x of None \<Rightarrow> False | Some v \<Rightarrow> p v)"

text \<open>The nodes without children.\<close>

fun eval_leaf :: "'n number_ops \<Rightarrow> 'n json option \<Rightarrow> wit_context \<Rightarrow> condition_node \<Rightarrow> bool" where
  "eval_leaf ops payload ctx (NFieldEq p) =
     some_and (\<lambda>v. json_eq ops v (predicate_value p)) (guest_resolve payload (predicate_path p))"
| "eval_leaf ops payload ctx (NFieldNeq p) =
     some_and (\<lambda>v. \<not> json_eq ops v (predicate_value p)) (guest_resolve payload (predicate_path p))"
| "eval_leaf ops payload ctx (NFieldGt p) =
     some_and (\<lambda>c. c = Greater)
       (Option.bind (guest_resolve payload (predicate_path p)) (\<lambda>v. json_cmp ops v (predicate_value p)))"
| "eval_leaf ops payload ctx (NFieldLt p) =
     some_and (\<lambda>c. c = Less)
       (Option.bind (guest_resolve payload (predicate_path p)) (\<lambda>v. json_cmp ops v (predicate_value p)))"
| "eval_leaf ops payload ctx (NFieldGte p) =
     some_and (\<lambda>c. c \<noteq> Less)
       (Option.bind (guest_resolve payload (predicate_path p)) (\<lambda>v. json_cmp ops v (predicate_value p)))"
| "eval_leaf ops payload ctx (NFieldLte p) =
     some_and (\<lambda>c. c \<noteq> Greater)
       (Option.bind (guest_resolve payload (predicate_path p)) (\<lambda>v. json_cmp ops v (predicate_value p)))"
| "eval_leaf ops payload ctx (NFieldIn p) =
     some_and (\<lambda>v. list_ex (json_eq ops v) (in_values p)) (guest_resolve payload (in_path p))"
| "eval_leaf ops payload ctx (NFieldExists path) = (guest_resolve payload path \<noteq> None)"
| "eval_leaf ops payload ctx (NFieldAbsent path) =
     (case guest_resolve payload path of None \<Rightarrow> True | Some v \<Rightarrow> v = JNull)"
| "eval_leaf ops payload ctx (NFieldMatches p) =
     some_and (guest_glob_match (match_pattern p)) (Option.bind (guest_resolve payload (match_path p)) json_as_str)"
| "eval_leaf ops payload ctx (NTagEq e) =
     some_and (\<lambda>v. guest_scalar_eq v (entry_value e)) (tag_value (wit_tags ctx) (entry_key e))"
| "eval_leaf ops payload ctx (NTagExists key) = (tag_value (wit_tags ctx) key \<noteq> None)"
| "eval_leaf ops payload ctx (NTagAbsent key) = (tag_value (wit_tags ctx) key = None)"
| "eval_leaf ops payload ctx (NSourceNode n) = (wit_source_node ctx = Some n)"
| "eval_leaf ops payload ctx (NArrivedOnPort p) = (wit_arrival_port ctx = Some p)"
| "eval_leaf ops payload ctx (NHopCountGt n) = (wit_hop_count ctx > n)"
| "eval_leaf ops payload ctx (NHopCountLte n) = (wit_hop_count ctx \<le> n)"
| "eval_leaf ops payload ctx (NWorkflowIs w) = (wit_workflow_id ctx = w)"
| "eval_leaf ops payload ctx (NExecutionMetadataEq e) =
     some_and (\<lambda>v. guest_scalar_eq v (entry_value e)) (tag_value (wit_execution_metadata ctx) (entry_key e))"
| "eval_leaf ops payload ctx NAlways = True"
| "eval_leaf ops payload ctx NNever = False"
| "eval_leaf ops payload ctx (NAnd is) = False"
| "eval_leaf ops payload ctx (NOr is) = False"
| "eval_leaf ops payload ctx (NNot i) = False"

lemma all_nodes_mono [partial_function_mono]:
  "(\<And>i. mono_option (\<lambda>f. g i f)) \<Longrightarrow> mono_option (\<lambda>f. all_nodes (\<lambda>i. g i f) is)"
  by (induction "is") (auto intro!: bind_mono if_mono option.const_mono)

lemma any_nodes_mono [partial_function_mono]:
  "(\<And>i. mono_option (\<lambda>f. g i f)) \<Longrightarrow> mono_option (\<lambda>f. any_nodes (\<lambda>i. g i f) is)"
  by (induction "is") (auto intro!: bind_mono if_mono option.const_mono)

partial_function (option) eval_node ::
  "'n number_ops \<Rightarrow> condition_node list \<Rightarrow> 'n json option \<Rightarrow> wit_context \<Rightarrow> nat \<Rightarrow> bool option" where
  "eval_node ops nodes payload ctx i =
     (case nodes_get nodes i of
        None \<Rightarrow> Some False
      | Some node \<Rightarrow>
          (case node of
             NAnd is \<Rightarrow> all_nodes (\<lambda>c. eval_node ops nodes payload ctx c) is
           | NOr is \<Rightarrow> any_nodes (\<lambda>c. eval_node ops nodes payload ctx c) is
           | NNot c \<Rightarrow> Option.bind (eval_node ops nodes payload ctx c) (\<lambda>b. Some (\<not> b))
           | _ \<Rightarrow> Some (eval_leaf ops payload ctx node)))"

section \<open>Evaluation of a rule set\<close>

definition eval_rule :: "'n number_ops \<Rightarrow> 'n json option \<Rightarrow> wit_context \<Rightarrow> wit_rule \<Rightarrow> bool option" where
  "eval_rule ops payload ctx r =
     eval_node ops (tree_nodes (wit_condition r)) payload ctx (tree_root (wit_condition r))"

fun surface_of :: "condition_node \<Rightarrow> condition_surface" where
  "surface_of (NFieldEq _) = PayloadSurface"
| "surface_of (NFieldNeq _) = PayloadSurface"
| "surface_of (NFieldGt _) = PayloadSurface"
| "surface_of (NFieldLt _) = PayloadSurface"
| "surface_of (NFieldGte _) = PayloadSurface"
| "surface_of (NFieldLte _) = PayloadSurface"
| "surface_of (NFieldIn _) = PayloadSurface"
| "surface_of (NFieldExists _) = PayloadSurface"
| "surface_of (NFieldAbsent _) = PayloadSurface"
| "surface_of (NFieldMatches _) = PayloadSurface"
| "surface_of (NTagEq _) = TagSurface"
| "surface_of (NTagExists _) = TagSurface"
| "surface_of (NTagAbsent _) = TagSurface"
| "surface_of (NSourceNode _) = ProvenanceSurface"
| "surface_of (NArrivedOnPort _) = ProvenanceSurface"
| "surface_of (NHopCountGt _) = ProvenanceSurface"
| "surface_of (NHopCountLte _) = ProvenanceSurface"
| "surface_of (NWorkflowIs _) = ExecutionContextSurface"
| "surface_of (NExecutionMetadataEq _) = ExecutionContextSurface"
| "surface_of (NAnd _) = CombinatorSurface"
| "surface_of (NOr _) = CombinatorSurface"
| "surface_of (NNot _) = CombinatorSurface"
| "surface_of NAlways = ConstantSurface"
| "surface_of NNever = ConstantSurface"

definition trace_of :: "wit_rule \<Rightarrow> bool \<Rightarrow> wit_trace" where
  "trace_of r matched =
     \<lparr>wit_trace_rule_id = wit_rule_id r,
      wit_trace_surface = (case nodes_get (tree_nodes (wit_condition r)) (tree_root (wit_condition r)) of
        None \<Rightarrow> ConstantSurface | Some node \<Rightarrow> surface_of node),
      wit_trace_matched = matched\<rparr>"

fun guest_is_terminal :: "wit_action \<Rightarrow> bool" where
  "guest_is_terminal (WTag e) \<longleftrightarrow> False"
| "guest_is_terminal _ \<longleftrightarrow> True"

fun push_tag :: "wit_action \<Rightarrow> wit_entry list \<Rightarrow> wit_entry list" where
  "push_tag (WTag e) tags = tags @ [e]"
| "push_tag _ tags = tags"

definition default_decision :: "wit_action \<Rightarrow> wit_entry list \<Rightarrow> wit_trace list \<Rightarrow> wit_decision" where
  "default_decision a tags traces =
     \<lparr>wit_decision_action = a, wit_matched_rule = None, wit_tags_applied = tags, wit_conditions_evaluated = traces\<rparr>"

definition rule_decision_of :: "wit_rule \<Rightarrow> wit_entry list \<Rightarrow> wit_trace list \<Rightarrow> wit_decision" where
  "rule_decision_of r tags traces =
     \<lparr>wit_decision_action = wit_action r, wit_matched_rule = Some (wit_rule_id r), wit_tags_applied = tags,
      wit_conditions_evaluated = traces\<rparr>"

fun guest_first_match ::
  "(wit_rule \<Rightarrow> bool option) \<Rightarrow> bool \<Rightarrow> wit_action \<Rightarrow> wit_rule list \<Rightarrow> wit_entry list \<Rightarrow> wit_trace list
   \<Rightarrow> wit_decision option" where
  "guest_first_match ev trace dflt [] tags traces = Some (default_decision dflt tags traces)"
| "guest_first_match ev trace dflt (r # rs) tags traces =
     Option.bind (ev r) (\<lambda>matched.
     let traces1 = (if trace then traces @ [trace_of r matched] else traces) in
     if matched then
       (let tags1 = push_tag (wit_action r) tags in
        if guest_is_terminal (wit_action r) then Some (rule_decision_of r tags1 traces1)
        else guest_first_match ev trace dflt rs tags1 traces1)
     else guest_first_match ev trace dflt rs tags traces1)"

fun guest_all_matches ::
  "(wit_rule \<Rightarrow> bool option) \<Rightarrow> bool \<Rightarrow> wit_action \<Rightarrow> wit_rule list \<Rightarrow> wit_entry list \<Rightarrow> wit_trace list
   \<Rightarrow> wit_decision option" where
  "guest_all_matches ev trace dflt [] tags traces = Some (default_decision dflt tags traces)"
| "guest_all_matches ev trace dflt (r # rs) tags traces =
     Option.bind (ev r) (\<lambda>matched.
     let traces1 = (if trace then traces @ [trace_of r matched] else traces);
         tags1 = (if matched then push_tag (wit_action r) tags else tags) in
     guest_all_matches ev trace dflt rs tags1 traces1)"

fun guest_score ::
  "(wit_rule \<Rightarrow> bool option) \<Rightarrow> bool \<Rightarrow> wit_action \<Rightarrow> wit_rule list \<Rightarrow> wit_rule option \<Rightarrow> wit_entry list
   \<Rightarrow> wit_trace list \<Rightarrow> wit_decision option" where
  "guest_score ev trace dflt [] best tags traces =
     Some (case best of
       Some r \<Rightarrow> rule_decision_of r tags traces
     | None \<Rightarrow> default_decision dflt tags traces)"
| "guest_score ev trace dflt (r # rs) best tags traces =
     Option.bind (ev r) (\<lambda>matched.
     let traces1 = (if trace then traces @ [trace_of r matched] else traces) in
     if matched then
       (let tags1 = push_tag (wit_action r) tags;
            best1 = (if best = None \<and> guest_is_terminal (wit_action r) then Some r else best) in
        guest_score ev trace dflt rs best1 tags1 traces1)
     else guest_score ev trace dflt rs best tags traces1)"

text \<open>The exported function; the sample guest never reports a \<open>rule-error\<close>.\<close>

definition guest_evaluate ::
  "'n number_ops \<Rightarrow> 'n json_text \<Rightarrow> wit_rule_set \<Rightarrow> wit_context \<Rightarrow> (wit_decision + wit_rule_error) option" where
  "guest_evaluate ops jt rs ctx =
     (let payload = (case wit_ctx_payload ctx of
            WitControl text \<Rightarrow> (case json_from_text jt text of Ok v \<Rightarrow> Some v | _ \<Rightarrow> None)
          | WitBytes b \<Rightarrow> None);
          ev = eval_rule ops payload ctx in
      map_option Inl
        (case wit_strategy rs of
           FirstMatch \<Rightarrow> guest_first_match ev (wit_trace_conditions rs) (wit_default_action rs) (wit_rules rs) [] []
         | AllMatches \<Rightarrow> guest_all_matches ev (wit_trace_conditions rs) (wit_default_action rs) (wit_rules rs) [] []
         | Score \<Rightarrow> guest_score ev (wit_trace_conditions rs) (wit_default_action rs) (wit_rules rs) None [] []))"

end
