(* ===== verification/WasmBatchProps.thy ===== *)
theory WasmBatchProps
  imports WasmBatch
begin

text \<open>
  A batch that crosses the boundary to a guest and back is unchanged, and the host sees of a guest
  exactly the function the guest computes on batches.
\<close>

section \<open>Batches that fit the wire format\<close>

text \<open>
  Identifiers are valid and attempts positive, as their constructors guarantee; the text of a control
  payload is read back to that payload; ports of a batch have at least one packet, as \<open>batch_push\<close>
  guarantees.
\<close>

definition wire_endpoint :: "message_endpoint \<Rightarrow> bool" where
  "wire_endpoint e \<longleftrightarrow> valid_identifier (node_id_str (message_node e)) \<and> valid_identifier (port_id_str (message_port e))"

definition wire_metadata :: "message_metadata \<Rightarrow> bool" where
  "wire_metadata m \<longleftrightarrow>
     valid_identifier (message_id_str (message_id m)) \<and> valid_identifier (workflow_id_str (message_workflow m))
     \<and> valid_identifier (execution_id_str (execution_id (message_execution m)))
     \<and> 0 < attempt_get (attempt (message_execution m))
     \<and> (case route_source (message_route m) of None \<Rightarrow> True | Some e \<Rightarrow> wire_endpoint e)
     \<and> wire_endpoint (route_target (message_route m))"

definition wire_packet :: "'n json_text \<Rightarrow> 'n port_packet \<Rightarrow> bool" where
  "wire_packet jt x \<longleftrightarrow>
     wire_metadata (envelope_metadata x)
     \<and> (case envelope_payload x of
          Bytes b \<Rightarrow> True | ControlPayload v \<Rightarrow> json_from_text jt (json_to_text jt v) = Ok v)"

definition wire_batch :: "'n json_text \<Rightarrow> 'n batch \<Rightarrow> bool" where
  "wire_batch jt b \<longleftrightarrow>
     bt_ok (packets_by_port b)
     \<and> (\<forall>(p, xs) \<in> set (packets_by_port b).
          valid_identifier (port_id_str p) \<and> xs \<noteq> [] \<and> (\<forall>x \<in> set xs. wire_packet jt x))"

lemma wire_batch_new: "wire_batch jt new_batch"
  by (simp add: wire_batch_def new_batch_def)

lemma wire_batch_push:
  assumes "wire_batch jt b" "valid_identifier (port_id_str p)" "wire_packet jt x"
  shows "wire_batch jt (batch_push p x b)"
proof -
  have ok: "bt_ok (packets_by_port (batch_push p x b))"
    using assms(1) by (simp add: wire_batch_def batch_push_ok)
  have old: "\<forall>y \<in> set (batch_packets b p). wire_packet jt y"
  proof (cases "map_of (packets_by_port b) p")
    case None
    then show ?thesis by (simp add: batch_packets_def)
  next
    case (Some xs)
    then have "(p, xs) \<in> set (packets_by_port b)" by (rule map_of_SomeD)
    with assms(1) Some show ?thesis by (auto simp: wire_batch_def batch_packets_def)
  qed
  have "valid_identifier (port_id_str q) \<and> xs \<noteq> [] \<and> (\<forall>y \<in> set xs. wire_packet jt y)"
    if "(q, xs) \<in> set (packets_by_port (batch_push p x b))" for q xs
  proof (cases "q = p")
    case True
    then have "xs = batch_packets b p @ [x]"
      using that bt_ok_distinct [OF ok] by (simp add: batch_push_def flip: map_of_eq_Some_iff)
    then show ?thesis using True old assms by auto
  next
    case False
    then have "(q, xs) \<in> set (packets_by_port b)"
      using that bt_ok_distinct [OF ok] map_of_SomeD [of "packets_by_port b" q xs]
      by (simp add: batch_push_def flip: map_of_eq_Some_iff)
    then show ?thesis using assms(1) by (auto simp: wire_batch_def)
  qed
  with ok show ?thesis by (auto simp: wire_batch_def)
qed

section \<open>Decoding undoes encoding\<close>

lemmas id_round_trips [simp] =
  node_ident.round_trip port_ident.round_trip message_ident.round_trip workflow_ident.round_trip
  execution_ident.round_trip

lemmas val_reads = required_field_def required_string_field_def required_u32_field_def
  required_list_field_def checked_id_def

lemma endpoint_round_trip [simp]: "wire_endpoint e \<Longrightarrow> endpoint_from_val (endpoint_to_val e) = Ok e"
  by (simp add: wire_endpoint_def endpoint_from_val_def endpoint_to_val_def val_reads)

lemma route_round_trip [simp]:
  assumes "case route_source r of None \<Rightarrow> True | Some e \<Rightarrow> wire_endpoint e" "wire_endpoint (route_target r)"
  shows "route_from_val (route_to_val r) = Ok r"
  using assms by (cases "route_source r") (simp_all add: route_from_val_def route_to_val_def val_reads)

lemma execution_round_trip [simp]:
  assumes "valid_identifier (execution_id_str (execution_id x))" "0 < attempt_get (attempt x)"
  shows "execution_from_val (VRecord [(''execution-id'', VString (execution_id_str (execution_id x))),
           (''attempt'', VU32 (attempt_get (attempt x)))]) = Ok x"
proof -
  have "ExecutionAttempt (attempt_get (attempt x)) = attempt x" by (cases "attempt x") simp
  with assms show ?thesis by (simp add: execution_from_val_def val_reads)
qed

lemma metadata_round_trip [simp]: "wire_metadata m \<Longrightarrow> metadata_from_val (metadata_to_val m) = Ok m"
  unfolding wire_metadata_def by (simp add: metadata_from_val_def metadata_to_val_def val_reads)

lemma try_map_Ok_id: "(\<And>x. x \<in> set xs \<Longrightarrow> f (g x) = Ok x) \<Longrightarrow> try_map f (map g xs) = Ok xs"
  by (induction xs) auto

lemma bytes_round_trip [simp]: "bytes_from_val (bytes_to_list_val b) = Ok b"
  by (simp add: bytes_from_val_def bytes_to_list_val_def try_map_Ok_id comp_def)

lemma payload_round_trip [simp]: "payload_from_val (payload_to_val p) = Ok p"
  by (cases p) (simp_all add: payload_from_val_def)

lemma packet_round_trip [simp]: "wire_metadata (wit_metadata p) \<Longrightarrow> packet_from_val (packet_to_val p) = Ok p"
  by (simp add: packet_from_val_def packet_to_val_def val_reads)

lemma port_batch_round_trip [simp]:
  "(\<And>p. p \<in> set (wit_packets pb) \<Longrightarrow> wire_metadata (wit_metadata p)) \<Longrightarrow> port_batch_from_val (port_batch_to_val pb) = Ok pb"
  by (simp add: port_batch_from_val_def port_batch_to_val_def val_reads try_map_Ok_id)

lemma wit_packet_round_trip:
  "wire_packet jt x \<Longrightarrow> from_wit_packet jt (to_wit_packet jt x) = Ok x"
  by (cases "envelope_payload x") (simp_all add: from_wit_packet_def to_wit_packet_def wire_packet_def)

section \<open>Rebuilding the map\<close>

text \<open>Pushing the packets of a port onto a batch without that port appends one entry with all of them.\<close>

lemma push_packets:
  assumes "\<forall>x \<in> set xs. wire_packet jt x"
  shows "try_fold (push_wit_packet jt p) b (map (to_wit_packet jt) xs) = Ok (foldl (\<lambda>c x. batch_push p x c) b xs)"
  using assms by (induction xs arbitrary: b) (simp_all add: push_wit_packet_def wit_packet_round_trip)

lemma lookup_pushes:
  "map_of (packets_by_port (foldl (\<lambda>c x. batch_push p x c) b xs)) =
     (if xs = [] then map_of (packets_by_port b) else (map_of (packets_by_port b))(p \<mapsto> batch_packets b p @ xs))"
  by (induction xs arbitrary: b) (auto simp: batch_push_def batch_packets_def)

lemma pushes_ok: "bt_ok (packets_by_port b) \<Longrightarrow> bt_ok (packets_by_port (foldl (\<lambda>c x. batch_push p x c) b xs))"
  by (induction xs arbitrary: b) (simp_all add: batch_push_ok)

lemma push_port_batches:
  assumes entries: "\<forall>(p, xs) \<in> set m. valid_identifier (port_id_str p) \<and> xs \<noteq> [] \<and> (\<forall>x \<in> set xs. wire_packet jt x)"
    and dist: "distinct (map fst m)" "fst ` set m \<inter> dom (map_of (packets_by_port b)) = {}"
    and ok: "bt_ok (packets_by_port b)"
  shows "\<exists>c. try_fold (push_wit_port_batch jt) b
             (map (\<lambda>(p, xs). \<lparr>wit_port_id = port_id_str p, wit_packets = map (to_wit_packet jt) xs\<rparr>) m) = Ok c
           \<and> bt_ok (packets_by_port c)
           \<and> map_of (packets_by_port c) = map_of (packets_by_port b) ++ map_of m"
  using entries dist ok
proof (induction m arbitrary: b)
  case Nil
  then show ?case by simp
next
  case (Cons e m)
  obtain p xs where e: "e = (p, xs)" by fastforce
  let ?b = "foldl (\<lambda>c x. batch_push p x c) b xs"
  have new: "map_of (packets_by_port b) p = None" "xs \<noteq> []" "valid_identifier (port_id_str p)" "\<forall>x \<in> set xs. wire_packet jt x"
    using Cons.prems by (auto simp: e)
  then have look: "map_of (packets_by_port ?b) = (map_of (packets_by_port b))(p \<mapsto> xs)"
    by (simp add: lookup_pushes batch_packets_def)
  have "fst ` set m \<inter> dom (map_of (packets_by_port ?b)) = {}"
    using Cons.prems by (auto simp: look e)
  with Cons.IH [of ?b] Cons.prems obtain c where c: "try_fold (push_wit_port_batch jt) ?b
       (map (\<lambda>(p, xs). \<lparr>wit_port_id = port_id_str p, wit_packets = map (to_wit_packet jt) xs\<rparr>) m) = Ok c"
    "bt_ok (packets_by_port c)" "map_of (packets_by_port c) = map_of (packets_by_port ?b) ++ map_of m"
    by (simp add: pushes_ok) blast
  have "map_of m p = None" using Cons.prems by (force simp: e map_of_eq_None_iff)
  then have "map_of (packets_by_port c) = map_of (packets_by_port b) ++ map_of (e # m)"
    using c(3) by (simp add: e look map_add_def fun_eq_iff split: option.splits)
  moreover have "push_wit_port_batch jt b \<lparr>wit_port_id = port_id_str p, wit_packets = map (to_wit_packet jt) xs\<rparr> = Ok ?b"
    using new by (simp add: push_wit_port_batch_def checked_id_def push_packets)
  ultimately show ?case using c(1,2) by (intro exI [of _ c]) (simp add: e del: map_of.simps)
qed

lemma wit_port_batches_round_trip:
  assumes b: "wire_batch jt b"
  shows "from_wit_port_batches jt (to_wit_port_batches jt b) = Ok b"
proof -
  have "bt_ok (packets_by_port b)" using b by (simp add: wire_batch_def)
  then obtain c where "from_wit_port_batches jt (to_wit_port_batches jt b) = Ok c" "bt_ok (packets_by_port c)"
    "map_of (packets_by_port c) = map_of (packets_by_port b)"
    using push_port_batches [of "packets_by_port b" jt new_batch] b
    by (force simp: from_wit_port_batches_def to_wit_port_batches_def wire_batch_def new_batch_def
        dest: bt_ok_distinct)
  with b show ?thesis by (simp add: wire_batch_def bt_ok_eqI)
qed

lemma batch_round_trip:
  assumes b: "wire_batch jt b"
  shows "batch_outputs_from_result_val jt (VOk (Some (batch_inputs_to_val jt b))) = Ok b"
proof -
  have "port_batches_from_val (batch_inputs_to_val jt b) = Ok (to_wit_port_batches jt b)"
    unfolding batch_inputs_to_val_def port_batches_from_val_def val.case
  proof (rule try_map_Ok_id, rule port_batch_round_trip)
    fix pb p
    assume "pb \<in> set (to_wit_port_batches jt b)" "p \<in> set (wit_packets pb)"
    then obtain q xs x where "(q, xs) \<in> set (packets_by_port b)" "x \<in> set xs" "p = to_wit_packet jt x"
      by (auto simp: to_wit_port_batches_def)
    with b show "wire_metadata (wit_metadata p)" by (auto simp: wire_batch_def wire_packet_def to_wit_packet_def)
  qed
  then show ?thesis
    using wit_port_batches_round_trip [OF b] by (simp add: batch_outputs_from_result_val_def)
qed

section \<open>Guests as functions on batches\<close>

text \<open>What a component must offer so that a call reaches its function \<open>invoke\<close>.\<close>

definition callable :: "'c wasmtime \<Rightarrow> 'c batch_component \<Rightarrow> bool" where
  "callable wt bc \<longleftrightarrow>
     store_set_fuel wt (limit_fuel (guest_limits bc)) = Ok () \<and> spawn_watcher wt = Ok ()
     \<and> linker_instantiate wt (guest_component bc) = Ok ()
     \<and> export_index wt (guest_component bc) [BATCH_EXPORT]
     \<and> export_index wt (guest_component bc) [BATCH_EXPORT, ''invoke'']
     \<and> export_func wt (guest_component bc) [BATCH_EXPORT, ''invoke'']"

lemma watch_iff: "watch t polls \<longleftrightarrow> (\<exists>st \<in> set polls. is_cancelled st t)"
  by (induction polls) auto

lemma invoke_callable:
  assumes "callable wt bc" "token_request st t = None"
  shows "invoke_with_cancellation wt jt bc inputs t st polls st' =
    (let call = func_call wt (guest_component bc) [BATCH_EXPORT, ''invoke''] (limit_fuel (guest_limits bc))
           (cancellation_epoch_deadline (guest_limits bc)) (watch t polls) [batch_inputs_to_val jt inputs] in
     if watch t polls
     then Err (Cancellation (case token_request st' t of
            None \<Rightarrow> ''wasm guest invocation cancelled'' | Some r \<Rightarrow> reason r))
     else and_then (map_err (\<lambda>e. map_guest_call_error e (guest_limits bc) (remaining_fuel call)) (call_result call))
            (batch_outputs_from_result_val jt))"
  using assms by (simp add: invoke_with_cancellation_def callable_def ensure_def Let_def)

text \<open>
  C27: values survive the boundary.  The value built for any batch that fits the wire format, returned by the guest as its successful result, decodes to that batch: ports,
  packet order, metadata and payloads are all preserved.
\<close>

theorem wasm_batch_roundtrip:
  assumes "wire_batch jt b"
  shows "batch_outputs_from_result_val jt (VOk (Some (batch_inputs_to_val jt b))) = Ok b"
  using assms by (rule batch_round_trip)

text \<open>
  the host runs the guest's function.  Let the guest compute \<open>g\<close>: on the value of a batch it returns the
  value of \<open>g\<close> of that batch.  Then an invocation on a token that is already cancelled reports that request
  without calling the guest, one whose watcher sees a cancellation reports it, and any other returns \<open>g\<close> of
  the inputs.
\<close>

theorem guest_function_invoked:
  assumes "callable wt bc"
    and "call_result (func_call wt (guest_component bc) [BATCH_EXPORT, ''invoke''] (limit_fuel (guest_limits bc))
           (cancellation_epoch_deadline (guest_limits bc)) False [batch_inputs_to_val jt b]) =
         Ok (VOk (Some (batch_inputs_to_val jt (g b))))"
    and "wire_batch jt (g b)"
  shows "invoke_with_cancellation wt jt bc b t st polls st' =
    (case token_request st t of
       Some r \<Rightarrow> Err (Cancellation (reason r))
     | None \<Rightarrow>
         if \<exists>s \<in> set polls. is_cancelled s t
         then Err (Cancellation (case token_request st' t of
                None \<Rightarrow> ''wasm guest invocation cancelled'' | Some r \<Rightarrow> reason r))
         else Ok (g b))"
proof (cases "token_request st t")
  case None
  then show ?thesis
    using assms by (simp add: invoke_callable watch_iff batch_round_trip Let_def)
next
  case (Some r)
  then show ?thesis by (simp add: invoke_with_cancellation_def)
qed

section \<open>Witnesses\<close>

text \<open>A guest that hands its input back, and a batch with two ports and two packets on one of them.\<close>

definition null_text :: "unit json_text" where
  "null_text = \<lparr>json_to_text = (\<lambda>v. ''null''), json_from_text = (\<lambda>s. Ok JNull)\<rparr>"

definition echo_metadata :: message_metadata where
  "echo_metadata =
     \<lparr>message_id = MessageId ''m'', message_workflow = WorkflowId ''w'',
      message_execution = \<lparr>execution_id = ExecutionId ''e'', attempt = ExecutionAttempt 1\<rparr>,
      message_route = \<lparr>route_source = Some \<lparr>message_node = NodeId ''a'', message_port = PortId ''o''\<rparr>,
        route_target = \<lparr>message_node = NodeId ''b'', message_port = PortId ''i''\<rparr>\<rparr>\<rparr>"

definition echo_packet :: "unit packet_payload \<Rightarrow> unit port_packet" where
  "echo_packet p = \<lparr>envelope_metadata = echo_metadata, envelope_payload = p\<rparr>"

definition echo_batch :: "unit batch" where
  "echo_batch =
     batch_push (PortId ''i'') (echo_packet (ControlPayload JNull))
       (batch_push (PortId ''c'') (echo_packet (Bytes ''x''))
         (batch_push (PortId ''i'') (echo_packet (Bytes [])) new_batch))"

definition echo_guest :: "unit wasmtime" where
  "echo_guest =
     \<lparr>engine_new = Ok (), component_from_binary = (\<lambda>b. Ok ()), store_set_fuel = (\<lambda>n. Ok ()), spawn_watcher = Ok (),
      linker_instantiate = (\<lambda>c. Ok ()), export_index = (\<lambda>c path. True), export_func = (\<lambda>c path. True),
      func_call = (\<lambda>c path n d b args. \<lparr>call_result = Ok (VOk (Some (hd args))), remaining_fuel = Some 1\<rparr>)\<rparr>"

definition echo_component :: "unit batch_component" where
  "echo_component = \<lparr>guest_component = (), guest_limits = default_limits\<rparr>"

lemma echo_batch_wire: "wire_batch null_text echo_batch"
  unfolding echo_batch_def
  by (intro wire_batch_push wire_batch_new)
    (simp_all add: wire_packet_def wire_metadata_def wire_endpoint_def echo_packet_def echo_metadata_def null_text_def
      valid_identifier_ascii ascii_graphic_def byte_def)

theorem wasm_batch_roundtrip_witness:
  "batch_outputs_from_result_val null_text (VOk (Some (batch_inputs_to_val null_text echo_batch))) = Ok echo_batch
   \<and> length (batch_packets echo_batch (PortId ''i'')) = 2"
  using wasm_batch_roundtrip [OF echo_batch_wire]
  by (simp add: echo_batch_def batch_push_def batch_packets_def new_batch_def)

theorem guest_function_invoked_witness:
  "invoke_with_cancellation echo_guest null_text echo_component echo_batch (CancellationToken 0) [None] [[None]] [None]
     = Ok echo_batch
   \<and> invoke_with_cancellation echo_guest null_text echo_component echo_batch (CancellationToken 0) [None]
       [[None], [Some (CancellationRequest ''stop'')]] [Some (CancellationRequest ''stop'')]
     = Err (Cancellation ''stop'')"
proof -
  have c: "callable echo_guest echo_component" by (simp add: callable_def echo_guest_def)
  have r: "call_result (func_call echo_guest (guest_component echo_component) [BATCH_EXPORT, ''invoke'']
       (limit_fuel (guest_limits echo_component)) (cancellation_epoch_deadline (guest_limits echo_component)) False
       [batch_inputs_to_val null_text echo_batch]) = Ok (VOk (Some (batch_inputs_to_val null_text (id echo_batch))))"
    by (simp add: echo_guest_def)
  have w: "wire_batch null_text (id echo_batch)" by (simp add: echo_batch_wire)
  show ?thesis
    using guest_function_invoked [where g = id, OF c r w] by (simp add: token_request_def is_cancelled_def)
qed

end
