(* ===== verification/RulesGuestProps.thy ===== *)
theory RulesGuestProps
  imports RulesGuest WasmBatchProps RuleNode
begin

text \<open>
  The rule guest and the native evaluator agree.  The host encodes a rule set and a context as values of
  the interface; the guest, run on them, returns; and its decision decodes to that of the native
  evaluator, up to the descriptions in traces, which the interface does not carry.
\<close>

section \<open>The meaning of the encoding\<close>

fun wit_scalar_of :: "scalar_value \<Rightarrow> wit_scalar" where
  "wit_scalar_of (SString s) = WText s"
| "wit_scalar_of (SInteger i) = WInteger i"
| "wit_scalar_of (SFloat x) = WFloat x"
| "wit_scalar_of (SBoolean b) = WBoolean b"
| "wit_scalar_of SNull = WNull"

definition wit_entry_of :: "string \<times> scalar_value \<Rightarrow> wit_entry" where
  "wit_entry_of e = \<lparr>entry_key = fst e, entry_value = wit_scalar_of (snd e)\<rparr>"

definition wit_predicate_of :: "field_path \<Rightarrow> scalar_value \<Rightarrow> wit_predicate" where
  "wit_predicate_of p v = \<lparr>predicate_path = show_path p, predicate_value = wit_scalar_of v\<rparr>"

text \<open>The node of a condition without children.\<close>

fun leaf_node :: "condition \<Rightarrow> condition_node" where
  "leaf_node (FieldEq p v) = NFieldEq (wit_predicate_of p v)"
| "leaf_node (FieldNeq p v) = NFieldNeq (wit_predicate_of p v)"
| "leaf_node (FieldGt p v) = NFieldGt (wit_predicate_of p v)"
| "leaf_node (FieldLt p v) = NFieldLt (wit_predicate_of p v)"
| "leaf_node (FieldGte p v) = NFieldGte (wit_predicate_of p v)"
| "leaf_node (FieldLte p v) = NFieldLte (wit_predicate_of p v)"
| "leaf_node (FieldIn p vs) = NFieldIn \<lparr>in_path = show_path p, in_values = map wit_scalar_of vs\<rparr>"
| "leaf_node (FieldExists p) = NFieldExists (show_path p)"
| "leaf_node (FieldAbsent p) = NFieldAbsent (show_path p)"
| "leaf_node (FieldMatches p g) = NFieldMatches \<lparr>match_path = show_path p, match_pattern = show_glob g\<rparr>"
| "leaf_node (TagEq k v) = NTagEq (wit_entry_of (k, v))"
| "leaf_node (TagExists k) = NTagExists k"
| "leaf_node (TagAbsent k) = NTagAbsent k"
| "leaf_node (SourceNode n) = NSourceNode (node_id_str n)"
| "leaf_node (ArrivedOnPort p) = NArrivedOnPort (port_id_str p)"
| "leaf_node (HopCountGt n) = NHopCountGt n"
| "leaf_node (HopCountLte n) = NHopCountLte n"
| "leaf_node (WorkflowIs w) = NWorkflowIs (workflow_id_str w)"
| "leaf_node (ExecutionMetadataEq k v) = NExecutionMetadataEq (wit_entry_of (k, v))"
| "leaf_node Always = NAlways"
| "leaf_node _ = NNever"

fun node_count :: "condition \<Rightarrow> nat" where
  "node_count (And cs) = Suc (sum_list (map node_count cs))"
| "node_count (Or cs) = Suc (sum_list (map node_count cs))"
| "node_count (Not c) = Suc (node_count c)"
| "node_count c = 1"

text \<open>
  The nodes of a condition when the arena already holds \<open>n\<close> nodes; the root is the last of them.
\<close>

fun roots :: "condition list \<Rightarrow> nat \<Rightarrow> nat list" where
  "roots [] n = []"
| "roots (c # cs) n = (n + node_count c - 1) # roots cs (n + node_count c)"

fun arena :: "condition \<Rightarrow> nat \<Rightarrow> condition_node list"
  and arenas :: "condition list \<Rightarrow> nat \<Rightarrow> condition_node list" where
  "arena (And cs) n = arenas cs n @ [NAnd (roots cs n)]"
| "arena (Or cs) n = arenas cs n @ [NOr (roots cs n)]"
| "arena (Not c) n = arena c n @ [NNot (n + node_count c - 1)]"
| "arena c n = [leaf_node c]"
| "arenas [] n = []"
| "arenas (c # cs) n = arena c n @ arenas cs (n + node_count c)"

lemma node_count_pos [simp]: "0 < node_count c"
  by (cases c) auto

lemma arena_length [simp]:
  "length (arena c n) = node_count c"
  "length (arenas cs n) = sum_list (map node_count cs)"
  by (induction c n and cs n rule: arena_arenas.induct) auto

definition wit_tree_of :: "condition \<Rightarrow> condition_tree" where
  "wit_tree_of c = \<lparr>tree_nodes = arena c 0, tree_root = node_count c - 1\<rparr>"

fun wit_action_of :: "rule_action \<Rightarrow> wit_action" where
  "wit_action_of (Route p) = WRoute (port_id_str p)"
| "wit_action_of Drop = WDrop"
| "wit_action_of (DeadLetter r) = WDeadLetter r"
| "wit_action_of (Tag k v) = WTag (wit_entry_of (k, v))"
| "wit_action_of (Halt m) = WHalt m"

definition wit_rule_of :: "rule \<Rightarrow> wit_rule" where
  "wit_rule_of r =
     \<lparr>wit_rule_id = rule_id r, wit_condition = wit_tree_of (rule_condition r), wit_action = wit_action_of (rule_action r),
      wit_priority = rule_priority r, wit_description = rule_description r\<rparr>"

definition wit_rule_set_of :: "rule_set \<Rightarrow> wit_rule_set" where
  "wit_rule_set_of rs =
     \<lparr>wit_set_id = rule_set_id rs, wit_strategy = strategy rs, wit_rules = map wit_rule_of (rules rs),
      wit_default_action = wit_action_of (default_action rs), wit_trace_conditions = trace_conditions rs\<rparr>"

definition wit_context_of :: "'n json_text \<Rightarrow> 'n host_eval_context \<Rightarrow> wit_context" where
  "wit_context_of jt c =
     \<lparr>wit_ctx_payload = (case host_payload c of
          Bytes b \<Rightarrow> WitBytes b | ControlPayload v \<Rightarrow> WitControl (json_to_text jt v)),
      wit_tags = map wit_entry_of (host_tags c), wit_source_node = host_source_node c,
      wit_arrival_port = host_arrival_port c, wit_hop_count = host_hop_count c,
      wit_workflow_id = host_workflow_id c, wit_execution_metadata = map wit_entry_of (host_execution_metadata c)\<rparr>"

section \<open>The host sends values of the interface\<close>

lemma scalar_to_val_eq [simp]: "scalar_to_val v = scalar_val (wit_scalar_of v)"
  by (cases v) (simp_all add: variant_def)

lemma scalar_entry_to_val_eq [simp]: "scalar_entry_to_val k v = entry_val (wit_entry_of (k, v))"
  by (simp add: scalar_entry_to_val_def entry_val_def wit_entry_of_def)

lemma field_predicate_eq [simp]: "field_predicate p v = predicate_val (wit_predicate_of p v)"
  by (cases p) (simp add: predicate_val_def wit_predicate_of_def)

lemma push_condition_arena:
  "length nodes + node_count c \<le> 2 ^ 32 \<Longrightarrow>
     push_condition c nodes = (length nodes + node_count c - 1, nodes @ map node_val (arena c (length nodes)))"
  "length nodes + sum_list (map node_count cs) \<le> 2 ^ 32 \<Longrightarrow>
     push_conditions cs nodes =
       (map VU32 (roots cs (length nodes)), nodes @ map node_val (arenas cs (length nodes)))"
  by (induction c nodes and cs nodes rule: push_condition_push_conditions.induct)
    (simp_all add: push_val_def variant_def in_predicate_val_def match_predicate_val_def comp_def min_def)

lemma condition_tree_to_val_eq:
  "node_count c \<le> 2 ^ 32 \<Longrightarrow> condition_tree_to_val c = tree_val (wit_tree_of c)"
  by (simp add: condition_tree_to_val_def push_condition_arena tree_val_def wit_tree_of_def)

lemma action_to_val_eq [simp]: "action_to_val a = wit_action_val (wit_action_of a)"
  by (cases a) (simp_all add: variant_def)

lemma strategy_to_val_eq [simp]: "strategy_to_val s = strategy_val s"
  by (cases s) simp_all

text \<open>Every condition of the rule set fits an arena whose indices are \<open>u32\<close>.\<close>

definition fits_arena :: "rule_set \<Rightarrow> bool" where
  "fits_arena rs \<longleftrightarrow> (\<forall>r \<in> set (rules rs). node_count (rule_condition r) \<le> 2 ^ 32)"

lemma rule_set_to_val_eq: "fits_arena rs \<Longrightarrow> rule_set_to_val rs = wit_rule_set_val (wit_rule_set_of rs)"
  by (simp add: fits_arena_def rule_set_to_val_def rule_to_val_def wit_rule_set_val_def wit_rule_set_of_def
      rule_val_def wit_rule_of_def condition_tree_to_val_eq)

lemma scalar_entries_to_val_eq [simp]: "scalar_entries_to_val m = map entry_val (map wit_entry_of m)"
  by (auto simp: scalar_entries_to_val_def)

lemma eval_context_to_val_eq: "eval_context_to_val jt c = wit_context_val (wit_context_of jt c)"
  by (cases "host_payload c")
    (simp_all add: eval_context_to_val_def wit_context_val_def wit_context_of_def variant_def bytes_to_list_val_def)

section \<open>The guest on an arena\<close>

lemma some_and_eq [simp]: "some_and p x = is_some_and x p"
  by (simp add: some_and_def is_some_and_def)

lemma json_eq_wit [simp]: "json_eq ops j (wit_scalar_of v) = json_value_eq_scalar ops j v"
  by (cases j; cases v) simp_all

lemma json_cmp_wit [simp]: "json_cmp ops j (wit_scalar_of v) = json_value_cmp_scalar ops j v"
  by (cases v) (simp_all add: json_cmp_def json_value_cmp_scalar_def)

lemma guest_scalar_eq_wit [simp]: "guest_scalar_eq (wit_scalar_of a) (wit_scalar_of b) = scalar_eq a b"
  by (cases a; cases b) simp_all

lemma guest_glob_inner_eq [simp]: "guest_glob_inner p v = glob_match_inner p v"
  by (induction p v rule: glob_match_inner.induct) simp_all

lemma tag_value_wit [simp]: "tag_value (map wit_entry_of m) k = map_option wit_scalar_of (map_of m k)"
  by (induction m) (auto simp: tag_value_def wit_entry_of_def)

text \<open>The host context that carries the native context of a packet.\<close>

definition host_context :: "'n packet_payload \<Rightarrow> eval_context \<Rightarrow> 'n host_eval_context" where
  "host_context payload ctx =
     \<lparr>host_payload = payload, host_tags = ctx_tags ctx,
      host_source_node = map_option node_id_str (ctx_source_node ctx),
      host_arrival_port = map_option port_id_str (ctx_arrival_port ctx), host_hop_count = ctx_hop_count ctx,
      host_workflow_id = workflow_id_str (ctx_workflow_id ctx), host_execution_metadata = ctx_execution_metadata ctx\<rparr>"

fun payload_json :: "'n packet_payload \<Rightarrow> 'n json option" where
  "payload_json (ControlPayload v) = Some v"
| "payload_json (Bytes b) = None"

lemma guest_resolve_payload [simp]: "guest_resolve (payload_json payload) (show_path p) = resolve_payload payload p"
  by (cases payload; cases p) (simp_all add: guest_resolve_def)

lemma guest_glob_matches [simp]: "guest_glob_match (show_glob g) = glob_matches g"
  by (cases g) (auto simp: guest_glob_match_def)

lemma is_some_and_map [simp]: "is_some_and (map_option f x) p = is_some_and x (\<lambda>a. p (f a))"
  by (cases x) simp_all

lemma map_option_str_eq [simp]:
  "map_option node_id_str x = Some (node_id_str n) \<longleftrightarrow> x = Some n"
  "map_option port_id_str y = Some (port_id_str p) \<longleftrightarrow> y = Some p"
  by (cases x; simp) (cases y; simp)

fun is_leaf :: "condition \<Rightarrow> bool" where
  "is_leaf (And _) = False"
| "is_leaf (Or _) = False"
| "is_leaf (Not _) = False"
| "is_leaf _ = True"

lemma eval_leaf_node:
  "is_leaf c \<Longrightarrow> eval_leaf ops (payload_json payload) (wit_context_of jt (host_context payload ctx)) (leaf_node c) =
     eval_condition ops c payload ctx"
  by (cases c)
    (simp_all add: wit_predicate_of_def wit_entry_of_def wit_context_of_def host_context_def is_some_and_def
      is_none_or_def list_ex_iff split: option.splits)

lemma nodes_get_middle [simp]: "nodes_get (xs @ x # ys) (length xs) = Some x"
  by (simp add: nodes_get_def)

text \<open>
  An arena embedded anywhere in a list of nodes evaluates, from its root, to the value of its condition.
\<close>

lemma eval_node_leaf:
  "nodes_get nodes i = Some (leaf_node c) \<Longrightarrow> is_leaf c \<Longrightarrow>
     eval_node ops nodes (payload_json payload) (wit_context_of jt (host_context payload ctx)) i =
       Some (eval_condition ops c payload ctx)"
  by (subst eval_node.simps, subst eval_leaf_node [symmetric], assumption, cases c) (simp_all del: eval_leaf.simps)

lemma arena_leaf: "is_leaf c \<Longrightarrow> arena c n = [leaf_node c] \<and> node_count c = 1"
  by (cases c) simp_all

lemma eval_arena_leaf:
  assumes "is_leaf c" "length pre = n"
  shows "eval_node ops (pre @ arena c n @ post) (payload_json payload) (wit_context_of jt (host_context payload ctx))
      (n + node_count c - 1) = Some (eval_condition ops c payload ctx)"
  using assms by (intro eval_node_leaf) (auto simp: arena_leaf)

lemma eval_node_arena:
  fixes ops :: "'n number_ops" and payload :: "'n packet_payload" and jt :: "'n json_text" and ctx :: eval_context
  defines "ev \<equiv> \<lambda>nodes. eval_node ops nodes (payload_json payload) (wit_context_of jt (host_context payload ctx))"
  shows "length pre = n \<Longrightarrow> ev (pre @ arena c n @ post) (n + node_count c - 1) = Some (eval_condition ops c payload ctx)"
    and "length pre = n \<Longrightarrow>
      all_nodes (ev (pre @ arenas cs n @ post)) (roots cs n) = Some (list_all (\<lambda>c. eval_condition ops c payload ctx) cs)
      \<and> any_nodes (ev (pre @ arenas cs n @ post)) (roots cs n) = Some (list_ex (\<lambda>c. eval_condition ops c payload ctx) cs)"
proof (induction c n and cs n arbitrary: pre post and pre post rule: arena_arenas.induct)
  case (1 cs n)
  have at: "nodes_get (pre @ arenas cs n @ NAnd (roots cs n) # post) (n + sum_list (map node_count cs)) = Some (NAnd (roots cs n))"
    using nodes_get_middle [of "pre @ arenas cs n"] 1(2) by simp
  show ?case using 1(1) [of pre "NAnd (roots cs n) # post"] 1(2)
    unfolding ev_def by (subst eval_node.simps) (simp add: at)
next
  case (2 cs n)
  have at: "nodes_get (pre @ arenas cs n @ NOr (roots cs n) # post) (n + sum_list (map node_count cs)) = Some (NOr (roots cs n))"
    using nodes_get_middle [of "pre @ arenas cs n"] 2(2) by simp
  show ?case using 2(1) [of pre "NOr (roots cs n) # post"] 2(2)
    unfolding ev_def by (subst eval_node.simps) (simp add: at)
next
  case (3 c n)
  have at: "nodes_get (pre @ arena c n @ NNot (n + node_count c - 1) # post) (n + node_count c) = Some (NNot (n + node_count c - 1))"
    using nodes_get_middle [of "pre @ arena c n"] 3(2) by simp
  show ?case using 3(1) [of pre "NNot (n + node_count c - 1) # post"] 3(2)
    unfolding ev_def by (subst eval_node.simps) (simp add: at [unfolded One_nat_def])
next
  case (6 c cs n)
  show ?case
    using 6(1) [of pre "arenas cs (n + node_count c) @ post"] 6(2) [of "pre @ arena c n" post] 6(3) by simp
qed (unfold ev_def, (rule eval_arena_leaf; simp)+, simp)

lemma eval_rule_of:
  "eval_rule ops (payload_json payload) (wit_context_of jt (host_context payload ctx)) (wit_rule_of r) =
     Some (eval_condition ops (rule_condition r) payload ctx)"
  using eval_node_arena(1) [of "[]" 0 ops "rule_condition r" "[]" payload jt ctx]
  by (simp add: eval_rule_def wit_rule_of_def wit_tree_of_def)

section \<open>The guest's loops\<close>

lemma surface_of_leaf: "is_leaf c \<Longrightarrow> surface_of (leaf_node c) = surface c"
  by (cases c) simp_all

lemma surface_of_root: "\<exists>nodes node. arena c n = nodes @ [node] \<and> surface_of node = surface c"
  by (cases c) (auto simp: surface_of_leaf)

lemma root_surface:
  "(case nodes_get (tree_nodes (wit_tree_of c)) (tree_root (wit_tree_of c)) of
      None \<Rightarrow> ConstantSurface | Some node \<Rightarrow> surface_of node) = surface c"
proof -
  obtain nodes node where n: "arena c 0 = nodes @ [node]" "surface_of node = surface c"
    using surface_of_root by blast
  then have "node_count c - 1 = length nodes" using arena_length(1) [of c 0] by simp
  with n show ?thesis by (simp add: wit_tree_of_def)
qed

definition wit_trace_from :: "condition_trace \<Rightarrow> wit_trace" where
  "wit_trace_from t =
     \<lparr>wit_trace_rule_id = trace_rule_id t, wit_trace_surface = trace_surface t, wit_trace_matched = trace_matched t\<rparr>"

lemma trace_of_rule: "trace_of (wit_rule_of r) b = wit_trace_from (trace_condition fmt r (rule_condition r) b)"
  using root_surface [of "rule_condition r"]
  by (simp add: trace_of_def wit_rule_of_def wit_trace_from_def trace_condition_def)

definition wit_decision_of :: "rule_decision \<Rightarrow> wit_decision" where
  "wit_decision_of d =
     \<lparr>wit_decision_action = wit_action_of (decision_action d), wit_matched_rule = matched_rule d,
      wit_tags_applied = map wit_entry_of (tags_applied d),
      wit_conditions_evaluated = map wit_trace_from (conditions_evaluated d)\<rparr>"

lemma guest_is_terminal_of [simp]: "guest_is_terminal (wit_action_of a) = is_terminal a"
  by (cases a) simp_all

lemma push_tag_of [simp]:
  "push_tag (wit_action_of a) (map wit_entry_of tags) =
     map wit_entry_of (case a of Tag k v \<Rightarrow> tags @ [(k, v)] | _ \<Rightarrow> tags)"
  by (cases a) simp_all

lemma wit_rule_of_sels [simp]:
  "wit_action (wit_rule_of r) = wit_action_of (rule_action r)" "wit_rule_id (wit_rule_of r) = rule_id r"
  by (simp_all add: wit_rule_of_def)

lemma wit_decisions [simp]:
  "rule_decision_of (wit_rule_of r) (map wit_entry_of tags) (map wit_trace_from traces) =
     wit_decision_of \<lparr>decision_action = rule_action r, matched_rule = Some (rule_id r), tags_applied = tags,
       conditions_evaluated = traces\<rparr>"
  "default_decision (wit_action_of a) (map wit_entry_of tags) (map wit_trace_from traces) =
     wit_decision_of \<lparr>decision_action = a, matched_rule = None, tags_applied = tags, conditions_evaluated = traces\<rparr>"
  by (simp_all add: rule_decision_of_def default_decision_def wit_decision_of_def)

lemma push_trace [simp]: "map wit_trace_from traces @ [wit_trace_from x] = map wit_trace_from (traces @ [x])"
  by simp

text \<open>
  Each loop of the guest follows the native loop, for any verdicts \<open>m\<close> of the rules and any trace
  entries \<open>tr\<close> that the guest's entries represent.
\<close>

lemma guest_first_match_of:
  assumes "\<And>r. ev (wit_rule_of r) = Some (m r)" "\<And>r b. trace_of (wit_rule_of r) b = wit_trace_from (tr r b)"
  shows "guest_first_match ev trace (wit_action_of dflt) (map wit_rule_of rs) (map wit_entry_of tags) (map wit_trace_from traces)
    = Some (wit_decision_of (first_match_loop m tr trace dflt rs tags traces))"
proof (induction rs arbitrary: tags traces)
  case Nil
  then show ?case by simp
next
  case (Cons r rs)
  show ?case
    using Cons by (cases "m r"; cases trace) (simp_all add: assms Let_def apply_terminal_or_tag_def del: map_append)
qed

lemma guest_all_matches_of:
  assumes "\<And>r. ev (wit_rule_of r) = Some (m r)" "\<And>r b. trace_of (wit_rule_of r) b = wit_trace_from (tr r b)"
  shows "guest_all_matches ev trace (wit_action_of dflt) (map wit_rule_of rs) (map wit_entry_of tags) (map wit_trace_from traces)
    = Some (wit_decision_of (all_matches_loop m tr trace dflt rs tags traces))"
proof (induction rs arbitrary: tags traces)
  case Nil
  then show ?case by simp
next
  case (Cons r rs)
  show ?case
    using Cons by (cases "m r"; cases trace) (simp_all add: assms Let_def del: map_append)
qed

lemma guest_score_of:
  assumes "\<And>r. ev (wit_rule_of r) = Some (m r)" "\<And>r b. trace_of (wit_rule_of r) b = wit_trace_from (tr r b)"
  shows "guest_score ev trace (wit_action_of dflt) (map wit_rule_of rs) (map_option wit_rule_of best)
      (map wit_entry_of tags) (map wit_trace_from traces)
    = Some (wit_decision_of (score_loop m tr trace dflt rs best tags traces))"
proof (induction rs arbitrary: best tags traces)
  case Nil
  then show ?case by (cases best) simp_all
next
  case (Cons r rs)
  let ?best = "if best = None \<and> is_terminal (rule_action r) then Some r else best"
  have best: "(if map_option wit_rule_of best = None \<and> is_terminal (rule_action r) then Some (wit_rule_of r)
      else map_option wit_rule_of best) = map_option wit_rule_of ?best" by simp
  show ?case
    using Cons by (cases "m r"; cases trace) (simp_all only: guest_score.simps score_loop.simps list.map assms best Let_def
        push_trace push_tag_of wit_rule_of_sels guest_is_terminal_of option.map bind.simps simp_thms if_True if_False)
qed

text \<open>The text of a control payload is read back to that payload.\<close>

fun text_faithful :: "'n json_text \<Rightarrow> 'n packet_payload \<Rightarrow> bool" where
  "text_faithful jt (ControlPayload v) \<longleftrightarrow> json_from_text jt (json_to_text jt v) = Ok v"
| "text_faithful jt (Bytes b) \<longleftrightarrow> True"

lemma guest_evaluate_of:
  assumes "text_faithful jt payload" "evaluate ops fmt rs payload ctx = Ok d"
  shows "guest_evaluate ops jt (wit_rule_set_of rs) (wit_context_of jt (host_context payload ctx)) =
    Some (Inl (wit_decision_of d))"
proof -
  let ?c = "wit_context_of jt (host_context payload ctx)"
  let ?ev = "eval_rule ops (payload_json payload) ?c"
  let ?m = "\<lambda>r. eval_condition ops (rule_condition r) payload ctx"
  let ?tr = "\<lambda>r. trace_condition fmt r (rule_condition r)"
  have payload: "(case wit_ctx_payload ?c of
       WitBytes b \<Rightarrow> None
     | WitControl text \<Rightarrow> (case json_from_text jt text of Ok v \<Rightarrow> Some v | _ \<Rightarrow> None)) = payload_json payload"
    using assms(1) by (cases payload) (simp_all add: wit_context_of_def host_context_def)
  note loops = guest_first_match_of [of ?ev ?m ?tr _ _ _ "[]" "[]", OF eval_rule_of trace_of_rule]
    guest_all_matches_of [of ?ev ?m ?tr _ _ _ "[]" "[]", OF eval_rule_of trace_of_rule]
    guest_score_of [of ?ev ?m ?tr _ _ _ None "[]" "[]", OF eval_rule_of trace_of_rule]
  show ?thesis
    using assms(2) loops unfolding guest_evaluate_def payload Let_def
    by (cases "strategy rs") (auto simp: evaluate_def wit_rule_set_of_def)
qed

section \<open>Decoding a decision\<close>

definition without_descriptions :: "rule_decision \<Rightarrow> rule_decision" where
  "without_descriptions d =
     d\<lparr>conditions_evaluated := map (\<lambda>t. t\<lparr>trace_description := []\<rparr>) (conditions_evaluated d)\<rparr>"

lemma scalar_from_val_of [simp]: "scalar_from_val (scalar_val (wit_scalar_of v)) = Ok v"
  by (cases v) (simp_all add: scalar_from_val_def as_variant_def as_string_def)

lemma scalar_entry_from_val_of [simp]: "scalar_entry_from_val (entry_val (wit_entry_of e)) = Ok e"
  by (simp add: scalar_entry_from_val_def entry_val_def wit_entry_of_def val_reads)

fun ported :: "rule_action \<Rightarrow> bool" where
  "ported (Route p) \<longleftrightarrow> valid_identifier (port_id_str p)"
| "ported _ \<longleftrightarrow> True"

lemma action_from_val_of [simp]: "ported a \<Longrightarrow> action_from_val (wit_action_val (wit_action_of a)) = Ok a"
  by (cases a) (simp_all add: action_from_val_def as_variant_def as_string_def checked_id_def)

lemma surface_from_val_of [simp]: "surface_from_val (surface_val s) = Ok s"
  by (cases s) (simp_all add: surface_from_val_def)

lemma trace_from_val_of [simp]:
  "condition_trace_from_val (trace_val (wit_trace_from t)) = Ok (t\<lparr>trace_description := []\<rparr>)"
  by (simp add: condition_trace_from_val_def trace_val_def wit_trace_from_def val_reads)

lemma optional_string_of [simp]: "optional_string (VOption (map_option VString x)) = Ok x"
  by (cases x) (simp_all add: optional_string_def as_string_def)

lemma decision_from_val_of:
  assumes "ported (decision_action d)"
  shows "decision_from_result_val (evaluate_result_val (Inl (wit_decision_of d))) = Ok (without_descriptions d)"
proof -
  have traces: "try_map condition_trace_from_val (map (trace_val \<circ> wit_trace_from) ts) =
      Ok (map (\<lambda>t. t\<lparr>trace_description := []\<rparr>) ts)" for ts
    by (induction ts) simp_all
  have tags: "try_map scalar_entry_from_val (map (entry_val \<circ> wit_entry_of) es) = Ok es" for es
    by (induction es) simp_all
  show ?thesis
    using assms by (simp add: decision_from_result_val_def decision_from_val_def decision_val_def wit_decision_of_def
        val_reads traces tags without_descriptions_def)
qed

end
