(* ===== verification/WasmRuleNode.thy ===== *)
theory WasmRuleNode
  imports RulesGuestProps
begin

text \<open>
  The executor \<open>WasmRuleNode\<close> of \<open>rules_node.rs\<close>: a rule node whose decisions are taken in a guest.
  The source repeats the helpers of the native node; they are translated again here and shown to be the
  same functions.  A guest call is synchronous for the node but the rest of the run goes on meanwhile:
  \<open>steps\<close> are what it does between two polls of the cancellation watcher.
\<close>

section \<open>The node\<close>

record ('n, 's, 'c) wasm_rule_node =
  wasm_rule_set :: rule_set
  wasm_component :: "'c rule_component"
  wasm_sink :: "('n, 's) sink option"
  wasm_counter :: nat

definition new_wasm_rule_node :: "rule_set \<Rightarrow> 'c rule_component \<Rightarrow> ('n, 's, 'c) wasm_rule_node" where
  "new_wasm_rule_node rs rc = \<lparr>wasm_rule_set = rs, wasm_component = rc, wasm_sink = None, wasm_counter = 0\<rparr>"

definition wasm_node_with_metadata_sink ::
  "('n, 's) sink \<Rightarrow> ('n, 's, 'c) wasm_rule_node \<Rightarrow> ('n, 's, 'c) wasm_rule_node" where
  "wasm_node_with_metadata_sink sink node = node\<lparr>wasm_sink := Some sink\<rparr>"

definition build_host_context :: "node_context \<Rightarrow> 'n port_packet \<Rightarrow> 'n host_eval_context" where
  "build_host_context ctx x =
     (let route = message_route (envelope_metadata x)
      in \<lparr>host_payload = envelope_payload x, host_tags = [],
          host_source_node = map_option (\<lambda>e. node_id_str (message_node e)) (route_source route),
          host_arrival_port = Some (port_id_str (message_port (route_target route))), host_hop_count = 0,
          host_workflow_id = workflow_id_str (context_workflow ctx), host_execution_metadata = []\<rparr>)"

section \<open>Records and routing\<close>

fun wasm_strategy_to_eval :: "evaluation_strategy \<Rightarrow> rule_eval_strategy" where
  "wasm_strategy_to_eval FirstMatch = EvalFirstMatch"
| "wasm_strategy_to_eval AllMatches = EvalAllMatches"
| "wasm_strategy_to_eval Score = EvalScore"

fun wasm_scalar_to_json :: "'n json_ops \<Rightarrow> scalar_value \<Rightarrow> 'n json" where
  "wasm_scalar_to_json js (SString s) = JString s"
| "wasm_scalar_to_json js (SInteger i) = js_int js i"
| "wasm_scalar_to_json js (SFloat f) = js_float js f"
| "wasm_scalar_to_json js (SBoolean b) = JBool b"
| "wasm_scalar_to_json js SNull = JNull"

fun wasm_action_to_eval :: "'n json_ops \<Rightarrow> rule_action \<Rightarrow> rule_eval_action" where
  "wasm_action_to_eval js (Route p) = EvalRoute p"
| "wasm_action_to_eval js Drop = EvalDrop"
| "wasm_action_to_eval js (DeadLetter r) = EvalDeadLetter r"
| "wasm_action_to_eval js (Tag k v) = EvalTag k (js_text js (wasm_scalar_to_json js v))"
| "wasm_action_to_eval js (Halt m) = EvalHalt m"

definition wasm_build_rule_eval_record ::
  "'n json_ops \<Rightarrow> node_context \<Rightarrow> rule_set \<Rightarrow> 'n port_packet \<Rightarrow> rule_decision \<Rightarrow> 'n rule_eval_record" where
  "wasm_build_rule_eval_record js ctx rs x d =
     (let route = message_route (envelope_metadata x)
      in \<lparr>re_node_id = context_node ctx, re_workflow_id = context_workflow ctx,
          re_execution = context_execution ctx, re_rule_set_id = rule_set_id rs,
          re_strategy = wasm_strategy_to_eval (strategy rs), re_matched_rule = matched_rule d,
          re_action_taken = wasm_action_to_eval js (decision_action d),
          re_rules_evaluated = length (rules rs) mod 2 ^ 32,
          re_tags_applied = map (\<lambda>(k, v). (k, wasm_scalar_to_json js v)) (tags_applied d),
          re_source_node = map_option message_node (route_source route),
          re_arrival_port = Some (message_port (route_target route)), re_hop_count = 0,
          re_tags_present_at_eval = [], re_conditions_evaluated = conditions_evaluated d\<rparr>)"

definition wasm_forward_packet ::
  "node_context \<Rightarrow> port_id \<Rightarrow> nat \<Rightarrow> 'n port_packet \<Rightarrow> ('n port_packet, pureflow_error) result" where
  "wasm_forward_packet ctx p seq x =
     (let ep = \<lparr>message_node = context_node ctx, message_port = p\<rparr>
      in and_then
           (map_err (\<lambda>e. Execution (''rule node message id error: '' @ show_identifier_error e))
             (new_message_id
               (node_id_str (context_node ctx) @ ''-rule-'' @ port_id_str p @ ''-'' @ show_nat seq)))
           (\<lambda>m. Ok \<lparr>envelope_metadata =
                      \<lparr>message_id = m, message_workflow = context_workflow ctx,
                       message_execution = context_execution ctx,
                       message_route = \<lparr>route_source = Some ep, route_target = ep\<rparr>\<rparr>,
                    envelope_payload = envelope_payload x\<rparr>))"

definition wasm_forward_to ::
  "('n, 'k) channel_ops \<Rightarrow> node_context \<Rightarrow> port_id \<Rightarrow> nat \<Rightarrow> 'n port_packet \<Rightarrow> ('n, 's) ports_out
   \<Rightarrow> cancellation_token \<Rightarrow> (port_send_error \<Rightarrow> pureflow_error)
   \<Rightarrow> (('k, 's) world \<Rightarrow> ('k, 's) world) list \<Rightarrow> ('k, 's) world
   \<Rightarrow> (unit, pureflow_error) result option \<times> ('k, 's) world" where
  "wasm_forward_to ops ctx p seq x outs tok report resumes w =
     (case wasm_forward_packet ctx p seq x of
        Ok y \<Rightarrow> (let (r, w1) = send ops outs p y tok resumes w in (map_option (map_err report) r, w1))
      | Err e \<Rightarrow> (Some (Err e), w)
      | Panic \<Rightarrow> (Some Panic, w))"

fun wasm_execute_action ::
  "('n, 'k) channel_ops \<Rightarrow> rule_action \<Rightarrow> node_context \<Rightarrow> nat \<Rightarrow> 'n port_packet \<Rightarrow> ('n, 's) ports_out
   \<Rightarrow> cancellation_token \<Rightarrow> (('k, 's) world \<Rightarrow> ('k, 's) world) list \<Rightarrow> ('k, 's) world
   \<Rightarrow> (unit, pureflow_error) result option \<times> ('k, 's) world" where
  "wasm_execute_action ops (Route p) ctx seq x outs tok resumes w =
     wasm_forward_to ops ctx p seq x outs tok (\<lambda>e. Execution (show_port_send_error e)) resumes w"
| "wasm_execute_action ops Drop ctx seq x outs tok resumes w = (Some (Ok ()), w)"
| "wasm_execute_action ops (Tag k v) ctx seq x outs tok resumes w = (Some (Ok ()), w)"
| "wasm_execute_action ops (DeadLetter why) ctx seq x outs tok resumes w =
     (case map_err (\<lambda>e. Execution (''invalid port id: '' @ show_identifier_error e))
             (new_port_id ''dead_letter'') of
        Ok p \<Rightarrow>
          wasm_forward_to ops ctx p seq x outs tok
            (\<lambda>e. Execution (''dead-letter send failed ('' @ why @ ''): '' @ show_port_send_error e)) resumes w
      | Err e \<Rightarrow> (Some (Err e), w)
      | Panic \<Rightarrow> (Some Panic, w))"
| "wasm_execute_action ops (Halt m) ctx seq x outs tok resumes w =
     (Some (Err (Execution (''rule halted: '' @ m))), w)"

section \<open>The loop\<close>

text \<open>The worlds after each step, and after the last one.\<close>

fun worlds :: "('w \<Rightarrow> 'w) list \<Rightarrow> 'w \<Rightarrow> 'w list" where
  "worlds [] w = []"
| "worlds (step # steps) w = step w # worlds steps (step w)"

definition after_steps :: "('w \<Rightarrow> 'w) list \<Rightarrow> 'w \<Rightarrow> 'w" where
  "after_steps steps w = foldl (\<lambda>u step. step u) w steps"

definition wasm_process_packet ::
  "('n, 'k) channel_ops \<Rightarrow> 'c wasmtime \<Rightarrow> 'n json_text \<Rightarrow> 'n json_ops \<Rightarrow> node_context \<Rightarrow> ('n, 's) ports_out
   \<Rightarrow> (('k, 's) world \<Rightarrow> ('k, 's) world) list \<Rightarrow> (('k, 's) world \<Rightarrow> ('k, 's) world) list \<Rightarrow> 'n port_packet
   \<Rightarrow> ('n, 's, 'c) wasm_rule_node \<Rightarrow> ('k, 's) world
   \<Rightarrow> (unit, pureflow_error) result option \<times> ('n, 's, 'c) wasm_rule_node \<times> ('k, 's) world" where
  "wasm_process_packet ops wt jt js ctx outs steps resumes x node w =
     (let w1 = after_steps steps w in
      case evaluate_with_cancellation wt jt (wasm_component node) (wasm_rule_set node) (build_host_context ctx x)
             (context_token ctx) (signals w) (map signals (worlds steps w)) (signals w1) of
        Ok d \<Rightarrow>
          (let w2 = emit (wasm_sink node)
                 (RuleEvalRecord (wasm_build_rule_eval_record js ctx (wasm_rule_set node) x d)) w1;
               node1 = node\<lparr>wasm_counter := (wasm_counter node + 1) mod 2 ^ 64\<rparr>;
               (r, w3) = wasm_execute_action ops (decision_action d) ctx (wasm_counter node) x outs (context_token ctx)
                 resumes w2
           in (r, node1, w3))
      | Err e \<Rightarrow> (Some (Err (Execution (''wasm rule evaluation error: '' @ show_pureflow_error e))), node, w1)
      | Panic \<Rightarrow> (Some Panic, node, w1))"

fun wasm_rule_node_loop ::
  "('n, 'k) channel_ops \<Rightarrow> 'c wasmtime \<Rightarrow> 'n json_text \<Rightarrow> 'n json_ops \<Rightarrow> node_context \<Rightarrow> port_id \<Rightarrow> ('n, 's) ports_in
   \<Rightarrow> ('n, 's) ports_out
   \<Rightarrow> ((('k, 's) world \<Rightarrow> ('k, 's) world) list \<times> (('k, 's) world \<Rightarrow> ('k, 's) world) list
        \<times> (('k, 's) world \<Rightarrow> ('k, 's) world) list) list
   \<Rightarrow> ('n, 's, 'c) wasm_rule_node \<Rightarrow> ('k, 's) world
   \<Rightarrow> (unit, pureflow_error) result option \<times> ('n, 's, 'c) wasm_rule_node \<times> ('k, 's) world" where
  "wasm_rule_node_loop ops wt jt js ctx port ins outs [] node w = (None, node, w)"
| "wasm_rule_node_loop ops wt jt js ctx port ins outs ((recv_waits, steps, send_waits) # waits) node w =
     (case recv ops ins port (context_token ctx) recv_waits w of
        (None, w1) \<Rightarrow> (None, node, w1)
      | (Some (Ok (Some x)), w1) \<Rightarrow>
          (case wasm_process_packet ops wt jt js ctx outs steps send_waits x node w1 of
             (Some (Ok _), node1, w2) \<Rightarrow>
               if is_cancelled (signals w2) (context_token ctx)
               then (Some (Err (Cancellation ''wasm rule node cancelled after processing packet'')), node1, w2)
               else wasm_rule_node_loop ops wt jt js ctx port ins outs waits node1 w2
           | other \<Rightarrow> other)
      | (Some (Ok None), w1) \<Rightarrow> (Some (Ok ()), node, w1)
      | (Some (Err (RecvPortDisconnected p)), w1) \<Rightarrow> (Some (Ok ()), node, w1)
      | (Some (Err (RecvUnknownPort p)), w1) \<Rightarrow>
          (Some (Err (Execution (''wasm rule node: input port '' @ quoted (port_id_str p) @ '' not declared''))), node, w1)
      | (Some (Err (RecvPortCancelled p)), w1) \<Rightarrow>
          (Some (Err (Cancellation ''wasm rule node cancelled while waiting for input'')), node, w1)
      | (Some Panic, w1) \<Rightarrow> (Some Panic, node, w1))"

definition wasm_rule_node_run ::
  "('n, 'k) channel_ops \<Rightarrow> 'c wasmtime \<Rightarrow> 'n json_text \<Rightarrow> 'n json_ops \<Rightarrow> node_context \<Rightarrow> ('n, 's) ports_in
   \<Rightarrow> ('n, 's) ports_out
   \<Rightarrow> ((('k, 's) world \<Rightarrow> ('k, 's) world) list \<times> (('k, 's) world \<Rightarrow> ('k, 's) world) list
        \<times> (('k, 's) world \<Rightarrow> ('k, 's) world) list) list
   \<Rightarrow> ('n, 's, 'c) wasm_rule_node \<Rightarrow> ('k, 's) world
   \<Rightarrow> (unit, pureflow_error) result option \<times> ('n, 's, 'c) wasm_rule_node \<times> ('k, 's) world" where
  "wasm_rule_node_run ops wt jt js ctx ins outs waits node w =
     (case map_err (\<lambda>e. Execution (''invalid port id: '' @ show_identifier_error e)) (new_port_id IN_PORT) of
        Ok port \<Rightarrow> wasm_rule_node_loop ops wt jt js ctx port ins outs waits node w
      | Err e \<Rightarrow> (Some (Err e), node, w)
      | Panic \<Rightarrow> (Some Panic, node, w))"

section \<open>The repeated helpers\<close>

lemma wasm_strategy_eq [simp]: "wasm_strategy_to_eval s = strategy_to_eval s"
  by (cases s) simp_all

lemma wasm_scalar_eq [simp]: "wasm_scalar_to_json js v = scalar_to_json js v"
  by (cases v) simp_all

lemma wasm_action_eq [simp]: "wasm_action_to_eval js a = action_to_eval js a"
  by (cases a) simp_all

lemma wasm_record_eq: "wasm_build_rule_eval_record js ctx rs x d = build_rule_eval_record js ctx rs x d []"
  by (simp add: wasm_build_rule_eval_record_def build_rule_eval_record_def Let_def)

lemma wasm_forward_packet_eq [simp]: "wasm_forward_packet ctx p seq x = forward_packet ctx p seq x"
  by (simp add: wasm_forward_packet_def forward_packet_def Let_def)

lemma wasm_forward_to_eq [simp]:
  "wasm_forward_to ops ctx p seq x outs tok report resumes w = forward_to ops ctx p seq x outs tok report resumes w"
  by (simp add: wasm_forward_to_def forward_to_def)

lemma wasm_execute_eq:
  "wasm_execute_action ops a ctx seq x outs tok resumes w = execute_action ops a ctx seq x outs tok resumes w"
  by (cases a) (auto split: result.split)

lemma build_host_context_eq: "build_host_context ctx x = host_context (envelope_payload x) (packet_context ctx x)"
  by (simp add: build_host_context_def host_context_def packet_context_def Let_def option.map_comp comp_def)

section \<open>Native and guest evaluation\<close>

text \<open>What a component must offer so that a call reaches its function \<open>evaluate\<close>.\<close>

definition rules_callable :: "'c wasmtime \<Rightarrow> 'c rule_component \<Rightarrow> bool" where
  "rules_callable wt rc \<longleftrightarrow>
     store_set_fuel wt (limit_fuel (rule_limits rc)) = Ok () \<and> spawn_watcher wt = Ok ()
     \<and> linker_instantiate wt (rule_guest rc) = Ok ()
     \<and> export_index wt (rule_guest rc) [RULES_INTERFACE_EXPORT]
     \<and> export_index wt (rule_guest rc) [RULES_INTERFACE_EXPORT, EVALUATE_EXPORT]
     \<and> export_func wt (rule_guest rc) [RULES_INTERFACE_EXPORT, EVALUATE_EXPORT]"

text \<open>
  The component is the sample guest: a call that is not interrupted, on values of the interface, gives
  the value of what the guest program returns on them.
\<close>

definition runs_guest ::
  "'c wasmtime \<Rightarrow> 'c rule_component \<Rightarrow> 'n number_ops \<Rightarrow> 'n json_text \<Rightarrow> wit_rule_set \<Rightarrow> wit_context \<Rightarrow> bool" where
  "runs_guest wt rc ops jt rs c \<longleftrightarrow>
     (case guest_evaluate ops jt rs c of
        None \<Rightarrow> True
      | Some r \<Rightarrow>
          call_result (func_call wt (rule_guest rc) [RULES_INTERFACE_EXPORT, EVALUATE_EXPORT] (limit_fuel (rule_limits rc))
            (cancellation_epoch_deadline (rule_limits rc)) False [wit_rule_set_val rs, wit_context_val c]) =
          Ok (evaluate_result_val r))"

definition ports_valid :: "rule_set \<Rightarrow> bool" where
  "ports_valid rs \<longleftrightarrow> ported (default_action rs) \<and> (\<forall>r \<in> set (rules rs). ported (rule_action r))"

lemma evaluate_uncancelled:
  assumes "rules_callable wt rc" "token_request st t = None" "\<not> (\<exists>s \<in> set polls. is_cancelled s t)"
  shows "evaluate_with_cancellation wt jt rc rs c t st polls st' =
    (let call = func_call wt (rule_guest rc) [RULES_INTERFACE_EXPORT, EVALUATE_EXPORT] (limit_fuel (rule_limits rc))
           (cancellation_epoch_deadline (rule_limits rc)) False [rule_set_to_val rs, eval_context_to_val jt c] in
     and_then (map_err (\<lambda>e. map_guest_call_error e (rule_limits rc) (remaining_fuel call)) (call_result call))
       decision_from_result_val)"
  using assms watch_iff [of t polls]
  by (simp add: evaluate_with_cancellation_def rules_callable_def ensure_def Let_def)

lemma guest_agrees:
  assumes "rules_callable wt rc"
    and "runs_guest wt rc ops jt (wit_rule_set_of rs) (wit_context_of jt (host_context payload ctx))"
    and "fits_arena rs" and "ports_valid rs" and "text_faithful jt payload"
    and "token_request st t = None" "\<not> (\<exists>s \<in> set polls. is_cancelled s t)"
    and d: "evaluate ops fmt rs payload ctx = Ok d"
  shows "evaluate_with_cancellation wt jt rc rs (host_context payload ctx) t st polls st' = Ok (without_descriptions d)"
proof -
  have "ported (decision_action d)"
    using decision_action_from_rules [OF d] assms(4) by (auto simp: ports_valid_def)
  then show ?thesis
    using assms(2) guest_evaluate_of [OF assms(5) d]
    by (simp add: evaluate_uncancelled [OF assms(1,6,7)] rule_set_to_val_eq [OF assms(3)] eval_context_to_val_eq
        runs_guest_def decision_from_val_of Let_def del: evaluate_result_val.simps)
qed

lemma loops_without_traces [simp]:
  "conditions_evaluated (first_match_loop m tr False dflt rs tags traces) = traces"
  "conditions_evaluated (all_matches_loop m tr False dflt rs tags traces) = traces"
  "conditions_evaluated (score_loop m tr False dflt rs best tags traces) = traces"
  by (induction rs arbitrary: tags best) (auto simp: Let_def split: option.split)

lemma untraced_decision:
  assumes "evaluate ops fmt rs payload ctx = Ok d" "\<not> trace_conditions rs"
  shows "without_descriptions d = d"
proof -
  have "conditions_evaluated d = []"
    using assms by (cases "strategy rs") (auto simp: evaluate_def Let_def)
  then show ?thesis by (simp add: without_descriptions_def)
qed

text \<open>
  C29: a rule guest decides as the native evaluator.  When the component runs the sample guest, the call is
  not cancelled, the conditions fit an arena and the payload text reads back, then evaluation in the guest
  succeeds, and its decision is the native one with the trace descriptions left empty: same action, same
  matched rule, same tags, same trace of verdicts.
\<close>

theorem guest_evaluation_equivalent:
  assumes "rules_callable wt rc"
    and "runs_guest wt rc ops jt (wit_rule_set_of rs) (wit_context_of jt (host_context payload ctx))"
    and "fits_arena rs" and "ports_valid rs" and "text_faithful jt payload"
    and "token_request st t = None" and "\<not> (\<exists>s \<in> set polls. is_cancelled s t)"
  shows "\<exists>d. evaluate ops fmt rs payload ctx = Ok d \<and>
    evaluate_with_cancellation wt jt rc rs (host_context payload ctx) t st polls st' = Ok (without_descriptions d)"
proof -
  obtain d where d: "evaluate ops fmt rs payload ctx = Ok d" using evaluate_Ok by blast
  with guest_agrees [OF assms d] show ?thesis by blast
qed

text \<open>
  C30: the guest evaluator returns on every tree the host sends.  The arena of a condition, placed after any
  other nodes, is evaluated from its root to the value of the condition; no index leads into a cycle.
\<close>

theorem encoded_conditions_evaluate:
  assumes "length nodes + node_count c \<le> 2 ^ 32"
  shows "\<exists>arena. push_condition c (map node_val nodes) =
      (length nodes + length arena - 1, map node_val (nodes @ arena)) \<and>
    eval_node ops (nodes @ arena) (payload_json payload) (wit_context_of jt (host_context payload ctx))
      (length nodes + length arena - 1) = Some (eval_condition ops c payload ctx)"
  using push_condition_arena(1) [of "map node_val nodes" c] assms
    eval_node_arena(1) [of nodes "length nodes" ops c "[]" payload jt ctx]
  by (intro exI [of _ "arena c (length nodes)"]) simp

text \<open>A wasm rule node as the native node with the same rule set, sink and counter.\<close>

definition native_node :: "('n, 's, 'c) wasm_rule_node \<Rightarrow> ('n, 's) rule_node" where
  "native_node node = \<lparr>node_rule_set = wasm_rule_set node, node_sink = wasm_sink node, packet_counter = wasm_counter node\<rparr>"

text \<open>
  C31: a wasm rule node does with a packet what a native rule node does.  Under the conditions above, and when
  rules are not traced, processing a packet gives the result, the counter, the records and the sends of
  the native node in the world the call returns to.
\<close>

theorem wasm_node_equivalent:
  assumes "rules_callable wt (wasm_component node)"
    and "runs_guest wt (wasm_component node) (rp_numbers rp) jt (wit_rule_set_of (wasm_rule_set node))
      (wit_context_of jt (host_context (envelope_payload x) (packet_context ctx x)))"
    and "fits_arena (wasm_rule_set node)" and "ports_valid (wasm_rule_set node)"
    and "\<not> trace_conditions (wasm_rule_set node)" and "text_faithful jt (envelope_payload x)"
    and "\<not> is_cancelled (signals w) (context_token ctx)"
    and "\<not> (\<exists>u \<in> set (worlds steps w). is_cancelled (signals u) (context_token ctx))"
    and "wasm_process_packet ops wt jt (rp_json rp) ctx outs steps resumes x node w = (r, node', w')"
  shows "process_packet ops rp ctx outs resumes x (native_node node) (after_steps steps w) = (r, native_node node', w')"
proof -
  obtain d where d: "evaluate (rp_numbers rp) (rp_float_text rp) (wasm_rule_set node) (envelope_payload x)
      (packet_context ctx x) = Ok d" using evaluate_Ok by blast
  have "evaluate_with_cancellation wt jt (wasm_component node) (wasm_rule_set node) (build_host_context ctx x)
      (context_token ctx) (signals w) (map signals (worlds steps w)) (signals (after_steps steps w)) = Ok d"
    unfolding build_host_context_eq
    using guest_agrees [OF assms(1-4,6) _ _ d, of "signals w" "context_token ctx"] assms(7,8) untraced_decision [OF d assms(5)]
    by (auto simp: is_cancelled_def)
  with assms(9) d show ?thesis
    by (auto simp: wasm_process_packet_def process_packet_def native_node_def fetch_add_counter_def wasm_record_eq
        wasm_execute_eq Let_def split: prod.splits)
qed

section \<open>Witnesses\<close>

text \<open>A runtime that runs the guest program on one pair of arguments, and a rule set with a nested condition.\<close>

definition guest_runtime :: "wit_rule_set \<Rightarrow> wit_context \<Rightarrow> unit wasmtime" where
  "guest_runtime rs c = echo_guest\<lparr>func_call := (\<lambda>g path n d b args.
     \<lparr>call_result =
        (if args = [wit_rule_set_val rs, wit_context_val c]
         then (case guest_evaluate (rp_numbers router_platform) null_text rs c of
                 Some r \<Rightarrow> Ok (evaluate_result_val r) | None \<Rightarrow> Err ''stack exhausted'')
         else Err ''unknown arguments''),
      remaining_fuel = None\<rparr>)\<rparr>"

definition rules_component :: "unit rule_component" where
  "rules_component = \<lparr>rule_guest = (), rule_limits = default_limits\<rparr>"

definition nested_rules :: "bool \<Rightarrow> rule_set" where
  "nested_rules trace =
     \<lparr>rule_set_id = ''rs'', strategy = FirstMatch,
      rules = [\<lparr>rule_id = ''r'', rule_condition = And [Not Never, Or [HopCountGt 3, FieldAbsent (FieldPath ''a'')]],
        rule_action = Route (PortId ''out''), rule_priority = 0, rule_description = []\<rparr>],
      default_action = Drop, trace_conditions = trace\<rparr>"

lemma guest_runtime_runs:
  "runs_guest (guest_runtime rs c) rules_component (rp_numbers router_platform) null_text rs c"
  "rules_callable (guest_runtime rs c) rules_component"
  by (simp_all add: runs_guest_def rules_callable_def guest_runtime_def echo_guest_def split: option.split)

lemma nested_rules_traced [simp]: "trace_conditions (nested_rules b) = b"
  by (simp add: nested_rules_def)

lemma nested_rules_fit: "fits_arena (nested_rules b)" "ports_valid (nested_rules b)"
  by (simp_all add: fits_arena_def ports_valid_def nested_rules_def valid_identifier_ascii ascii_graphic_def byte_def)

theorem guest_evaluation_equivalent_witness:
  "evaluate_with_cancellation
     (guest_runtime (wit_rule_set_of (nested_rules True))
       (wit_context_of null_text (host_context (Bytes ''x'') (packet_context router_context (sample_packet ''x'')))))
     null_text rules_component (nested_rules True)
     (host_context (Bytes ''x'') (packet_context router_context (sample_packet ''x''))) (CancellationToken 0)
     [None] [[None]] [None] =
   Ok \<lparr>decision_action = Route (PortId ''out''), matched_rule = Some ''r'', tags_applied = [],
       conditions_evaluated =
         [\<lparr>trace_rule_id = ''r'', trace_description = [], trace_matched = True, trace_surface = CombinatorSurface\<rparr>]\<rparr>"
proof -
  have "text_faithful null_text (Bytes ''x'')" by simp
  from guest_evaluation_equivalent [OF guest_runtime_runs(2) guest_runtime_runs(1) nested_rules_fit this,
      where st = "[None]" and t = "CancellationToken 0" and polls = "[[None]]" and fmt = "\<lambda>_. ''0''" and st' = "[None]"]
  show ?thesis
    by (auto simp: token_request_def is_cancelled_def evaluate_def nested_rules_def trace_condition_def
        apply_terminal_or_tag_def without_descriptions_def)
qed

theorem encoded_conditions_evaluate_witness:
  "\<exists>arena. push_condition (Not (And [Never, Always])) (map node_val [NNever]) =
      (1 + length arena - 1, map node_val ([NNever] @ arena)) \<and>
    eval_node (rp_numbers router_platform) ([NNever] @ arena) (payload_json (Bytes ''x''))
      (wit_context_of null_text (host_context (Bytes ''x'') (packet_context router_context (sample_packet ''x''))))
      (1 + length arena - 1) = Some True"
  using encoded_conditions_evaluate [of "[NNever]" "Not (And [Never, Always])" "rp_numbers router_platform" "Bytes ''x''"
      null_text "packet_context router_context (sample_packet ''x'')"]
  by (simp del: push_condition.simps)

definition wasm_router :: "(unit, unit, unit) wasm_rule_node" where
  "wasm_router = new_wasm_rule_node (nested_rules False) rules_component"

theorem wasm_node_equivalent_witness:
  "\<exists>r node' w'.
     wasm_process_packet fifo_ops
       (guest_runtime (wit_rule_set_of (nested_rules False))
         (wit_context_of null_text (host_context (Bytes ''x'') (packet_context router_context (sample_packet ''x'')))))
       null_text (rp_json router_platform) router_context
       (ports_out_from_handles [PortId ''out''] [output_connected (PortId ''out'') 0]) [id] []
       (sample_packet ''x'') wasm_router sample_world = (r, node', w') \<and>
     process_packet fifo_ops router_platform router_context
       (ports_out_from_handles [PortId ''out''] [output_connected (PortId ''out'') 0]) []
       (sample_packet ''x'') (native_node wasm_router) (after_steps [id] sample_world) = (r, native_node node', w')"
proof -
  have n: "wasm_rule_set wasm_router = nested_rules False" "wasm_component wasm_router = rules_component"
    by (simp_all add: wasm_router_def new_wasm_rule_node_def)
  have p: "envelope_payload (sample_packet ''x'') = Bytes ''x''" by (simp add: sample_packet_def)
  let ?wt = "guest_runtime (wit_rule_set_of (nested_rules False))
         (wit_context_of null_text (host_context (Bytes ''x'') (packet_context router_context (sample_packet ''x''))))"
  obtain r node' w' where run: "wasm_process_packet fifo_ops ?wt null_text (rp_json router_platform) router_context
       (ports_out_from_handles [PortId ''out''] [output_connected (PortId ''out'') 0]) [id] []
       (sample_packet ''x'') wasm_router sample_world = (r, node', w')" by (metis prod_cases3)
  have "process_packet fifo_ops router_platform router_context
       (ports_out_from_handles [PortId ''out''] [output_connected (PortId ''out'') 0]) []
       (sample_packet ''x'') (native_node wasm_router) (after_steps [id] sample_world) = (r, native_node node', w')"
    by (rule wasm_node_equivalent [OF _ _ _ _ _ _ _ _ run])
      (simp_all add: n p guest_runtime_runs nested_rules_fit router_context_def sample_world_def
        is_cancelled_def token_request_def)
  with run show ?thesis by blast
qed

end
