(* ===== verification/Introspect.thy ===== *)
theory Introspect
  imports Contract Metadata
begin

text \<open>
  The crate \<open>pureflow-introspection\<close>, \<open>lib.rs\<close>: a read-only view of a workflow with its contracts and
  capabilities, and the JSON value shown to inspection tools.
\<close>

section \<open>Views\<close>

datatype enforcement_level = Advisory | Strict

record endpoint_introspection =
  ei_node_id :: node_id
  ei_port_id :: port_id

record port_introspection =
  pi_port_id :: port_id
  pi_direction :: port_direction
  pi_schema :: "schema_ref option"
  pi_capability :: port_capability_direction

record node_introspection =
  ni_node_id :: node_id
  ni_ports :: "port_introspection list"
  ni_execution_mode :: execution_mode
  ni_enforcement :: enforcement_level
  ni_determinism :: determinism
  ni_retry :: retry_disposition
  ni_effects :: "effect_capability list"

record edge_introspection =
  ei_source :: endpoint_introspection
  ei_target :: endpoint_introspection
  ei_capacity :: edge_capacity
  ei_source_schema :: "schema_ref option"
  ei_target_schema :: "schema_ref option"

record workflow_introspection =
  wi_workflow_id :: workflow_id
  wi_nodes :: "node_introspection list"
  wi_edges :: "edge_introspection list"

section \<open>Projection\<close>

definition from_endpoint :: "edge_endpoint \<Rightarrow> endpoint_introspection" where
  "from_endpoint e = \<lparr>ei_node_id = endpoint_node_id e, ei_port_id = endpoint_port_id e\<rparr>"

fun enforcement_for :: "execution_mode \<Rightarrow> enforcement_level" where
  "enforcement_for Native = Advisory"
| "enforcement_for Wasm = Strict"
| "enforcement_for Process = Strict"

definition introspect_port ::
  "node_id \<Rightarrow> port_direction \<Rightarrow> (port_id, port_contract) btree_map \<Rightarrow> (port_id, port_capability) btree_map \<Rightarrow> port_id
   \<Rightarrow> (port_introspection, contract_validation_error) result" where
  "introspect_port n dir cps kps p =
     and_then (ok_or (map_of cps p) (UnknownWorkflowPort n p dir)) (\<lambda>c.
     and_then (ok_or (map_of kps p) (MissingCapabilityDescriptor n)) (\<lambda>k.
     Ok \<lparr>pi_port_id = p, pi_direction = dir, pi_schema = contract_schema c, pi_capability = cap_direction k\<rparr>))"

definition capability_port_map :: "node_capabilities \<Rightarrow> (port_id, port_capability) btree_map" where
  "capability_port_map k = bt_from_list (map (\<lambda>p. (cap_port_id p, p)) (cap_ports k))"

definition introspect_node ::
  "node_definition \<Rightarrow> node_contract \<Rightarrow> node_capabilities \<Rightarrow> (node_introspection, contract_validation_error) result" where
  "introspect_node n c k =
     and_then
       (try_map (\<lambda>(dir, p). introspect_port (node_def_id n) dir (port_map c) (capability_port_map k) p)
         (map (Pair Input) (input_ports n) @ map (Pair Output) (output_ports n))) (\<lambda>ports.
     Ok \<lparr>ni_node_id = node_def_id n, ni_ports = ports, ni_execution_mode = contract_execution_mode c,
         ni_enforcement = enforcement_for (contract_execution_mode c), ni_determinism = contract_determinism c,
         ni_retry = contract_retry c, ni_effects = cap_effects k\<rparr>)"

definition endpoint_schema :: "(node_id, node_contract) btree_map \<Rightarrow> edge_endpoint \<Rightarrow> schema_ref option" where
  "endpoint_schema contracts e =
     Option.bind (Option.bind (map_of contracts (endpoint_node_id e))
       (\<lambda>c. List.find (\<lambda>p. contract_port_id p = endpoint_port_id e) (contract_ports c))) contract_schema"

definition introspect_edge :: "(node_id, node_contract) btree_map \<Rightarrow> edge_definition \<Rightarrow> edge_introspection" where
  "introspect_edge contracts e =
     \<lparr>ei_source = from_endpoint (edge_source e), ei_target = from_endpoint (edge_target e), ei_capacity = edge_capacity e,
      ei_source_schema = endpoint_schema contracts (edge_source e),
      ei_target_schema = endpoint_schema contracts (edge_target e)\<rparr>"

text \<open>The body of the loop over the nodes.\<close>

definition introspect_declared_node ::
  "(node_id, node_contract) btree_map \<Rightarrow> (node_id, node_capabilities) btree_map \<Rightarrow> node_definition
   \<Rightarrow> (node_introspection, contract_validation_error) result" where
  "introspect_declared_node contracts caps n =
     and_then (ok_or (map_of contracts (node_def_id n)) (UnknownWorkflowNode (node_def_id n))) (\<lambda>c.
     and_then (ok_or (map_of caps (node_def_id n)) (MissingCapabilityDescriptor (node_def_id n))) (\<lambda>k.
     introspect_node n c k))"

definition introspect_workflow ::
  "workflow_definition \<Rightarrow> node_contract list \<Rightarrow> node_capabilities list
   \<Rightarrow> (workflow_introspection, contract_validation_error) result" where
  "introspect_workflow w contracts capabilities =
     and_then (validate_workflow_contracts w contracts capabilities) (\<lambda>_.
     and_then
       (try_map (introspect_declared_node (contract_map_of contracts) (capability_map_of capabilities))
         (workflow_nodes w)) (\<lambda>nodes.
     Ok \<lparr>wi_workflow_id = workflow_def_id w, wi_nodes = nodes,
         wi_edges = map (introspect_edge (contract_map_of contracts)) (workflow_edges w)\<rparr>))"

section \<open>JSON\<close>

fun execution_mode_label :: "execution_mode \<Rightarrow> string" where
  "execution_mode_label Native = ''native''"
| "execution_mode_label Wasm = ''wasm''"
| "execution_mode_label Process = ''process''"

fun enforcement_label :: "enforcement_level \<Rightarrow> string" where
  "enforcement_label Advisory = ''advisory''"
| "enforcement_label Strict = ''strict''"

fun determinism_label :: "determinism \<Rightarrow> string" where
  "determinism_label Deterministic = ''deterministic''"
| "determinism_label NonDeterministic = ''non_deterministic''"
| "determinism_label UnknownDeterminism = ''unknown''"

fun retry_label :: "retry_disposition \<Rightarrow> string" where
  "retry_label RetryNever = ''never''"
| "retry_label RetrySafe = ''safe''"
| "retry_label RetryUnknown = ''unknown''"

fun direction_label :: "port_direction \<Rightarrow> string" where
  "direction_label Input = ''input''"
| "direction_label Output = ''output''"

fun capability_label :: "port_capability_direction \<Rightarrow> string" where
  "capability_label Receive = ''receive''"
| "capability_label Emit = ''emit''"

fun schema_ref_str :: "schema_ref \<Rightarrow> string" where
  "schema_ref_str (SchemaRef s) = s"

definition schema_json :: "schema_ref option \<Rightarrow> 'n json" where
  "schema_json s = json_option (\<lambda>r. JString (schema_ref_str r)) s"

fun edge_capacity_to_json :: "(nat \<Rightarrow> 'n) \<Rightarrow> edge_capacity \<Rightarrow> 'n json" where
  "edge_capacity_to_json mk DefaultCapacity = json_object [(''kind'', JString ''default'')]"
| "edge_capacity_to_json mk (Explicit n) = json_object [(''kind'', JString ''explicit''), (''value'', JNumber (mk n))]"

definition endpoint_to_json :: "endpoint_introspection \<Rightarrow> 'n json" where
  "endpoint_to_json e =
     json_object [(''node_id'', JString (node_id_str (ei_node_id e))), (''port_id'', JString (port_id_str (ei_port_id e)))]"

definition edge_to_json :: "(nat \<Rightarrow> 'n) \<Rightarrow> edge_introspection \<Rightarrow> 'n json" where
  "edge_to_json mk e =
     json_object [(''source'', endpoint_to_json (ei_source e)), (''target'', endpoint_to_json (ei_target e)),
       (''capacity'', edge_capacity_to_json mk (ei_capacity e)), (''source_schema'', schema_json (ei_source_schema e)),
       (''target_schema'', schema_json (ei_target_schema e))]"

definition port_to_json :: "port_introspection \<Rightarrow> 'n json" where
  "port_to_json p =
     json_object [(''port_id'', JString (port_id_str (pi_port_id p))), (''direction'', JString (direction_label (pi_direction p))),
       (''schema'', schema_json (pi_schema p)), (''capability'', JString (capability_label (pi_capability p)))]"

definition node_to_json :: "node_introspection \<Rightarrow> 'n json" where
  "node_to_json n =
     json_object [(''node_id'', JString (node_id_str (ni_node_id n))),
       (''execution_mode'', JString (execution_mode_label (ni_execution_mode n))),
       (''enforcement'', JString (enforcement_label (ni_enforcement n))),
       (''determinism'', JString (determinism_label (ni_determinism n))), (''retry'', JString (retry_label (ni_retry n))),
       (''effects'', JArray (map (\<lambda>e. JString (effect_as_str e)) (ni_effects n))),
       (''ports'', JArray (map port_to_json (ni_ports n)))]"

definition workflow_introspection_to_json_value :: "(nat \<Rightarrow> 'n) \<Rightarrow> workflow_introspection \<Rightarrow> 'n json" where
  "workflow_introspection_to_json_value mk w =
     json_object [(''workflow_id'', JString (workflow_id_str (wi_workflow_id w))),
       (''nodes'', JArray (map node_to_json (wi_nodes w))), (''edges'', JArray (map (edge_to_json mk) (wi_edges w)))]"

text \<open>The printer of \<open>serde_json\<close> is a parameter.\<close>

definition workflow_introspection_to_json_string ::
  "('n json \<Rightarrow> (string, 'e) result) \<Rightarrow> (nat \<Rightarrow> 'n) \<Rightarrow> workflow_introspection \<Rightarrow> (string, 'e) result" where
  "workflow_introspection_to_json_string pretty mk w = pretty (workflow_introspection_to_json_value mk w)"

section \<open>What introspection accepts\<close>

text \<open>Every port of the node is claimed by the descriptor.\<close>

definition claims_every_port :: "node_definition \<Rightarrow> node_capabilities \<Rightarrow> bool" where
  "claims_every_port n k \<longleftrightarrow> set (input_ports n) \<union> set (output_ports n) \<subseteq> cap_port_id ` set (cap_ports k)"

lemma capability_port_map_dom: "map_of (capability_port_map k) p = None \<longleftrightarrow> p \<notin> cap_port_id ` set (cap_ports k)"
  by (simp add: capability_port_map_def map_of_bt_from_list map_of_eq_None_iff image_image)

lemma port_map_dom: "map_of (port_map c) p = None \<longleftrightarrow> p \<notin> contract_port_id ` set (contract_ports c)"
  by (simp add: port_map_def map_of_bt_from_list map_of_eq_None_iff image_image)

lemma try_map_Ok_ex: "(\<exists>ys. try_map f xs = Ok ys) \<longleftrightarrow> (\<forall>x\<in>set xs. \<exists>y. f x = Ok y)"
  by (induction xs) auto

lemma introspect_port_Ok:
  "introspect_port n dir cps kps p = Ok v \<longleftrightarrow>
     (\<exists>c k. map_of cps p = Some c \<and> map_of kps p = Some k \<and>
        v = \<lparr>pi_port_id = p, pi_direction = dir, pi_schema = contract_schema c, pi_capability = cap_direction k\<rparr>)"
  by (auto simp: introspect_port_def)

lemma introspect_port_succeeds:
  "(\<exists>v. introspect_port n dir cps kps p = Ok v) \<longleftrightarrow> map_of cps p \<noteq> None \<and> map_of kps p \<noteq> None"
  by (auto simp: introspect_port_Ok)

lemma introspect_node_succeeds:
  assumes "node_port_set n = contract_port_set c"
  shows "(\<exists>v. introspect_node n c k = Ok v) \<longleftrightarrow> claims_every_port n k"
proof -
  have c: "map_of (port_map c) p \<noteq> None" if "p \<in> set (input_ports n) \<union> set (output_ports n)" for p
  proof -
    obtain d where "(p, d) \<in> node_port_set n" using \<open>p \<in> _\<close> by (auto simp: node_port_set_def)
    then have "p \<in> contract_port_id ` set (contract_ports c)"
      unfolding assms by (auto simp: contract_port_set_def)
    then show ?thesis by (simp add: port_map_dom)
  qed
  let ?f = "\<lambda>(dir, p). introspect_port (node_def_id n) dir (port_map c) (capability_port_map k) p"
  let ?ps = "map (Pair Input) (input_ports n) @ map (Pair Output) (output_ports n)"
  have "(\<exists>v. introspect_node n c k = Ok v) \<longleftrightarrow> (\<exists>vs. try_map ?f ?ps = Ok vs)"
    by (auto simp: introspect_node_def)
  also have "\<dots> \<longleftrightarrow> (\<forall>p \<in> set (input_ports n) \<union> set (output_ports n). map_of (capability_port_map k) p \<noteq> None)"
    unfolding try_map_Ok_ex using c by (simp add: ball_Un introspect_port_succeeds)
  finally show ?thesis by (auto simp: claims_every_port_def capability_port_map_dom)
qed

text \<open>
  C32: introspection accepts exactly the validated workflows whose descriptors claim every port.  Contract
  validation does not ask for that: a workflow that passes it, and runs, is refused by introspection
  when the descriptor that counts for a node leaves out one of its ports.
\<close>

theorem introspect_workflow_accepts_iff:
  assumes "distinct (map node_def_id (workflow_nodes w))"
    and "list_all (\<lambda>n. distinct (input_ports n @ output_ports n)) (workflow_nodes w)"
    and "list_all (\<lambda>c. distinct (map contract_port_id (contract_ports c))) contracts"
  shows "(\<exists>v. introspect_workflow w contracts caps = Ok v) \<longleftrightarrow>
    validate_workflow_contracts w contracts caps = Ok () \<and>
    list_all (\<lambda>n. \<exists>k. capabilities_for caps (node_def_id n) = Some k \<and> claims_every_port n k) (workflow_nodes w)"
proof (cases "validate_workflow_contracts w contracts caps = Ok ()")
  case True
  have ok: "node_contract_ok contracts caps n" if "n \<in> set (workflow_nodes w)" for n
    using True that unfolding validate_workflow_contracts_accepts [OF assms] by (simp add: list_all_iff)
  have "(\<exists>v. introspect_workflow w contracts caps = Ok v) \<longleftrightarrow>
      (\<forall>n \<in> set (workflow_nodes w). \<exists>c k. contract_for contracts (node_def_id n) = Some c \<and>
        capabilities_for caps (node_def_id n) = Some k \<and> (\<exists>v. introspect_node n c k = Ok v))"
    (is "?lhs \<longleftrightarrow> ?rhs")
  proof -
    have "?lhs \<longleftrightarrow> (\<exists>vs. try_map (introspect_declared_node (contract_map_of contracts) (capability_map_of caps))
        (workflow_nodes w) = Ok vs)"
      using True by (auto simp: introspect_workflow_def)
    also have "\<dots> \<longleftrightarrow> ?rhs"
      unfolding try_map_Ok_ex by (simp add: introspect_declared_node_def contract_map_lookup capability_map_lookup) blast
    finally show ?thesis .
  qed
  also have "\<dots> \<longleftrightarrow> (\<forall>n \<in> set (workflow_nodes w).
      \<exists>k. capabilities_for caps (node_def_id n) = Some k \<and> claims_every_port n k)"
  proof (rule ball_cong [OF refl])
    fix n
    assume "n \<in> set (workflow_nodes w)"
    from ok [OF this] obtain c k where "contract_for contracts (node_def_id n) = Some c"
      "capabilities_for caps (node_def_id n) = Some k" "node_port_set n = contract_port_set c"
      by (auto simp: node_contract_ok_def)
    then show "(\<exists>c k. contract_for contracts (node_def_id n) = Some c \<and>
        capabilities_for caps (node_def_id n) = Some k \<and> (\<exists>v. introspect_node n c k = Ok v)) \<longleftrightarrow>
      (\<exists>k. capabilities_for caps (node_def_id n) = Some k \<and> claims_every_port n k)"
      by (simp add: introspect_node_succeeds)
  qed
  finally show ?thesis using True by (simp add: list_all_iff)
qed (auto simp: introspect_workflow_def)

section \<open>What introspection shows\<close>

text \<open>
  A node view is true to the node: its ports in declaration order with their directions, the
  capability that fits each direction, and no effect behind a strict boundary.
\<close>

definition node_view_true :: "node_definition \<Rightarrow> node_introspection \<Rightarrow> bool" where
  "node_view_true n v \<longleftrightarrow>
     ni_node_id v = node_def_id n
     \<and> map (\<lambda>p. (pi_direction p, pi_port_id p)) (ni_ports v) =
         map (Pair Input) (input_ports n) @ map (Pair Output) (output_ports n)
     \<and> list_all (\<lambda>p. pi_capability p = (case pi_direction p of Input \<Rightarrow> Receive | Output \<Rightarrow> Emit)) (ni_ports v)
     \<and> (case ni_enforcement v of Advisory \<Rightarrow> True | Strict \<Rightarrow> ni_effects v = [])"

definition edge_view_true :: "edge_definition \<Rightarrow> edge_introspection \<Rightarrow> bool" where
  "edge_view_true e v \<longleftrightarrow>
     ei_source v = from_endpoint (edge_source e) \<and> ei_target v = from_endpoint (edge_target e)
     \<and> ei_capacity v = edge_capacity e
     \<and> (case (ei_source_schema v, ei_target_schema v) of (Some s, Some t) \<Rightarrow> s = t | _ \<Rightarrow> True)"

lemma capability_port_map_SomeD:
  "map_of (capability_port_map k) p = Some q \<Longrightarrow> q \<in> set (cap_ports k) \<and> cap_port_id q = p"
  by (auto simp: capability_port_map_def map_of_bt_from_list dest!: map_of_SomeD)

lemma claimed_direction:
  assumes "distinct (map node_def_id (workflow_nodes w))" "n \<in> set (workflow_nodes w)"
    and "capability_claims_ok w k" "cap_node_id k = node_def_id n" "q \<in> set (cap_ports k)"
  shows "workflow_direction_for n (cap_port_id q) = Some (cap_direction q)"
proof -
  obtain n' where n': "n' \<in> set (workflow_nodes w)" "node_def_id n' = node_def_id n"
    "workflow_direction_for n' (cap_port_id q) = Some (cap_direction q)"
    using assms(3-5) by (auto simp: capability_claims_ok_def list_all_iff)
  then have "n' = n" using assms(1,2) by (auto simp: distinct_map dest: inj_onD)
  with n' show ?thesis by simp
qed

lemma introspect_node_true:
  assumes d: "distinct (input_ports n @ output_ports n)"
    and dir: "\<And>q. q \<in> set (cap_ports k) \<Longrightarrow> workflow_direction_for n (cap_port_id q) = Some (cap_direction q)"
    and strict: "contract_execution_mode c = Native \<or> cap_effects k = []"
    and v: "introspect_node n c k = Ok v"
  shows "node_view_true n v"
proof -
  let ?ps = "map (Pair Input) (input_ports n) @ map (Pair Output) (output_ports n)"
  from v obtain ports where ports: "list_all2 (\<lambda>(dir, p) q. introspect_port (node_def_id n) dir (port_map c)
      (capability_port_map k) p = Ok q) ?ps ports"
    and v_eq: "v = \<lparr>ni_node_id = node_def_id n, ni_ports = ports, ni_execution_mode = contract_execution_mode c,
         ni_enforcement = enforcement_for (contract_execution_mode c), ni_determinism = contract_determinism c,
         ni_retry = contract_retry c, ni_effects = cap_effects k\<rparr>"
    by (auto simp: introspect_node_def try_map_Ok_iff case_prod_unfold)
  have view: "(pi_direction q, pi_port_id q) = (dir, p) \<and>
      pi_capability q = (case pi_direction q of Input \<Rightarrow> Receive | Output \<Rightarrow> Emit)"
    if "(dir, p) \<in> set ?ps" "introspect_port (node_def_id n) dir (port_map c) (capability_port_map k) p = Ok q" for dir p q
  proof -
    obtain cp :: port_contract and kp where kp: "map_of (capability_port_map k) p = Some kp"
      "q = \<lparr>pi_port_id = p, pi_direction = dir, pi_schema = contract_schema cp, pi_capability = cap_direction kp\<rparr>"
      using \<open>introspect_port _ _ _ _ _ = _\<close> unfolding introspect_port_Ok by blast
    from capability_port_map_SomeD [OF kp(1)] have "workflow_direction_for n p = Some (cap_direction kp)"
      using dir by blast
    with kp(2) \<open>(dir, p) \<in> _\<close> d show ?thesis by (auto simp: workflow_direction_for_def split: if_splits)
  qed
  have "list_all2 (\<lambda>x q. (pi_direction q, pi_port_id q) = x \<and>
      pi_capability q = (case pi_direction q of Input \<Rightarrow> Receive | Output \<Rightarrow> Emit)) ?ps ports"
    using ports
  proof (rule list.rel_mono_strong)
    fix x q
    assume x: "x \<in> set ?ps" and q: "(\<lambda>(dir, p) q.
      introspect_port (node_def_id n) dir (port_map c) (capability_port_map k) p = Ok q) x q"
    from view [of "fst x" "snd x" q] x q show "(pi_direction q, pi_port_id q) = x \<and>
      pi_capability q = (case pi_direction q of Input \<Rightarrow> Receive | Output \<Rightarrow> Emit)"
      by (simp add: case_prod_unfold)
  qed
  then have "map (\<lambda>p. (pi_direction p, pi_port_id p)) ports = ?ps"
    "\<forall>q \<in> set ports. pi_capability q = (case pi_direction q of Input \<Rightarrow> Receive | Output \<Rightarrow> Emit)"
    by (auto simp: list_all2_conv_all_nth in_set_conv_nth intro: nth_equalityI)
  with v_eq strict show ?thesis
    by (cases "contract_execution_mode c") (simp_all add: node_view_true_def list_all_iff)
qed

lemma introspect_edge_true:
  assumes "edge_schemas_agree (map_of m) e"
  shows "edge_view_true e (introspect_edge m e)"
proof -
  from assms obtain sc tc where "map_of m (edge_source_node e) = Some sc" "map_of m (edge_target_node e) = Some tc"
    by (auto simp: edge_schemas_agree_def split: option.splits)
  with assms show ?thesis
    by (simp add: edge_view_true_def introspect_edge_def endpoint_schema_def edge_schemas_agree_def schema_of_def)
qed

text \<open>
  what introspection shows is true.  Nodes and edges appear in declaration order; each port is shown in
  its direction with the capability to receive on inputs and emit on outputs; a node behind a strict
  boundary shows no effect; and the two schemas of an edge, when both are shown, are the same.
\<close>

theorem introspection_true_to_workflow:
  assumes "distinct (map node_def_id (workflow_nodes w))"
    and "list_all (\<lambda>n. distinct (input_ports n @ output_ports n)) (workflow_nodes w)"
    and "list_all (\<lambda>c. distinct (map contract_port_id (contract_ports c))) contracts"
    and "introspect_workflow w contracts caps = Ok v"
  shows "wi_workflow_id v = workflow_def_id w \<and> list_all2 node_view_true (workflow_nodes w) (wi_nodes v) \<and>
    list_all2 edge_view_true (workflow_edges w) (wi_edges v)"
proof -
  from assms(4) obtain nodes where valid: "validate_workflow_contracts w contracts caps = Ok ()"
    and nodes: "list_all2 (\<lambda>n x. introspect_declared_node (contract_map_of contracts) (capability_map_of caps) n = Ok x)
      (workflow_nodes w) nodes"
    and v: "v = \<lparr>wi_workflow_id = workflow_def_id w, wi_nodes = nodes,
      wi_edges = map (introspect_edge (contract_map_of contracts)) (workflow_edges w)\<rparr>"
    by (auto simp: introspect_workflow_def try_map_Ok_iff)
  note ok = valid [unfolded validate_workflow_contracts_accepts [OF assms(1-3)] list_all_iff]
  have "node_view_true n x" if n: "n \<in> set (workflow_nodes w)"
    and x: "introspect_declared_node (contract_map_of contracts) (capability_map_of caps) n = Ok x" for n x
  proof -
    from x obtain c k where ck: "contract_for contracts (node_def_id n) = Some c"
      "capabilities_for caps (node_def_id n) = Some k" "introspect_node n c k = Ok x"
      by (auto simp: introspect_declared_node_def contract_map_lookup capability_map_lookup)
    from ck(2) have k: "k \<in> set caps" "cap_node_id k = node_def_id n" by (auto dest!: map_of_SomeD)
    show ?thesis
    proof (rule introspect_node_true [OF _ _ _ ck(3)])
      show "distinct (input_ports n @ output_ports n)" using assms(2) n by (simp add: list_all_iff)
      show "workflow_direction_for n (cap_port_id q) = Some (cap_direction q)" if "q \<in> set (cap_ports k)" for q
        using claimed_direction [OF assms(1) n _ k(2) that] ok k(1) by blast
      show "contract_execution_mode c = Native \<or> cap_effects k = []"
        using ok n ck by (auto simp: node_contract_ok_def)
    qed
  qed
  then have "list_all2 node_view_true (workflow_nodes w) nodes"
    using nodes by (auto elim: list.rel_mono_strong)
  moreover have "edge_view_true e (introspect_edge (contract_map_of contracts) e)" if "e \<in> set (workflow_edges w)" for e
    using ok that contract_map_lookup [of contracts] by (intro introspect_edge_true) (simp add: edge_schemas_agree_def)
  ultimately show ?thesis by (simp add: v list_all2_conv_all_nth)
qed

section \<open>The JSON value determines the view\<close>

lemma introspection_labels_inject [simp]:
  "execution_mode_label a = execution_mode_label b \<longleftrightarrow> a = b"
  "enforcement_label c = enforcement_label d \<longleftrightarrow> c = d"
  "determinism_label e = determinism_label f \<longleftrightarrow> e = f"
  "retry_label g = retry_label h \<longleftrightarrow> g = h"
  "direction_label i = direction_label j \<longleftrightarrow> i = j"
  "capability_label k = capability_label l \<longleftrightarrow> k = l"
  "effect_as_str m = effect_as_str n \<longleftrightarrow> m = n"
  "schema_ref_str r = schema_ref_str s \<longleftrightarrow> r = s"
  subgoal by (cases a; cases b) simp_all
  subgoal by (cases c; cases d) simp_all
  subgoal by (cases e; cases f) simp_all
  subgoal by (cases g; cases h) simp_all
  subgoal by (cases i; cases j) simp_all
  subgoal by (cases k; cases l) simp_all
  subgoal by (cases m; cases n) simp_all
  subgoal by (cases r; cases s) simp_all
  done

lemma schema_json_inject [simp]: "schema_json x = (schema_json y :: 'n json) \<longleftrightarrow> x = y"
  by (cases x; cases y) (simp_all add: schema_json_def)

lemma port_json_inj: "inj (port_to_json :: port_introspection \<Rightarrow> 'n json)"
  by (rule injI) (simp add: port_to_json_def json_object_inject)

lemma node_json_inj: "inj (node_to_json :: node_introspection \<Rightarrow> 'n json)"
proof (rule injI)
  fix a b :: node_introspection
  have effects: "inj (\<lambda>e. JString (effect_as_str e) :: 'n json)" by (rule injI) simp
  assume "node_to_json a = (node_to_json b :: 'n json)"
  then show "a = b"
    by (simp add: node_to_json_def json_object_inject inj_map_eq_map [OF port_json_inj] inj_map_eq_map [OF effects])
qed

lemma endpoint_introspection_json_inject [simp]: "endpoint_to_json a = (endpoint_to_json b :: 'n json) \<longleftrightarrow> a = b"
  by (auto simp: endpoint_to_json_def json_object_inject)

lemma capacity_json_inject:
  assumes "inj mk"
  shows "edge_capacity_to_json mk a = edge_capacity_to_json mk b \<longleftrightarrow> a = b"
proof -
  let ?cap = "\<lambda>c. json_get (edge_capacity_to_json mk c) ''value''"
  have val: "?cap c = (case c of DefaultCapacity \<Rightarrow> None | Explicit n \<Rightarrow> Some (JNumber (mk n)))" for c
    by (cases c) (simp_all add: json_get_json_object)
  have "a = b" if "?cap a = ?cap b"
    using that assms unfolding val by (cases a; cases b) (simp_all add: inj_eq)
  then show ?thesis by auto
qed

lemma edge_json_inj: "inj mk \<Longrightarrow> inj (edge_to_json mk)"
  by (rule injI) (simp add: edge_to_json_def json_object_inject capacity_json_inject)

text \<open>
  the JSON shown to inspection tools loses nothing.  Two introspections have the same JSON value exactly
  when they are the same, provided numbers are told apart.
\<close>

theorem introspection_json_faithful:
  assumes "inj mk"
  shows "workflow_introspection_to_json_value mk a = workflow_introspection_to_json_value mk b \<longleftrightarrow> a = b"
  by (auto simp: workflow_introspection_to_json_value_def json_object_inject inj_map_eq_map [OF node_json_inj]
      inj_map_eq_map [OF edge_json_inj [OF assms]])

theorem introspection_json_faithful_witness:
  "workflow_introspection_to_json_value (id :: nat \<Rightarrow> nat) \<lparr>wi_workflow_id = WorkflowId ''w'', wi_nodes = [], wi_edges =
       [\<lparr>ei_source = \<lparr>ei_node_id = NodeId ''a'', ei_port_id = PortId ''o''\<rparr>,
         ei_target = \<lparr>ei_node_id = NodeId ''b'', ei_port_id = PortId ''i''\<rparr>, ei_capacity = Explicit 1,
         ei_source_schema = None, ei_target_schema = None\<rparr>]\<rparr> \<noteq>
   workflow_introspection_to_json_value id \<lparr>wi_workflow_id = WorkflowId ''w'', wi_nodes = [], wi_edges =
       [\<lparr>ei_source = \<lparr>ei_node_id = NodeId ''a'', ei_port_id = PortId ''o''\<rparr>,
         ei_target = \<lparr>ei_node_id = NodeId ''b'', ei_port_id = PortId ''i''\<rparr>, ei_capacity = DefaultCapacity,
         ei_source_schema = None, ei_target_schema = None\<rparr>]\<rparr>"
  by (simp add: introspection_json_faithful)

section \<open>Witnesses\<close>

definition shown_node :: node_definition where
  "shown_node = \<lparr>node_def_id = NodeId ''a'', input_ports = [PortId ''i''], output_ports = [PortId ''o'']\<rparr>"

definition shown_workflow :: workflow_definition where
  "shown_workflow = \<lparr>workflow_def_id = WorkflowId ''w'', workflow_graph = \<lparr>graph_nodes = [shown_node], graph_edges = []\<rparr>\<rparr>"

definition shown_contract :: node_contract where
  "shown_contract = \<lparr>contract_id = NodeId ''a'', contract_ports =
      [\<lparr>contract_port_id = PortId ''i'', contract_direction = Input, contract_schema = None\<rparr>,
       \<lparr>contract_port_id = PortId ''o'', contract_direction = Output, contract_schema = Some (SchemaRef ''s'')\<rparr>],
      contract_execution_mode = Wasm, contract_determinism = Deterministic, contract_retry = RetryNever\<rparr>"

definition shown_capabilities :: "port_capability list \<Rightarrow> node_capabilities" where
  "shown_capabilities ports = \<lparr>cap_node_id = NodeId ''a'', cap_ports = ports, cap_effects = []\<rparr>"

lemmas shown_defs = shown_node_def shown_workflow_def shown_contract_def shown_capabilities_def

lemma shown_shape:
  "distinct (map node_def_id (workflow_nodes shown_workflow))"
  "list_all (\<lambda>n. distinct (input_ports n @ output_ports n)) (workflow_nodes shown_workflow)"
  "list_all (\<lambda>c. distinct (map contract_port_id (contract_ports c))) [shown_contract]"
  by (simp_all add: shown_defs)

lemma shown_validated:
  "list_all (\<lambda>p. workflow_direction_for shown_node (cap_port_id p) = Some (cap_direction p)) ports \<Longrightarrow>
     validate_workflow_contracts shown_workflow [shown_contract] [shown_capabilities ports] = Ok ()"
  unfolding validate_workflow_contracts_accepts [OF shown_shape]
  by (auto simp: shown_defs capability_claims_ok_def node_contract_ok_def node_port_set_def contract_port_set_def)

theorem introspect_workflow_accepts_iff_witness:
  "validate_workflow_contracts shown_workflow [shown_contract] [shown_capabilities []] = Ok () \<and>
   \<not> (\<exists>v. introspect_workflow shown_workflow [shown_contract] [shown_capabilities []] = Ok v)"
  using introspect_workflow_accepts_iff [OF shown_shape, of "[shown_capabilities []]"] shown_validated [of "[]"]
  by (simp add: shown_defs claims_every_port_def)

theorem introspection_true_to_workflow_witness:
  "\<exists>v. introspect_workflow shown_workflow [shown_contract]
       [shown_capabilities [\<lparr>cap_port_id = PortId ''i'', cap_direction = Receive\<rparr>,
          \<lparr>cap_port_id = PortId ''o'', cap_direction = Emit\<rparr>]] = Ok v \<and>
     list_all2 node_view_true [shown_node] (wi_nodes v)"
proof -
  let ?k = "shown_capabilities [\<lparr>cap_port_id = PortId ''i'', cap_direction = Receive\<rparr>,
          \<lparr>cap_port_id = PortId ''o'', cap_direction = Emit\<rparr>]"
  have valid: "validate_workflow_contracts shown_workflow [shown_contract] [?k] = Ok ()"
    by (rule shown_validated) (simp add: shown_node_def workflow_direction_for_def)
  have "\<exists>x. introspect_node shown_node shown_contract ?k = Ok x"
    by (subst introspect_node_succeeds)
      (auto simp: shown_defs claims_every_port_def node_port_set_def contract_port_set_def)
  then obtain v where v: "introspect_workflow shown_workflow [shown_contract] [?k] = Ok v"
    using valid by (auto simp: introspect_workflow_def introspect_declared_node_def contract_map_lookup
        capability_map_lookup shown_workflow_def) (auto simp: shown_defs)
  from introspection_true_to_workflow [OF shown_shape v] v show ?thesis
    by (auto simp: shown_workflow_def)
qed

end
