(* ===== verification/CliText.thy ===== *)
theory CliText
  imports Introspect FormatProps WasmBatch RuleNode RuleIntrospect
begin

text \<open>
  The first part of \<open>pureflow-cli/src/main.rs\<close>: what it uses of \<open>std::path\<close> and of UTF-8 text, its
  error type, the trace filter taken from the environment, and the JSON Schema documents.

  A path is its text.  \<open>tracing_subscriber\<close> and the printer of \<open>serde_json\<close> are parameters.
\<close>

section \<open>Paths\<close>

text \<open>
  \<open>std::path::Components\<close> walks a path from the back.  The root, or a leading \<open>.\<close>, is not part of the
  body; in the body, empty components and \<open>.\<close> are skipped.
\<close>

definition has_root :: "string \<Rightarrow> bool" where
  "has_root p \<longleftrightarrow> take 1 p = ''/''"

definition leading_cur_dir :: "string \<Rightarrow> bool" where
  "leading_cur_dir p \<longleftrightarrow> p = ''.'' \<or> take 2 p = ''./''"

definition len_before_body :: "string \<Rightarrow> nat" where
  "len_before_body p = (if has_root p \<or> leading_cur_dir p then 1 else 0)"

definition last_component :: "string \<Rightarrow> string" where
  "last_component rb = takeWhile (\<lambda>c. c \<noteq> CHR ''/'') rb"

text \<open>The body is kept in reverse.\<close>

function trim_right :: "string \<Rightarrow> string" where
  "trim_right rb =
     (if rb = [] then []
      else if last_component rb \<in> {[], ''.''} then trim_right (drop (length (last_component rb) + 1) rb)
      else rb)"
  by pat_completeness auto
termination by (relation "measure length") auto

declare trim_right.simps [simp del]

definition reversed_body :: "string \<Rightarrow> string" where
  "reversed_body p = trim_right (rev (drop (len_before_body p) p))"

definition file_name :: "string \<Rightarrow> string option" where
  "file_name p =
     (let rb = reversed_body p; c = rev (last_component rb)
      in if rb = [] \<or> c = ''..'' then None else Some c)"

definition parent :: "string \<Rightarrow> string option" where
  "parent p =
     (let rb = reversed_body p
      in if rb = [] then (if leading_cur_dir p then Some [] else None)
         else Some (take (len_before_body p) p @ rev (trim_right (drop (length (last_component rb) + 1) rb))))"

definition extension :: "string \<Rightarrow> string option" where
  "extension p =
     (case file_name p of
        None \<Rightarrow> None
      | Some f \<Rightarrow>
          (let after = rev (takeWhile (\<lambda>c. c \<noteq> CHR ''.'') (rev f))
           in if CHR ''.'' \<notin> set f \<or> length f = length after + 1 then None else Some after))"

section \<open>UTF-8\<close>

text \<open>Encoding of a scalar value, and \<open>str::trim\<close>.\<close>

definition encode_utf8 :: "nat \<Rightarrow> string" where
  "encode_utf8 c =
     map char_of
       (if c < 128 then [c]
        else if c < 2048 then [192 + c div 64, 128 + c mod 64]
        else if c < 65536 then [224 + c div 4096, 128 + c div 64 mod 64, 128 + c mod 64]
        else [240 + c div 262144, 128 + c div 4096 mod 64, 128 + c div 64 mod 64, 128 + c mod 64])"

definition str_trim :: "string \<Rightarrow> string" where
  "str_trim s = concat (map encode_utf8 (trim_chars (chars s)))"

text \<open>
  The check of \<open>String::from_utf8\<close>: \<open>Err (i, n)\<close> reports an invalid sequence at index \<open>i\<close>, of \<open>n\<close> bytes or
  cut off by the end of the input (\<open>None\<close>).
\<close>

definition is_continuation :: "nat \<Rightarrow> bool" where
  "is_continuation b \<longleftrightarrow> 128 \<le> b \<and> b < 192"

definition second_ok :: "nat \<Rightarrow> nat \<Rightarrow> bool" where
  "second_ok a b \<longleftrightarrow>
     is_continuation b \<and> (a = 224 \<longrightarrow> 160 \<le> b) \<and> (a = 237 \<longrightarrow> b < 160) \<and> (a = 240 \<longrightarrow> 144 \<le> b) \<and> (a = 244 \<longrightarrow> b < 144)"

definition utf8_width :: "nat \<Rightarrow> nat" where
  "utf8_width a =
     (if a < 128 then 1 else if 194 \<le> a \<and> a < 224 then 2 else if 224 \<le> a \<and> a < 240 then 3
      else if 240 \<le> a \<and> a < 245 then 4 else 0)"

fun check_tail :: "nat \<Rightarrow> nat \<Rightarrow> nat list \<Rightarrow> (unit, nat option) result" where
  "check_tail seen n [] = (if n = 0 then Ok () else Err None)"
| "check_tail seen n (b # bs) =
     (if n = 0 then Ok () else if is_continuation b then check_tail (seen + 1) (n - 1) bs else Err (Some seen))"

definition check_sequence :: "nat \<Rightarrow> nat list \<Rightarrow> (unit, nat option) result" where
  "check_sequence a bs =
     (if utf8_width a = 0 then Err (Some 1)
      else if utf8_width a = 1 then Ok ()
      else case bs of
          [] \<Rightarrow> Err None
        | b # bs' \<Rightarrow> if second_ok a b then check_tail 2 (utf8_width a - 2) bs' else Err (Some 1))"

function check_utf8 :: "nat \<Rightarrow> nat list \<Rightarrow> (unit, nat \<times> nat option) result" where
  "check_utf8 i bs =
     (case bs of
        [] \<Rightarrow> Ok ()
      | a # rest \<Rightarrow>
          (case check_sequence a rest of
             Ok _ \<Rightarrow> check_utf8 (i + utf8_width a) (drop (utf8_width a - 1) rest)
           | Err n \<Rightarrow> Err (i, n)
           | Panic \<Rightarrow> Panic))"
  by pat_completeness auto
termination by (relation "measure (\<lambda>(i, bs). length bs)") auto

declare check_utf8.simps [simp del]

definition show_utf8_error :: "nat \<times> nat option \<Rightarrow> string" where
  "show_utf8_error e =
     (case snd e of
        Some n \<Rightarrow> ''invalid utf-8 sequence of '' @ show_nat n @ '' bytes from index '' @ show_nat (fst e)
      | None \<Rightarrow> ''incomplete utf-8 byte sequence from index '' @ show_nat (fst e))"

definition string_from_utf8 :: "char list \<Rightarrow> (string, string) result" where
  "string_from_utf8 bytes = and_then (map_err show_utf8_error (check_utf8 0 (map byte bytes))) (\<lambda>_. Ok bytes)"

section \<open>Errors\<close>

text \<open>I/O errors and errors of \<open>serde_json\<close> are known by their text only.\<close>

datatype cli_error =
  CliIo string string string
| CliWorkflowJson workflow_text_error
| CliWorkflowToml workflow_text_error
| CliWorkflowYaml workflow_text_error
| CliWorkflowFormat string
| CliContract contract_validation_error
| CliCapability capability_validation_error
| CliIntrospectionJson string
| CliRuntime pureflow_error
| CliTracing string
| CliWasmManifest string
| CliWasmManifestJson string string

definition exit_code :: "cli_error \<Rightarrow> int" where
  "exit_code e = 1"

fun show_contract_validation_error :: "contract_validation_error \<Rightarrow> string" where
  "show_contract_validation_error EmptySchemaRef = ''schema reference cannot be empty''"
| "show_contract_validation_error (DuplicatePortContract n p) =
     ''node '' @ quoted (node_id_str n) @ '' declares duplicate contract port '' @ quoted (port_id_str p)"
| "show_contract_validation_error (UnknownWorkflowNode n) =
     ''contract references unknown workflow node '' @ quoted (node_id_str n)"
| "show_contract_validation_error (UnknownWorkflowPort n p d) =
     ''node '' @ quoted (node_id_str n) @ '' contract references unknown '' @ port_direction_label d
       @ '' workflow port '' @ quoted (port_id_str p)"
| "show_contract_validation_error (PortDirectionMismatch n p flow contract) =
     ''node '' @ quoted (node_id_str n) @ '' contract port '' @ quoted (port_id_str p) @ '' is ''
       @ port_direction_label contract @ '' but workflow declares '' @ port_direction_label flow"
| "show_contract_validation_error (MissingCapabilityDescriptor n) =
     ''no capability descriptor supplied for workflow node '' @ quoted (node_id_str n)"
| "show_contract_validation_error (SchemaMismatch i sn sp tn tp) =
     ''edge '' @ show_nat i @ '' from '' @ quoted (node_id_str sn @ '':'' @ port_id_str sp) @ '' to ''
       @ quoted (node_id_str tn @ '':'' @ port_id_str tp) @ '' has incompatible schemas''"
| "show_contract_validation_error (CapabilityError e) =
     ''capability validation failed: '' @ show_capability_error e"

fun show_cli_error :: "cli_error \<Rightarrow> string" where
  "show_cli_error (CliIo action p e) = ''failed to '' @ action @ '' '' @ quoted p @ '': '' @ e"
| "show_cli_error (CliWorkflowJson e) = show_workflow_text_error ''JSON'' e"
| "show_cli_error (CliWorkflowToml e) = show_workflow_text_error ''TOML'' e"
| "show_cli_error (CliWorkflowYaml e) = show_workflow_text_error ''YAML'' e"
| "show_cli_error (CliWorkflowFormat m) = m"
| "show_cli_error (CliContract e) = ''workflow contract validation failed: '' @ show_contract_validation_error e"
| "show_cli_error (CliCapability e) = ''workflow capability validation failed: '' @ show_capability_error e"
| "show_cli_error (CliIntrospectionJson e) = ''failed to encode workflow introspection JSON: '' @ e"
| "show_cli_error (CliRuntime e) = show_pureflow_error e"
| "show_cli_error (CliTracing m) = m"
| "show_cli_error (CliWasmManifest m) = ''invalid WASM component manifest: '' @ m"
| "show_cli_error (CliWasmManifestJson p e) =
     ''failed to decode WASM component manifest '' @ quoted p @ '': '' @ e"

type_synonym 'a cli_result = "('a, cli_error) result"

section \<open>Trace filter\<close>

definition tracing_value_disables_output :: "string \<Rightarrow> bool" where
  "tracing_value_disables_output v \<longleftrightarrow> to_ascii_lowercase v \<in> {'''', ''0'', ''false'', ''off''}"

definition tracing_value_uses_default_filter :: "string \<Rightarrow> bool" where
  "tracing_value_uses_default_filter v \<longleftrightarrow> to_ascii_lowercase v \<in> {''1'', ''true'', ''yes''}"

definition tracing_targets_from_value ::
  "(string \<Rightarrow> ('t, string) result) \<Rightarrow> string \<Rightarrow> string \<Rightarrow> 't option cli_result" where
  "tracing_targets_from_value from_str env_name v =
     (let trimmed = str_trim v
      in if tracing_value_disables_output trimmed then Ok None
         else and_then
           (map_err (\<lambda>e. CliTracing (env_name @ '' has invalid tracing filter '' @ quoted v @ '': '' @ e))
             (from_str (if tracing_value_uses_default_filter trimmed then ''info'' else trimmed)))
           (\<lambda>t. Ok (Some t)))"

definition PUREFLOW_TRACE_ENV :: string where
  "PUREFLOW_TRACE_ENV = ''PUREFLOW_TRACE''"

definition LEGACY_CONDUIT_TRACE_ENV :: string where
  "LEGACY_CONDUIT_TRACE_ENV = ''CONDUIT_TRACE''"

definition RUST_LOG_ENV :: string where
  "RUST_LOG_ENV = ''RUST_LOG''"

definition tracing_targets_from_env ::
  "(string \<Rightarrow> ('t, string) result) \<Rightarrow> (string \<Rightarrow> string option) \<Rightarrow> 't option cli_result" where
  "tracing_targets_from_env from_str read_env =
     (case read_env PUREFLOW_TRACE_ENV of
        Some v \<Rightarrow> tracing_targets_from_value from_str PUREFLOW_TRACE_ENV v
      | None \<Rightarrow>
          (case read_env LEGACY_CONDUIT_TRACE_ENV of
             Some v \<Rightarrow> tracing_targets_from_value from_str LEGACY_CONDUIT_TRACE_ENV v
           | None \<Rightarrow>
               (case read_env RUST_LOG_ENV of
                  Some v \<Rightarrow> tracing_targets_from_value from_str RUST_LOG_ENV v
                | None \<Rightarrow> Ok None)))"

definition initialize_tracing_from_env ::
  "(string \<Rightarrow> ('t, string) result) \<Rightarrow> ('t \<Rightarrow> (unit, string) result) \<Rightarrow> (string \<Rightarrow> string option) \<Rightarrow> unit cli_result" where
  "initialize_tracing_from_env from_str init_registry read_env =
     and_then (tracing_targets_from_env from_str read_env) (\<lambda>targets.
     case targets of
       None \<Rightarrow> Ok ()
     | Some t \<Rightarrow> map_err (\<lambda>e. CliTracing (''failed to initialize tracing subscriber: '' @ e)) (init_registry t))"

end
