(* ===== verification/CliSchema.thy ===== *)
theory CliSchema
  imports CliText
begin

text \<open>
  The command \<open>pureflow schema\<close> of \<open>pureflow-cli/src/main.rs\<close>: the JSON Schema documents for workflows and
  for WASM component manifests.  \<open>mk\<close> turns an integer into a JSON number.
\<close>

datatype schema_kind = SchemaWorkflow | SchemaWasmManifest

definition identifier_schema_json :: "(nat \<Rightarrow> 'n) \<Rightarrow> string \<Rightarrow> 'n json" where
  "identifier_schema_json mk description =
     json_object [(''type'', JString ''string''), (''minLength'', JNumber (mk 1)), (''maxLength'', JNumber (mk 256)),
       (''pattern'', JString (''^'' @ [CHR 0x5C] @ ''S+$'')), (''description'', JString description)]"

definition identifier_array_schema_json :: "(nat \<Rightarrow> 'n) \<Rightarrow> string \<Rightarrow> 'n json" where
  "identifier_array_schema_json mk description =
     json_object [(''type'', JString ''array''), (''description'', JString description),
       (''items'', identifier_schema_json mk ''Identifier value.'')]"

definition edge_endpoint_schema_json :: "(nat \<Rightarrow> 'n) \<Rightarrow> string \<Rightarrow> 'n json" where
  "edge_endpoint_schema_json mk description =
     json_object [(''type'', JString ''object''), (''additionalProperties'', JBool False),
       (''required'', JArray [JString ''node'', JString ''port'']), (''description'', JString description),
       (''properties'', json_object
          [(''node'', identifier_schema_json mk ''Referenced node identifier.''),
           (''port'', identifier_schema_json mk ''Referenced port identifier.'')])]"

text \<open>The entries of the arrays \<open>nodes\<close>, \<open>edges\<close> and \<open>components\<close>.\<close>

definition node_entry_schema_json :: "(nat \<Rightarrow> 'n) \<Rightarrow> 'n json" where
  "node_entry_schema_json mk =
     json_object [(''type'', JString ''object''), (''additionalProperties'', JBool False),
       (''required'', JArray [JString ''id'', JString ''inputs'', JString ''outputs'']),
       (''properties'', json_object
          [(''id'', identifier_schema_json mk ''Node identifier.''),
           (''inputs'', identifier_array_schema_json mk ''Declared input port identifiers.''),
           (''outputs'', identifier_array_schema_json mk ''Declared output port identifiers.'')])]"

definition edge_entry_schema_json :: "(nat \<Rightarrow> 'n) \<Rightarrow> 'n json" where
  "edge_entry_schema_json mk =
     json_object [(''type'', JString ''object''), (''additionalProperties'', JBool False),
       (''required'', JArray [JString ''source'', JString ''target'']),
       (''properties'', json_object
          [(''source'', edge_endpoint_schema_json mk ''Upstream output endpoint.''),
           (''target'', edge_endpoint_schema_json mk ''Downstream input endpoint.''),
           (''capacity'', json_object
              [(''type'', JString ''integer''), (''minimum'', JNumber (mk 1)),
               (''description'', JString ''Optional explicit bounded capacity. Omit to use the engine default.'')])])]"

definition workflow_schema_json :: "(nat \<Rightarrow> 'n) \<Rightarrow> 'n json" where
  "workflow_schema_json mk =
     json_object [(''$schema'', JString ''https://json-schema.org/draft/2020-12/schema''),
       (''$id'', JString (''https://pureflow.dev/schemas/workflow-v'' @ CURRENT_PUREFLOW_VERSION @ ''.schema.json'')),
       (''title'', JString ''Pureflow workflow document''), (''type'', JString ''object''),
       (''additionalProperties'', JBool False),
       (''required'', JArray [JString ''pureflow_version'', JString ''id'', JString ''nodes'', JString ''edges'']),
       (''properties'', json_object
          [(''pureflow_version'', json_object
              [(''type'', JString ''string''), (''const'', JString CURRENT_PUREFLOW_VERSION),
               (''description'', JString ''Required Pureflow workflow format version.'')]),
           (''id'', identifier_schema_json mk ''Workflow identifier.''),
           (''nodes'', json_object
              [(''type'', JString ''array''), (''description'', JString ''Declared node topology.''),
               (''items'', node_entry_schema_json mk)]),
           (''edges'', json_object
              [(''type'', JString ''array''), (''description'', JString ''Declared directed edges.''),
               (''items'', edge_entry_schema_json mk)])])]"

definition component_entry_schema_json :: "(nat \<Rightarrow> 'n) \<Rightarrow> 'n json" where
  "component_entry_schema_json mk =
     json_object [(''type'', JString ''object''), (''additionalProperties'', JBool False),
       (''required'', JArray [JString ''node'', JString ''component'']),
       (''properties'', json_object
          [(''node'', identifier_schema_json mk ''Workflow node served by this component.''),
           (''component'', json_object
              [(''type'', JString ''string''), (''minLength'', JNumber (mk 1)),
               (''description'', JString ''Path to the component file. Relative paths resolve from the manifest directory.'')]),
           (''fuel'', json_object
              [(''type'', JString ''integer''), (''minimum'', JNumber (mk 0)),
               (''description'', JString ''Optional Wasmtime fuel limit. Omit to use the runtime default.'')])])]"

definition wasm_component_manifest_schema_json :: "(nat \<Rightarrow> 'n) \<Rightarrow> 'n json" where
  "wasm_component_manifest_schema_json mk =
     json_object [(''$schema'', JString ''https://json-schema.org/draft/2020-12/schema''),
       (''$id'', JString ''https://pureflow.dev/schemas/wasm-component-manifest.schema.json''),
       (''title'', JString ''Pureflow WASM component manifest''), (''type'', JString ''object''),
       (''additionalProperties'', JBool False), (''required'', JArray [JString ''components'']),
       (''properties'', json_object
          [(''components'', json_object
              [(''type'', JString ''array''),
               (''description'', JString ''WASM component entries keyed by workflow node.''),
               (''items'', component_entry_schema_json mk)])])]"

definition schema_json_string ::
  "('n json \<Rightarrow> (string, string) result) \<Rightarrow> (nat \<Rightarrow> 'n) \<Rightarrow> schema_kind \<Rightarrow> string cli_result" where
  "schema_json_string pretty mk kind =
     and_then
       (map_err (\<lambda>e. CliRuntime (Execution (''failed to encode JSON Schema: '' @ e)))
         (pretty (case kind of
            SchemaWorkflow \<Rightarrow> workflow_schema_json mk
          | SchemaWasmManifest \<Rightarrow> wasm_component_manifest_schema_json mk)))
       (\<lambda>output. Ok (output @ [CHR 0x0A]))"

section \<open>Documents and the workflow schema\<close>

text \<open>
  The keys of an object that a closed object schema allows: those under \<open>properties\<close> when
  \<open>additionalProperties\<close> is false.
\<close>

definition schema_property :: "'n json \<Rightarrow> string \<Rightarrow> 'n json option" where
  "schema_property s k = Option.bind (json_get s ''properties'') (\<lambda>ps. json_get ps k)"

definition allows_key :: "'n json \<Rightarrow> string \<Rightarrow> bool" where
  "allows_key s k \<longleftrightarrow> json_get s ''additionalProperties'' \<noteq> Some (JBool False) \<or> schema_property s k \<noteq> None"

definition document_node_schema :: "'n json \<Rightarrow> 'n json option" where
  "document_node_schema s = Option.bind (schema_property s ''nodes'') (\<lambda>ns. json_get ns ''items'')"

lemmas schema_lookup =
  schema_property_def json_get_json_object node_entry_schema_json_def workflow_schema_json_def

lemma workflow_schema_refuses_rule_sets:
  "\<exists>s. document_node_schema (workflow_schema_json mk) = Some s \<and> allows_key s ''id'' \<and> allows_key s ''inputs''
     \<and> allows_key s ''outputs'' \<and> \<not> allows_key s ''rule_set'' \<and> \<not> allows_key s ''rule_set_ref''"
  by (simp add: document_node_schema_def allows_key_def schema_lookup)

end
