(* ===== verification/CliInspect.thy ===== *)
theory CliInspect
  imports CliSchema
begin

text \<open>
  The commands of \<open>pureflow-cli/src/main.rs\<close> that only read: \<open>validate\<close>, \<open>inspect\<close>, \<open>explain\<close> and
  \<open>validate-manifest\<close>.

  The derived decoders (workflow documents, component manifests), the printer of \<open>serde_json\<close> and float
  formatting are the fields of \<open>cli_env\<close>; the file system is the parameter \<open>file_system\<close> of the workflow
  format.
\<close>

record raw_wasm_component_spec =
  spec_node :: string
  spec_component :: string
  spec_fuel :: "nat option"

record 'n cli_env =
  env_codec :: "'n codec"
  env_number :: "nat \<Rightarrow> 'n"
  env_pretty :: "'n json \<Rightarrow> (string, string) result"
  env_manifest :: "string \<Rightarrow> (raw_wasm_component_spec list, string) result"
  env_float_text :: "f64 \<Rightarrow> string"

abbreviation newline :: string where
  "newline \<equiv> [CHR 0x0A]"

section \<open>Loading\<close>

datatype workflow_text = JsonText | TomlText | YamlText

definition unsupported_extension :: "string \<Rightarrow> cli_error" where
  "unsupported_extension ext =
     CliWorkflowFormat (''unsupported workflow file extension '' @ quoted (''.'' @ ext)
       @ ''; supported: .json, .toml, .yaml, .yml'')"

definition workflow_text_of :: "string \<Rightarrow> workflow_text cli_result" where
  "workflow_text_of path =
     (case extension path of
        None \<Rightarrow> Ok JsonText
      | Some ext \<Rightarrow>
          if ext = ''toml'' then Ok TomlText
          else if ext = ''yaml'' \<or> ext = ''yml'' then Ok YamlText
          else if ext = ''json'' then Ok JsonText
          else Err (unsupported_extension ext))"

definition cli_load_workflow :: "'n cli_env \<Rightarrow> string \<Rightarrow> string \<Rightarrow> workflow_definition cli_result" where
  "cli_load_workflow env inp path =
     and_then (workflow_text_of path) (\<lambda>fmt.
     case fmt of
       TomlText \<Rightarrow> map_err CliWorkflowToml (workflow_from_toml_str (env_codec env) inp)
     | YamlText \<Rightarrow> map_err CliWorkflowYaml (workflow_from_yaml_str (env_codec env) inp)
     | JsonText \<Rightarrow> map_err CliWorkflowJson (workflow_from_json_str (env_codec env) inp))"

definition load_workflow_with_rules ::
  "'n cli_env \<Rightarrow> file_system \<Rightarrow> string \<Rightarrow> string \<Rightarrow> loaded_workflow cli_result" where
  "load_workflow_with_rules env fs inp path =
     and_then (workflow_text_of path) (\<lambda>fmt.
     and_then
       (case fmt of
          TomlText \<Rightarrow> map_err CliWorkflowToml (raw_workflow_from_toml_str (env_codec env) inp)
        | YamlText \<Rightarrow> map_err CliWorkflowYaml (raw_workflow_from_yaml_str (env_codec env) inp)
        | JsonText \<Rightarrow> map_err CliWorkflowJson (raw_workflow_from_json_str (env_codec env) inp)) (\<lambda>raw.
     let base_dir = (case parent path of None \<Rightarrow> ''.'' | Some d \<Rightarrow> if d = [] then ''.'' else d)
     in map_err (\<lambda>e. CliWorkflowFormat (show_workflow_format_error e))
          (load_workflow (env_codec env) fs (registry_with_base_dir base_dir) raw)))"

definition validate_workflow_json :: "'n cli_env \<Rightarrow> string \<Rightarrow> string \<Rightarrow> string cli_result" where
  "validate_workflow_json env inp path =
     and_then (cli_load_workflow env inp path) (\<lambda>w.
     Ok (''valid workflow '' @ quoted (workflow_id_str (workflow_def_id w)) @ newline
       @ ''nodes: '' @ show_nat (length (workflow_nodes w)) @ newline
       @ ''edges: '' @ show_nat (length (workflow_edges w)) @ newline))"

section \<open>Component manifests\<close>

record cli_wasm_component_spec =
  component_node :: node_id
  component_path :: string
  component_limits :: execution_limits

definition resolve_manifest_component_path :: "string \<Rightarrow> string \<Rightarrow> string" where
  "resolve_manifest_component_path dir component =
     (if is_absolute component then component else path_join dir component)"

definition component_spec_of :: "string \<Rightarrow> raw_wasm_component_spec \<Rightarrow> cli_wasm_component_spec cli_result" where
  "component_spec_of dir raw =
     and_then (map_err (\<lambda>e. CliRuntime (Validation (IdentifierInvalid e))) (new_node_id (spec_node raw))) (\<lambda>n.
     Ok \<lparr>component_node = n, component_path = resolve_manifest_component_path dir (spec_component raw),
         component_limits = (case spec_fuel raw of None \<Rightarrow> default_limits | Some f \<Rightarrow> new_limits f)\<rparr>)"

definition wasm_component_specs_from_manifest ::
  "'n cli_env \<Rightarrow> string \<Rightarrow> string \<Rightarrow> cli_wasm_component_spec list cli_result" where
  "wasm_component_specs_from_manifest env inp manifest_path =
     and_then (map_err (CliWasmManifestJson manifest_path) (env_manifest env inp)) (\<lambda>components.
     try_map (component_spec_of (case parent manifest_path of None \<Rightarrow> [] | Some d \<Rightarrow> d)) components)"

definition duplicate_component :: "cli_wasm_component_spec \<Rightarrow> cli_error" where
  "duplicate_component s =
     CliWasmManifest (''duplicate component entry for node '' @ quoted (node_id_str (component_node s)))"

definition check_component_path :: "(string \<Rightarrow> bool) \<Rightarrow> cli_wasm_component_spec \<Rightarrow> unit cli_result" where
  "check_component_path exists s =
     (if exists (component_path s) then Ok ()
      else Err (CliWasmManifest (''component path '' @ quoted (component_path s) @ '' for node ''
        @ quoted (node_id_str (component_node s)) @ '' is not readable'')))"

definition check_component_node :: "workflow_definition \<Rightarrow> cli_wasm_component_spec \<Rightarrow> unit cli_result" where
  "check_component_node w s =
     (if component_node s \<in> set (bs_from_list (map node_def_id (workflow_nodes w))) then Ok ()
      else Err (CliWasmManifest (''manifest node '' @ quoted (node_id_str (component_node s))
        @ '' does not exist in workflow '' @ quoted (workflow_id_str (workflow_def_id w)))))"

definition manifest_report :: "string \<Rightarrow> cli_wasm_component_spec list \<Rightarrow> string" where
  "manifest_report manifest_path specs =
     ''valid manifest '' @ quoted manifest_path @ newline @ ''components: '' @ show_nat (length specs) @ newline"

definition validate_wasm_component_manifest ::
  "'n cli_env \<Rightarrow> (string \<Rightarrow> bool) \<Rightarrow> string \<Rightarrow> string \<Rightarrow> string option \<Rightarrow> string cli_result" where
  "validate_wasm_component_manifest env path_exists manifest_input manifest_path workflow_input =
     and_then (wasm_component_specs_from_manifest env manifest_input manifest_path) (\<lambda>specs.
     and_then (reject_dups component_node duplicate_component [] specs) (\<lambda>_.
     and_then (try_each (check_component_path path_exists) specs) (\<lambda>_.
     case workflow_input of
       None \<Rightarrow> Ok (manifest_report manifest_path specs)
     | Some inp \<Rightarrow>
         and_then (map_err CliWorkflowJson (workflow_from_json_str (env_codec env) inp)) (\<lambda>w.
         and_then (try_each (check_component_node w) specs) (\<lambda>_.
         Ok (manifest_report manifest_path specs @ ''workflow: '' @ quoted (workflow_id_str (workflow_def_id w)) @ newline))))))"

section \<open>Inspection\<close>

definition passive_native_contract_for_node :: "node_definition \<Rightarrow> node_contract cli_result" where
  "passive_native_contract_for_node n =
     map_err CliContract
       (new_node_contract (node_def_id n)
         (map (\<lambda>p. \<lparr>contract_port_id = p, contract_direction = Input, contract_schema = None\<rparr>) (input_ports n)
          @ map (\<lambda>p. \<lparr>contract_port_id = p, contract_direction = Output, contract_schema = None\<rparr>) (output_ports n))
         Native UnknownDeterminism RetryUnknown)"

definition passive_native_capabilities_for_node :: "node_definition \<Rightarrow> node_capabilities cli_result" where
  "passive_native_capabilities_for_node n =
     map_err CliCapability
       (native_passive (node_def_id n)
         (map (\<lambda>p. \<lparr>cap_port_id = p, cap_direction = Receive\<rparr>) (input_ports n)
          @ map (\<lambda>p. \<lparr>cap_port_id = p, cap_direction = Emit\<rparr>) (output_ports n)))"

definition passive_native_contracts_for_workflow ::
  "workflow_definition \<Rightarrow> (node_contract list \<times> node_capabilities list) cli_result" where
  "passive_native_contracts_for_workflow w =
     and_then (try_map passive_native_contract_for_node (workflow_nodes w)) (\<lambda>contracts.
     and_then (try_map passive_native_capabilities_for_node (workflow_nodes w)) (\<lambda>capabilities.
     Ok (contracts, capabilities)))"

definition inspect_workflow_json :: "'n cli_env \<Rightarrow> string \<Rightarrow> string \<Rightarrow> string cli_result" where
  "inspect_workflow_json env inp path =
     and_then (cli_load_workflow env inp path) (\<lambda>w.
     and_then (passive_native_contracts_for_workflow w) (\<lambda>(contracts, capabilities).
     and_then (map_err CliContract (introspect_workflow w contracts capabilities)) (\<lambda>v.
     and_then (map_err CliIntrospectionJson
       (workflow_introspection_to_json_string (env_pretty env) (env_number env) v)) (\<lambda>output.
     Ok (output @ newline)))))"

section \<open>Explanation\<close>

fun strategy_label :: "evaluation_strategy \<Rightarrow> string" where
  "strategy_label FirstMatch = ''first-match''"
| "strategy_label AllMatches = ''all-matches''"
| "strategy_label Score = ''score''"

definition surface_label :: "condition_surface_summary \<Rightarrow> string" where
  "surface_label s =
     (let parts = (if on_payload s then [''payload''] else []) @ (if on_tag s then [''tag''] else [])
          @ (if on_provenance s then [''provenance''] else []) @ (if on_execution_context s then [''execution''] else [])
      in join ''+'' (if parts = [] then [''constant''] else parts))"

fun unreachable_reason_label :: "unreachable_reason \<Rightarrow> string" where
  "unreachable_reason_label ConditionIsNever = ''condition is never true''"
| "unreachable_reason_label (ShadowedByAlways r) = ''shadowed by always-matching rule '' @ quoted r"
| "unreachable_reason_label (ExactFieldEqSubsumed r) = ''duplicate condition already covered by rule '' @ quoted r"

fun show_field_path :: "field_path \<Rightarrow> string" where
  "show_field_path (FieldPath s) = s"

fun show_glob_pattern :: "glob_pattern \<Rightarrow> string" where
  "show_glob_pattern (GlobPattern s) = s"

fun format_condition :: "(f64 \<Rightarrow> string) \<Rightarrow> condition \<Rightarrow> string" where
  "format_condition fl (FieldEq p v) = show_field_path p @ '' == '' @ show_scalar fl v"
| "format_condition fl (FieldNeq p v) = show_field_path p @ '' != '' @ show_scalar fl v"
| "format_condition fl (FieldGt p v) = show_field_path p @ '' > '' @ show_scalar fl v"
| "format_condition fl (FieldLt p v) = show_field_path p @ '' < '' @ show_scalar fl v"
| "format_condition fl (FieldGte p v) = show_field_path p @ '' >= '' @ show_scalar fl v"
| "format_condition fl (FieldLte p v) = show_field_path p @ '' <= '' @ show_scalar fl v"
| "format_condition fl (FieldIn p vs) =
     show_field_path p @ '' in ['' @ join '', '' (map (show_scalar fl) vs) @ '']''"
| "format_condition fl (FieldExists p) = show_field_path p @ '' exists''"
| "format_condition fl (FieldAbsent p) = show_field_path p @ '' absent''"
| "format_condition fl (FieldMatches p g) = show_field_path p @ '' matches '' @ show_glob_pattern g"
| "format_condition fl (TagEq k v) = ''tag '' @ k @ ''='' @ show_scalar fl v"
| "format_condition fl (TagExists k) = ''tag '' @ k @ '' exists''"
| "format_condition fl (TagAbsent k) = ''tag '' @ k @ '' absent''"
| "format_condition fl (SourceNode n) = ''from source node '' @ node_id_str n"
| "format_condition fl (ArrivedOnPort p) = ''arrived on port '' @ port_id_str p"
| "format_condition fl (HopCountGt n) = ''hop count > '' @ show_nat n"
| "format_condition fl (HopCountLte n) = ''hop count <= '' @ show_nat n"
| "format_condition fl (WorkflowIs w) = ''workflow is '' @ workflow_id_str w"
| "format_condition fl (ExecutionMetadataEq k v) = ''exec metadata '' @ k @ ''='' @ show_scalar fl v"
| "format_condition fl (And cs) = ''('' @ join '' and '' (map (format_condition fl) cs) @ '')''"
| "format_condition fl (Or cs) = ''('' @ join '' or '' (map (format_condition fl) cs) @ '')''"
| "format_condition fl (Not c) = ''not ('' @ format_condition fl c @ '')''"
| "format_condition fl Always = ''always''"
| "format_condition fl Never = ''never''"

text \<open>An em dash and an arrow, in UTF-8.\<close>

abbreviation em_dash :: string where
  "em_dash \<equiv> [CHR 0xE2, CHR 0x80, CHR 0x94]"

abbreviation right_arrow :: string where
  "right_arrow \<equiv> [CHR 0xE2, CHR 0x86, CHR 0x92]"

definition explain_rule :: "(f64 \<Rightarrow> string) \<Rightarrow> rule \<times> rule_introspection \<Rightarrow> string" where
  "explain_rule fl = (\<lambda>(r, v).
     ''    rule '' @ rule_id r @ '' (priority '' @ show_nat (rule_priority r) @ '') '' @ em_dash @ '' if ''
       @ format_condition fl (rule_condition r) @ '' ['' @ surface_label (intro_surfaces v) @ ''] '' @ right_arrow
       @ '' '' @ show_rule_action fl (rule_action r) @ newline)"

definition explain_unreachable :: "unreachable_rule \<Rightarrow> string" where
  "explain_unreachable u =
     ''    ! unreachable: rule '' @ unreachable_rule_id u @ '' '' @ em_dash @ '' ''
       @ unreachable_reason_label (unreachable_reason u) @ newline"

definition explain_rule_set :: "(f64 \<Rightarrow> string) \<Rightarrow> node_id \<times> rule_set \<Rightarrow> string" where
  "explain_rule_set fl = (\<lambda>(n, rs).
     (let v = introspect_rule_set rs
      in ''  node '' @ node_id_str n @ '': rule set '' @ quoted (rule_set_id rs) @ '' strategy ''
           @ strategy_label (strategy rs) @ newline
         @ concat (map (explain_rule fl) (zip (rules rs) (intro_rules v)))
         @ ''    default '' @ right_arrow @ '' '' @ show_rule_action fl (default_action rs) @ newline
         @ concat (map explain_unreachable (intro_unreachable v))))"

definition explain_node :: "node_definition \<Rightarrow> string" where
  "explain_node n =
     ''  - '' @ node_id_str (node_def_id n) @ '' inputs='' @ show_nat (length (input_ports n)) @ '' outputs=''
       @ show_nat (length (output_ports n)) @ newline"

definition explain_edge :: "edge_definition \<Rightarrow> string" where
  "explain_edge e =
     ''  - '' @ node_id_str (endpoint_node_id (edge_source e)) @ ''.'' @ port_id_str (endpoint_port_id (edge_source e))
       @ '' -> '' @ node_id_str (endpoint_node_id (edge_target e)) @ ''.'' @ port_id_str (endpoint_port_id (edge_target e))
       @ '' capacity='' @ (case edge_capacity e of DefaultCapacity \<Rightarrow> ''default'' | Explicit c \<Rightarrow> show_nat c) @ newline"

text \<open>Writing into a \<open>String\<close> never fails, so the error branches of \<open>writeln!\<close> are dead.\<close>

definition explain_workflow_json :: "'n cli_env \<Rightarrow> file_system \<Rightarrow> string \<Rightarrow> string \<Rightarrow> string cli_result" where
  "explain_workflow_json env fs inp path =
     and_then (load_workflow_with_rules env fs inp path) (\<lambda>loaded.
     let w = loaded_definition loaded in
     Ok (''workflow '' @ quoted (workflow_id_str (workflow_def_id w)) @ newline
       @ ''status: valid'' @ newline
       @ ''nodes: '' @ show_nat (length (workflow_nodes w)) @ newline
       @ ''edges: '' @ show_nat (length (workflow_edges w)) @ newline
       @ ''execution: native-registry'' @ newline
       @ ''metadata: jsonl lifecycle, message, and queue-pressure records with tiered control-only policy'' @ newline
       @ ''node order:'' @ newline
       @ concat (map explain_node (workflow_nodes w))
       @ ''edges:'' @ newline
       @ concat (map explain_edge (workflow_edges w))
       @ (if loaded_rule_sets loaded = [] then ''rule routing: none'' @ newline
          else ''rule routing:'' @ newline @ concat (map (explain_rule_set (env_float_text env)) (loaded_rule_sets loaded)))))"

end
