(* ===== verification/CliInspectProps.thy ===== *)
theory CliInspectProps
  imports CliInspect
begin

text \<open>
  What the reading commands promise: \<open>inspect\<close> shows every workflow it can load, and manifest validation
  accepts exactly the manifests that \<open>run\<close> can use.
\<close>

section \<open>Loaded workflows\<close>

lemma cli_load_workflow_ok:
  assumes "cli_load_workflow env inp path = Ok w"
  shows "workflow_ok w"
proof -
  obtain fmt where "workflow_text_of path = Ok fmt" using assms by (auto simp: cli_load_workflow_def)
  then show ?thesis
    using assms by (cases fmt) (auto simp: cli_load_workflow_def workflow_from_json_str_def
        workflow_from_toml_str_def workflow_from_yaml_str_def to_workflow_Ok)
qed

lemma workflow_ok_distinct:
  assumes "workflow_ok w"
  shows "distinct (map node_def_id (workflow_nodes w))"
    and "list_all (\<lambda>n. distinct (input_ports n @ output_ports n)) (workflow_nodes w)"
  using assms by (auto simp: workflow_ok_def structurally_valid_def list_all_iff node_ok_def)

section \<open>Passive contracts\<close>

definition passive_contract :: "node_definition \<Rightarrow> node_contract" where
  "passive_contract n =
     \<lparr>contract_id = node_def_id n,
      contract_ports =
        map (\<lambda>p. \<lparr>contract_port_id = p, contract_direction = Input, contract_schema = None\<rparr>) (input_ports n)
        @ map (\<lambda>p. \<lparr>contract_port_id = p, contract_direction = Output, contract_schema = None\<rparr>) (output_ports n),
      contract_execution_mode = Native, contract_determinism = UnknownDeterminism, contract_retry = RetryUnknown\<rparr>"

definition passive_capabilities :: "node_definition \<Rightarrow> node_capabilities" where
  "passive_capabilities n =
     \<lparr>cap_node_id = node_def_id n,
      cap_ports = map (\<lambda>p. \<lparr>cap_port_id = p, cap_direction = Receive\<rparr>) (input_ports n)
        @ map (\<lambda>p. \<lparr>cap_port_id = p, cap_direction = Emit\<rparr>) (output_ports n),
      cap_effects = []\<rparr>"

lemma passive_contract_simps [simp]:
  "contract_id (passive_contract n) = node_def_id n"
  "map contract_port_id (contract_ports (passive_contract n)) = input_ports n @ output_ports n"
  "contract_port_set (passive_contract n) = node_port_set n"
  "contract_execution_mode (passive_contract n) = Native"
  "contract_determinism (passive_contract n) = UnknownDeterminism"
  "contract_retry (passive_contract n) = RetryUnknown"
  by (auto simp: passive_contract_def comp_def contract_port_set_def node_port_set_def image_image image_Un)

lemma passive_capabilities_simps [simp]:
  "cap_node_id (passive_capabilities n) = node_def_id n"
  "map cap_port_id (cap_ports (passive_capabilities n)) = input_ports n @ output_ports n"
  "cap_effects (passive_capabilities n) = []"
  by (simp_all add: passive_capabilities_def comp_def)

lemma passive_schema: "c \<in> set (contract_ports (passive_contract n)) \<Longrightarrow> contract_schema c = None"
  by (auto simp: passive_contract_def)

lemma passive_schema_find: "Option.bind (List.find P (contract_ports (passive_contract n))) contract_schema = None"
  by (cases "List.find P (contract_ports (passive_contract n))") (auto dest!: find_in_set passive_schema)

lemma passive_native_contract_for_node_Ok:
  assumes "distinct (input_ports n @ output_ports n)"
  shows "passive_native_contract_for_node n = Ok (passive_contract n)"
  using assms dup_contract_ports.check_Ok_iff [of "node_def_id n" "contract_ports (passive_contract n)"]
  by (simp add: passive_native_contract_for_node_def new_node_contract_def passive_contract_def comp_def)

lemma passive_native_capabilities_for_node_Ok:
  assumes "distinct (input_ports n @ output_ports n)"
  shows "passive_native_capabilities_for_node n = Ok (passive_capabilities n)"
  using assms
    new_node_capabilities_Ok_iff [of "node_def_id n" "cap_ports (passive_capabilities n)" "[]" "passive_capabilities n"]
  by (simp add: passive_native_capabilities_for_node_def native_passive_def passive_capabilities_def comp_def)

lemma passive_native_contracts_for_workflow_Ok:
  assumes "workflow_ok w"
  shows "passive_native_contracts_for_workflow w =
    Ok (map passive_contract (workflow_nodes w), map passive_capabilities (workflow_nodes w))"
  using workflow_ok_distinct [OF assms]
  by (simp add: passive_native_contracts_for_workflow_def try_map_total [where g = passive_contract]
      try_map_total [where g = passive_capabilities] passive_native_contract_for_node_Ok
      passive_native_capabilities_for_node_Ok list_all_iff)

text \<open>Lookup by node in a list made from the nodes.\<close>

lemma last_supplied_for_node:
  assumes "distinct (map node_def_id nodes)" "n \<in> set nodes" "\<And>m. key (f m) = node_def_id m"
  shows "map_of (map (\<lambda>c. (key c, c)) (rev (map f nodes))) (node_def_id n) = Some (f n)"
proof -
  have "distinct (map fst (map (\<lambda>c. (key c, c)) (rev (map f nodes))))"
    using assms(1) by (simp add: rev_map [symmetric] comp_def assms(3))
  moreover have "(node_def_id n, f n) \<in> set (map (\<lambda>c. (key c, c)) (rev (map f nodes)))"
    using assms(2) by (auto simp: assms(3) image_image)
  ultimately show ?thesis by (rule map_of_is_SomeI)
qed

lemmas passive_lookup =
  last_supplied_for_node [where key = contract_id and f = passive_contract]
  last_supplied_for_node [where key = cap_node_id and f = passive_capabilities]

section \<open>What \<open>inspect\<close> shows\<close>

definition passive_node_view :: "node_definition \<Rightarrow> node_introspection" where
  "passive_node_view n =
     \<lparr>ni_node_id = node_def_id n,
      ni_ports =
        map (\<lambda>p. \<lparr>pi_port_id = p, pi_direction = Input, pi_schema = None, pi_capability = Receive\<rparr>) (input_ports n)
        @ map (\<lambda>p. \<lparr>pi_port_id = p, pi_direction = Output, pi_schema = None, pi_capability = Emit\<rparr>) (output_ports n),
      ni_execution_mode = Native, ni_enforcement = Advisory, ni_determinism = UnknownDeterminism,
      ni_retry = RetryUnknown, ni_effects = []\<rparr>"

definition passive_edge_view :: "edge_definition \<Rightarrow> edge_introspection" where
  "passive_edge_view e =
     \<lparr>ei_source = from_endpoint (edge_source e), ei_target = from_endpoint (edge_target e),
      ei_capacity = edge_capacity e, ei_source_schema = None, ei_target_schema = None\<rparr>"

definition passive_view :: "workflow_definition \<Rightarrow> workflow_introspection" where
  "passive_view w =
     \<lparr>wi_workflow_id = workflow_def_id w, wi_nodes = map passive_node_view (workflow_nodes w),
      wi_edges = map passive_edge_view (workflow_edges w)\<rparr>"

lemma passive_contract_lookup:
  assumes "distinct (input_ports n @ output_ports n)"
  shows "p \<in> set (input_ports n) \<Longrightarrow> map_of (port_map (passive_contract n)) p =
      Some \<lparr>contract_port_id = p, contract_direction = Input, contract_schema = None\<rparr>"
    and "p \<in> set (output_ports n) \<Longrightarrow> map_of (port_map (passive_contract n)) p =
      Some \<lparr>contract_port_id = p, contract_direction = Output, contract_schema = None\<rparr>"
proof -
  have "distinct (map contract_port_id (contract_ports (passive_contract n)))" using assms by simp
  note look = port_map_lookup [OF this]
  show "p \<in> set (input_ports n) \<Longrightarrow> map_of (port_map (passive_contract n)) p =
      Some \<lparr>contract_port_id = p, contract_direction = Input, contract_schema = None\<rparr>"
    and "p \<in> set (output_ports n) \<Longrightarrow> map_of (port_map (passive_contract n)) p =
      Some \<lparr>contract_port_id = p, contract_direction = Output, contract_schema = None\<rparr>"
    unfolding look by (auto simp: passive_contract_def)
qed

lemma passive_capability_lookup:
  assumes "distinct (input_ports n @ output_ports n)"
  shows "p \<in> set (input_ports n) \<Longrightarrow> map_of (capability_port_map (passive_capabilities n)) p =
      Some \<lparr>cap_port_id = p, cap_direction = Receive\<rparr>"
    and "p \<in> set (output_ports n) \<Longrightarrow> map_of (capability_port_map (passive_capabilities n)) p =
      Some \<lparr>cap_port_id = p, cap_direction = Emit\<rparr>"
proof -
  let ?l = "map (\<lambda>p. (cap_port_id p, p)) (cap_ports (passive_capabilities n))"
  have "distinct (map fst ?l)" using assms by (simp add: comp_def)
  note look = bt_from_list_lookup [OF this, folded capability_port_map_def]
  show "p \<in> set (input_ports n) \<Longrightarrow> map_of (capability_port_map (passive_capabilities n)) p =
      Some \<lparr>cap_port_id = p, cap_direction = Receive\<rparr>"
    and "p \<in> set (output_ports n) \<Longrightarrow> map_of (capability_port_map (passive_capabilities n)) p =
      Some \<lparr>cap_port_id = p, cap_direction = Emit\<rparr>"
    unfolding look by (auto simp: passive_capabilities_def)
qed

lemma introspect_passive_node:
  assumes "distinct (input_ports n @ output_ports n)"
  shows "introspect_node n (passive_contract n) (passive_capabilities n) = Ok (passive_node_view n)"
proof -
  let ?view = "\<lambda>(d, p). \<lparr>pi_port_id = p, pi_direction = d, pi_schema = None,
    pi_capability = (case d of Input \<Rightarrow> Receive | Output \<Rightarrow> Emit)\<rparr>"
  let ?ps = "map (Pair Input) (input_ports n) @ map (Pair Output) (output_ports n)"
  have "try_map (\<lambda>(d, p). introspect_port (node_def_id n) d (port_map (passive_contract n))
      (capability_port_map (passive_capabilities n)) p) ?ps = Ok (map ?view ?ps)"
    by (rule try_map_total)
      (auto simp: introspect_port_def passive_contract_lookup [OF assms] passive_capability_lookup [OF assms])
  then show ?thesis by (simp add: introspect_node_def passive_node_view_def comp_def)
qed

lemma passive_contracts_validate:
  assumes "workflow_ok w"
  shows "validate_workflow_contracts w (map passive_contract (workflow_nodes w))
    (map passive_capabilities (workflow_nodes w)) = Ok ()"
proof -
  note d = workflow_ok_distinct [OF assms]
  have c: "list_all (\<lambda>c. distinct (map contract_port_id (contract_ports c))) (map passive_contract (workflow_nodes w))"
    using d(2) by (simp add: list_all_iff)
  have "capability_claims_ok w (passive_capabilities n)" if "n \<in> set (workflow_nodes w)" for n
    using that d(2) by (auto simp: capability_claims_ok_def list_all_iff workflow_direction_for_def
        passive_capabilities_def disjoint_iff intro!: bexI [of _ n])
  moreover have "node_contract_ok (map passive_contract (workflow_nodes w)) (map passive_capabilities (workflow_nodes w)) n"
    if "n \<in> set (workflow_nodes w)" for n
    using that d(1) by (simp add: node_contract_ok_def passive_lookup)
  moreover have "edge_schemas_agree (contract_for (map passive_contract (workflow_nodes w))) e"
    if "e \<in> set (workflow_edges w)" for e
  proof -
    have "structurally_valid (workflow_nodes w) (workflow_edges w)" using assms by (simp add: workflow_ok_def)
    then have "declares (workflow_nodes w) Output (edge_source e)" "declares (workflow_nodes w) Input (edge_target e)"
      using that by (simp_all add: structurally_valid_def)
    then obtain s t where "s \<in> set (workflow_nodes w)" "node_def_id s = edge_source_node e"
      "t \<in> set (workflow_nodes w)" "node_def_id t = edge_target_node e"
      unfolding declares_def by blast
    then show ?thesis
      using passive_lookup(1) [OF d(1), of s] passive_lookup(1) [OF d(1), of t]
      by (auto simp: edge_schemas_agree_def schema_of_def passive_schema_find)
  qed
  ultimately show ?thesis
    unfolding validate_workflow_contracts_accepts [OF d c] by (auto simp: list_all_iff)
qed

lemma introspect_passive_workflow:
  assumes "workflow_ok w"
  shows "introspect_workflow w (map passive_contract (workflow_nodes w)) (map passive_capabilities (workflow_nodes w))
    = Ok (passive_view w)"
proof -
  note d = workflow_ok_distinct [OF assms]
  let ?cs = "map passive_contract (workflow_nodes w)" and ?ks = "map passive_capabilities (workflow_nodes w)"
  have "try_map (introspect_declared_node (contract_map_of ?cs) (capability_map_of ?ks)) (workflow_nodes w)
      = Ok (map passive_node_view (workflow_nodes w))"
    by (rule try_map_total)
      (use d in \<open>simp add: introspect_declared_node_def contract_map_lookup capability_map_lookup passive_lookup
        introspect_passive_node list_all_iff\<close>)
  moreover have "endpoint_schema (contract_map_of ?cs) ep = None" for ep
  proof (cases "contract_for ?cs (endpoint_node_id ep)")
    case (Some c)
    with contract_for_mem [OF Some] show ?thesis
      by (auto simp: endpoint_schema_def contract_map_lookup passive_schema_find)
  qed (simp add: endpoint_schema_def contract_map_lookup)
  ultimately show ?thesis
    by (simp add: introspect_workflow_def passive_contracts_validate [OF assms] passive_view_def
        introspect_edge_def passive_edge_view_def)
qed

text \<open>
  \<open>pureflow inspect\<close> shows every workflow that loads.  The contracts and capabilities it makes up for
  the nodes always pass contract validation and always claim every port, so the command fails only
  where loading fails or where the JSON printer does; otherwise it prints each node as a native node
  with advisory enforcement and unknown determinism, with its ports in declaration order and without
  schemas or effects.
\<close>

theorem inspect_shows_every_workflow:
  "inspect_workflow_json env inp path =
     and_then (cli_load_workflow env inp path) (\<lambda>w.
     and_then (map_err CliIntrospectionJson
       (env_pretty env (workflow_introspection_to_json_value (env_number env) (passive_view w)))) (\<lambda>output.
     Ok (output @ newline)))"
proof (cases "cli_load_workflow env inp path")
  case (Ok w)
  note ok = cli_load_workflow_ok [OF Ok]
  show ?thesis
    by (simp add: inspect_workflow_json_def Ok passive_native_contracts_for_workflow_Ok [OF ok]
        introspect_passive_workflow [OF ok] workflow_introspection_to_json_string_def)
qed (simp_all add: inspect_workflow_json_def)

end
