(* ===== verification/CliRun.thy ===== *)
theory CliRun
  imports CliInspect EngineContracts
begin

text \<open>
  The command \<open>run\<close> of \<open>pureflow-cli/src/main.rs\<close>: the executor that stands in for native nodes, the
  executor registries with and without WASM components, the run itself and its JSON summary; and the
  dispatch of the commands.

  As everywhere, an asynchronous operation takes what the rest of the run does while it waits, and is
  \<open>None\<close> while it still waits.
\<close>

section \<open>The native executor\<close>

record cli_native_executor =
  cli_input_ports :: "port_id list"
  cli_output_routes :: "(port_id, message_endpoint list) btree_map"

type_synonym ('c, 's) waits = "(('c, 's) world \<Rightarrow> ('c, 's) world) list list"

fun drain_cli_input_port ::
  "('n, 'c) channel_ops \<Rightarrow> ('n, 's) ports_in \<Rightarrow> port_id \<Rightarrow> cancellation_token \<Rightarrow> nat \<Rightarrow> ('c, 's) waits
   \<Rightarrow> ('c, 's) world \<Rightarrow> (nat, pureflow_error) result option \<times> ('c, 's) waits \<times> ('c, 's) world" where
  "drain_cli_input_port ops q pid tok received [] w = (None, [], w)"
| "drain_cli_input_port ops q pid tok received (resumes # waits) w =
     (case recv ops q pid tok resumes w of
        (None, w1) \<Rightarrow> (None, waits, w1)
      | (Some (Ok (Some x)), w1) \<Rightarrow> drain_cli_input_port ops q pid tok (saturating_add received 1) waits w1
      | (Some (Ok None), w1) \<Rightarrow> (Some (Ok received), waits, w1)
      | (Some (Err (RecvPortDisconnected p)), w1) \<Rightarrow> (Some (Ok received), waits, w1)
      | (Some (Err e), w1) \<Rightarrow> (Some (Err (port_recv_error_to_error e)), waits, w1)
      | (Some Panic, w1) \<Rightarrow> (Some Panic, waits, w1))"

fun drain_cli_input_ports ::
  "('n, 'c) channel_ops \<Rightarrow> ('n, 's) ports_in \<Rightarrow> cancellation_token \<Rightarrow> port_id list \<Rightarrow> nat \<Rightarrow> ('c, 's) waits
   \<Rightarrow> ('c, 's) world \<Rightarrow> (nat, pureflow_error) result option \<times> ('c, 's) waits \<times> ('c, 's) world" where
  "drain_cli_input_ports ops q tok [] received waits w = (Some (Ok received), waits, w)"
| "drain_cli_input_ports ops q tok (pid # pids) received waits w =
     (case drain_cli_input_port ops q pid tok 0 waits w of
        (Some (Ok n), waits1, w1) \<Rightarrow> drain_cli_input_ports ops q tok pids (saturating_add received n) waits1 w1
      | other \<Rightarrow> other)"

text \<open>The packet that stands for one output of a node.\<close>

definition cli_output_packet ::
  "node_context \<Rightarrow> port_id \<Rightarrow> message_endpoint list \<Rightarrow> nat \<Rightarrow> nat \<Rightarrow> ('n port_packet, pureflow_error) result" where
  "cli_output_packet ctx pid targets output_index received =
     (let source = \<lparr>message_node = context_node ctx, message_port = pid\<rparr>;
          target = (case targets of [] \<Rightarrow> source | t # _ \<Rightarrow> t)
      in and_then
        (map_err (\<lambda>e. Validation (IdentifierInvalid e))
          (new_message_id (''cli-'' @ node_id_str (context_node ctx) @ ''-'' @ port_id_str pid @ ''-'' @ show_nat output_index)))
        (\<lambda>m. Ok
          \<lparr>envelope_metadata =
             \<lparr>message_id = m, message_workflow = context_workflow ctx, message_execution = context_execution ctx,
              message_route = \<lparr>route_source = Some source, route_target = target\<rparr>\<rparr>,
           envelope_payload = Bytes (''cli-native node='' @ node_id_str (context_node ctx) @ '' output=''
             @ port_id_str pid @ '' received='' @ show_nat received)\<rparr>))"

definition send_cli_output_packet ::
  "('n, 'c) channel_ops \<Rightarrow> node_context \<Rightarrow> ('n, 's) ports_out \<Rightarrow> port_id \<Rightarrow> message_endpoint list \<Rightarrow> nat \<Rightarrow> nat
   \<Rightarrow> cancellation_token \<Rightarrow> (('c, 's) world \<Rightarrow> ('c, 's) world) list \<Rightarrow> ('c, 's) world
   \<Rightarrow> (unit, pureflow_error) result option \<times> ('c, 's) world" where
  "send_cli_output_packet ops ctx outs pid targets output_index received tok resumes w =
     (case cli_output_packet ctx pid targets output_index received of
        Ok x \<Rightarrow> (let (r, w1) = send ops outs pid x tok resumes w in (map_option (map_err port_send_error_to_error) r, w1))
      | Err e \<Rightarrow> (Some (Err e), w)
      | Panic \<Rightarrow> (Some Panic, w))"

fun send_cli_outputs ::
  "('n, 'c) channel_ops \<Rightarrow> node_context \<Rightarrow> ('n, 's) ports_out \<Rightarrow> nat \<Rightarrow> cancellation_token
   \<Rightarrow> (nat \<times> port_id \<times> message_endpoint list) list \<Rightarrow> ('c, 's) waits \<Rightarrow> ('c, 's) world
   \<Rightarrow> (unit, pureflow_error) result option \<times> ('c, 's) world" where
  "send_cli_outputs ops ctx outs received tok [] waits w = (Some (Ok ()), w)"
| "send_cli_outputs ops ctx outs received tok ((i, pid, targets) # rest) [] w = (None, w)"
| "send_cli_outputs ops ctx outs received tok ((i, pid, targets) # rest) (resumes # waits) w =
     (case send_cli_output_packet ops ctx outs pid targets i received tok resumes w of
        (Some (Ok _), w1) \<Rightarrow> send_cli_outputs ops ctx outs received tok rest waits w1
      | other \<Rightarrow> other)"

definition run_cli_native_executor ::
  "('n, 'c) channel_ops \<Rightarrow> cli_native_executor \<Rightarrow> node_context \<Rightarrow> ('n, 's) ports_in \<Rightarrow> ('n, 's) ports_out
   \<Rightarrow> ('c, 's) waits \<Rightarrow> ('c, 's) world \<Rightarrow> (unit, pureflow_error) result option \<times> ('c, 's) world" where
  "run_cli_native_executor ops ex ctx q outs waits w =
     (case drain_cli_input_ports ops q (context_token ctx) (cli_input_ports ex) 0 waits w of
        (Some (Ok received), waits1, w1) \<Rightarrow>
          send_cli_outputs ops ctx outs received (context_token ctx) (enumerate 0 (cli_output_routes ex)) waits1 w1
      | (Some (Err e), waits1, w1) \<Rightarrow> (Some (Err e), w1)
      | (Some Panic, waits1, w1) \<Rightarrow> (Some Panic, w1)
      | (None, waits1, w1) \<Rightarrow> (None, w1))"

section \<open>Executors of both kinds\<close>

datatype 'g cli_node_executor = CliNative cli_native_executor | CliWasm "'g batch_component"

text \<open>\<open>polls\<close> is how often the watcher of a guest call looks at its token.\<close>

fun run_cli_node_executor ::
  "('n, 'c) channel_ops \<Rightarrow> 'g wasmtime \<Rightarrow> 'n json_text \<Rightarrow> nat \<Rightarrow> 'g cli_node_executor \<Rightarrow> node_context \<Rightarrow> ('n, 's) ports_in
   \<Rightarrow> ('n, 's) ports_out \<Rightarrow> ('c, 's) waits \<Rightarrow> ('c, 's) waits \<Rightarrow> ('c, 's) world
   \<Rightarrow> (unit, pureflow_error) result option \<times> ('c, 's) world" where
  "run_cli_node_executor ops wt jt polls (CliNative ex) ctx q outs waits send_waits w =
     run_cli_native_executor ops ex ctx q outs (waits @ send_waits) w"
| "run_cli_node_executor ops wt jt polls (CliWasm bc) ctx q outs waits send_waits w =
     run_batch_node_executor ops (\<lambda>b. invoke wt jt bc b polls) ctx q outs waits send_waits w"

section \<open>Registries\<close>

type_synonym routes_by_node = "(node_id, (port_id, message_endpoint list) btree_map) btree_map"

definition route_edge :: "edge_definition \<Rightarrow> routes_by_node \<Rightarrow> routes_by_node" where
  "route_edge e m =
     bt_insert (edge_source_node e)
       (bt_push (endpoint_port_id (edge_source e))
         \<lparr>message_node = edge_target_node e, message_port = endpoint_port_id (edge_target e)\<rparr>
         (case map_of m (edge_source_node e) of None \<Rightarrow> [] | Some routes \<Rightarrow> routes)) m"

definition native_executor_of :: "routes_by_node \<Rightarrow> node_definition \<Rightarrow> cli_native_executor" where
  "native_executor_of routes n =
     \<lparr>cli_input_ports = input_ports n,
      cli_output_routes = fold (\<lambda>p. bt_insert p
        (case Option.bind (map_of routes (node_def_id n)) (\<lambda>r. map_of r p) of None \<Rightarrow> [] | Some ts \<Rightarrow> ts))
        (output_ports n) []\<rparr>"

definition native_registry_for_workflow :: "workflow_definition \<Rightarrow> (node_id, cli_native_executor) btree_map" where
  "native_registry_for_workflow w =
     (let routes = fold route_edge (workflow_edges w) []
      in fold (\<lambda>n. bt_insert (node_def_id n) (native_executor_of routes n)) (workflow_nodes w) [])"

definition collect_component ::
  "(node_id, cli_wasm_component_spec) btree_map \<Rightarrow> cli_wasm_component_spec
   \<Rightarrow> (node_id, cli_wasm_component_spec) btree_map cli_result" where
  "collect_component m s =
     (if map_of m (component_node s) \<noteq> None
      then Err (CliWasmManifest (''duplicate WASM component entry for node '' @ quoted (node_id_str (component_node s))))
      else Ok (bt_insert (component_node s) s m))"

definition compile_component ::
  "'g wasmtime \<Rightarrow> (string \<Rightarrow> char list cli_result) \<Rightarrow> cli_wasm_component_spec \<Rightarrow> 'g batch_component cli_result" where
  "compile_component wt read_bytes s =
     and_then (read_bytes (component_path s)) (\<lambda>bytes.
     map_err CliRuntime (from_component_bytes_with_limits wt bytes (component_limits s)))"

definition choose_executor ::
  "'g wasmtime \<Rightarrow> (string \<Rightarrow> char list cli_result) \<Rightarrow> (node_id, cli_native_executor) btree_map
   \<Rightarrow> (node_id, cli_wasm_component_spec) btree_map \<times> (node_id, 'g cli_node_executor) btree_map \<Rightarrow> node_definition
   \<Rightarrow> ((node_id, cli_wasm_component_spec) btree_map \<times> (node_id, 'g cli_node_executor) btree_map) cli_result" where
  "choose_executor wt read_bytes native st n =
     (case map_of (fst st) (node_def_id n) of
        Some s \<Rightarrow>
          and_then (compile_component wt read_bytes s) (\<lambda>bc.
          Ok (bt_remove (node_def_id n) (fst st), bt_insert (node_def_id n) (CliWasm bc) (snd st)))
      | None \<Rightarrow>
          and_then (ok_or (map_of native (node_def_id n))
              (CliWasmManifest (''failed to construct native executor for workflow node ''
                @ quoted (node_id_str (node_def_id n))))) (\<lambda>ex.
          Ok (fst st, bt_insert (node_def_id n) (CliNative ex) (snd st))))"

definition mixed_registry_for_workflow ::
  "'g wasmtime \<Rightarrow> (string \<Rightarrow> char list cli_result) \<Rightarrow> workflow_definition \<Rightarrow> cli_wasm_component_spec list
   \<Rightarrow> (node_id, 'g cli_node_executor) btree_map cli_result" where
  "mixed_registry_for_workflow wt read_bytes w components =
     and_then (try_fold collect_component [] components) (\<lambda>by_node.
     and_then (try_fold (choose_executor wt read_bytes (native_registry_for_workflow w)) (by_node, []) (workflow_nodes w)) (\<lambda>st.
     case fst st of
       (n, _) # _ \<Rightarrow>
         Err (CliWasmManifest (''WASM component manifest references unknown workflow node '' @ quoted (node_id_str n)))
     | [] \<Rightarrow> Ok (snd st)))"

section \<open>The run\<close>

text \<open>
  What a run takes from outside: the platform of the engine, empty channels, the JSONL sink with its
  writer and the bytes written so far, the outcome of creating the runtime, whether the sink is no
  longer shared when the run has ended (\<open>Arc::try_unwrap\<close>), and how the runtime runs an executor.
\<close>

record ('n, 'c, 's, 'g) run_env =
  run_platform :: "('n, 'c, 's tiered_sink) platform"
  run_channels :: 'c
  run_jsonl :: "('n, 's) sink"
  run_writer :: 's
  run_written :: "'s \<Rightarrow> (char list, pureflow_error) result"
  run_runtime :: "(unit, pureflow_error) result"
  run_unshared :: "('c, 's tiered_sink) world \<Rightarrow> bool"
  run_spawn :: "'g cli_node_executor \<Rightarrow> ('n, 'c, 's tiered_sink) executor"
  run_wasmtime :: "'g wasmtime"

record cli_run_output =
  out_workflow_id :: string
  out_node_count :: nat
  out_edge_count :: nat
  metadata_jsonl :: string
  record_count :: nat
  out_summary :: workflow_run_summary

text \<open>\<open>str::lines().count()\<close>.\<close>

definition line_count :: "string \<Rightarrow> nat" where
  "line_count s =
     (let n = length (filter (\<lambda>c. c = CHR 0x0A) s) in if s = [] \<or> last s = CHR 0x0A then n else n + 1)"

definition finish_run ::
  "('n, 'c, 's, 'g) run_env \<Rightarrow> workflow_definition \<Rightarrow> workflow_run_summary \<Rightarrow> ('c, 's tiered_sink) world
   \<Rightarrow> cli_run_output cli_result" where
  "finish_run r flow summary w =
     and_then (if run_unshared r w then Ok ()
       else Err (CliRuntime (Metadata ''metadata sink still has active references''))) (\<lambda>_.
     and_then (map_err CliRuntime (run_written r (inner_state (sink_state w)))) (\<lambda>bytes.
     and_then (map_err (\<lambda>e. CliRuntime (Metadata (''metadata JSONL was not valid UTF-8: '' @ e))) (string_from_utf8 bytes)) (\<lambda>jsonl.
     Ok \<lparr>out_workflow_id = workflow_id_str (workflow_def_id flow), out_node_count = length (workflow_nodes flow),
         out_edge_count = length (workflow_edges flow), metadata_jsonl = jsonl, record_count = line_count jsonl,
         out_summary = summary\<rparr>)))"

definition run_workflow_with_registry_json ::
  "('n, 'c, 's, 'g) run_env \<Rightarrow> workflow_definition \<Rightarrow> (node_id, 'g cli_node_executor) btree_map
   \<Rightarrow> cli_run_output cli_result option" where
  "run_workflow_with_registry_json r flow executors =
     (case run_runtime r of
        Ok _ \<Rightarrow>
          (case new_execution_id ''cli-run-1'' of
             Ok x \<Rightarrow>
               (case run_workflow_with_registry_and_metadata_sink_summary (run_platform r) flow (first_attempt x)
                       (\<lambda>n. and_then (static_executor_for executors n) (\<lambda>ex. Ok (run_spawn r ex)))
                       (tiered_record (run_jsonl r))
                       \<lparr>chans = run_channels r, sink_state = tiered_with_policy (run_writer r) control_only, signals = []\<rparr> of
                  (None, w) \<Rightarrow> None
                | (Some (Ok summary), w) \<Rightarrow> Some (finish_run r flow summary w)
                | (Some (Err e), w) \<Rightarrow> Some (Err (CliRuntime e))
                | (Some Panic, w) \<Rightarrow> Some Panic)
           | Err e \<Rightarrow> Some (Err (CliRuntime (Validation (IdentifierInvalid e))))
           | Panic \<Rightarrow> Some Panic)
      | Err e \<Rightarrow> Some (Err (CliRuntime e))
      | Panic \<Rightarrow> Some Panic)"

text \<open>The continuation of a fallible step before the run.\<close>

fun and_run :: "('a, 'e) result \<Rightarrow> ('a \<Rightarrow> ('b, 'e) result option) \<Rightarrow> ('b, 'e) result option" where
  "and_run (Ok x) k = k x"
| "and_run (Err e) k = Some (Err e)"
| "and_run Panic k = Some Panic"

definition run_workflow_json ::
  "'n cli_env \<Rightarrow> ('n, 'c, 's, 'g) run_env \<Rightarrow> string \<Rightarrow> string \<Rightarrow> cli_run_output cli_result option" where
  "run_workflow_json env r inp path =
     and_run (cli_load_workflow env inp path) (\<lambda>flow.
     run_workflow_with_registry_json r flow (map (\<lambda>(n, ex). (n, CliNative ex)) (native_registry_for_workflow flow)))"

definition run_workflow_json_with_wasm_components ::
  "'n cli_env \<Rightarrow> ('n, 'c, 's, 'g) run_env \<Rightarrow> (string \<Rightarrow> char list cli_result) \<Rightarrow> string \<Rightarrow> string
   \<Rightarrow> cli_wasm_component_spec list \<Rightarrow> cli_run_output cli_result option" where
  "run_workflow_json_with_wasm_components env r read_bytes inp path components =
     and_run (cli_load_workflow env inp path) (\<lambda>flow.
     and_run (mixed_registry_for_workflow (run_wasmtime r) read_bytes flow components) (\<lambda>executors.
     run_workflow_with_registry_json r flow executors))"

section \<open>The summary as JSON\<close>

fun workflow_terminal_state_label :: "workflow_terminal_state \<Rightarrow> string" where
  "workflow_terminal_state_label Completed = ''completed''"
| "workflow_terminal_state_label Failed = ''failed''"
| "workflow_terminal_state_label Cancelled = ''cancelled''"

fun feedback_loop_startup_value :: "cycle_run_policy \<Rightarrow> 'n json" where
  "feedback_loop_startup_value Reject = JNull"
| "feedback_loop_startup_value (AllowFeedbackLoops f) = JString (feedback_loop_startup_label (loop_startup f))"

fun feedback_loop_termination_value :: "cycle_run_policy \<Rightarrow> 'n json" where
  "feedback_loop_termination_value Reject = JNull"
| "feedback_loop_termination_value (AllowFeedbackLoops f) =
     JString (feedback_loop_termination_label (loop_termination f))"

definition workflow_deadlock_diagnostic_to_json_value ::
  "(nat \<Rightarrow> 'n) \<Rightarrow> workflow_deadlock_diagnostic \<Rightarrow> 'n json" where
  "workflow_deadlock_diagnostic_to_json_value mk d =
     json_object [(''workflow_id'', JString (workflow_id_str (dd_workflow_id d))),
       (''scheduled_node_count'', JNumber (mk (dd_scheduled_node_count d))),
       (''pending_node_count'', JNumber (mk (dd_pending_node_count d))),
       (''completed_node_count'', JNumber (mk (dd_completed_node_count d))),
       (''failed_node_count'', JNumber (mk (dd_failed_node_count d))),
       (''cancelled_node_count'', JNumber (mk (dd_cancelled_node_count d))),
       (''bounded_edge_count'', JNumber (mk (dd_bounded_edge_count d))),
       (''no_progress_timeout_ms'', JNumber (mk (duration_millis_u64 (dd_no_progress_timeout d)))),
       (''cycle_policy'', JString (cycle_run_policy_label (dd_cycle_policy d))),
       (''feedback_loop_startup'', feedback_loop_startup_value (dd_cycle_policy d)),
       (''feedback_loop_termination'', feedback_loop_termination_value (dd_cycle_policy d))]"

definition cli_error_json :: "pureflow_error option \<Rightarrow> 'n json" where
  "cli_error_json e = json_option pureflow_error_to_json_value e"

definition workflow_run_summary_to_json_value :: "(nat \<Rightarrow> 'n) \<Rightarrow> workflow_run_summary \<Rightarrow> 'n json" where
  "workflow_run_summary_to_json_value mk s =
     json_object [(''terminal_state'', JString (workflow_terminal_state_label (terminal_state s))),
       (''scheduled_node_count'', JNumber (mk (scheduled_node_count s))),
       (''completed_node_count'', JNumber (mk (completed_node_count s))),
       (''failed_node_count'', JNumber (mk (failed_node_count s))),
       (''cancelled_node_count'', JNumber (mk (cancelled_node_count s))),
       (''pending_node_count'', JNumber (mk (pending_node_count s))),
       (''observed_message_count'', JNumber (mk (observed_message_count s))),
       (''error_count'', JNumber (mk (error_count s))),
       (''first_error'', cli_error_json (first_error s)),
       (''deadlock_diagnostic'', json_option (workflow_deadlock_diagnostic_to_json_value mk) (deadlock_diagnostic s))]"

definition cli_run_output_to_json_value :: "(nat \<Rightarrow> 'n) \<Rightarrow> cli_run_output \<Rightarrow> string \<Rightarrow> 'n json" where
  "cli_run_output_to_json_value mk run metadata_path =
     json_object [(''status'', JString (workflow_terminal_state_label (terminal_state (out_summary run)))),
       (''error'', cli_error_json (first_error (out_summary run))),
       (''workflow'', json_object [(''id'', JString (out_workflow_id run)), (''node_count'', JNumber (mk (out_node_count run))),
          (''edge_count'', JNumber (mk (out_edge_count run)))]),
       (''metadata'', json_object [(''path'', JString metadata_path), (''record_count'', JNumber (mk (record_count run)))]),
       (''summary'', workflow_run_summary_to_json_value mk (out_summary run))]"

definition cli_run_output_to_json_string :: "'n cli_env \<Rightarrow> cli_run_output \<Rightarrow> string \<Rightarrow> string cli_result" where
  "cli_run_output_to_json_string env run metadata_path =
     and_then (map_err (\<lambda>e. CliRuntime (Metadata (''failed to encode run summary JSON: '' @ e)))
       (env_pretty env (cli_run_output_to_json_value (env_number env) run metadata_path))) (\<lambda>output.
     Ok (output @ newline))"

section \<open>Commands\<close>

datatype commands =
  CmdValidate string
| CmdInspect string
| CmdExplain string
| CmdRun bool "string option" string string
| CmdValidateManifest "string option" string
| CmdSchema schema_kind
| CmdCompletions string

text \<open>The files, over an abstract state; the errors of the operating system are known by their text.\<close>

record 'f cli_files =
  files_text :: "'f \<Rightarrow> string \<Rightarrow> (string, string) result"
  files_bytes :: "'f \<Rightarrow> string \<Rightarrow> (char list, string) result"
  files_exist :: "'f \<Rightarrow> string \<Rightarrow> bool"
  files_write :: "string \<Rightarrow> string \<Rightarrow> 'f \<Rightarrow> (unit, string) result \<times> 'f"

definition read_file :: "'f cli_files \<Rightarrow> 'f \<Rightarrow> string \<Rightarrow> string cli_result" where
  "read_file io f path = map_err (CliIo ''read'' path) (files_text io f path)"

definition read_bytes_file :: "'f cli_files \<Rightarrow> 'f \<Rightarrow> string \<Rightarrow> char list cli_result" where
  "read_bytes_file io f path = map_err (CliIo ''read'' path) (files_bytes io f path)"

definition write_file :: "'f cli_files \<Rightarrow> string \<Rightarrow> string \<Rightarrow> 'f \<Rightarrow> unit cli_result \<times> 'f" where
  "write_file io path contents f =
     (let (r, f1) = files_write io path contents f in (map_err (CliIo ''write'' path) r, f1))"

definition run_report :: "cli_run_output \<Rightarrow> string \<Rightarrow> string" where
  "run_report run metadata_path =
     ''ran workflow '' @ quoted (out_workflow_id run) @ newline @ ''nodes: '' @ show_nat (out_node_count run) @ newline
       @ ''edges: '' @ show_nat (out_edge_count run) @ newline @ ''metadata: '' @ metadata_path @ newline
       @ ''records: '' @ show_nat (record_count run) @ newline"

text \<open>The run that a \<open>run\<close> command starts, before the metadata is written.\<close>

definition start_run ::
  "'n cli_env \<Rightarrow> ('n, 'c, 's, 'g) run_env \<Rightarrow> 'f cli_files \<Rightarrow> 'f \<Rightarrow> string option \<Rightarrow> string \<Rightarrow> cli_run_output cli_result option" where
  "start_run env r io f wasm_components flow =
     and_run (read_file io f flow) (\<lambda>inp.
     case wasm_components of
       None \<Rightarrow> run_workflow_json env r inp flow
     | Some manifest \<Rightarrow>
         and_run (read_file io f manifest) (\<lambda>manifest_input.
         and_run (wasm_component_specs_from_manifest env manifest_input manifest) (\<lambda>components.
         run_workflow_json_with_wasm_components env r (read_bytes_file io f) inp flow components)))"

text \<open>\<open>completions\<close> is \<open>clap_complete::generate\<close>.\<close>

fun dispatch_command ::
  "'n cli_env \<Rightarrow> ('n, 'c, 's, 'g) run_env \<Rightarrow> (string \<Rightarrow> char list) \<Rightarrow> 'f cli_files \<Rightarrow> commands \<Rightarrow> 'f
   \<Rightarrow> string cli_result option \<times> 'f" where
  "dispatch_command env r completions io (CmdValidate flow) f =
     (Some (and_then (read_file io f flow) (\<lambda>inp. validate_workflow_json env inp flow)), f)"
| "dispatch_command env r completions io (CmdInspect flow) f =
     (Some (and_then (read_file io f flow) (\<lambda>inp. inspect_workflow_json env inp flow)), f)"
| "dispatch_command env r completions io (CmdExplain flow) f =
     (Some (and_then (read_file io f flow) (\<lambda>inp.
        explain_workflow_json env \<lparr>fs_exists = files_exist io f, fs_read = files_text io f\<rparr> inp flow)), f)"
| "dispatch_command env r completions io (CmdValidateManifest flow manifest) f =
     (Some (and_then (read_file io f manifest) (\<lambda>manifest_input.
        and_then (case flow of None \<Rightarrow> Ok None | Some p \<Rightarrow> and_then (read_file io f p) (\<lambda>t. Ok (Some t))) (\<lambda>workflow_input.
        validate_wasm_component_manifest env (files_exist io f) manifest_input manifest workflow_input))), f)"
| "dispatch_command env r completions io (CmdSchema kind) f =
     (Some (schema_json_string (env_pretty env) (env_number env) kind), f)"
| "dispatch_command env r completions io (CmdCompletions shell) f =
     (Some (map_err (\<lambda>e. CliRuntime (Execution (''completion script was not valid UTF-8: '' @ e)))
        (string_from_utf8 (completions shell))), f)"
| "dispatch_command env r completions io (CmdRun json wasm_components flow metadata) f =
     (case start_run env r io f wasm_components flow of
        None \<Rightarrow> (None, f)
      | Some (Ok run) \<Rightarrow>
          (let (written, f1) = write_file io metadata (metadata_jsonl run) f
           in (Some (and_then written (\<lambda>_.
                if json then cli_run_output_to_json_string env run metadata else Ok (run_report run metadata))), f1))
      | Some (Err e) \<Rightarrow> (Some (Err e), f)
      | Some Panic \<Rightarrow> (Some Panic, f))"

text \<open>
  \<open>run\<close> and \<open>main\<close>.  The parser of the arguments is a parameter: it gives a command, or ends the process
  itself with a status.
\<close>

record process_end =
  exit_status :: int
  printed :: string
  complained :: string

definition main_outcome :: "string cli_result \<Rightarrow> process_end option" where
  "main_outcome res =
     (case res of
        Ok output \<Rightarrow> Some \<lparr>exit_status = 0, printed = output, complained = []\<rparr>
      | Err e \<Rightarrow> Some \<lparr>exit_status = exit_code e, printed = [], complained = ''error: '' @ show_cli_error e @ newline\<rparr>
      | Panic \<Rightarrow> None)"

definition main ::
  "unit cli_result \<Rightarrow> process_end + commands \<Rightarrow> (commands \<Rightarrow> 'f \<Rightarrow> string cli_result option \<times> 'f)
   \<Rightarrow> 'f \<Rightarrow> process_end option \<times> 'f" where
  "main tracing parsed dispatch f =
     (case tracing of
        Ok _ \<Rightarrow>
          (case parsed of
             Inl stopped \<Rightarrow> (Some stopped, f)
           | Inr cmd \<Rightarrow> (let (r, f1) = dispatch cmd f in (Option.bind r main_outcome, f1)))
      | Err e \<Rightarrow> (main_outcome (Err e), f)
      | Panic \<Rightarrow> (None, f))"

end
