(* ===== verification/CliRunProps.thy ===== *)
theory CliRunProps
  imports CliInspectProps CliRun WasmBatchProps
begin

text \<open>
  What the command \<open>run\<close> promises: which executors the registries hold, when a component manifest is
  accepted, which native nodes cannot run, and what is written to disk.
\<close>

section \<open>Native registries\<close>

definition edge_targets :: "workflow_definition \<Rightarrow> node_id \<Rightarrow> port_id \<Rightarrow> message_endpoint list" where
  "edge_targets w n p =
     map (\<lambda>e. \<lparr>message_node = edge_target_node e, message_port = endpoint_port_id (edge_target e)\<rparr>)
       (filter (\<lambda>e. edge_source_node e = n \<and> endpoint_port_id (edge_source e) = p) (workflow_edges w))"

definition native_executor_for :: "workflow_definition \<Rightarrow> node_definition \<Rightarrow> cli_native_executor" where
  "native_executor_for w n =
     \<lparr>cli_input_ports = input_ports n,
      cli_output_routes = bt_from_list (map (\<lambda>p. (p, edge_targets w (node_def_id n) p)) (output_ports n))\<rparr>"

definition routes_at :: "routes_by_node \<Rightarrow> node_id \<Rightarrow> port_id \<Rightarrow> message_endpoint list" where
  "routes_at m n p = (case Option.bind (map_of m n) (\<lambda>r. map_of r p) of None \<Rightarrow> [] | Some ts \<Rightarrow> ts)"

lemma routes_at_route_edge:
  "routes_at (route_edge e m) n p =
     routes_at m n p @
       (if edge_source_node e = n \<and> endpoint_port_id (edge_source e) = p
        then [\<lparr>message_node = edge_target_node e, message_port = endpoint_port_id (edge_target e)\<rparr>] else [])"
  by (cases "map_of m (edge_source_node e)") (auto simp: routes_at_def route_edge_def bt_push_def)

lemma routes_at_fold:
  "routes_at (fold route_edge es m) n p =
     routes_at m n p @
       map (\<lambda>e. \<lparr>message_node = edge_target_node e, message_port = endpoint_port_id (edge_target e)\<rparr>)
         (filter (\<lambda>e. edge_source_node e = n \<and> endpoint_port_id (edge_source e) = p) es)"
  by (induction es arbitrary: m) (auto simp: routes_at_route_edge)

lemma bt_from_list_map: "bt_from_list (map (\<lambda>x. (k x, f x)) xs) = fold (\<lambda>x. bt_insert (k x) (f x)) xs []"
  by (simp add: bt_from_list_def fold_map comp_def)

lemma native_executor_of_eq:
  "native_executor_of (fold route_edge (workflow_edges w) []) n = native_executor_for w n"
  by (simp add: native_executor_of_def native_executor_for_def bt_from_list_map
      routes_at_def [symmetric] routes_at_fold edge_targets_def) (simp add: routes_at_def)

lemma native_registry_eq:
  "native_registry_for_workflow w =
     bt_from_list (map (\<lambda>n. (node_def_id n, native_executor_for w n)) (workflow_nodes w))"
  by (simp add: native_registry_for_workflow_def native_executor_of_eq bt_from_list_map)

lemma native_registry_lookup:
  assumes "distinct (map node_def_id (workflow_nodes w))" "n \<in> set (workflow_nodes w)"
  shows "map_of (native_registry_for_workflow w) (node_def_id n) = Some (native_executor_for w n)"
proof -
  have "distinct (map fst (map (\<lambda>n. (node_def_id n, native_executor_for w n)) (workflow_nodes w)))"
    using assms(1) by (simp add: comp_def)
  from bt_from_list_lookup [OF this] assms(2) show ?thesis unfolding native_registry_eq by auto
qed

section \<open>Mixed registries\<close>

lemma collect_components:
  "try_fold collect_component [] cs = Ok m \<longleftrightarrow>
     distinct (map component_node cs) \<and> m = bt_from_list (map (\<lambda>s. (component_node s, s)) cs)"
proof (induction cs arbitrary: m rule: rev_induct)
  case (snoc s cs)
  have seen: "map_of (bt_from_list (map (\<lambda>s. (component_node s, s)) cs)) k = None \<longleftrightarrow> k \<notin> component_node ` set cs" for k
    by (auto simp: map_of_bt_from_list map_of_eq_None_iff image_image)
  have "try_fold collect_component [] (cs @ [s]) = Ok m \<longleftrightarrow>
      (\<exists>m'. try_fold collect_component [] cs = Ok m' \<and> map_of m' (component_node s) = None \<and>
        m = bt_insert (component_node s) s m')"
    by (auto simp: try_fold_append collect_component_def)
  then show ?case by (auto simp: snoc.IH seen bt_from_list_snoc)
qed (auto simp: bt_from_list_def)

definition executor_of ::
  "'g wasmtime \<Rightarrow> (string \<Rightarrow> char list cli_result) \<Rightarrow> (node_id, cli_native_executor) btree_map
   \<Rightarrow> (node_id, cli_wasm_component_spec) btree_map \<Rightarrow> node_definition \<Rightarrow> 'g cli_node_executor cli_result" where
  "executor_of wt rb native m n =
     (case map_of m (node_def_id n) of
        Some s \<Rightarrow> and_then (compile_component wt rb s) (\<lambda>bc. Ok (CliWasm bc))
      | None \<Rightarrow>
          and_then (ok_or (map_of native (node_def_id n))
              (CliWasmManifest (''failed to construct native executor for workflow node ''
                @ quoted (node_id_str (node_def_id n))))) (\<lambda>ex. Ok (CliNative ex)))"

lemma bt_remove_absent: "map_of m k = None \<Longrightarrow> bt_remove k m = m"
  by (force simp: bt_remove_def map_of_eq_None_iff filter_id_conv)

lemma choose_executor_eq:
  "choose_executor wt rb native (m, acc) n =
     and_then (executor_of wt rb native m n) (\<lambda>ex. Ok (bt_remove (node_def_id n) m, bt_insert (node_def_id n) ex acc))"
  by (auto simp: choose_executor_def executor_of_def and_then_assoc bt_remove_absent split: option.split)

lemma executor_of_remove:
  "node_def_id n \<noteq> k \<Longrightarrow> executor_of wt rb native (bt_remove k m) n = executor_of wt rb native m n"
  by (simp add: executor_of_def)

lemma ex_list_all2_Cons:
  "(\<exists>ys. list_all2 P (x # xs) ys \<and> Q ys) \<longleftrightarrow> (\<exists>y ys. P x y \<and> list_all2 P xs ys \<and> Q (y # ys))"
  by (auto simp: list_all2_Cons1)

lemma choose_executors:
  assumes "distinct (map node_def_id nodes)"
  shows "try_fold (choose_executor wt rb native) (m, acc) nodes = Ok st \<longleftrightarrow>
    (\<exists>exs. list_all2 (\<lambda>n ex. executor_of wt rb native m n = Ok ex) nodes exs \<and>
      st = (filter (\<lambda>(k, _). k \<notin> node_def_id ` set nodes) m,
            fold (\<lambda>(n, ex). bt_insert (node_def_id n) ex) (zip nodes exs) acc))"
  using assms
proof (induction nodes arbitrary: m acc)
  case (Cons n nodes)
  have d: "distinct (map node_def_id nodes)" using Cons.prems by simp
  have rest: "list_all2 (\<lambda>n' ex. executor_of wt rb native (bt_remove (node_def_id n) m) n' = Ok ex) nodes exs \<longleftrightarrow>
      list_all2 (\<lambda>n' ex. executor_of wt rb native m n' = Ok ex) nodes exs" for exs
    by (rule list.rel_cong [OF refl refl]) (use Cons.prems in \<open>auto simp: executor_of_remove image_iff\<close>)
  have left: "filter (\<lambda>(k, _). k \<notin> node_def_id ` set nodes) (bt_remove (node_def_id n) m) =
      filter (\<lambda>(k, _). k \<notin> node_def_id ` set (n # nodes)) m"
    by (auto simp: bt_remove_def intro: filter_cong)
  show ?case
    unfolding ex_list_all2_Cons by (auto simp: choose_executor_eq Cons.IH [OF d] rest left)
qed auto

text \<open>What a node gets: its component, compiled, or the native stand-in.\<close>

definition serves ::
  "'g wasmtime \<Rightarrow> (string \<Rightarrow> char list cli_result) \<Rightarrow> workflow_definition \<Rightarrow> cli_wasm_component_spec list
   \<Rightarrow> node_definition \<Rightarrow> 'g cli_node_executor \<Rightarrow> bool" where
  "serves wt rb w cs n ex \<longleftrightarrow>
     (case List.find (\<lambda>s. component_node s = node_def_id n) cs of
        Some s \<Rightarrow> \<exists>bc. compile_component wt rb s = Ok bc \<and> ex = CliWasm bc
      | None \<Rightarrow> ex = CliNative (native_executor_for w n))"

lemma find_component:
  assumes "distinct (map component_node cs)"
  shows "map_of (bt_from_list (map (\<lambda>s. (component_node s, s)) cs)) k = List.find (\<lambda>s. component_node s = k) cs"
proof (cases "List.find (\<lambda>s. component_node s = k) cs")
  case None
  then have "k \<notin> component_node ` set cs" by (auto simp: find_None_iff)
  then show ?thesis by (simp add: None map_of_bt_from_list map_of_eq_None_iff image_image)
next
  case (Some s)
  have "distinct (map fst (map (\<lambda>s. (component_node s, s)) cs))" using assms by (simp add: comp_def)
  from bt_from_list_lookup [OF this] find_in_set [OF Some] show ?thesis by (auto simp: Some)
qed

lemma executor_of_serves:
  assumes "distinct (map node_def_id (workflow_nodes w))" "n \<in> set (workflow_nodes w)" "distinct (map component_node cs)"
  shows "executor_of wt rb (native_registry_for_workflow w) (bt_from_list (map (\<lambda>s. (component_node s, s)) cs)) n = Ok ex
    \<longleftrightarrow> serves wt rb w cs n ex"
  by (auto simp: executor_of_def serves_def find_component [OF assms(3)] native_registry_lookup [OF assms(1,2)]
      split: option.split)

lemma keys_subset_iff:
  fixes cs :: "cli_wasm_component_spec list"
  shows "filter (\<lambda>(k, _). k \<notin> A) (bt_from_list (map (\<lambda>s. (component_node s, s)) cs)) = [] \<longleftrightarrow>
     component_node ` set cs \<subseteq> A"
proof -
  have "filter (\<lambda>(k, _). k \<notin> A) m = [] \<longleftrightarrow> fst ` set m \<subseteq> A" for m :: "(node_id, cli_wasm_component_spec) btree_map"
    by (auto simp: filter_empty_conv)
  from this [of "bt_from_list (map (\<lambda>s. (component_node s, s)) cs)"] show ?thesis
    unfolding set_keys_bt_from_list by (simp add: image_image)
qed

lemma mixed_registry_Ok:
  assumes "distinct (map node_def_id (workflow_nodes w))"
  shows "mixed_registry_for_workflow wt rb w cs = Ok reg \<longleftrightarrow>
    distinct (map component_node cs) \<and> component_node ` set cs \<subseteq> node_def_id ` set (workflow_nodes w) \<and>
    (\<exists>exs. list_all2 (serves wt rb w cs) (workflow_nodes w) exs \<and>
       reg = bt_from_list (zip (map node_def_id (workflow_nodes w)) exs))"
    (is "?L \<longleftrightarrow> ?R")
proof (cases "distinct (map component_node cs)")
  case True
  let ?m = "bt_from_list (map (\<lambda>s. (component_node s, s)) cs)"
  let ?exec = "executor_of wt rb (native_registry_for_workflow w) ?m"
  have serves: "list_all2 (\<lambda>n ex. ?exec n = Ok ex) (workflow_nodes w) exs \<longleftrightarrow>
      list_all2 (serves wt rb w cs) (workflow_nodes w) exs" for exs
    by (rule list.rel_cong [OF refl refl]) (use assms True in \<open>auto simp: executor_of_serves\<close>)
  have zipped: "fold (\<lambda>(n, ex). bt_insert (node_def_id n) ex) (zip (workflow_nodes w) exs) [] =
      bt_from_list (zip (map node_def_id (workflow_nodes w)) exs)" for exs :: "'a cli_node_executor list"
    by (simp add: bt_from_list_def zip_map1 fold_map comp_def case_prod_unfold)
  have leftover: "(case m of (n, _) # _ \<Rightarrow> Err (e n) | [] \<Rightarrow> Ok r) = Ok reg \<longleftrightarrow> m = [] \<and> r = reg"
    for m :: "(node_id, cli_wasm_component_spec) btree_map" and e and r by (cases m) auto
  have "?L \<longleftrightarrow> (\<exists>st. try_fold (choose_executor wt rb (native_registry_for_workflow w)) (?m, []) (workflow_nodes w) = Ok st \<and>
      fst st = [] \<and> reg = snd st)"
    using collect_components [of cs ?m] True
    by (auto simp: mixed_registry_for_workflow_def leftover)
  also have "\<dots> \<longleftrightarrow> component_node ` set cs \<subseteq> node_def_id ` set (workflow_nodes w) \<and>
      (\<exists>exs. list_all2 (serves wt rb w cs) (workflow_nodes w) exs \<and>
         reg = bt_from_list (zip (map node_def_id (workflow_nodes w)) exs))"
    unfolding choose_executors [OF assms] serves zipped
    by (auto simp: keys_subset_iff eq_commute [of "[]"])
  finally show ?thesis using True by simp
next
  case False
  then have "try_fold collect_component [] cs \<noteq> Ok m" for m by (simp add: collect_components)
  then show ?thesis using False by (auto simp: mixed_registry_for_workflow_def)
qed

lemma serves_lookup:
  assumes "distinct (map node_def_id nodes)" "list_all2 P nodes exs" "n \<in> set nodes"
  shows "\<exists>ex. map_of (bt_from_list (zip (map node_def_id nodes) exs)) (node_def_id n) = Some ex \<and> P n ex"
proof -
  have len: "length nodes = length exs" using assms(2) by (rule list_all2_lengthD)
  obtain i where i: "i < length nodes" "n = nodes ! i" using assms(3) by (auto simp: in_set_conv_nth)
  have "(node_def_id n, exs ! i) \<in> set (zip (map node_def_id nodes) exs)"
    using i len by (auto simp: in_set_zip intro!: exI [of _ i])
  then have "map_of (bt_from_list (zip (map node_def_id nodes) exs)) (node_def_id n) = Some (exs ! i)"
    using bt_from_list_lookup [of "zip (map node_def_id nodes) exs"] assms(1) len by simp
  then show ?thesis using assms(2) i by (auto simp: list_all2_conv_all_nth)
qed

lemma serves_exists:
  "(\<exists>ex. serves wt rb w cs n ex) \<longleftrightarrow>
     (\<forall>s. List.find (\<lambda>s. component_node s = node_def_id n) cs = Some s \<longrightarrow> (\<exists>bc. compile_component wt rb s = Ok bc))"
  by (cases "List.find (\<lambda>s. component_node s = node_def_id n) cs") (auto simp: serves_def)

lemma served_components_compile:
  assumes "distinct (map component_node cs)" "component_node ` set cs \<subseteq> node_def_id ` set nodes"
  shows "(\<exists>exs. list_all2 (serves wt rb w cs) nodes exs) \<longleftrightarrow> (\<forall>s\<in>set cs. \<exists>bc. compile_component wt rb s = Ok bc)"
proof -
  have find: "List.find (\<lambda>t. component_node t = k) cs = Some s \<longleftrightarrow> s \<in> set cs \<and> component_node s = k" for s k
    using assms(1) by (induction cs) (auto simp: image_iff)
  have "(\<exists>exs. list_all2 (serves wt rb w cs) nodes exs) \<longleftrightarrow> (\<forall>n\<in>set nodes. \<exists>ex. serves wt rb w cs n ex)"
    by (induction nodes) (auto simp: list_all2_Cons1)
  also have "\<dots> \<longleftrightarrow> (\<forall>s\<in>set cs. \<exists>bc. compile_component wt rb s = Ok bc)"
    using assms(2) by (fastforce simp: serves_exists find)
  finally show ?thesis .
qed

text \<open>
  C34: \<open>run --wasm-components\<close> builds a registry exactly when the manifest names no node twice, names only
  nodes of the workflow, and every component can be read and compiled; then every node has an
  executor: its component if the manifest names one, otherwise the native stand-in with the input
  ports of the node and, for each output port, the targets of its edges in declaration order.
\<close>

theorem mixed_registry_accepts_iff:
  assumes "workflow_ok w"
  shows "((\<exists>reg. mixed_registry_for_workflow wt rb w cs = Ok reg) \<longleftrightarrow>
      distinct (map component_node cs) \<and> component_node ` set cs \<subseteq> node_def_id ` set (workflow_nodes w) \<and>
      (\<forall>s\<in>set cs. \<exists>bc. compile_component wt rb s = Ok bc)) \<and>
    (mixed_registry_for_workflow wt rb w cs = Ok reg \<and> n \<in> set (workflow_nodes w) \<longrightarrow>
      (\<exists>ex. static_executor_for reg (node_def_id n) = Ok ex \<and> serves wt rb w cs n ex))"
proof
  note d = workflow_ok_distinct(1) [OF assms]
  show "(\<exists>reg. mixed_registry_for_workflow wt rb w cs = Ok reg) \<longleftrightarrow>
      distinct (map component_node cs) \<and> component_node ` set cs \<subseteq> node_def_id ` set (workflow_nodes w) \<and>
      (\<forall>s\<in>set cs. \<exists>bc. compile_component wt rb s = Ok bc)"
    unfolding mixed_registry_Ok [OF d] using served_components_compile [of cs "workflow_nodes w" wt rb w] by blast
  show "mixed_registry_for_workflow wt rb w cs = Ok reg \<and> n \<in> set (workflow_nodes w) \<longrightarrow>
      (\<exists>ex. static_executor_for reg (node_def_id n) = Ok ex \<and> serves wt rb w cs n ex)"
    unfolding mixed_registry_Ok [OF d] using serves_lookup [OF d] by (fastforce simp: static_executor_for_def)
qed

section \<open>Sample workflow\<close>

text \<open>One node \<open>a\<close>, and one with a given name and one output port.\<close>

definition lone_workflow :: "node_definition \<Rightarrow> workflow_definition" where
  "lone_workflow n =
     \<lparr>workflow_def_id = WorkflowId ''w'', workflow_graph = \<lparr>graph_nodes = [n], graph_edges = []\<rparr>\<rparr>"

lemma lone_workflow_ok: "node_ok n \<Longrightarrow> workflow_ok (lone_workflow n)"
  using valid_identifier_ascii [of "''w''"]
  by (simp add: lone_workflow_def workflow_ok_def structurally_valid_def edge_relation_def no_parallel_edges_def
      acyclic_def ascii_graphic_def byte_def)

definition lone_node :: node_definition where
  "lone_node = \<lparr>node_def_id = NodeId ''a'', input_ports = [], output_ports = []\<rparr>"

lemma lone_node_ok: "node_ok lone_node"
  using valid_identifier_ascii [of "''a''"] by (simp add: lone_node_def node_ok_def ascii_graphic_def byte_def)

definition lone_component :: cli_wasm_component_spec where
  "lone_component = \<lparr>component_node = NodeId ''a'', component_path = ''a.wasm'', component_limits = default_limits\<rparr>"

lemma lone_component_compiles:
  "compile_component echo_guest (\<lambda>_. Ok []) lone_component = Ok \<lparr>guest_component = (), guest_limits = default_limits\<rparr>"
  by (simp add: compile_component_def from_component_bytes_with_limits_def echo_guest_def lone_component_def)

theorem mixed_registry_accepts_iff_witness:
  "workflow_ok (lone_workflow lone_node) \<and>
   (\<exists>reg. mixed_registry_for_workflow echo_guest (\<lambda>_. Ok []) (lone_workflow lone_node) [lone_component] = Ok reg \<and>
      static_executor_for reg (NodeId ''a'') = Ok (CliWasm \<lparr>guest_component = (), guest_limits = default_limits\<rparr>)) \<and>
   \<not> (\<exists>reg. mixed_registry_for_workflow echo_guest (\<lambda>_. Ok []) (lone_workflow lone_node)
     [lone_component, lone_component] = Ok reg)"
proof (intro conjI)
  have ok: "workflow_ok (lone_workflow lone_node)" by (rule lone_workflow_ok [OF lone_node_ok])
  note iff = mixed_registry_accepts_iff [OF ok, of echo_guest "\<lambda>_. Ok []"]
  have names: "component_node lone_component = NodeId ''a''" "node_def_id lone_node = NodeId ''a''"
    "workflow_nodes (lone_workflow lone_node) = [lone_node]"
    by (simp_all add: lone_component_def lone_node_def lone_workflow_def)
  show "workflow_ok (lone_workflow lone_node)" by (fact ok)
  obtain reg where reg: "mixed_registry_for_workflow echo_guest (\<lambda>_. Ok []) (lone_workflow lone_node) [lone_component] = Ok reg"
    using iff [of "[lone_component]"] by (auto simp: names lone_component_compiles)
  with iff [of "[lone_component]" reg lone_node]
  obtain ex where "static_executor_for reg (NodeId ''a'') = Ok ex"
    "serves echo_guest (\<lambda>_. Ok []) (lone_workflow lone_node) [lone_component] lone_node ex"
    by (auto simp: names)
  then show "\<exists>reg. mixed_registry_for_workflow echo_guest (\<lambda>_. Ok []) (lone_workflow lone_node) [lone_component] = Ok reg \<and>
      static_executor_for reg (NodeId ''a'') = Ok (CliWasm \<lparr>guest_component = (), guest_limits = default_limits\<rparr>)"
    using reg by (auto simp: serves_def names lone_component_compiles)
  show "\<not> (\<exists>reg. mixed_registry_for_workflow echo_guest (\<lambda>_. Ok []) (lone_workflow lone_node)
     [lone_component, lone_component] = Ok reg)"
    using iff [of "[lone_component, lone_component]"] by simp
qed

section \<open>Manifest validation and runs\<close>

interpretation dup_components: dup_checker "reject_dups component_node duplicate_component []" component_node duplicate_component
  by (rule reject_dups_dup_checker)

lemma check_component_node_Ok: "check_component_node w s = Ok () \<longleftrightarrow> component_node s \<in> node_def_id ` set (workflow_nodes w)"
  by (simp add: check_component_node_def)

lemma validate_manifest_accepts:
  assumes "wasm_component_specs_from_manifest env minp mpath = Ok specs"
    and "workflow_from_json_str (env_codec env) winp = Ok w"
  shows "is_ok (validate_wasm_component_manifest env path_exists minp mpath (Some winp)) \<longleftrightarrow>
    distinct (map component_node specs) \<and> (\<forall>s\<in>set specs. path_exists (component_path s)) \<and>
    component_node ` set specs \<subseteq> node_def_id ` set (workflow_nodes w)"
proof -
  have "is_ok (validate_wasm_component_manifest env path_exists minp mpath (Some winp)) \<longleftrightarrow>
      reject_dups component_node duplicate_component [] specs = Ok () \<and>
      try_each (check_component_path path_exists) specs = Ok () \<and> try_each (check_component_node w) specs = Ok ()"
    by (cases "reject_dups component_node duplicate_component [] specs";
        cases "try_each (check_component_path path_exists) specs"; cases "try_each (check_component_node w) specs")
      (simp_all add: validate_wasm_component_manifest_def assms del: try_each_Ok_iff)
  also have "\<dots> \<longleftrightarrow> distinct (map component_node specs) \<and> (\<forall>s\<in>set specs. path_exists (component_path s)) \<and>
      component_node ` set specs \<subseteq> node_def_id ` set (workflow_nodes w)"
    by (auto simp: dup_components.check_Ok_iff check_component_node_Ok check_component_path_def split: if_splits)
  finally show ?thesis .
qed

text \<open>
  C35: what \<open>validate-manifest --workflow\<close> says of \<open>run --wasm-components\<close>.  For a manifest and a workflow in JSON that
  can be read, the command accepts the manifest and every component compiles exactly when the run can build its registry
  and every component file exists.  So an accepted manifest fails to run only because of a component that does not
  compile, which the command does not try; and what the run accepts the command refuses only for a missing file.
\<close>

theorem manifest_validation_predicts_run:
  assumes "wasm_component_specs_from_manifest env minp mpath = Ok specs"
    and "workflow_from_json_str (env_codec env) winp = Ok w"
  shows "is_ok (validate_wasm_component_manifest env path_exists minp mpath (Some winp)) \<and>
      (\<forall>s\<in>set specs. \<exists>bc. compile_component wt rb s = Ok bc) \<longleftrightarrow>
    is_ok (mixed_registry_for_workflow wt rb w specs) \<and> (\<forall>s\<in>set specs. path_exists (component_path s))"
proof -
  have "workflow_ok w" using assms(2) by (auto simp: workflow_from_json_str_def to_workflow_Ok)
  note d = workflow_ok_distinct(1) [OF this]
  have "is_ok (mixed_registry_for_workflow wt rb w specs) \<longleftrightarrow> (\<exists>reg. mixed_registry_for_workflow wt rb w specs = Ok reg)"
    by (cases "mixed_registry_for_workflow wt rb w specs") auto
  also have "\<dots> \<longleftrightarrow> distinct (map component_node specs) \<and> component_node ` set specs \<subseteq> node_def_id ` set (workflow_nodes w) \<and>
      (\<forall>s\<in>set specs. \<exists>bc. compile_component wt rb s = Ok bc)"
    unfolding mixed_registry_Ok [OF d]
    using served_components_compile [of specs "workflow_nodes w" wt rb w] by blast
  finally show ?thesis
    unfolding validate_manifest_accepts [OF assms] by blast
qed

definition lone_env :: "unit cli_env" where
  "lone_env =
     \<lparr>env_codec = doc_codec\<lparr>document_from_json := (\<lambda>_. Ok sample_document)\<rparr>, env_number = (\<lambda>_. ()),
      env_pretty = (\<lambda>_. Ok ''text''),
      env_manifest = (\<lambda>_. Ok [\<lparr>spec_node = ''a'', spec_component = ''a.wasm'', spec_fuel = None\<rparr>]),
      env_float_text = (\<lambda>_. ''0'')\<rparr>"

lemma lone_manifest_dir: "parent ''m.json'' = Some []"
  by code_simp

lemma lone_specs: "wasm_component_specs_from_manifest lone_env minp ''m.json'' = Ok [lone_component]"
  by (simp add: wasm_component_specs_from_manifest_def lone_env_def lone_manifest_dir component_spec_of_def doc_node_id
      resolve_manifest_component_path_def is_absolute_def path_join_def lone_component_def)

lemma lone_text_loads: "workflow_from_json_str (env_codec lone_env) winp = Ok (lone_workflow lone_node)"
  by (simp add: workflow_from_json_str_def raw_workflow_from_json_str_def lone_env_def sample_document_converts
      lone_workflow_def lone_node_def)

text \<open>The file of the component exists; once its bytes compile, and once they cannot be read.\<close>

theorem manifest_validation_predicts_run_witness:
  "is_ok (validate_wasm_component_manifest lone_env (\<lambda>_. True) [] ''m.json'' (Some [])) \<and>
   is_ok (mixed_registry_for_workflow echo_guest (\<lambda>_. Ok []) (lone_workflow lone_node) [lone_component]) \<and>
   \<not> is_ok (mixed_registry_for_workflow echo_guest (\<lambda>_. Err (CliWasmManifest [])) (lone_workflow lone_node) [lone_component])"
proof -
  have "is_ok (validate_wasm_component_manifest lone_env (\<lambda>_. True) [] ''m.json'' (Some []))"
    by (simp add: validate_manifest_accepts [OF lone_specs lone_text_loads] lone_component_def lone_workflow_def lone_node_def)
  moreover have "\<nexists>bc. compile_component echo_guest (\<lambda>_. Err (CliWasmManifest [])) lone_component = Ok bc"
    by (simp add: compile_component_def)
  ultimately show ?thesis
    using manifest_validation_predicts_run [OF lone_specs lone_text_loads, where path_exists = "\<lambda>_. True" and minp = "[]"
        and winp = "[]" and wt = echo_guest and rb = "\<lambda>_. Ok []"]
      manifest_validation_predicts_run [OF lone_specs lone_text_loads, where path_exists = "\<lambda>_. True" and minp = "[]"
        and winp = "[]" and wt = echo_guest and rb = "\<lambda>_. Err (CliWasmManifest [])"]
      lone_component_compiles by auto
qed

section \<open>Native nodes\<close>

lemma cli_output_packet_too_long:
  assumes "250 < length (node_id_str (context_node ctx)) + length (port_id_str p) + length (show_nat i)"
  shows "cli_output_packet ctx p ts i k = Err (Validation (IdentifierInvalid (TooLong MessageKind 256)))"
proof -
  let ?s = "''cli-'' @ node_id_str (context_node ctx) @ ''-'' @ port_id_str p @ ''-'' @ show_nat i"
  have "new_message_id ?s = Err (TooLong MessageKind 256)"
    using assms by (simp add: new_message_id_def new_id_def validate_identifier_def MAX_IDENTIFIER_LEN_def)
  then show ?thesis by (simp add: cli_output_packet_def Let_def)
qed

lemma send_cli_outputs_too_long:
  assumes "(i, p, ts) \<in> set routes"
    and "250 < length (node_id_str (context_node ctx)) + length (port_id_str p) + length (show_nat i)"
  shows "fst (send_cli_outputs ops ctx outs k tok routes waits w) \<noteq> Some (Ok ())"
  using assms(1)
proof (induction routes arbitrary: waits w)
  case (Cons r rest)
  obtain i' p' ts' where r: "r = (i', p', ts')" by (cases r)
  show ?case
  proof (cases waits)
    case (Cons resumes waits')
    show ?thesis
    proof (cases "(i, p, ts) = r")
      case True
      then have [simp]: "r = (i, p, ts)" by simp
      show ?thesis by (simp add: send_cli_output_packet_def Cons cli_output_packet_too_long [OF assms(2)])
    next
      case False
      then have "(i, p, ts) \<in> set rest" using Cons.prems by simp
      from Cons.IH [OF this, of waits'] show ?thesis
        by (auto simp: r Cons split: prod.split option.split result.split)
    qed
  qed (simp add: r)
qed simp

text \<open>
  C36: a native node with long names cannot complete.  The stand-in for a native node makes the
  identifier of each packet from the node, the port and an index; identifiers of messages are limited
  to 256 bytes like those of nodes and ports.  When the three together exceed 250 bytes, the run of
  the node never ends well, whatever its inputs, although the workflow is valid.
\<close>

theorem long_names_fail_native_nodes:
  assumes "(i, p, ts) \<in> set (enumerate 0 (cli_output_routes ex))"
    and "250 < length (node_id_str (context_node ctx)) + length (port_id_str p) + length (show_nat i)"
  shows "fst (run_cli_native_executor ops ex ctx q outs waits w) \<noteq> Some (Ok ())"
  by (auto simp: run_cli_native_executor_def send_cli_outputs_too_long [OF assms] split: prod.split option.split result.split)

definition long_node :: node_definition where
  "long_node = \<lparr>node_def_id = NodeId (replicate 130 CHR ''n''), input_ports = [], output_ports = [PortId (replicate 130 CHR ''p'')]\<rparr>"

definition long_context :: node_context where
  "long_context =
     \<lparr>context_workflow = WorkflowId ''w'', context_node = node_def_id long_node,
      context_execution = first_attempt (ExecutionId ''x''), context_token = CancellationToken 0\<rparr>"

lemma replicate_valid: "0 < n \<Longrightarrow> n \<le> 256 \<Longrightarrow> 32 < byte c \<Longrightarrow> byte c < 127 \<Longrightarrow> valid_identifier (replicate n c)"
  by (rule valid_identifier_ascii) (auto simp: ascii_graphic_def list_all_iff)

theorem long_names_fail_native_nodes_witness:
  "workflow_ok (lone_workflow long_node) \<and>
   (\<forall>ops q outs waits w. fst (run_cli_native_executor (ops :: (unit, unit) channel_ops)
      (native_executor_for (lone_workflow long_node) long_node) long_context q (outs :: (unit, unit) ports_out) waits w)
      \<noteq> Some (Ok ()))"
proof (intro conjI allI)
  show "workflow_ok (lone_workflow long_node)"
    by (rule lone_workflow_ok) (simp add: node_ok_def long_node_def replicate_valid byte_def)
  fix ops :: "(unit, unit) channel_ops" and q and outs :: "(unit, unit) ports_out" and waits w
  show "fst (run_cli_native_executor ops (native_executor_for (lone_workflow long_node) long_node)
      long_context q outs waits w) \<noteq> Some (Ok ())"
    by (rule long_names_fail_native_nodes [of 0 "PortId (replicate 130 CHR ''p'')" "[]"])
      (simp_all add: native_executor_for_def long_node_def bt_from_list_def edge_targets_def lone_workflow_def long_context_def)
qed

section \<open>Outcome of a run\<close>





text \<open>A run of the sample workflow in which every node succeeds.\<close>

definition lone_run :: "(unit, unit fifo, unit, unit) run_env" where
  "lone_run =
     \<lparr>run_platform = \<lparr>pf_channels = fifo_ops,
        pf_schedule = (\<lambda>hook sink runs w. map (\<lambda>r. NodeEnded id (run_node_id r) (Ok ())) runs), pf_duration = (\<lambda>_. ''1s'')\<rparr>,
      run_channels = empty_fifo, run_jsonl = noop_sink, run_writer = (), run_written = (\<lambda>_. Ok ''x''), run_runtime = Ok (),
      run_unshared = (\<lambda>_. True), run_spawn = (\<lambda>ex ctx ins outs w. (Ok (), w)), run_wasmtime = echo_guest\<rparr>"


lemma lone_utf8: "string_from_utf8 ''x'' = Ok ''x''"
  by code_simp

lemma lone_finish: "finish_run lone_run flow summary w = Ok
   \<lparr>out_workflow_id = workflow_id_str (workflow_def_id flow), out_node_count = length (workflow_nodes flow),
    out_edge_count = length (workflow_edges flow), metadata_jsonl = ''x'', record_count = 1, out_summary = summary\<rparr>"
  by (simp add: finish_run_def lone_run_def lone_utf8 line_count_def)


section \<open>What the commands write\<close>

lemma and_run_Ok: "and_run a k = Some (Ok x) \<longleftrightarrow> (\<exists>y. a = Ok y \<and> k y = Some (Ok x))"
  by (cases a) auto

lemma finish_run_counts: "finish_run r flow summary w = Ok run \<Longrightarrow> record_count run = line_count (metadata_jsonl run)"
  by (auto simp: finish_run_def split: if_splits)

lemma run_counts:
  "run_workflow_with_registry_json r flow executors = Some (Ok run) \<Longrightarrow> record_count run = line_count (metadata_jsonl run)"
  by (auto simp: run_workflow_with_registry_json_def finish_run_counts
      split: result.splits prod.splits option.splits)

lemma start_run_counts:
  "start_run env r io f manifest flow = Some (Ok run) \<Longrightarrow> record_count run = line_count (metadata_jsonl run)"
  by (auto simp: start_run_def and_run_Ok run_workflow_json_def run_workflow_json_with_wasm_components_def run_counts
      split: option.splits)

text \<open>
  C: only \<open>run\<close> touches the disk, and only to write the metadata of a run that has ended with a summary.
  Every other command, and a \<open>run\<close> that fails before, leaves the files as they were; the file of a run
  holds what its sink has written, and the reported number of records is the number of its lines.
\<close>

theorem only_finished_runs_write:
  assumes "dispatch_command env r completions io cmd f = (res, f')"
  shows "f' = f \<or>
    (\<exists>json manifest flow metadata run. cmd = CmdRun json manifest flow metadata \<and>
       start_run env r io f manifest flow = Some (Ok run) \<and> record_count run = line_count (metadata_jsonl run) \<and>
       f' = snd (files_write io metadata (metadata_jsonl run) f) \<and>
       (is_ok (fst (files_write io metadata (metadata_jsonl run) f)) \<or> (\<exists>e. res = Some (Err e)) \<or> res = Some Panic))"
proof (cases cmd)
  case (CmdRun json manifest flow metadata)
  show ?thesis
  proof (cases "start_run env r io f manifest flow")
    case (Some x)
    show ?thesis
    proof (cases x)
      case (Ok run)
      obtain wr f1 where fw: "files_write io metadata (metadata_jsonl run) f = (wr, f1)" by force
      have "record_count run = line_count (metadata_jsonl run)"
        using Some unfolding Ok by (rule start_run_counts)
      then show ?thesis
        using assms CmdRun Some Ok fw by (cases wr) (auto simp: write_file_def)
    qed (use assms CmdRun Some in auto)
  qed (use assms CmdRun in auto)
qed (use assms in auto)

text \<open>Files as an association from path to text.\<close>

definition lone_files :: "(string \<Rightarrow> string option) cli_files" where
  "lone_files =
     \<lparr>files_text = (\<lambda>f p. ok_or (f p) ''missing''), files_bytes = (\<lambda>f p. ok_or (f p) ''missing''),
      files_exist = (\<lambda>f p. f p \<noteq> None), files_write = (\<lambda>p t f. (Ok (), f(p \<mapsto> t)))\<rparr>"

lemma lone_run_text:
  assumes "run_workflow_with_registry_json lone_run flow executors = Some (Ok run)"
  shows "metadata_jsonl run = ''x''"
proof -
  obtain summary w where "finish_run lone_run flow summary w = Ok run"
    using assms by (auto simp: run_workflow_with_registry_json_def split: result.splits prod.splits option.splits)
  then show ?thesis by (auto simp: lone_finish)
qed

theorem only_finished_runs_write_witness:
  "let f = [''w.json'' \<mapsto> ''doc'']; out = dispatch_command lone_env lone_run (\<lambda>_. []) lone_files
       (CmdRun False None ''w.json'' ''m.jsonl'') f
   in snd out = f \<or> snd out = f(''m.jsonl'' \<mapsto> ''x'')"
proof -
  let ?f = "[''w.json'' \<mapsto> ''doc'']"
  let ?cmd = "CmdRun False None ''w.json'' ''m.jsonl''"
  obtain res f' where out: "dispatch_command lone_env lone_run (\<lambda>_. []) lone_files ?cmd ?f = (res, f')" by force
  have jsonl: "metadata_jsonl run = ''x''" if "start_run lone_env lone_run lone_files ?f None ''w.json'' = Some (Ok run)" for run
    using that by (auto simp: start_run_def and_run_Ok run_workflow_json_def lone_run_text)
  from only_finished_runs_write [OF out] jsonl have "f' = ?f \<or> f' = ?f(''m.jsonl'' \<mapsto> ''x'')"
    by (auto simp: lone_files_def)
  then show ?thesis using out by simp
qed

end
