(* ===== verification/GuestAlloc.thy ===== *)
theory GuestAlloc
  imports "HOL-Library.Word"
begin

text \<open>
  The allocator of the WASM guests (\<open>fixtures/rules-guest/src/lib.rs\<close>, \<open>target_arch = "wasm32"\<close>): a bump
  allocator over linear memory, the export \<open>cabi_realloc\<close> through which the host places its arguments,
  and \<open>memcmp\<close>.

  \<open>usize\<close> is 32 bits wide, so addresses and sizes are \<open>32 word\<close> and the checked operations of the code
  are written out.  Linear memory is the pages it has and its bytes.  The start of the heap is a
  constant of the linker and \<open>memory.grow\<close> an instruction of the host; both are fields of \<open>wasm_host\<close>.
\<close>

unbundle bit_operations_syntax

section \<open>Integers\<close>

type_synonym usize = "32 word"

definition checked_add :: "usize \<Rightarrow> usize \<Rightarrow> usize option" where
  "checked_add a b = (if unat a + unat b < 2 ^ 32 then Some (a + b) else None)"

definition checked_sub :: "usize \<Rightarrow> usize \<Rightarrow> usize option" where
  "checked_sub a b = (if b \<le> a then Some (a - b) else None)"

definition count_ones :: "usize \<Rightarrow> nat" where
  "count_ones a = length (filter (bit a) [0..<32])"

definition is_power_of_two :: "usize \<Rightarrow> bool" where
  "is_power_of_two a \<longleftrightarrow> count_ones a = 1"

definition checked_next_power_of_two :: "usize \<Rightarrow> usize option" where
  "checked_next_power_of_two a = map_option (\<lambda>k. 2 ^ k) (List.find (\<lambda>k. unat a \<le> 2 ^ k) [0..<32])"

definition align_up :: "usize \<Rightarrow> usize \<Rightarrow> usize option" where
  "align_up n align =
     (case checked_sub align 1 of
        None \<Rightarrow> None
      | Some d \<Rightarrow> map_option (\<lambda>v. v AND NOT (align - 1)) (checked_add n d))"

definition normalize_align :: "usize \<Rightarrow> usize option" where
  "normalize_align a =
     (let align = max a 1 in if is_power_of_two align then Some align else checked_next_power_of_two align)"

section \<open>Memory\<close>

definition WASM_PAGE_SIZE :: nat where
  "WASM_PAGE_SIZE = 64 * 1024"

record wasm_memory =
  heap_next :: usize
  mem_pages :: nat
  mem_bytes :: "usize \<Rightarrow> 8 word"

record wasm_host =
  heap_base :: usize
  memory_grow :: "nat \<Rightarrow> nat \<Rightarrow> bool"

definition grow_memory_to :: "wasm_host \<Rightarrow> usize \<Rightarrow> wasm_memory \<Rightarrow> bool \<times> wasm_memory" where
  "grow_memory_to host required_end m =
     (let current_size = min (mem_pages m * WASM_PAGE_SIZE) (2 ^ 32 - 1)
      in if unat required_end \<le> current_size then (True, m)
         else let additional_pages = (unat required_end - current_size + (WASM_PAGE_SIZE - 1)) div WASM_PAGE_SIZE
              in if memory_grow host (mem_pages m) additional_pages
                 then (True, m\<lparr>mem_pages := mem_pages m + additional_pages\<rparr>)
                 else (False, m))"

text \<open>A layout is a size and an alignment; the null pointer is \<open>0\<close>.\<close>

record layout =
  layout_size :: usize
  layout_align :: usize

definition alloc :: "wasm_host \<Rightarrow> layout \<Rightarrow> wasm_memory \<Rightarrow> usize \<times> wasm_memory" where
  "alloc host l m =
     (case normalize_align (layout_align l) of
        None \<Rightarrow> (0, m)
      | Some align \<Rightarrow>
          if layout_size l = 0 then (align, m)
          else let m1 = (if heap_next m = 0 then m\<lparr>heap_next := heap_base host\<rparr> else m)
               in case align_up (heap_next m1) align of
                    None \<Rightarrow> (0, m1)
                  | Some aligned \<Rightarrow>
                      (case checked_add aligned (layout_size l) of
                         None \<Rightarrow> (0, m1)
                       | Some end_of_block \<Rightarrow>
                           (case grow_memory_to host end_of_block m1 of
                              (True, m2) \<Rightarrow> (aligned, m2\<lparr>heap_next := end_of_block\<rparr>)
                            | (False, m2) \<Rightarrow> (0, m2))))"

definition dealloc :: "usize \<Rightarrow> layout \<Rightarrow> wasm_memory \<Rightarrow> wasm_memory" where
  "dealloc p l m = m"

text \<open>\<open>ptr::copy_nonoverlapping\<close> of \<open>n\<close> bytes.\<close>

definition copy_bytes :: "usize \<Rightarrow> usize \<Rightarrow> nat \<Rightarrow> wasm_memory \<Rightarrow> wasm_memory" where
  "copy_bytes src dst n m =
     m\<lparr>mem_bytes := (\<lambda>a. if unat (a - dst) < n then mem_bytes m (src + (a - dst)) else mem_bytes m a)\<rparr>"

definition realloc :: "wasm_host \<Rightarrow> usize \<Rightarrow> layout \<Rightarrow> usize \<Rightarrow> wasm_memory \<Rightarrow> usize \<times> wasm_memory" where
  "realloc host p l new_size m =
     (if new_size = 0 then (layout_align l, m)
      else let (new_ptr, m1) = alloc host \<lparr>layout_size = new_size, layout_align = layout_align l\<rparr> m
           in (new_ptr, if new_ptr \<noteq> 0 then copy_bytes p new_ptr (unat (min (layout_size l) new_size)) m1 else m1))"

definition cabi_realloc ::
  "wasm_host \<Rightarrow> usize \<Rightarrow> usize \<Rightarrow> usize \<Rightarrow> usize \<Rightarrow> wasm_memory \<Rightarrow> usize \<times> wasm_memory" where
  "cabi_realloc host old_ptr old_len align new_len m =
     (case normalize_align align of
        None \<Rightarrow> (0, m)
      | Some al \<Rightarrow>
          if old_len = 0 then
            (if new_len = 0 then (al, m) else alloc host \<lparr>layout_size = new_len, layout_align = al\<rparr> m)
          else realloc host old_ptr \<lparr>layout_size = old_len, layout_align = al\<rparr> new_len m)"

text \<open>The loop of \<open>memcmp\<close>, on the bytes that remain.\<close>

fun memcmp_loop :: "(usize \<Rightarrow> 8 word) \<Rightarrow> usize \<Rightarrow> usize \<Rightarrow> nat \<Rightarrow> nat \<Rightarrow> int" where
  "memcmp_loop bytes a b i 0 = 0"
| "memcmp_loop bytes a b i (Suc k) =
     (let lhs = bytes (a + of_nat i); rhs = bytes (b + of_nat i)
      in if lhs \<noteq> rhs then uint lhs - uint rhs else memcmp_loop bytes a b (i + 1) k)"

definition memcmp :: "wasm_memory \<Rightarrow> usize \<Rightarrow> usize \<Rightarrow> usize \<Rightarrow> int" where
  "memcmp m a b n = memcmp_loop (mem_bytes m) a b 0 (unat n)"

section \<open>Alignment\<close>

lemma filter_singleton_bit:
  assumes "count_ones a = 1"
  shows "\<exists>k<32. a = 2 ^ k"
proof -
  obtain k where k: "filter (bit a) [0..<32] = [k]"
    using assms by (auto simp: count_ones_def length_Suc_conv)
  have "set (filter (bit a) [0..<32]) = {k}" by (simp only: k list.set)
  then have bits: "{i. i < 32 \<and> bit a i} = {k}" by auto
  then have "k < 32" by blast
  moreover have "a = 2 ^ k"
  proof (rule bit_word_eqI)
    fix n :: nat
    assume "n < LENGTH(32)"
    then have "bit a n \<longleftrightarrow> n = k" using bits by auto
    then show "bit a n \<longleftrightarrow> bit (2 ^ k :: 32 word) n" using \<open>n < _\<close> by (auto simp: bit_exp_iff)
  qed
  ultimately show ?thesis by blast
qed

lemma normalize_align_power:
  assumes "normalize_align a = Some b"
  shows "\<exists>k<32. b = 2 ^ k"
proof (cases "is_power_of_two (max a 1)")
  case True
  then show ?thesis using assms filter_singleton_bit by (auto simp: normalize_align_def is_power_of_two_def Let_def)
next
  case False
  then show ?thesis
    using assms by (auto simp: normalize_align_def checked_next_power_of_two_def find_Some_iff Let_def)
qed

lemma unat_bound: "unat (x :: usize) < 2 ^ 32"
  by (rule order_less_le_trans [OF unsigned_less]) simp

lemma unat_exp: "k < 32 \<Longrightarrow> unat (2 ^ k :: usize) = 2 ^ k"
proof -
  assume "k < 32"
  then have "(2::nat) ^ k < 2 ^ 32" by (intro power_strict_increasing) auto
  moreover have "(2 ^ k :: usize) = of_nat (2 ^ k)" by simp
  ultimately show ?thesis by (simp only: unat_of_nat) simp
qed

lemma and_not_mask_unat:
  fixes x :: usize
  shows "unat (x AND NOT (mask k)) = unat x div 2 ^ k * 2 ^ k"
proof -
  have "x AND NOT (mask k) = push_bit k (drop_bit k x)"
    by (rule bit_word_eqI) (auto simp: bit_simps)
  moreover have "unat (push_bit k (drop_bit k x)) = unat x div 2 ^ k * 2 ^ k"
  proof -
    have "unat x div 2 ^ k * 2 ^ k < 2 ^ 32"
      by (rule le_less_trans [OF div_times_less_eq_dividend unat_bound])
    then show ?thesis
      unfolding unsigned_push_bit_eq unat_drop_bit_eq
      by (simp add: drop_bit_eq_div push_bit_eq_mult take_bit_nat_eq_self)
  qed
  ultimately show ?thesis by simp
qed

lemma checked_add_Some: "checked_add a b = Some c \<Longrightarrow> unat c = unat a + unat b"
  by (auto simp: checked_add_def unat_word_ariths split: if_splits)

text \<open>Rounding up to a power of two.\<close>

lemma round_up_bounds:
  fixes n q :: nat
  assumes "0 < q"
  shows "n \<le> (n + (q - 1)) div q * q" "(n + (q - 1)) div q * q < n + q" "q dvd (n + (q - 1)) div q * q"
proof -
  let ?m = "n + (q - 1)"
  have split: "?m = ?m div q * q + ?m mod q" and rest: "?m mod q < q" using assms by simp_all
  show "n \<le> ?m div q * q" "?m div q * q < n + q" using split rest assms by linarith+
qed simp

lemma align_up_eq:
  assumes "k < 32"
  shows "align_up n (2 ^ k) =
    (if unat n + (2 ^ k - 1) < 2 ^ 32 then Some ((n + (2 ^ k - 1)) AND NOT (mask k)) else None)"
proof -
  have one: "1 \<le> (2 ^ k :: usize)" using unat_exp [OF assms] by (simp add: word_le_nat_alt)
  have d: "unat (2 ^ k - 1 :: usize) = 2 ^ k - 1"
    using unat_sub [OF one] unat_exp [OF assms] by simp
  show ?thesis
    using one by (simp add: align_up_def checked_sub_def checked_add_def d mask_eq_exp_minus_1)
qed

lemma align_up_Some:
  assumes "k < 32" "align_up n (2 ^ k) = Some v"
  shows "unat n \<le> unat v" "unat v < unat n + 2 ^ k" "2 ^ k dvd unat v"
proof -
  have small: "unat n + (2 ^ k - 1) < 2 ^ 32" and v: "v = (n + (2 ^ k - 1)) AND NOT (mask k)"
    using assms by (simp_all add: align_up_eq split: if_splits)
  have one: "1 \<le> (2 ^ k :: usize)" using unat_exp [OF assms(1)] by (simp add: word_le_nat_alt)
  have "unat (n + (2 ^ k - 1)) = unat n + (2 ^ k - 1)"
    using small unat_sub [OF one] unat_exp [OF assms(1)] by (simp add: unat_word_ariths)
  then have "unat v = (unat n + (2 ^ k - 1)) div 2 ^ k * 2 ^ k" by (simp add: v and_not_mask_unat)
  then show "unat n \<le> unat v" "unat v < unat n + 2 ^ k" "2 ^ k dvd unat v"
    using round_up_bounds [of "2 ^ k" "unat n"] by simp_all
qed

section \<open>One allocation\<close>

lemma grow_memory_Some:
  assumes "grow_memory_to host e m = (True, m')"
  shows "unat e \<le> mem_pages m' * WASM_PAGE_SIZE" "mem_pages m \<le> mem_pages m'"
    "mem_bytes m' = mem_bytes m" "heap_next m' = heap_next m"
proof -
  let ?cur = "min (mem_pages m * WASM_PAGE_SIZE) (2 ^ 32 - 1)"
  show "unat e \<le> mem_pages m' * WASM_PAGE_SIZE"
  proof (cases "unat e \<le> ?cur")
    case True
    then show ?thesis using assms by (simp add: grow_memory_to_def Let_def split: if_splits)
  next
    case False
    let ?add = "(unat e - ?cur + (WASM_PAGE_SIZE - 1)) div WASM_PAGE_SIZE"
    have pages: "?cur = mem_pages m * WASM_PAGE_SIZE" using False unat_bound [of e] by auto
    have "mem_pages m * WASM_PAGE_SIZE + (unat e - ?cur) \<le> mem_pages m * WASM_PAGE_SIZE + ?add * WASM_PAGE_SIZE"
      by (rule add_left_mono, rule round_up_bounds(1)) (simp add: WASM_PAGE_SIZE_def)
    moreover have "mem_pages m' = mem_pages m + ?add"
      using assms False by (auto simp: grow_memory_to_def Let_def split: if_splits)
    ultimately have "mem_pages m' * WASM_PAGE_SIZE \<ge> mem_pages m * WASM_PAGE_SIZE + (unat e - ?cur)"
      by (simp only: add_mult_distrib)
    then show ?thesis using False unfolding pages by linarith
  qed
  show "mem_pages m \<le> mem_pages m'" "mem_bytes m' = mem_bytes m" "heap_next m' = heap_next m"
    using assms by (auto simp: grow_memory_to_def Let_def split: if_splits)
qed

lemma grow_memory_False: "grow_memory_to host e m = (False, m') \<Longrightarrow> m' = m"
  by (auto simp: grow_memory_to_def Let_def split: if_splits)

definition heap_start :: "wasm_host \<Rightarrow> wasm_memory \<Rightarrow> nat" where
  "heap_start host m = unat (if heap_next m = 0 then heap_base host else heap_next m)"

text \<open>A block that was handed out: not empty, aligned, from the heap, and inside the memory.\<close>

lemma alloc_block:
  assumes "alloc host l m = (p, m')" "layout_size l \<noteq> 0" "p \<noteq> 0"
  shows "heap_start host m \<le> unat p" "unat (heap_next m') = unat p + unat (layout_size l)"
    "\<exists>k<32. normalize_align (layout_align l) = Some (2 ^ k) \<and> 2 ^ k dvd unat p"
    "unat p + unat (layout_size l) \<le> mem_pages m' * WASM_PAGE_SIZE"
    "mem_pages m \<le> mem_pages m'" "mem_bytes m' = mem_bytes m"
proof -
  let ?m1 = "if heap_next m = 0 then m\<lparr>heap_next := heap_base host\<rparr> else m"
  obtain align where al: "normalize_align (layout_align l) = Some align"
    using assms by (cases "normalize_align (layout_align l)") (auto simp: alloc_def)
  then obtain k where k: "k < 32" "align = 2 ^ k" using normalize_align_power by blast
  obtain v e m2 where v: "align_up (heap_next ?m1) (2 ^ k) = Some v" "checked_add v (layout_size l) = Some e"
    "grow_memory_to host e ?m1 = (True, m2)" "p = v" "m' = m2\<lparr>heap_next := e\<rparr>"
    using assms al k(2) by (auto simp: alloc_def Let_def split: option.splits prod.splits bool.splits if_splits)
  have sizes: "unat e = unat v + unat (layout_size l)" by (rule checked_add_Some [OF v(2)])
  show "heap_start host m \<le> unat p" using align_up_Some(1) [OF k(1) v(1)] v(4) by (auto simp: heap_start_def)
  show "unat (heap_next m') = unat p + unat (layout_size l)" using sizes v(4,5) by simp
  show "\<exists>k<32. normalize_align (layout_align l) = Some (2 ^ k) \<and> 2 ^ k dvd unat p"
    using al k v(4) align_up_Some(3) [OF k(1) v(1)] by blast
  show "unat p + unat (layout_size l) \<le> mem_pages m' * WASM_PAGE_SIZE"
    "mem_pages m \<le> mem_pages m'" "mem_bytes m' = mem_bytes m"
    using grow_memory_Some [OF v(3)] sizes v(4,5) by (auto split: if_splits)
qed

section \<open>Requests\<close>

text \<open>What a guest and its host ask of the allocator, and the size and alignment they ask for.\<close>

datatype request =
  Allocate layout
| Reallocate usize layout usize
| CabiRealloc usize usize usize usize

fun serve :: "wasm_host \<Rightarrow> request \<Rightarrow> wasm_memory \<Rightarrow> usize \<times> wasm_memory" where
  "serve host (Allocate l) m = alloc host l m"
| "serve host (Reallocate p l new_size) m = realloc host p l new_size m"
| "serve host (CabiRealloc p old_len align new_len) m = cabi_realloc host p old_len align new_len m"

fun wanted_size :: "request \<Rightarrow> usize" where
  "wanted_size (Allocate l) = layout_size l"
| "wanted_size (Reallocate p l new_size) = new_size"
| "wanted_size (CabiRealloc p old_len align new_len) = new_len"

fun wanted_align :: "request \<Rightarrow> usize" where
  "wanted_align (Allocate l) = layout_align l"
| "wanted_align (Reallocate p l new_size) = layout_align l"
| "wanted_align (CabiRealloc p old_len align new_len) = align"

fun serve_all :: "wasm_host \<Rightarrow> request list \<Rightarrow> wasm_memory \<Rightarrow> usize list \<times> wasm_memory" where
  "serve_all host [] m = ([], m)"
| "serve_all host (r # rs) m =
     (let (p, m1) = serve host r m; (ps, m2) = serve_all host rs m1 in (p # ps, m2))"

text \<open>Normalising twice changes nothing.\<close>

lemma power_is_power_of_two: "k < 32 \<Longrightarrow> is_power_of_two (2 ^ k :: usize)"
proof -
  assume k: "k < 32"
  have "filter (bit (2 ^ k :: usize)) [0..<32] = filter (\<lambda>i. i = k) [0..<32]"
    by (rule filter_cong) (auto simp: bit_exp_iff)
  moreover have "filter (\<lambda>i. i = k) [0..<n] = (if k < n then [k] else [])" for n
    by (induction n) (auto simp: less_Suc_eq)
  ultimately show ?thesis using k by (simp add: is_power_of_two_def count_ones_def)
qed

lemma normalize_align_exp:
  assumes "k < 32"
  shows "normalize_align (2 ^ k) = Some (2 ^ k)"
proof -
  have "1 \<le> (2 ^ k :: usize)" using unat_exp [OF assms] by (simp add: word_le_nat_alt)
  then have "max (2 ^ k) 1 = (2 ^ k :: usize)" by simp
  then show ?thesis using power_is_power_of_two [OF assms] by (simp add: normalize_align_def)
qed

lemma normalize_align_idem: "normalize_align a = Some b \<Longrightarrow> normalize_align b = Some b"
  using normalize_align_power normalize_align_exp by blast

text \<open>Every request that gets a block gets it from \<open>alloc\<close>, possibly with bytes copied into it.\<close>

lemma serve_alloc:
  assumes "serve host r m = (p, m')" "p \<noteq> 0" "wanted_size r \<noteq> 0"
  shows "\<exists>l m1. alloc host l m = (p, m1) \<and> layout_size l = wanted_size r \<and>
    normalize_align (layout_align l) = normalize_align (wanted_align r) \<and>
    (m' = m1 \<or> (\<exists>src n. n \<le> unat (wanted_size r) \<and> m' = copy_bytes src p n m1))"
proof -
  have re: "\<exists>m1. alloc host \<lparr>layout_size = n, layout_align = a\<rparr> m = (p, m1) \<and>
      m' = copy_bytes q p (unat (min s n)) m1"
    if "realloc host q \<lparr>layout_size = s, layout_align = a\<rparr> n m = (p, m')" "n \<noteq> 0" for q s a n
    using that assms(2) by (auto simp: realloc_def Let_def split: prod.splits)
  have le: "unat (min s n) \<le> unat n" for s n :: usize by (simp add: min_def word_le_nat_alt)
  show ?thesis
  proof (cases r)
    case (Allocate l)
    then show ?thesis using assms by auto
  next
    case (Reallocate q l n)
    then show ?thesis
      using assms re [of q "layout_size l" "layout_align l" n] le by (cases l) fastforce
  next
    case (CabiRealloc q s a n)
    then obtain al where al: "normalize_align a = Some al"
      using assms by (cases "normalize_align a") (auto simp: cabi_realloc_def)
    then show ?thesis
      using CabiRealloc assms re [of q s al n] le normalize_align_idem [OF al]
      by (cases "s = 0") (fastforce simp: cabi_realloc_def)+
  qed
qed

lemma copy_bytes_simps [simp]:
  "heap_next (copy_bytes src dst n m) = heap_next m" "mem_pages (copy_bytes src dst n m) = mem_pages m"
  "heap_start host (copy_bytes src dst n m) = heap_start host m"
  by (simp_all add: copy_bytes_def heap_start_def)

lemma alloc_monotone:
  assumes "alloc host l m = (p, m')" "heap_base host \<noteq> 0"
  shows "heap_start host m \<le> heap_start host m'" "mem_pages m \<le> mem_pages m'"
proof -
  have "heap_start host m \<le> heap_start host m' \<and> mem_pages m \<le> mem_pages m'"
  proof (cases "p \<noteq> 0 \<and> layout_size l \<noteq> 0")
    case True
    then have "heap_start host m \<le> unat p" "unat (heap_next m') = unat p + unat (layout_size l)"
      "mem_pages m \<le> mem_pages m'"
      using alloc_block [OF assms(1)] by simp_all
    moreover from this(2) True have "heap_next m' \<noteq> 0" by (metis add_is_0 unat_eq_zero)
    ultimately show ?thesis by (simp add: heap_start_def)
  next
    case False
    have "heap_start host (if heap_next m = 0 then m\<lparr>heap_next := heap_base host\<rparr> else m) = heap_start host m"
      using assms(2) by (simp add: heap_start_def)
    moreover have "align_up n al \<noteq> Some 0" if "n \<noteq> 0" "normalize_align a = Some al" for n al a
    proof -
      from normalize_align_power [OF that(2)] obtain k where "k < 32" "al = 2 ^ k" by blast
      then show ?thesis using align_up_Some(1) [of k n 0] that(1) by (auto simp: unat_eq_zero)
    qed
    ultimately show ?thesis
      using assms False
      by (auto simp: alloc_def Let_def dest!: grow_memory_False split: option.splits prod.splits bool.splits if_splits)
  qed
  then show "heap_start host m \<le> heap_start host m'" "mem_pages m \<le> mem_pages m'" by simp_all
qed

lemma serve_monotone:
  assumes "serve host r m = (p, m')" "heap_base host \<noteq> 0"
  shows "heap_start host m \<le> heap_start host m'" "mem_pages m \<le> mem_pages m'"
proof -
  have re: "heap_start host m \<le> heap_start host m' \<and> mem_pages m \<le> mem_pages m'"
    if "realloc host q l n m = (p, m')" for q l n
    using that alloc_monotone [OF _ assms(2)]
    by (auto simp: realloc_def Let_def split: prod.splits if_splits)
  have "heap_start host m \<le> heap_start host m' \<and> mem_pages m \<le> mem_pages m'"
    using assms re alloc_monotone [OF _ assms(2)]
    by (cases r) (auto simp: cabi_realloc_def split: option.splits if_splits)
  then show "heap_start host m \<le> heap_start host m'" "mem_pages m \<le> mem_pages m'" by simp_all
qed

lemma serve_all_monotone:
  assumes "heap_base host \<noteq> 0"
  shows "serve_all host rs m = (ps, m') \<Longrightarrow> heap_start host m \<le> heap_start host m' \<and> mem_pages m \<le> mem_pages m'"
proof (induction rs arbitrary: m ps)
  case (Cons r rs)
  obtain p m1 where "serve host r m = (p, m1)" by force
  moreover obtain ps' where "serve_all host rs m1 = (ps', m')"
    using Cons.prems calculation by (auto split: prod.splits)
  ultimately show ?case using Cons.IH serve_monotone [OF _ assms] by (meson order_trans)
qed simp

lemma normalize_align_ge: "normalize_align a = Some b \<Longrightarrow> unat a \<le> unat b"
proof -
  assume b: "normalize_align a = Some b"
  have "unat a \<le> unat (max a 1)" by (simp add: max_def word_le_nat_alt)
  moreover have "unat (max a 1) \<le> unat b"
    using b by (auto simp: normalize_align_def checked_next_power_of_two_def find_Some_iff unat_exp Let_def split: if_splits)
  ultimately show ?thesis by simp
qed

section \<open>Blocks\<close>

definition handed_out :: "request list \<Rightarrow> usize list \<Rightarrow> (request \<times> usize) list" where
  "handed_out rs ps = filter (\<lambda>(r, p). p \<noteq> 0 \<and> wanted_size r \<noteq> 0) (zip rs ps)"

definition block_end :: "request \<times> usize \<Rightarrow> nat" where
  "block_end b = unat (snd b) + unat (wanted_size (fst b))"

definition good_block :: "nat \<Rightarrow> wasm_memory \<Rightarrow> request \<times> usize \<Rightarrow> bool" where
  "good_block start m b \<longleftrightarrow>
     start \<le> unat (snd b) \<and> block_end b \<le> mem_pages m * WASM_PAGE_SIZE \<and>
     (\<exists>k<32. unat (wanted_align (fst b)) \<le> 2 ^ k \<and> 2 ^ k dvd unat (snd b))"

lemma served_block:
  assumes "serve host r m = (p, m')" "p \<noteq> 0" "wanted_size r \<noteq> 0"
  shows "good_block (heap_start host m) m' (r, p)" "block_end (r, p) = heap_start host m'"
proof -
  obtain l m1 where l: "alloc host l m = (p, m1)" "layout_size l = wanted_size r"
    "normalize_align (layout_align l) = normalize_align (wanted_align r)"
    and m': "heap_next m' = heap_next m1" "mem_pages m' = mem_pages m1"
    using serve_alloc [OF assms] by fastforce
  note block = alloc_block [OF l(1)]
  have size: "layout_size l \<noteq> 0" using l(2) assms(3) by simp
  obtain k where "k < 32" "normalize_align (wanted_align r) = Some (2 ^ k)" "2 ^ k dvd unat p"
    using block(3) [OF size assms(2)] l(3) by auto
  then have "\<exists>k<32. unat (wanted_align r) \<le> 2 ^ k \<and> 2 ^ k dvd unat p"
    using normalize_align_ge unat_exp by metis
  then show "good_block (heap_start host m) m' (r, p)"
    using block(1,4) [OF size assms(2)] l(2) m' by (simp add: good_block_def block_end_def)
  have "heap_next m1 \<noteq> 0"
    using block(2) [OF size assms(2)] assms(2) by (metis add_is_0 unat_eq_zero)
  then show "block_end (r, p) = heap_start host m'"
    using block(2) [OF size assms(2)] l(2) m' by (simp add: block_end_def heap_start_def)
qed

text \<open>
  C28: the allocator never hands out memory twice.  Whatever sequence of allocations and reallocations a
  guest and its host make, the blocks of the successful ones lie one after the other, so no two of
  them overlap; each starts in the heap at a multiple of the alignment asked for, and ends inside the
  linear memory the guest has by then.  No address computation wraps around.
\<close>

theorem guest_blocks_disjoint:
  assumes "heap_base host \<noteq> 0" "serve_all host rs m = (ps, m')"
  shows "sorted_wrt (\<lambda>b c. block_end b \<le> unat (snd c)) (handed_out rs ps) \<and>
    list_all (good_block (heap_start host m) m') (handed_out rs ps)"
  using assms(2)
proof (induction rs arbitrary: m ps)
  case (Cons r rs)
  obtain p m1 where p: "serve host r m = (p, m1)" by force
  obtain ps' where ps: "serve_all host rs m1 = (ps', m')" "ps = p # ps'"
    using Cons.prems p by (auto split: prod.splits)
  note mono = serve_monotone [OF p assms(1)] and later = serve_all_monotone [OF assms(1) ps(1)]
  have weaken: "good_block s' x b \<Longrightarrow> s \<le> s' \<Longrightarrow> mem_pages x \<le> mem_pages y \<Longrightarrow> good_block s y b" for s s' x y b
    by (auto simp: good_block_def intro: order_trans mult_le_mono1)
  have IH: "sorted_wrt (\<lambda>b c. block_end b \<le> unat (snd c)) (handed_out rs ps')"
    "list_all (good_block (heap_start host m1) m') (handed_out rs ps')"
    using Cons.IH [OF ps(1)] by auto
  have rest: "list_all (good_block (heap_start host m) m') (handed_out rs ps')"
    using IH(2) weaken mono by (auto simp: list_all_iff)
  show ?case
  proof (cases "p \<noteq> 0 \<and> wanted_size r \<noteq> 0")
    case True
    note block = served_block [OF p]
    have "block_end (r, p) \<le> unat (snd c)" if "c \<in> set (handed_out rs ps')" for c
      using that IH(2) block(2) True by (auto simp: list_all_iff good_block_def)
    moreover have "good_block (heap_start host m) m' (r, p)" using weaken [OF block(1)] True later by auto
    ultimately show ?thesis using IH(1) rest True ps(2) by (simp add: handed_out_def)
  next
    case False
    then show ?thesis using IH(1) rest ps(2) by (auto simp: handed_out_def)
  qed
qed (simp add: handed_out_def)

text \<open>A host with one page of memory and no more, a heap from 1024 on, and three requests.\<close>

definition small_host :: wasm_host where
  "small_host = \<lparr>heap_base = 1024, memory_grow = (\<lambda>_ _. False)\<rparr>"

definition small_memory :: wasm_memory where
  "small_memory = \<lparr>heap_next = 0, mem_pages = 1, mem_bytes = (\<lambda>a. ucast a)\<rparr>"

definition small_requests :: "request list" where
  "small_requests =
     [Allocate \<lparr>layout_size = 3, layout_align = 1\<rparr>, CabiRealloc 1024 3 8 5, Allocate \<lparr>layout_size = 65536, layout_align = 4\<rparr>]"

lemma small_aligns: "normalize_align 1 = Some 1" "normalize_align 4 = Some 4" "normalize_align 8 = Some 8"
  using normalize_align_exp [of 0] normalize_align_exp [of 2] normalize_align_exp [of 3] by simp_all

lemmas small_eval = small_host_def small_memory_def small_requests_def alloc_def realloc_def cabi_realloc_def small_aligns
  align_up_def checked_sub_def checked_add_def grow_memory_to_def copy_bytes_def WASM_PAGE_SIZE_def Let_def

lemma small_run: "fst (serve_all small_host small_requests small_memory) = [1024, 1032, 0]"
  by (simp add: small_eval)

theorem guest_blocks_disjoint_witness:
  "let (ps, m) = serve_all small_host small_requests small_memory
   in ps = [1024, 1032, 0] \<and> map snd (handed_out small_requests ps) = [1024, 1032] \<and>
      sorted_wrt (\<lambda>b c. block_end b \<le> unat (snd c)) (handed_out small_requests ps) \<and>
      list_all (good_block 1024 m) (handed_out small_requests ps)"
proof -
  obtain ps m where run: "serve_all small_host small_requests small_memory = (ps, m)" by force
  then have ps: "ps = [1024, 1032, 0]" using small_run by simp
  have "heap_base small_host \<noteq> 0" "heap_start small_host small_memory = 1024"
    by (simp_all add: small_host_def small_memory_def heap_start_def)
  with guest_blocks_disjoint [OF _ run] have
    "sorted_wrt (\<lambda>b c. block_end b \<le> unat (snd c)) (handed_out small_requests ps)"
    "list_all (good_block 1024 m) (handed_out small_requests ps)"
    by simp_all
  moreover have "map snd (handed_out small_requests ps) = [1024, 1032]"
    by (simp add: ps handed_out_def small_requests_def)
  ultimately show ?thesis unfolding run by (simp add: ps)
qed

section \<open>Contents\<close>

lemma copy_bytes_outside:
  assumes "n \<le> unat len" "unat dst + unat len < 2 ^ 32" "\<not> (unat dst \<le> unat a \<and> unat a < unat dst + unat len)"
  shows "mem_bytes (copy_bytes src dst n m) a = mem_bytes m a"
proof -
  have "\<not> unat (a - dst) < n"
  proof
    assume small: "unat (a - dst) < n"
    have "unat a = unat (dst + (a - dst))" by simp
    also have "\<dots> = unat dst + unat (a - dst)"
      using small assms(1,2) by (subst unat_word_ariths) simp
    finally show False using small assms(1,3) by simp
  qed
  then show ?thesis by (simp add: copy_bytes_def)
qed

lemma copy_bytes_inside:
  assumes "i < n" "n < 2 ^ 32"
  shows "mem_bytes (copy_bytes src dst n m) (dst + of_nat i) = mem_bytes m (src + of_nat i)"
proof -
  have "unat (of_nat i :: usize) = i" using assms by (simp add: unat_of_nat)
  then show ?thesis using assms(1) by (simp add: copy_bytes_def)
qed

text \<open>
  \<open>cabi_realloc\<close> moves a block.  When the old block lies in the part of the heap already handed out
  and the call succeeds, the new block begins after the old one, so the copy does not overlap; the
  bytes both have in common are those of the old block, and no byte outside the new block changes.
\<close>

theorem cabi_realloc_moves_contents:
  assumes "cabi_realloc host old old_len align new_len m = (p, m')" "p \<noteq> 0" "new_len \<noteq> 0" "old_len \<noteq> 0"
    and "unat old + unat old_len \<le> heap_start host m"
  shows "unat old + unat old_len \<le> unat p \<and>
    (\<forall>i < min (unat old_len) (unat new_len). mem_bytes m' (p + of_nat i) = mem_bytes m (old + of_nat i)) \<and>
    (\<forall>a. \<not> (unat p \<le> unat a \<and> unat a < unat p + unat new_len) \<longrightarrow> mem_bytes m' a = mem_bytes m a)"
proof -
  obtain al where al: "normalize_align align = Some al"
    using assms(1,2) by (cases "normalize_align align") (auto simp: cabi_realloc_def)
  obtain m1 where m1: "alloc host \<lparr>layout_size = new_len, layout_align = al\<rparr> m = (p, m1)"
    "m' = copy_bytes old p (unat (min old_len new_len)) m1"
    using assms(1-4) al by (auto simp: cabi_realloc_def realloc_def Let_def split: prod.splits if_splits)
  note block = alloc_block [OF m1(1), simplified, OF assms(3,2)]
  have n: "unat (min old_len new_len) = min (unat old_len) (unat new_len)"
    by (simp add: min_def word_le_nat_alt)
  have fits: "unat p + unat new_len < 2 ^ 32" using block(2) unat_bound [of "heap_next m1"] by simp
  have "mem_bytes m' (p + of_nat i) = mem_bytes m (old + of_nat i)" if "i < min (unat old_len) (unat new_len)" for i
    using copy_bytes_inside [of i "min (unat old_len) (unat new_len)" old p m1] that unat_bound [of old_len] block(6)
    by (simp add: m1(2) n)
  moreover have "mem_bytes m' a = mem_bytes m a" if "\<not> (unat p \<le> unat a \<and> unat a < unat p + unat new_len)" for a
    using copy_bytes_outside [OF _ fits that] block(6) by (simp add: m1(2) n)
  ultimately show ?thesis using assms(5) block(1) by auto
qed

theorem cabi_realloc_moves_contents_witness:
  "let (q, m) = alloc small_host \<lparr>layout_size = 3, layout_align = 1\<rparr> small_memory;
       (p, m') = cabi_realloc small_host q 3 8 5 m
   in p = 1032 \<and> mem_bytes m' (p + of_nat 2) = mem_bytes m (q + of_nat 2) \<and> mem_bytes m' 1031 = mem_bytes m 1031"
proof -
  let ?l = "\<lparr>layout_size = 3, layout_align = 1\<rparr>"
  obtain q m where q: "alloc small_host ?l small_memory = (q, m)" by force
  obtain p m' where p: "cabi_realloc small_host q 3 8 5 m = (p, m')" by force
  have "fst (alloc small_host ?l small_memory) = 1024" "heap_next (snd (alloc small_host ?l small_memory)) = 1027"
    "fst (cabi_realloc small_host 1024 3 8 5 (snd (alloc small_host ?l small_memory))) = 1032"
    by (simp_all add: small_eval)
  then have at: "q = 1024" "heap_next m = 1027" "p = 1032" using q p by simp_all
  have "unat q + unat (3 :: usize) \<le> heap_start small_host m" by (simp add: at heap_start_def)
  from cabi_realloc_moves_contents [OF p _ _ _ this] have
    "\<forall>i < min (unat (3 :: usize)) (unat (5 :: usize)). mem_bytes m' (p + of_nat i) = mem_bytes m (q + of_nat i)"
    "\<forall>a. \<not> (unat p \<le> unat a \<and> unat a < unat p + unat (5 :: usize)) \<longrightarrow> mem_bytes m' a = mem_bytes m a"
    by (simp_all add: at)
  from this(1) [rule_format, of 2] this(2) [rule_format, of 1031] show ?thesis
    using p unfolding q by (simp add: at)
qed

section \<open>Comparison\<close>

text \<open>\<open>memcmp\<close> is the difference of the first bytes that differ.\<close>

lemma memcmp_loop_zero:
  "memcmp_loop bytes a b i k = 0 \<longleftrightarrow> (\<forall>j<k. bytes (a + of_nat (i + j)) = bytes (b + of_nat (i + j)))"
proof (induction k arbitrary: i)
  case (Suc k)
  show ?case by (simp add: All_less_Suc2 Let_def Suc.IH word_uint_eq_iff [symmetric] add.left_commute)
qed simp

lemma memcmp_equal_iff: "memcmp m a b n = 0 \<longleftrightarrow> (\<forall>i<unat n. mem_bytes m (a + of_nat i) = mem_bytes m (b + of_nat i))"
  by (simp add: memcmp_def memcmp_loop_zero)

end
