(* ===== verification/WitTypes.thy ===== *)
theory WitTypes
  imports WasmRules WasmBatchProps
begin

text \<open>
  The types of the two guest interfaces (\<open>wit/pureflow-batch.wit\<close>, \<open>wit/pureflow-rules.wit\<close>) and the type
  discipline of the boundary.  The Component Model checks the arguments of a call against the types of the
  function and gives back a result of the declared type.  The values the host builds have the types of the
  interfaces, and a result of the declared type is decoded: the branches of the decoders for malformed values
  are dead, only the checks that the types cannot express remain.
\<close>

section \<open>Types of the Component Model\<close>

datatype wit_type =
  TBool
| TU8
| TU32
| TS64
| TFloat64
| TString
| TList wit_type
| TRecord "(string \<times> wit_type) list"
| TVariant "(string \<times> wit_type option) list"
| TEnum "string list"
| TOption wit_type
| TResult wit_type wit_type

fun has_type :: "val \<Rightarrow> wit_type \<Rightarrow> bool"
  and all_have_type :: "val list \<Rightarrow> wit_type \<Rightarrow> bool"
  and have_types :: "(string \<times> val) list \<Rightarrow> (string \<times> wit_type) list \<Rightarrow> bool"
  and has_case :: "val option \<Rightarrow> wit_type option \<Rightarrow> bool" where
  "has_type (VBool b) t \<longleftrightarrow> t = TBool"
| "has_type (VU8 n) t \<longleftrightarrow> t = TU8 \<and> n < 2 ^ 8"
| "has_type (VU32 n) t \<longleftrightarrow> t = TU32 \<and> n < 2 ^ 32"
| "has_type (VS64 i) t \<longleftrightarrow> t = TS64 \<and> - (2 ^ 63) \<le> i \<and> i < 2 ^ 63"
| "has_type (VFloat64 x) t \<longleftrightarrow> t = TFloat64"
| "has_type (VString s) t \<longleftrightarrow> t = TString"
| "has_type (VList vs) t \<longleftrightarrow> (case t of TList u \<Rightarrow> all_have_type vs u | _ \<Rightarrow> False)"
| "has_type (VRecord fs) t \<longleftrightarrow> (case t of TRecord ts \<Rightarrow> have_types fs ts | _ \<Rightarrow> False)"
| "has_type (VVariant name p) t \<longleftrightarrow>
     (case t of TVariant cs \<Rightarrow> (case map_of cs name of None \<Rightarrow> False | Some u \<Rightarrow> has_case p u) | _ \<Rightarrow> False)"
| "has_type (VEnum name) t \<longleftrightarrow> (case t of TEnum names \<Rightarrow> name \<in> set names | _ \<Rightarrow> False)"
| "has_type (VOption p) t \<longleftrightarrow> (case t of TOption u \<Rightarrow> p = None \<or> has_case p (Some u) | _ \<Rightarrow> False)"
| "has_type (VOk p) t \<longleftrightarrow> (case t of TResult u e \<Rightarrow> has_case p (Some u) | _ \<Rightarrow> False)"
| "has_type (VErr p) t \<longleftrightarrow> (case t of TResult u e \<Rightarrow> has_case p (Some e) | _ \<Rightarrow> False)"
| "all_have_type [] t \<longleftrightarrow> True"
| "all_have_type (v # vs) t \<longleftrightarrow> has_type v t \<and> all_have_type vs t"
| "have_types [] ts \<longleftrightarrow> ts = []"
| "have_types ((n, v) # fs) ts \<longleftrightarrow> (case ts of [] \<Rightarrow> False | (m, t) # us \<Rightarrow> n = m \<and> has_type v t \<and> have_types fs us)"
| "has_case None t \<longleftrightarrow> t = None"
| "has_case (Some v) t \<longleftrightarrow> (case t of None \<Rightarrow> False | Some u \<Rightarrow> has_type v u)"

section \<open>The batch interface\<close>

definition endpoint_type :: wit_type where
  "endpoint_type = TRecord [(''node-id'', TString), (''port-id'', TString)]"

definition route_type :: wit_type where
  "route_type = TRecord [(''source'', TOption endpoint_type), (''target'', endpoint_type)]"

definition execution_type :: wit_type where
  "execution_type = TRecord [(''execution-id'', TString), (''attempt'', TU32)]"

definition message_metadata_type :: wit_type where
  "message_metadata_type =
     TRecord [(''message-id'', TString), (''workflow-id'', TString), (''execution'', execution_type), (''route'', route_type)]"

definition payload_type :: wit_type where
  "payload_type = TVariant [(''bytes'', Some (TList TU8)), (''control'', Some TString)]"

definition packet_type :: wit_type where
  "packet_type = TRecord [(''metadata'', message_metadata_type), (''payload'', payload_type)]"

definition port_batch_type :: wit_type where
  "port_batch_type = TRecord [(''port-id'', TString), (''packets'', TList packet_type)]"

definition batch_error_type :: wit_type where
  "batch_error_type = TVariant [(''guest-failure'', Some TString), (''unsupported-payload'', Some TString)]"

definition invoke_result_type :: wit_type where
  "invoke_result_type = TResult (TList port_batch_type) batch_error_type"

section \<open>The rule interface\<close>

definition scalar_value_type :: wit_type where
  "scalar_value_type =
     TVariant [(''text'', Some TString), (''integer'', Some TS64), (''float-value'', Some TFloat64),
       (''boolean'', Some TBool), (''null-value'', None)]"

definition scalar_entry_type :: wit_type where
  "scalar_entry_type = TRecord [(''key'', TString), (''value'', scalar_value_type)]"

definition field_predicate_type :: wit_type where
  "field_predicate_type = TRecord [(''path'', TString), (''value'', scalar_value_type)]"

definition field_in_predicate_type :: wit_type where
  "field_in_predicate_type = TRecord [(''path'', TString), (''values'', TList scalar_value_type)]"

definition field_match_predicate_type :: wit_type where
  "field_match_predicate_type = TRecord [(''path'', TString), (''pattern'', TString)]"

definition condition_node_type :: wit_type where
  "condition_node_type =
     TVariant
       [(''field-eq'', Some field_predicate_type), (''field-neq'', Some field_predicate_type),
        (''field-gt'', Some field_predicate_type), (''field-lt'', Some field_predicate_type),
        (''field-gte'', Some field_predicate_type), (''field-lte'', Some field_predicate_type),
        (''field-in'', Some field_in_predicate_type), (''field-exists'', Some TString), (''field-absent'', Some TString),
        (''field-matches'', Some field_match_predicate_type),
        (''tag-eq'', Some scalar_entry_type), (''tag-exists'', Some TString), (''tag-absent'', Some TString),
        (''source-node'', Some TString), (''arrived-on-port'', Some TString),
        (''hop-count-gt'', Some TU32), (''hop-count-lte'', Some TU32),
        (''workflow-is'', Some TString), (''execution-metadata-eq'', Some scalar_entry_type),
        (''and-node'', Some (TList TU32)), (''or-node'', Some (TList TU32)), (''not-node'', Some TU32),
        (''always'', None), (''never'', None)]"

definition condition_tree_type :: wit_type where
  "condition_tree_type = TRecord [(''nodes'', TList condition_node_type), (''root'', TU32)]"

definition rule_action_type :: wit_type where
  "rule_action_type =
     TVariant [(''route'', Some TString), (''drop'', None), (''dead-letter'', Some TString),
       (''tag'', Some scalar_entry_type), (''halt'', Some TString)]"

definition evaluation_strategy_type :: wit_type where
  "evaluation_strategy_type = TEnum [''first-match'', ''all-matches'', ''score'']"

definition rule_type :: wit_type where
  "rule_type =
     TRecord [(''id'', TString), (''condition'', condition_tree_type), (''action'', rule_action_type),
       (''priority'', TU32), (''description'', TString)]"

definition rule_set_type :: wit_type where
  "rule_set_type =
     TRecord [(''id'', TString), (''strategy'', evaluation_strategy_type), (''rules'', TList rule_type),
       (''default-action'', rule_action_type), (''trace-conditions'', TBool)]"

definition packet_payload_type :: wit_type where
  "packet_payload_type = TVariant [(''bytes'', Some (TList TU8)), (''control'', Some TString)]"

definition eval_context_type :: wit_type where
  "eval_context_type =
     TRecord [(''payload'', packet_payload_type), (''tags'', TList scalar_entry_type), (''source-node'', TOption TString),
       (''arrival-port'', TOption TString), (''hop-count'', TU32), (''workflow-id'', TString),
       (''execution-metadata'', TList scalar_entry_type)]"

definition condition_surface_type :: wit_type where
  "condition_surface_type =
     TEnum [''payload'', ''tag'', ''provenance'', ''execution-context'', ''combinator'', ''constant'']"

definition condition_trace_type :: wit_type where
  "condition_trace_type = TRecord [(''rule-id'', TString), (''surface'', condition_surface_type), (''matched'', TBool)]"

definition rule_decision_type :: wit_type where
  "rule_decision_type =
     TRecord [(''action'', rule_action_type), (''matched-rule'', TOption TString), (''tags-applied'', TList scalar_entry_type),
       (''conditions-evaluated'', TList condition_trace_type)]"

definition rule_error_type :: wit_type where
  "rule_error_type = TVariant [(''malformed-rule-set'', Some TString), (''evaluation-failure'', Some TString)]"

definition evaluate_result_type :: wit_type where
  "evaluate_result_type = TResult rule_decision_type rule_error_type"

section \<open>Arguments are well-typed\<close>

text \<open>The ranges of the Rust types: an attempt is a \<open>NonZeroU32\<close>, an integer scalar an \<open>i64\<close>, a bound on hops and a priority \<open>u32\<close>.\<close>

definition attempt_in_range :: "message_metadata \<Rightarrow> bool" where
  "attempt_in_range m \<longleftrightarrow> attempt_get (attempt (message_execution m)) < 2 ^ 32"

definition batch_in_range :: "'n batch \<Rightarrow> bool" where
  "batch_in_range b \<longleftrightarrow>
     (\<forall>(p, xs) \<in> set (packets_by_port b). \<forall>x \<in> set xs. attempt_in_range (envelope_metadata x))"

fun scalar_in_range :: "scalar_value \<Rightarrow> bool" where
  "scalar_in_range (SInteger i) \<longleftrightarrow> - (2 ^ 63) \<le> i \<and> i < 2 ^ 63"
| "scalar_in_range _ \<longleftrightarrow> True"

fun condition_in_range :: "condition \<Rightarrow> bool" where
  "condition_in_range (FieldEq p v) \<longleftrightarrow> scalar_in_range v"
| "condition_in_range (FieldNeq p v) \<longleftrightarrow> scalar_in_range v"
| "condition_in_range (FieldGt p v) \<longleftrightarrow> scalar_in_range v"
| "condition_in_range (FieldLt p v) \<longleftrightarrow> scalar_in_range v"
| "condition_in_range (FieldGte p v) \<longleftrightarrow> scalar_in_range v"
| "condition_in_range (FieldLte p v) \<longleftrightarrow> scalar_in_range v"
| "condition_in_range (FieldIn p vs) \<longleftrightarrow> list_all scalar_in_range vs"
| "condition_in_range (TagEq k v) \<longleftrightarrow> scalar_in_range v"
| "condition_in_range (HopCountGt n) \<longleftrightarrow> n < 2 ^ 32"
| "condition_in_range (HopCountLte n) \<longleftrightarrow> n < 2 ^ 32"
| "condition_in_range (ExecutionMetadataEq k v) \<longleftrightarrow> scalar_in_range v"
| "condition_in_range (And cs) \<longleftrightarrow> list_all condition_in_range cs"
| "condition_in_range (Or cs) \<longleftrightarrow> list_all condition_in_range cs"
| "condition_in_range (Not c) \<longleftrightarrow> condition_in_range c"
| "condition_in_range _ \<longleftrightarrow> True"

fun action_in_range :: "rule_action \<Rightarrow> bool" where
  "action_in_range (Tag k v) \<longleftrightarrow> scalar_in_range v"
| "action_in_range _ \<longleftrightarrow> True"

definition rule_in_range :: "rule \<Rightarrow> bool" where
  "rule_in_range r \<longleftrightarrow>
     condition_in_range (rule_condition r) \<and> action_in_range (rule_action r) \<and> rule_priority r < 2 ^ 32"

definition rule_set_in_range :: "rule_set \<Rightarrow> bool" where
  "rule_set_in_range rs \<longleftrightarrow> list_all rule_in_range (rules rs) \<and> action_in_range (default_action rs)"

definition context_in_range :: "'n host_eval_context \<Rightarrow> bool" where
  "context_in_range c \<longleftrightarrow>
     list_all (\<lambda>(k, v). scalar_in_range v) (host_tags c) \<and> host_hop_count c < 2 ^ 32
     \<and> list_all (\<lambda>(k, v). scalar_in_range v) (host_execution_metadata c)"

lemma all_have_type_iff: "all_have_type vs t \<longleftrightarrow> (\<forall>v \<in> set vs. has_type v t)"
  by (induction vs) auto

lemma byte_values_typed: "has_type (VList (map (\<lambda>c. VU8 (of_char c)) b)) (TList TU8)"
  by (auto simp: all_have_type_iff nat_of_char_less_256)

lemmas batch_types = endpoint_type_def route_type_def execution_type_def message_metadata_type_def payload_type_def
  packet_type_def port_batch_type_def

lemma endpoint_typed: "has_type (endpoint_to_val e) endpoint_type"
  by (simp add: endpoint_to_val_def endpoint_type_def)

lemma metadata_typed: "attempt_in_range m \<Longrightarrow> has_type (metadata_to_val m) message_metadata_type"
  using endpoint_typed
  by (cases "route_source (message_route m)")
    (simp_all add: attempt_in_range_def metadata_to_val_def message_metadata_type_def execution_type_def route_to_val_def
      route_type_def)

lemma payload_typed: "has_type (payload_to_val p) payload_type"
  using byte_values_typed by (cases p) (simp_all add: payload_type_def bytes_to_list_val_def)

lemma batch_inputs_typed: "batch_in_range b \<Longrightarrow> has_type (batch_inputs_to_val jt b) (TList port_batch_type)"
  using metadata_typed payload_typed
  by (fastforce simp: batch_in_range_def batch_inputs_to_val_def to_wit_port_batches_def port_batch_to_val_def
      to_wit_packet_def packet_to_val_def all_have_type_iff port_batch_type_def packet_type_def)

lemma scalar_typed: "scalar_in_range v \<Longrightarrow> has_type (scalar_to_val v) scalar_value_type"
  by (cases v) (simp_all add: variant_def scalar_value_type_def)

lemma scalar_entry_typed: "scalar_in_range v \<Longrightarrow> has_type (scalar_entry_to_val k v) scalar_entry_type"
  by (simp add: scalar_entry_to_val_def scalar_entry_type_def scalar_typed)

lemma field_predicate_typed: "scalar_in_range v \<Longrightarrow> has_type (field_predicate p v) field_predicate_type"
  by (cases p) (simp add: field_predicate_type_def scalar_typed)

lemma scalars_typed: "list_all scalar_in_range vs \<Longrightarrow> all_have_type (map scalar_to_val vs) scalar_value_type"
  by (auto simp: all_have_type_iff list_all_iff scalar_typed)

lemma node_typed [simp]:
  "has_type (variant ''field-eq'' (Some v)) condition_node_type \<longleftrightarrow> has_type v field_predicate_type"
  "has_type (variant ''field-neq'' (Some v)) condition_node_type \<longleftrightarrow> has_type v field_predicate_type"
  "has_type (variant ''field-gt'' (Some v)) condition_node_type \<longleftrightarrow> has_type v field_predicate_type"
  "has_type (variant ''field-lt'' (Some v)) condition_node_type \<longleftrightarrow> has_type v field_predicate_type"
  "has_type (variant ''field-gte'' (Some v)) condition_node_type \<longleftrightarrow> has_type v field_predicate_type"
  "has_type (variant ''field-lte'' (Some v)) condition_node_type \<longleftrightarrow> has_type v field_predicate_type"
  "has_type (variant ''field-in'' (Some v)) condition_node_type \<longleftrightarrow> has_type v field_in_predicate_type"
  "has_type (variant ''field-exists'' (Some v)) condition_node_type \<longleftrightarrow> has_type v TString"
  "has_type (variant ''field-absent'' (Some v)) condition_node_type \<longleftrightarrow> has_type v TString"
  "has_type (variant ''field-matches'' (Some v)) condition_node_type \<longleftrightarrow> has_type v field_match_predicate_type"
  "has_type (variant ''tag-eq'' (Some v)) condition_node_type \<longleftrightarrow> has_type v scalar_entry_type"
  "has_type (variant ''tag-exists'' (Some v)) condition_node_type \<longleftrightarrow> has_type v TString"
  "has_type (variant ''tag-absent'' (Some v)) condition_node_type \<longleftrightarrow> has_type v TString"
  "has_type (variant ''source-node'' (Some v)) condition_node_type \<longleftrightarrow> has_type v TString"
  "has_type (variant ''arrived-on-port'' (Some v)) condition_node_type \<longleftrightarrow> has_type v TString"
  "has_type (variant ''hop-count-gt'' (Some v)) condition_node_type \<longleftrightarrow> has_type v TU32"
  "has_type (variant ''hop-count-lte'' (Some v)) condition_node_type \<longleftrightarrow> has_type v TU32"
  "has_type (variant ''workflow-is'' (Some v)) condition_node_type \<longleftrightarrow> has_type v TString"
  "has_type (variant ''execution-metadata-eq'' (Some v)) condition_node_type \<longleftrightarrow> has_type v scalar_entry_type"
  "has_type (variant ''and-node'' (Some v)) condition_node_type \<longleftrightarrow> has_type v (TList TU32)"
  "has_type (variant ''or-node'' (Some v)) condition_node_type \<longleftrightarrow> has_type v (TList TU32)"
  "has_type (variant ''not-node'' (Some v)) condition_node_type \<longleftrightarrow> has_type v TU32"
  "has_type (variant ''always'' None) condition_node_type"
  "has_type (variant ''never'' None) condition_node_type"
  by (simp_all add: variant_def condition_node_type_def)

definition typed_arena :: "nat \<times> val list \<Rightarrow> bool" where
  "typed_arena r \<longleftrightarrow> fst r < 2 ^ 32 \<and> all_have_type (snd r) condition_node_type"

definition typed_children :: "val list \<times> val list \<Rightarrow> bool" where
  "typed_children r \<longleftrightarrow> all_have_type (fst r) TU32 \<and> all_have_type (snd r) condition_node_type"

lemma push_val_typed:
  "has_type v condition_node_type \<Longrightarrow> all_have_type nodes condition_node_type \<Longrightarrow> typed_arena (push_val v nodes)"
  by (auto simp: typed_arena_def push_val_def all_have_type_iff)

lemma push_condition_typed:
  "condition_in_range c \<Longrightarrow> all_have_type nodes condition_node_type \<Longrightarrow> typed_arena (push_condition c nodes)"
  "list_all condition_in_range cs \<Longrightarrow> all_have_type nodes condition_node_type \<Longrightarrow> typed_children (push_conditions cs nodes)"
proof (induction c nodes and cs nodes rule: push_condition_push_conditions.induct)
  case (20 cs nodes)
  then show ?case
    by (cases "push_conditions cs nodes") (auto simp: typed_children_def intro!: push_val_typed)
next
  case (21 cs nodes)
  then show ?case
    by (cases "push_conditions cs nodes") (auto simp: typed_children_def intro!: push_val_typed)
next
  case (22 c nodes)
  then show ?case
    by (cases "push_condition c nodes") (auto simp: typed_arena_def [where r = "(_, _)"] intro!: push_val_typed)
next
  case (26 c cs nodes)
  then show ?case
    by (cases "push_condition c nodes"; cases "push_conditions cs (snd (push_condition c nodes))")
      (auto simp: typed_children_def typed_arena_def)
qed (auto simp: typed_children_def field_in_predicate_type_def field_match_predicate_type_def
    intro!: push_val_typed field_predicate_typed scalar_entry_typed scalars_typed)

lemma condition_tree_typed: "condition_in_range c \<Longrightarrow> has_type (condition_tree_to_val c) condition_tree_type"
  using push_condition_typed(1) [of c "[]"]
  by (auto simp: condition_tree_to_val_def condition_tree_type_def typed_arena_def split: prod.split)

lemma action_typed: "action_in_range a \<Longrightarrow> has_type (action_to_val a) rule_action_type"
  by (cases a) (simp_all add: variant_def rule_action_type_def scalar_entry_typed)

lemma strategy_typed: "has_type (strategy_to_val s) evaluation_strategy_type"
  by (cases s) (simp_all add: evaluation_strategy_type_def)

lemma rule_typed: "rule_in_range r \<Longrightarrow> has_type (rule_to_val r) rule_type"
  by (simp add: rule_in_range_def rule_to_val_def rule_type_def condition_tree_typed action_typed)

lemma rule_set_typed: "rule_set_in_range rs \<Longrightarrow> has_type (rule_set_to_val rs) rule_set_type"
  by (auto simp: rule_set_in_range_def rule_set_to_val_def rule_set_type_def list_all_iff all_have_type_iff
      rule_typed action_typed strategy_typed)

lemma entries_typed:
  "list_all (\<lambda>(k, v). scalar_in_range v) m \<Longrightarrow> all_have_type (scalar_entries_to_val m) scalar_entry_type"
  by (auto simp: list_all_iff all_have_type_iff scalar_entries_to_val_def scalar_entry_typed)

lemma packet_payload_typed: "has_type (packet_payload_to_val jt p) packet_payload_type"
  using byte_values_typed by (cases p) (simp_all add: variant_def packet_payload_type_def)

lemma context_typed: "context_in_range c \<Longrightarrow> has_type (eval_context_to_val jt c) eval_context_type"
  by (cases "host_source_node c"; cases "host_arrival_port c")
    (simp_all add: context_in_range_def eval_context_to_val_def eval_context_type_def entries_typed packet_payload_typed)

section \<open>Results of the declared type are decoded\<close>

text \<open>A decoder on a typed value succeeds, or fails with one of the errors in \<open>P\<close>.\<close>

definition refuses_only :: "('e \<Rightarrow> bool) \<Rightarrow> ('a, 'e) result \<Rightarrow> bool" where
  "refuses_only P r \<longleftrightarrow> (\<exists>x. r = Ok x) \<or> (\<exists>e. P e \<and> r = Err e)"

lemma refuses_only_simps [simp]: "refuses_only P (Ok x)" "refuses_only P (Err e) \<longleftrightarrow> P e"
  by (simp_all add: refuses_only_def)

lemma refuses_only_and_then [intro!]:
  "refuses_only P r \<Longrightarrow> (\<And>x. r = Ok x \<Longrightarrow> refuses_only P (f x)) \<Longrightarrow> refuses_only P (and_then r f)"
  by (auto simp: refuses_only_def)

lemma refuses_only_try_map [intro!]:
  "(\<And>x. x \<in> set xs \<Longrightarrow> refuses_only P (f x)) \<Longrightarrow> refuses_only P (try_map f xs)"
  by (induction xs) auto

lemma refuses_only_try_fold [intro!]:
  "(\<And>b x. x \<in> set xs \<Longrightarrow> refuses_only P (f b x)) \<Longrightarrow> refuses_only P (try_fold f b xs)"
  by (induction xs arbitrary: b) auto

text \<open>Inversion: the shape of a value is the shape of its type.\<close>

lemma has_typeE [simp]:
  "has_type v TBool \<longleftrightarrow> (\<exists>b. v = VBool b)"
  "has_type v TU8 \<longleftrightarrow> (\<exists>n. v = VU8 n \<and> n < 2 ^ 8)"
  "has_type v TU32 \<longleftrightarrow> (\<exists>n. v = VU32 n \<and> n < 2 ^ 32)"
  "has_type v TS64 \<longleftrightarrow> (\<exists>i. v = VS64 i \<and> - (2 ^ 63) \<le> i \<and> i < 2 ^ 63)"
  "has_type v TFloat64 \<longleftrightarrow> (\<exists>x. v = VFloat64 x)"
  "has_type v TString \<longleftrightarrow> (\<exists>s. v = VString s)"
  "has_type v (TList t) \<longleftrightarrow> (\<exists>vs. v = VList vs \<and> (\<forall>x \<in> set vs. has_type x t))"
  "has_type v (TRecord ts) \<longleftrightarrow> (\<exists>fs. v = VRecord fs \<and> have_types fs ts)"
  "has_type v (TVariant cs) \<longleftrightarrow> (\<exists>n p u. v = VVariant n p \<and> map_of cs n = Some u \<and> has_case p u)"
  "has_type v (TEnum ns) \<longleftrightarrow> (\<exists>n \<in> set ns. v = VEnum n)"
  "has_type v (TOption t) \<longleftrightarrow> v = VOption None \<or> (\<exists>w. v = VOption (Some w) \<and> has_type w t)"
  "has_type v (TResult t e) \<longleftrightarrow> (\<exists>w. v = VOk (Some w) \<and> has_type w t) \<or> (\<exists>w. v = VErr (Some w) \<and> has_type w e)"
  by (cases v; auto simp: all_have_type_iff split: option.splits elim: has_case.elims)+

lemma have_typesE [simp]:
  "have_types fs [] \<longleftrightarrow> fs = []"
  "have_types fs ((n, t) # ts) \<longleftrightarrow> (\<exists>v gs. fs = (n, v) # gs \<and> has_type v t \<and> have_types gs ts)"
  by (cases fs; auto)+

lemma has_caseE [simp]:
  "has_case p None \<longleftrightarrow> p = None"
  "has_case p (Some t) \<longleftrightarrow> (\<exists>v. p = Some v \<and> has_type v t)"
  by (cases p; simp)+

text \<open>What the types do not rule out.  Of a decision, the identifier of a port; of a batch also an attempt of zero and the text of a control payload.\<close>

fun identifier_fault :: "pureflow_error \<Rightarrow> bool" where
  "identifier_fault (Validation (IdentifierInvalid e)) \<longleftrightarrow> True"
| "identifier_fault _ \<longleftrightarrow> False"

definition batch_fault :: "pureflow_error \<Rightarrow> bool" where
  "batch_fault e \<longleftrightarrow>
     identifier_fault e \<or> e = Execution ''guest returned zero execution attempt''
     \<or> (\<exists>m. e = Execution (''guest returned invalid control payload: '' @ m))"

lemma scalar_decodes: "has_type v scalar_value_type \<Longrightarrow> refuses_only P (scalar_from_val v)"
  by (auto simp: scalar_value_type_def scalar_from_val_def as_variant_def as_string_def split: if_splits)

lemma checked_id_refuses: "r \<noteq> Panic \<Longrightarrow> refuses_only identifier_fault (checked_id r)"
  by (cases r) (simp_all add: checked_id_def)

lemmas checked_id_decodes =
  checked_id_refuses [OF node_ident.new_no_panic] checked_id_refuses [OF port_ident.new_no_panic]
  checked_id_refuses [OF message_ident.new_no_panic] checked_id_refuses [OF workflow_ident.new_no_panic]
  checked_id_refuses [OF execution_ident.new_no_panic]

lemmas typed_reads = required_field_def required_string_field_def required_u32_field_def required_list_field_def

lemma scalar_entry_decodes: "has_type v scalar_entry_type \<Longrightarrow> refuses_only P (scalar_entry_from_val v)"
  by (auto simp: scalar_entry_type_def scalar_entry_from_val_def typed_reads scalar_decodes)

lemma action_decodes: "has_type v rule_action_type \<Longrightarrow> refuses_only identifier_fault (action_from_val v)"
  by (auto simp: rule_action_type_def action_from_val_def as_variant_def as_string_def checked_id_decodes
      scalar_entry_decodes split: if_splits)

lemma surface_decodes: "has_type v condition_surface_type \<Longrightarrow> refuses_only P (surface_from_val v)"
  by (auto simp: condition_surface_type_def surface_from_val_def)

lemma trace_decodes: "has_type v condition_trace_type \<Longrightarrow> refuses_only P (condition_trace_from_val v)"
  by (auto simp: condition_trace_type_def condition_trace_from_val_def typed_reads surface_decodes)

lemma decision_decodes: "has_type v rule_decision_type \<Longrightarrow> refuses_only identifier_fault (decision_from_val v)"
  by (auto simp: rule_decision_type_def decision_from_val_def typed_reads action_decodes scalar_entry_decodes trace_decodes
      optional_string_def as_string_def)

lemma endpoint_decodes: "has_type v endpoint_type \<Longrightarrow> refuses_only identifier_fault (endpoint_from_val v)"
  by (auto simp: endpoint_type_def endpoint_from_val_def typed_reads checked_id_decodes)

lemma refuses_only_mono: "refuses_only P r \<Longrightarrow> (\<And>e. P e \<Longrightarrow> Q e) \<Longrightarrow> refuses_only Q r"
  by (auto simp: refuses_only_def)

lemma identifier_batch_fault: "refuses_only identifier_fault r \<Longrightarrow> refuses_only batch_fault r"
  by (erule refuses_only_mono) (simp add: batch_fault_def)

lemmas batch_id_decodes = checked_id_decodes [THEN identifier_batch_fault]

lemma route_decodes: "has_type v route_type \<Longrightarrow> refuses_only identifier_fault (route_from_val v)"
  by (auto simp: route_type_def route_from_val_def typed_reads endpoint_decodes)

lemma execution_decodes: "has_type v execution_type \<Longrightarrow> refuses_only batch_fault (execution_from_val v)"
  by (auto simp: execution_type_def execution_from_val_def typed_reads batch_id_decodes)
    (simp add: batch_fault_def)

lemma metadata_decodes: "has_type v message_metadata_type \<Longrightarrow> refuses_only batch_fault (metadata_from_val v)"
  by (auto simp: message_metadata_type_def metadata_from_val_def typed_reads execution_decodes
      batch_id_decodes route_decodes [THEN identifier_batch_fault])

lemma payload_decodes: "has_type v payload_type \<Longrightarrow> refuses_only P (payload_from_val v)"
  by (auto simp: payload_type_def payload_from_val_def bytes_from_val_def split: if_splits) fastforce

lemma packet_decodes: "has_type v packet_type \<Longrightarrow> refuses_only batch_fault (packet_from_val v)"
  by (auto simp: packet_type_def packet_from_val_def typed_reads metadata_decodes payload_decodes)

lemma port_batch_decodes: "has_type v port_batch_type \<Longrightarrow> refuses_only batch_fault (port_batch_from_val v)"
  by (auto simp: port_batch_type_def port_batch_from_val_def typed_reads packet_decodes)

lemma wit_packet_decodes:
  assumes "\<And>s. json_from_text jt s \<noteq> Panic"
  shows "refuses_only batch_fault (from_wit_packet jt p)"
  using assms
  by (cases "wit_payload p"; cases "json_from_text jt (case wit_payload p of WitControl s \<Rightarrow> s | _ \<Rightarrow> [])")
    (auto simp: from_wit_packet_def batch_fault_def)

lemma wit_port_batches_decode:
  assumes "\<And>s. json_from_text jt s \<noteq> Panic"
  shows "refuses_only batch_fault (from_wit_port_batches jt pbs)"
  using wit_packet_decodes [OF assms]
  by (auto simp: from_wit_port_batches_def push_wit_port_batch_def push_wit_packet_def batch_id_decodes)

lemma port_batches_decode:
  assumes "has_type v (TList port_batch_type)" and "\<And>s. json_from_text jt s \<noteq> Panic"
  shows "refuses_only batch_fault (and_then (port_batches_from_val v) (from_wit_port_batches jt))"
  using assms(1) wit_port_batches_decode [OF assms(2)]
  by (auto simp: port_batches_from_val_def port_batch_decodes)

text \<open>The error a guest reports itself.\<close>

definition guest_refusal :: "string \<Rightarrow> val \<Rightarrow> pureflow_error \<Rightarrow> bool" where
  "guest_refusal prefix v e \<longleftrightarrow>
     (\<exists>name m. v = VErr (Some (VVariant name (Some (VString m)))) \<and> e = Execution (prefix @ name @ '': '' @ m))"

lemma decision_result_decodes:
  assumes "has_type v evaluate_result_type"
  shows "refuses_only (\<lambda>e. identifier_fault e \<or> guest_refusal ''guest rule '' v e) (decision_from_result_val v)"
  using assms unfolding evaluate_result_type_def has_typeE(12)
proof (elim disjE exE conjE)
  fix w
  assume "v = VOk (Some w)" "has_type w rule_decision_type"
  then show ?thesis
    using refuses_only_mono [OF decision_decodes] by (simp add: decision_from_result_val_def)
next
  fix w
  assume "v = VErr (Some w)" "has_type w rule_error_type"
  then show ?thesis
    by (auto simp: decision_from_result_val_def rule_error_type_def rule_error_from_val_def guest_refusal_def split: if_splits)
qed

lemma batch_result_decodes:
  assumes "has_type v invoke_result_type" and j: "\<And>s. json_from_text jt s \<noteq> Panic"
  shows "refuses_only (\<lambda>e. batch_fault e \<or> guest_refusal ''guest returned '' v e) (batch_outputs_from_result_val jt v)"
  using assms(1) unfolding invoke_result_type_def has_typeE(12)
proof (elim disjE exE conjE)
  fix w
  assume "v = VOk (Some w)" "has_type w (TList port_batch_type)"
  then show ?thesis
    using refuses_only_mono [OF port_batches_decode [OF _ j]] by (simp add: batch_outputs_from_result_val_def)
next
  fix w
  assume "v = VErr (Some w)" "has_type w batch_error_type"
  then show ?thesis
    by (auto simp: batch_outputs_from_result_val_def batch_error_type_def batch_error_from_val_def guest_refusal_def
        split: if_splits)
qed

section \<open>Type safety of the boundary\<close>

text \<open>
  C37: the rule boundary is type-safe.  The arguments the host builds from values in the ranges of the Rust types have
  the types \<open>rule-set\<close> and \<open>eval-context\<close>, so the Component Model accepts the call.  A result of type
  \<open>result<rule-decision, rule-error>\<close> decodes to a decision unless it names an invalid port, and an error of the
  guest is reported with its own text.
\<close>

theorem rule_boundary_type_safe:
  assumes "rule_set_in_range rs" and "context_in_range c" and "has_type v evaluate_result_type"
  shows "has_type (rule_set_to_val rs) rule_set_type \<and> has_type (eval_context_to_val jt c) eval_context_type
    \<and> ((\<exists>d. decision_from_result_val v = Ok d)
       \<or> (\<exists>e. decision_from_result_val v = Err (Validation (IdentifierInvalid e)))
       \<or> (\<exists>name m. v = VErr (Some (VVariant name (Some (VString m))))
            \<and> decision_from_result_val v = Err (Execution (''guest rule '' @ name @ '': '' @ m))))"
  using rule_set_typed [OF assms(1)] context_typed [OF assms(2)] decision_result_decodes [OF assms(3)]
  by (auto simp: refuses_only_def guest_refusal_def elim!: identifier_fault.elims)

definition typed_rules :: rule_set where
  "typed_rules =
     \<lparr>rule_set_id = ''typed'', strategy = FirstMatch,
      rules = [\<lparr>rule_id = ''big'', rule_condition = And [FieldGt (FieldPath ''amount'') (SInteger 100), Not (HopCountGt 3)],
                rule_action = Route (PortId ''review''), rule_priority = 1, rule_description = []\<rparr>],
      default_action = Drop, trace_conditions = False\<rparr>"

definition refused_port :: val where
  "refused_port =
     VOk (Some (VRecord
       [(''action'', VVariant ''route'' (Some (VString []))), (''matched-rule'', VOption None),
        (''tags-applied'', VList []), (''conditions-evaluated'', VList [])]))"

text \<open>The second value has the declared type and is refused, for the empty name of its port.\<close>

theorem rule_boundary_type_safe_witness:
  "has_type (rule_set_to_val typed_rules) rule_set_type
   \<and> has_type (eval_context_to_val null_text default_host_context) eval_context_type
   \<and> (\<exists>e. decision_from_result_val refused_port = Err (Validation (IdentifierInvalid e)))"
proof -
  have "rule_set_in_range typed_rules" "context_in_range default_host_context"
    by (simp_all add: rule_set_in_range_def typed_rules_def rule_in_range_def context_in_range_def default_host_context_def)
  moreover have "has_type refused_port evaluate_result_type"
    by (simp add: refused_port_def evaluate_result_type_def rule_decision_type_def rule_action_type_def)
  moreover have "\<nexists>d. decision_from_result_val refused_port = Ok d"
    by (simp add: refused_port_def decision_from_result_val_def decision_from_val_def typed_reads action_from_val_def
        as_variant_def as_string_def checked_id_def port_ident.new_eq validate_identifier_def trim_chars_def)
  ultimately show ?thesis
    using rule_boundary_type_safe [of typed_rules default_host_context refused_port null_text]
    by (auto simp: refused_port_def)
qed

text \<open>
  the batch boundary is type-safe.  The inputs of an invocation have the type \<open>list<port-batch>\<close>.  A result of type
  \<open>result<list<port-batch>, batch-error>\<close> decodes to a batch unless an identifier is invalid, an attempt is zero or a
  control payload is not JSON, and an error of the guest is reported with its own text.
\<close>

theorem batch_boundary_type_safe:
  assumes "batch_in_range b" and "\<And>s. json_from_text jt s \<noteq> Panic" and "has_type v invoke_result_type"
  shows "has_type (batch_inputs_to_val jt b) (TList port_batch_type)
    \<and> ((\<exists>r. batch_outputs_from_result_val jt v = Ok r)
       \<or> (\<exists>e. batch_outputs_from_result_val jt v = Err (Validation (IdentifierInvalid e)))
       \<or> batch_outputs_from_result_val jt v = Err (Execution ''guest returned zero execution attempt'')
       \<or> (\<exists>m. batch_outputs_from_result_val jt v = Err (Execution (''guest returned invalid control payload: '' @ m)))
       \<or> (\<exists>name m. v = VErr (Some (VVariant name (Some (VString m))))
            \<and> batch_outputs_from_result_val jt v = Err (Execution (''guest returned '' @ name @ '': '' @ m))))"
  using batch_inputs_typed [OF assms(1)] batch_result_decodes [OF assms(3,2)]
  by (auto simp: refuses_only_def guest_refusal_def batch_fault_def elim!: identifier_fault.elims simp del: has_typeE)

theorem batch_boundary_type_safe_witness:
  "has_type (batch_inputs_to_val null_text echo_batch) (TList port_batch_type)
   \<and> batch_outputs_from_result_val null_text (VErr (Some (VVariant ''guest-failure'' (Some (VString ''no''))))) =
     Err (Execution ''guest returned guest-failure: no'')"
proof -
  have "batch_in_range echo_batch"
    by (simp add: batch_in_range_def echo_batch_def batch_push_def new_batch_def batch_packets_def echo_packet_def
        echo_metadata_def attempt_in_range_def)
  moreover have "json_from_text null_text s \<noteq> Panic" for s by (simp add: null_text_def)
  moreover have "has_type (VErr (Some (VVariant ''guest-failure'' (Some (VString ''no''))))) invoke_result_type"
    by (simp add: invoke_result_type_def batch_error_type_def)
  ultimately show ?thesis
    using batch_boundary_type_safe
      [of echo_batch null_text "VErr (Some (VVariant ''guest-failure'' (Some (VString ''no''))))"]
    by (simp add: batch_outputs_from_result_val_def batch_error_from_val_def)
qed

end
