(* ===== verification/UppercaseGuest.thy ===== *)
theory UppercaseGuest
  imports WasmBatchProps
begin

text \<open>
  The sample batch guest, \<open>fixtures/uppercase-guest/src/lib.rs\<close>: it upper-cases the bytes of every packet and
  returns all of them on the port \<open>out\<close>.  Its allocator is, word for word, the one of the rule guest.  The last section
  joins it to the host: an invocation of the compiled guest upper-cases a batch.
\<close>

section \<open>The guest\<close>

datatype batch_error = GuestFailure string | UnsupportedPayload string

definition to_ascii_uppercase :: "char \<Rightarrow> char" where
  "to_ascii_uppercase c =
     (if 97 \<le> (of_char c :: nat) \<and> (of_char c :: nat) \<le> 122 then char_of ((of_char c :: nat) - 32) else c)"

fun uppercase_ascii :: "char list \<Rightarrow> char list" where
  "uppercase_ascii [] = []"
| "uppercase_ascii (b # bytes) = to_ascii_uppercase b # uppercase_ascii bytes"

text \<open>The two loops push onto \<open>packets\<close> and return at the first payload that is not bytes.\<close>

fun uppercase_packets :: "wit_packet list \<Rightarrow> wit_packet list \<Rightarrow> (wit_packet list, batch_error) result" where
  "uppercase_packets packets [] = Ok packets"
| "uppercase_packets packets (p # ps) =
     (case wit_payload p of
        WitBytes bytes \<Rightarrow> uppercase_packets (packets @ [p\<lparr>wit_payload := WitBytes (uppercase_ascii bytes)\<rparr>]) ps
      | WitControl _ \<Rightarrow> Err (UnsupportedPayload ''uppercase guest accepts only bytes payloads''))"

fun uppercase_inputs :: "wit_packet list \<Rightarrow> wit_port_batch list \<Rightarrow> (wit_packet list, batch_error) result" where
  "uppercase_inputs packets [] = Ok packets"
| "uppercase_inputs packets (i # inputs) =
     and_then (uppercase_packets packets (wit_packets i)) (\<lambda>packets1. uppercase_inputs packets1 inputs)"

definition uppercase_invoke :: "wit_port_batch list \<Rightarrow> (wit_port_batch list, batch_error) result" where
  "uppercase_invoke inputs =
     and_then (uppercase_inputs [] inputs) (\<lambda>packets. Ok [\<lparr>wit_port_id = ''out'', wit_packets = packets\<rparr>])"

text \<open>The Component Model value of what \<open>invoke\<close> returns.\<close>

fun batch_error_val :: "batch_error \<Rightarrow> val" where
  "batch_error_val (GuestFailure m) = VVariant ''guest-failure'' (Some (VString m))"
| "batch_error_val (UnsupportedPayload m) = VVariant ''unsupported-payload'' (Some (VString m))"

fun invoke_result_val :: "(wit_port_batch list, batch_error) result \<Rightarrow> val option" where
  "invoke_result_val (Ok pbs) = Some (VOk (Some (VList (map port_batch_to_val pbs))))"
| "invoke_result_val (Err e) = Some (VErr (Some (batch_error_val e)))"
| "invoke_result_val Panic = None"

section \<open>What it computes\<close>

lemma uppercase_ascii_map: "uppercase_ascii b = map to_ascii_uppercase b"
  by (induction b) simp_all

definition uppercase_wit :: "wit_packet \<Rightarrow> wit_packet" where
  "uppercase_wit p =
     (case wit_payload p of WitBytes b \<Rightarrow> p\<lparr>wit_payload := WitBytes (map to_ascii_uppercase b)\<rparr> | WitControl _ \<Rightarrow> p)"

fun has_bytes :: "wit_packet \<Rightarrow> bool" where
  "has_bytes p \<longleftrightarrow> (case wit_payload p of WitBytes _ \<Rightarrow> True | WitControl _ \<Rightarrow> False)"

abbreviation only_bytes_accepted :: batch_error where
  "only_bytes_accepted \<equiv> UnsupportedPayload ''uppercase guest accepts only bytes payloads''"

lemma uppercase_packets_eq:
  "uppercase_packets acc ps = (if list_all has_bytes ps then Ok (acc @ map uppercase_wit ps) else Err only_bytes_accepted)"
  by (induction ps arbitrary: acc) (auto simp: uppercase_wit_def uppercase_ascii_map split: wit_payload.split)

lemma uppercase_inputs_eq:
  "uppercase_inputs acc pbs =
     (let ps = concat (map wit_packets pbs)
      in if list_all has_bytes ps then Ok (acc @ map uppercase_wit ps) else Err only_bytes_accepted)"
  by (induction pbs arbitrary: acc) (auto simp: uppercase_packets_eq Let_def simp del: has_bytes.simps)

section \<open>Invocation by the host\<close>

definition runs_uppercase ::
  "'c wasmtime \<Rightarrow> 'c batch_component \<Rightarrow> wit_port_batch list \<Rightarrow> bool" where
  "runs_uppercase wt bc pbs \<longleftrightarrow>
     (\<forall>v. invoke_result_val (uppercase_invoke pbs) = Some v \<longrightarrow>
        call_result (func_call wt (guest_component bc) [BATCH_EXPORT, ''invoke''] (limit_fuel (guest_limits bc))
          (cancellation_epoch_deadline (guest_limits bc)) False [VList (map port_batch_to_val pbs)]) = Ok v)"

definition all_packets :: "'n batch \<Rightarrow> 'n port_packet list" where
  "all_packets b = concat (map snd (packets_by_port b))"

fun uppercase_packet :: "'n port_packet \<Rightarrow> 'n port_packet" where
  "uppercase_packet x =
     (case envelope_payload x of
        Bytes b \<Rightarrow> x\<lparr>envelope_payload := Bytes (map to_ascii_uppercase b)\<rparr> | ControlPayload _ \<Rightarrow> x)"

fun is_bytes :: "'n port_packet \<Rightarrow> bool" where
  "is_bytes x \<longleftrightarrow> (case envelope_payload x of Bytes _ \<Rightarrow> True | ControlPayload _ \<Rightarrow> False)"

definition uppercase_batch :: "'n batch \<Rightarrow> 'n batch" where
  "uppercase_batch b = foldl (\<lambda>c x. batch_push (PortId ''out'') x c) new_batch (map uppercase_packet (all_packets b))"

lemma wit_packets_of_batch: "concat (map wit_packets (to_wit_port_batches jt b)) = map (to_wit_packet jt) (all_packets b)"
  by (simp add: to_wit_port_batches_def all_packets_def map_concat comp_def case_prod_beta)

lemma to_wit_packet_simps [simp]:
  "has_bytes (to_wit_packet jt x) \<longleftrightarrow> is_bytes x"
  "is_bytes x \<Longrightarrow> uppercase_wit (to_wit_packet jt x) = to_wit_packet jt (uppercase_packet x)"
  by (cases "envelope_payload x"; simp add: to_wit_packet_def uppercase_wit_def)+

lemma uppercase_invoke_of:
  "uppercase_invoke (to_wit_port_batches jt b) =
     (if list_all is_bytes (all_packets b)
      then Ok [\<lparr>wit_port_id = ''out'', wit_packets = map (to_wit_packet jt) (map uppercase_packet (all_packets b))\<rparr>]
      else Err only_bytes_accepted)"
  by (auto simp: uppercase_invoke_def uppercase_inputs_eq wit_packets_of_batch Let_def list_all_iff
      simp del: has_bytes.simps is_bytes.simps uppercase_packet.simps)

lemma wire_uppercase: "wire_packet jt x \<Longrightarrow> wire_packet jt (uppercase_packet x)"
  by (cases "envelope_payload x") (simp_all add: wire_packet_def)

lemma wire_all_packets: "wire_batch jt b \<Longrightarrow> x \<in> set (all_packets b) \<Longrightarrow> wire_packet jt x"
  by (auto simp: wire_batch_def all_packets_def)

lemma decode_uppercase:
  assumes "wire_batch jt b"
  shows "batch_outputs_from_result_val jt (VOk (Some (VList [port_batch_to_val
      \<lparr>wit_port_id = ''out'', wit_packets = map (to_wit_packet jt) (map uppercase_packet (all_packets b))\<rparr>]))) =
    Ok (uppercase_batch b)"
proof -
  have w: "\<forall>x \<in> set (map uppercase_packet (all_packets b)). wire_packet jt x"
    using wire_uppercase [OF wire_all_packets [OF assms]] by auto
  then have "port_batch_from_val (port_batch_to_val
      \<lparr>wit_port_id = ''out'', wit_packets = map (to_wit_packet jt) (map uppercase_packet (all_packets b))\<rparr>) =
      Ok \<lparr>wit_port_id = ''out'', wit_packets = map (to_wit_packet jt) (map uppercase_packet (all_packets b))\<rparr>"
    by (intro port_batch_round_trip) (auto simp: to_wit_packet_def wire_packet_def simp del: uppercase_packet.simps)
  moreover have "new_port_id ''out'' = Ok (PortId ''out'')"
    using port_ident.round_trip [of "PortId ''out''"] by (simp add: valid_identifier_ascii ascii_graphic_def byte_def)
  ultimately show ?thesis
    using push_packets [OF w, of "PortId ''out''" new_batch]
    by (simp add: batch_outputs_from_result_val_def port_batches_from_val_def from_wit_port_batches_def
        push_wit_port_batch_def checked_id_def uppercase_batch_def del: uppercase_packet.simps map_map)
qed

lemma uppercase_batch_packets:
  "batch_packets (uppercase_batch b) p = (if p = PortId ''out'' then map uppercase_packet (all_packets b) else [])"
  unfolding uppercase_batch_def batch_packets_def
  by (subst lookup_pushes) (auto simp: new_batch_def batch_packets_def)

lemma uppercase_invoked:
  assumes "callable wt bc" "runs_uppercase wt bc (to_wit_port_batches jt b)" "wire_batch jt b"
    and "token_request st t = None" "\<not> (\<exists>s \<in> set polls. is_cancelled s t)"
  shows "invoke_with_cancellation wt jt bc b t st polls st' =
    (if list_all is_bytes (all_packets b) then Ok (uppercase_batch b)
     else Err (Execution ''guest returned unsupported-payload: uppercase guest accepts only bytes payloads''))"
  using assms(2) decode_uppercase [OF assms(3)] assms(5)
  by (auto simp: invoke_callable [OF assms(1,4)] watch_iff runs_uppercase_def uppercase_invoke_of batch_inputs_to_val_def
      batch_outputs_from_result_val_def [of jt "VErr _"] batch_error_from_val_def Let_def
      simp del: uppercase_packet.simps is_bytes.simps map_map)

text \<open>
  the sample component upper-cases batches.  Wasmtime runs the guest on the batch the host passes, and nobody
  cancels the call.  When every payload is bytes, the host receives every packet of the batch, in the order of the ports
  and of the packets on a port, on the port \<open>out\<close> with its metadata unchanged and its bytes in upper case, and nothing
  on any other port.  With any other payload the invocation fails with the error of the guest.
\<close>

theorem uppercase_component_invoked:
  assumes "callable wt bc" and "runs_uppercase wt bc (to_wit_port_batches jt b)" and "wire_batch jt b"
    and "token_request st t = None" and "\<not> (\<exists>s \<in> set polls. is_cancelled s t)"
  shows "if list_all is_bytes (all_packets b)
    then \<exists>r. invoke_with_cancellation wt jt bc b t st polls st' = Ok r
           \<and> (\<forall>p. batch_packets r p = (if p = PortId ''out'' then map uppercase_packet (all_packets b) else []))
    else invoke_with_cancellation wt jt bc b t st polls st' =
           Err (Execution ''guest returned unsupported-payload: uppercase guest accepts only bytes payloads'')"
  using uppercase_batch_packets [of b] by (simp add: uppercase_invoked [OF assms] del: uppercase_packet.simps is_bytes.simps)

text \<open>A runtime that answers with what the guest computes on the batches \<open>pbs\<close>.\<close>

definition uppercase_runtime :: "wit_port_batch list \<Rightarrow> unit wasmtime" where
  "uppercase_runtime pbs =
     echo_guest\<lparr>func_call := (\<lambda>c path n d b args.
       \<lparr>call_result = (case invoke_result_val (uppercase_invoke pbs) of None \<Rightarrow> Err ''trap'' | Some v \<Rightarrow> Ok v),
        remaining_fuel = Some 1\<rparr>)\<rparr>"

definition greeting_batch :: "unit batch" where
  "greeting_batch =
     batch_push (PortId ''i'') (echo_packet (Bytes ''go!''))
       (batch_push (PortId ''c'') (echo_packet (Bytes ''x'')) new_batch)"

lemma greeting_batch_wire: "wire_batch null_text greeting_batch"
  unfolding greeting_batch_def
  by (intro wire_batch_push wire_batch_new)
    (simp_all add: wire_packet_def wire_metadata_def wire_endpoint_def echo_packet_def echo_metadata_def null_text_def
      valid_identifier_ascii ascii_graphic_def byte_def)

lemma uppercase_runtime_runs:
  "runs_uppercase (uppercase_runtime pbs) echo_component pbs" "callable (uppercase_runtime pbs) echo_component"
  by (simp_all add: runs_uppercase_def callable_def uppercase_runtime_def echo_guest_def)

theorem uppercase_component_invoked_witness:
  "(\<exists>r. invoke_with_cancellation (uppercase_runtime (to_wit_port_batches null_text greeting_batch)) null_text
          echo_component greeting_batch (CancellationToken 0) [None] [[None]] [None] = Ok r
        \<and> batch_packets r (PortId ''out'') = [echo_packet (Bytes ''X''), echo_packet (Bytes ''GO!'')])
   \<and> invoke_with_cancellation (uppercase_runtime (to_wit_port_batches null_text echo_batch)) null_text
       echo_component echo_batch (CancellationToken 0) [None] [[None]] [None] =
     Err (Execution ''guest returned unsupported-payload: uppercase guest accepts only bytes payloads'')"
proof -
  note run = uppercase_component_invoked [OF uppercase_runtime_runs(2,1)]
  have quiet: "token_request [None] (CancellationToken 0) = None"
    "\<not> (\<exists>s \<in> set [[None]]. is_cancelled s (CancellationToken 0))"
    by (simp_all add: token_request_def is_cancelled_def)
  have packets: "all_packets greeting_batch = [echo_packet (Bytes ''x''), echo_packet (Bytes ''go!'')]"
    "\<not> list_all is_bytes (all_packets echo_batch)"
    by (simp_all add: all_packets_def greeting_batch_def echo_batch_def batch_push_def batch_packets_def new_batch_def
        echo_packet_def)
  have upper: "map uppercase_packet (all_packets greeting_batch) = [echo_packet (Bytes ''X''), echo_packet (Bytes ''GO!'')]"
    by (simp add: packets echo_packet_def to_ascii_uppercase_def char_of_eq_iff)
  have "list_all is_bytes (all_packets greeting_batch)" by (simp add: packets echo_packet_def)
  then show ?thesis
    using run [OF greeting_batch_wire quiet, of "[None]"] run [OF echo_batch_wire quiet, of "[None]"] packets(2)
    by (auto simp: upper simp del: uppercase_packet.simps is_bytes.simps)
qed

end
