(* ===== verification/FsWatcher.thy ===== *)
theory FsWatcher
  imports RuleNode
begin

text \<open>
  The crate \<open>pureflow-nodes-fs\<close>: a node that watches a path of the file system and emits, for each event that is not
  suppressed, one packet per path of the event on its port \<open>changes\<close>, until it receives any packet on its port \<open>control\<close>.

  The watcher is the crate \<open>notify\<close>: its construction and its registration are fields of \<open>fs_platform\<close>, as is the text
  of a path.  The events arrive on a channel of the standard library, and the clock is read at each: a tick of the
  node's loop comes with the answers of that channel until it is empty, and with what the rest of the run does while the
  node yields.  Instants are nanoseconds.
\<close>

section \<open>The node\<close>

record 'p fs_watcher_node =
  watch_path :: 'p
  debounce_ms :: nat

definition new_fs_watcher_node :: "'p \<Rightarrow> 'p fs_watcher_node" where
  "new_fs_watcher_node p = \<lparr>watch_path = p, debounce_ms = 50\<rparr>"

record 'p fs_platform =
  watcher_init :: "(unit, string) result"
  watch_start :: "'p \<Rightarrow> (unit, string) result"
  path_text :: "'p \<Rightarrow> string"

text \<open>What \<open>rx.try_recv\<close> answers before it is empty: an event with its paths, read at an instant, or the end of the channel.\<close>

datatype 'p fs_poll = FsEvent nat "'p list" | FsDisconnected

definition make_packet :: "node_context \<Rightarrow> port_id \<Rightarrow> char list \<Rightarrow> nat \<Rightarrow> ('n port_packet, pureflow_error) result" where
  "make_packet ctx port payload seq =
     (let source = \<lparr>message_node = context_node ctx, message_port = port\<rparr>;
          target = \<lparr>message_node = context_node ctx, message_port = port\<rparr>
      in and_then
        (map_err (\<lambda>e. Execution (''message id build failed: '' @ show_identifier_error e))
          (new_message_id (node_id_str (context_node ctx) @ ''-changes-'' @ show_nat seq)))
        (\<lambda>m. Ok
          \<lparr>envelope_metadata =
             \<lparr>message_id = m, message_workflow = context_workflow ctx, message_execution = context_execution ctx,
              message_route = \<lparr>route_source = Some source, route_target = target\<rparr>\<rparr>,
           envelope_payload = Bytes payload\<rparr>))"

type_synonym ('c, 's) resume = "('c, 's) world \<Rightarrow> ('c, 's) world"

text \<open>The packets of one event.  \<open>seq\<close> is a \<open>u64\<close>, whose overflow wraps in a release build; each \<open>send\<close> takes the next entry of \<open>waits\<close>.\<close>

fun send_fs_paths ::
  "('n, 'c) channel_ops \<Rightarrow> 'p fs_platform \<Rightarrow> node_context \<Rightarrow> ('n, 's) ports_out \<Rightarrow> port_id \<Rightarrow> 'p list \<Rightarrow> nat
   \<Rightarrow> ('c, 's) resume list list \<Rightarrow> ('c, 's) world
   \<Rightarrow> (nat, pureflow_error) result option \<times> ('c, 's) resume list list \<times> ('c, 's) world" where
  "send_fs_paths ops fp ctx outs changes [] seq waits w = (Some (Ok seq), waits, w)"
| "send_fs_paths ops fp ctx outs changes (path # paths) seq waits w =
     (case make_packet ctx changes (path_text fp path) seq of
        Ok x \<Rightarrow>
          (case waits of
             [] \<Rightarrow> (None, [], w)
           | resumes # rest \<Rightarrow>
               (case send ops outs changes x (context_token ctx) resumes w of
                  (None, w1) \<Rightarrow> (None, rest, w1)
                | (Some (Ok _), w1) \<Rightarrow> send_fs_paths ops fp ctx outs changes paths ((seq + 1) mod 2 ^ 64) rest w1
                | (Some (Err e), w1) \<Rightarrow> (Some (Err (port_send_error_to_error e)), rest, w1)
                | (Some Panic, w1) \<Rightarrow> (Some Panic, rest, w1)))
      | Err e \<Rightarrow> (Some (Err e), waits, w)
      | Panic \<Rightarrow> (Some Panic, waits, w))"

text \<open>The inner loop: it goes on with the instant of the last emission and the next number, or stops the node.\<close>

datatype fs_drained = FsContinue "nat option" nat | FsStop

definition within_debounce :: "nat \<Rightarrow> nat option \<Rightarrow> nat \<Rightarrow> bool" where
  "within_debounce debounce last_emit now \<longleftrightarrow>
     (case last_emit of None \<Rightarrow> False | Some t \<Rightarrow> now - t < debounce)"

fun drain_fs_events ::
  "('n, 'c) channel_ops \<Rightarrow> 'p fs_platform \<Rightarrow> node_context \<Rightarrow> ('n, 's) ports_out \<Rightarrow> port_id \<Rightarrow> nat \<Rightarrow> 'p fs_poll list
   \<Rightarrow> nat option \<Rightarrow> nat \<Rightarrow> ('c, 's) resume list list \<Rightarrow> ('c, 's) world
   \<Rightarrow> (fs_drained, pureflow_error) result option \<times> ('c, 's) resume list list \<times> ('c, 's) world" where
  "drain_fs_events ops fp ctx outs changes debounce [] last_emit seq waits w =
     (Some (Ok (FsContinue last_emit seq)), waits, w)"
| "drain_fs_events ops fp ctx outs changes debounce (FsDisconnected # polls) last_emit seq waits w =
     (Some (Ok FsStop), waits, w)"
| "drain_fs_events ops fp ctx outs changes debounce (FsEvent now paths # polls) last_emit seq waits w =
     (if within_debounce debounce last_emit now
      then drain_fs_events ops fp ctx outs changes debounce polls last_emit seq waits w
      else case send_fs_paths ops fp ctx outs changes paths seq waits w of
          (Some (Ok seq1), waits1, w1) \<Rightarrow>
            drain_fs_events ops fp ctx outs changes debounce polls (Some now) seq1 waits1 w1
        | (Some (Err e), waits1, w1) \<Rightarrow> (Some (Err e), waits1, w1)
        | (Some Panic, waits1, w1) \<Rightarrow> (Some Panic, waits1, w1)
        | (None, waits1, w1) \<Rightarrow> (None, waits1, w1))"

text \<open>The loop of the node.  It yields to the rest of the run after a tick without an event.\<close>

fun fs_watch_loop ::
  "('n, 'c) channel_ops \<Rightarrow> 'p fs_platform \<Rightarrow> node_context \<Rightarrow> ('n, 's) ports_in \<Rightarrow> ('n, 's) ports_out
   \<Rightarrow> port_id \<Rightarrow> port_id \<Rightarrow> nat \<Rightarrow> ('p fs_poll list \<times> ('c, 's) resume) list \<Rightarrow> nat option \<Rightarrow> nat
   \<Rightarrow> ('c, 's) resume list list \<Rightarrow> ('c, 's) world \<Rightarrow> (unit, pureflow_error) result option \<times> ('c, 's) world" where
  "fs_watch_loop ops fp ctx ins outs changes control debounce [] last_emit seq waits w = (None, w)"
| "fs_watch_loop ops fp ctx ins outs changes control debounce ((polls, resume) # ticks) last_emit seq waits w =
     (if is_cancelled (signals w) (context_token ctx) then (Some (Err (Cancellation ''fs watcher cancelled'')), w)
      else case try_recv ops ins control w of
          (Ok (Some x), w1) \<Rightarrow> (Some (Ok ()), w1)
        | (Err e, w1) \<Rightarrow> (Some (Err (port_recv_error_to_error e)), w1)
        | (Panic, w1) \<Rightarrow> (Some Panic, w1)
        | (Ok None, w1) \<Rightarrow>
            (case drain_fs_events ops fp ctx outs changes debounce polls last_emit seq waits w1 of
               (Some (Ok (FsContinue last1 seq1)), waits1, w2) \<Rightarrow>
                 fs_watch_loop ops fp ctx ins outs changes control debounce ticks last1 seq1 waits1
                   (if polls = [] then resume w2 else w2)
             | (Some (Ok FsStop), waits1, w2) \<Rightarrow> (Some (Ok ()), w2)
             | (Some (Err e), waits1, w2) \<Rightarrow> (Some (Err e), w2)
             | (Some Panic, waits1, w2) \<Rightarrow> (Some Panic, w2)
             | (None, waits1, w2) \<Rightarrow> (None, w2)))"

definition fs_watcher_run ::
  "('n, 'c) channel_ops \<Rightarrow> 'p fs_platform \<Rightarrow> 'p fs_watcher_node \<Rightarrow> node_context \<Rightarrow> ('n, 's) ports_in \<Rightarrow> ('n, 's) ports_out
   \<Rightarrow> ('p fs_poll list \<times> ('c, 's) resume) list \<Rightarrow> ('c, 's) resume list list \<Rightarrow> ('c, 's) world
   \<Rightarrow> (unit, pureflow_error) result option \<times> ('c, 's) world" where
  "fs_watcher_run ops fp node ctx ins outs ticks waits w =
     (case and_then (map_err (\<lambda>e. Execution (''fs watcher init failed: '' @ e)) (watcher_init fp)) (\<lambda>_.
           map_err (\<lambda>e. Execution (''watch path failed: '' @ e)) (watch_start fp (watch_path node))) of
        Ok _ \<Rightarrow>
          (case (new_port_id ''changes'', new_port_id ''control'') of
             (Ok changes, Ok control) \<Rightarrow>
               fs_watch_loop ops fp ctx ins outs changes control (debounce_ms node * 1000000) ticks None 0 waits w
           | _ \<Rightarrow> (Some Panic, w))
      | Err e \<Rightarrow> (Some (Err e), w)
      | Panic \<Rightarrow> (Some Panic, w))"

section \<open>Windows\<close>

text \<open>
  The events that open a window: the first one, and then each that comes at least \<open>d\<close> after the one that opened the last
  window; with the instant of the last of them.
\<close>

fun windows :: "nat \<Rightarrow> nat option \<Rightarrow> (nat \<times> 'p list) list \<Rightarrow> (nat \<times> 'p list) list" where
  "windows d t [] = []"
| "windows d None (e # es) = e # windows d (Some (fst e)) es"
| "windows d (Some t) (e # es) = (if d \<le> fst e - t then e # windows d (Some (fst e)) es else windows d (Some t) es)"

lemma windows_Cons:
  "windows d t (e # es) = (if within_debounce d t (fst e) then windows d t es else e # windows d (Some (fst e)) es)"
  by (cases t) (auto simp: within_debounce_def)

definition last_window :: "nat option \<Rightarrow> (nat \<times> 'p list) list \<Rightarrow> nat option" where
  "last_window t ws = (if ws = [] then t else Some (fst (last ws)))"

lemma last_window_Cons [simp]: "last_window (Some (fst e)) ws = last_window t (e # ws)"
  by (simp add: last_window_def)

lemma windows_after: "e \<in> set (windows d (Some t) es) \<Longrightarrow> d \<le> fst e - t"
proof (induction es arbitrary: t)
  case (Cons f es)
  then show ?case by (fastforce split: if_splits)
qed simp

lemma windows_apart: "sorted_wrt (\<lambda>e f. d \<le> fst f - fst e) (windows d t es)"
proof (induction es arbitrary: t)
  case (Cons e es)
  then show ?case by (cases t) (auto dest: windows_after)
qed simp

text \<open>An event that opens no window comes less than \<open>d\<close> after one that does, or after the last emission.\<close>

lemma windows_cover:
  assumes "sorted (map fst es)" "\<And>u. t = Some u \<Longrightarrow> list_all (\<lambda>e. u \<le> fst e) es" "e \<in> set es" "e \<notin> set (windows d t es)"
  shows "\<exists>u. (t = Some u \<or> u \<in> fst ` set (windows d t es)) \<and> u \<le> fst e \<and> fst e < u + d"
  using assms
proof (induction es arbitrary: t)
  case (Cons f es)
  show ?case
  proof (cases "within_debounce d t (fst f)")
    case True
    then obtain u where u: "t = Some u" "fst f - u < d" by (auto simp: within_debounce_def split: option.splits)
    show ?thesis
    proof (cases "e = f")
      case True
      with u Cons.prems(2) show ?thesis by (intro exI [of _ u]) (auto simp: less_diff_conv2)
    next
      case False
      have eq: "windows d t (f # es) = windows d t es" using True by (simp add: windows_Cons)
      with Cons.prems False have "e \<in> set es" "e \<notin> set (windows d t es)" by auto
      from Cons.IH [OF _ _ this] Cons.prems(1,2) show ?thesis unfolding eq by simp
    qed
  next
    case False
    then have eq: "windows d t (f # es) = f # windows d (Some (fst f)) es" by (simp add: windows_Cons)
    with Cons.prems have "e \<in> set es" "e \<notin> set (windows d (Some (fst f)) es)" by auto
    from Cons.IH [OF _ _ this] Cons.prems(1) have
      "\<exists>u. (Some (fst f) = Some u \<or> u \<in> fst ` set (windows d (Some (fst f)) es)) \<and> u \<le> fst e \<and> fst e < u + d"
      by (auto simp: list_all_iff)
    then show ?thesis unfolding eq by auto
  qed
qed simp

section \<open>What a burst of events emits\<close>

definition change_id :: "node_context \<Rightarrow> nat \<Rightarrow> string" where
  "change_id ctx seq = node_id_str (context_node ctx) @ ''-changes-'' @ show_nat seq"

definition change_packet :: "node_context \<Rightarrow> string \<Rightarrow> nat \<Rightarrow> 'n port_packet" where
  "change_packet ctx payload seq =
     \<lparr>envelope_metadata =
        \<lparr>message_id = MessageId (change_id ctx seq), message_workflow = context_workflow ctx,
         message_execution = context_execution ctx,
         message_route =
           \<lparr>route_source = Some \<lparr>message_node = context_node ctx, message_port = PortId ''changes''\<rparr>,
            route_target = \<lparr>message_node = context_node ctx, message_port = PortId ''changes''\<rparr>\<rparr>\<rparr>,
      envelope_payload = Bytes payload\<rparr>"

definition change_packets :: "'p fs_platform \<Rightarrow> node_context \<Rightarrow> nat \<Rightarrow> 'p list \<Rightarrow> 'n port_packet list" where
  "change_packets fp ctx seq paths = map (\<lambda>(k, p). change_packet ctx (path_text fp p) k) (enumerate seq paths)"

lemma make_packet_Ok:
  "valid_identifier (change_id ctx seq) \<Longrightarrow> make_packet ctx (PortId ''changes'') b seq = Ok (change_packet ctx b seq)"
  by (simp add: make_packet_def change_packet_def change_id_def new_message_id_def new_id_def id_simps Let_def)

lemma change_packets_Cons:
  "change_packets fp ctx seq (p # ps) = change_packet ctx (path_text fp p) seq # change_packets fp ctx (Suc seq) ps"
  by (simp add: change_packets_def)

definition numbers_valid :: "node_context \<Rightarrow> nat \<Rightarrow> nat \<Rightarrow> bool" where
  "numbers_valid ctx seq n \<longleftrightarrow> seq + n < 2 ^ 64 \<and> (\<forall>k \<in> {seq..<seq + n}. valid_identifier (change_id ctx k))"

abbreviation burst :: "(nat \<times> 'p list) list \<Rightarrow> 'p fs_poll list" where
  "burst es \<equiv> map (\<lambda>(t, ps). FsEvent t ps) es"

definition burst_paths :: "nat \<Rightarrow> nat option \<Rightarrow> (nat \<times> 'p list) list \<Rightarrow> 'p list" where
  "burst_paths d t es = concat (map snd (windows d t es))"

context bounded_channels
begin

lemma send_fs_paths_now:
  assumes "find_output outs (PortId ''changes'') = Some h" "out_validator outs = None"
    and "\<not> is_cancelled (signals w) (context_token ctx)" "numbers_valid ctx seq (length paths)"
    and "room_for (length paths) (view (chans w)) h" "length paths \<le> length waits"
  shows "\<exists>w'. send_fs_paths ops fp ctx outs (PortId ''changes'') paths seq waits w =
      (Some (Ok (seq + length paths)), drop (length paths) waits, w') \<and>
    view (chans w') = deliver_all (senders h) (change_packets fp ctx seq paths) (view (chans w)) \<and> signals w' = signals w"
  using assms(3-6)
proof (induction paths arbitrary: seq waits w)
  case Nil
  then show ?case by (simp add: change_packets_def)
next
  case (Cons p ps)
  let ?x = "change_packet ctx (path_text fp p) seq :: 'n port_packet"
  obtain resumes rest where waits: "waits = resumes # rest" using Cons.prems(4) by (cases waits) auto
  have num: "make_packet ctx (PortId ''changes'') (path_text fp p) seq = Ok ?x" "(seq + 1) mod 2 ^ 64 = Suc seq"
    "numbers_valid ctx (Suc seq) (length ps)"
    using Cons.prems(2) by (auto simp: numbers_valid_def intro: make_packet_Ok)
  have room: "has_room (view (chans w)) h" using room_for_deliver Cons.prems(3) by auto
  have acc: "packet_accepted outs (PortId ''changes'') ?x" using assms(2) by (simp add: packet_accepted_def)
  obtain w1 where w1: "send ops outs (PortId ''changes'') ?x (context_token ctx) resumes w = (Some (Ok ()), w1)"
    "view (chans w1) = deliver (senders h) ?x (view (chans w))" "signals w1 = signals w"
    using send_now [OF assms(1) Cons.prems(1) room acc, of resumes] by (metis prod.collapse)
  have "room_for (length ps) (view (chans w1)) h"
    using room_for_deliver [of "length ps" "view (chans w)" h ?x] Cons.prems(3) w1(2) by simp
  from Cons.IH [OF _ num(3) this, of rest] Cons.prems(1,4) w1 obtain w' where
    "send_fs_paths ops fp ctx outs (PortId ''changes'') ps (Suc seq) rest w1 =
      (Some (Ok (Suc seq + length ps)), drop (length ps) rest, w')"
    "view (chans w') = deliver_all (senders h) (change_packets fp ctx (Suc seq) ps) (view (chans w1))"
    "signals w' = signals w1"
    by (auto simp: waits)
  then show ?case using num(1,2) w1 by (simp add: waits change_packets_Cons)
qed

lemma drain_burst:
  assumes "find_output outs (PortId ''changes'') = Some h" "out_validator outs = None"
    and "\<not> is_cancelled (signals w) (context_token ctx)" "numbers_valid ctx seq (length (burst_paths d t es))"
    and "room_for (length (burst_paths d t es)) (view (chans w)) h" "length (burst_paths d t es) \<le> length waits"
  shows "\<exists>w'. drain_fs_events ops fp ctx outs (PortId ''changes'') d (burst es) t seq waits w =
      (Some (Ok (FsContinue (last_window t (windows d t es)) (seq + length (burst_paths d t es)))),
       drop (length (burst_paths d t es)) waits, w') \<and>
    view (chans w') = deliver_all (senders h) (change_packets fp ctx seq (burst_paths d t es)) (view (chans w)) \<and>
    signals w' = signals w"
  using assms(3-6)
proof (induction es arbitrary: t seq waits w)
  case Nil
  then show ?case by (simp add: burst_paths_def change_packets_def last_window_def)
next
  case (Cons e es)
  obtain now paths where e: "e = (now, paths)" by fastforce
  show ?case
  proof (cases "within_debounce d t now")
    case True
    then have "burst_paths d t (e # es) = burst_paths d t es" "windows d t (e # es) = windows d t es"
      by (simp_all add: burst_paths_def e windows_Cons)
    with Cons True show ?thesis by (simp add: e)
  next
    case False
    let ?rest = "burst_paths d (Some now) es"
    have all: "burst_paths d t (e # es) = paths @ ?rest" "windows d t (e # es) = e # windows d (Some now) es"
      using False by (simp_all add: burst_paths_def e windows_Cons)
    have n1: "numbers_valid ctx seq (length paths)" "numbers_valid ctx (seq + length paths) (length ?rest)"
      using Cons.prems(2) by (auto simp: numbers_valid_def all)
    have r1: "room_for (length paths) (view (chans w)) h"
      using Cons.prems(3) by (auto simp: room_for_def cv_room_def all algebra_simps)
    obtain w1 where w1: "send_fs_paths ops fp ctx outs (PortId ''changes'') paths seq waits w =
        (Some (Ok (seq + length paths)), drop (length paths) waits, w1)"
      "view (chans w1) = deliver_all (senders h) (change_packets fp ctx seq paths) (view (chans w))" "signals w1 = signals w"
      using send_fs_paths_now [OF assms(1,2) Cons.prems(1) n1(1) r1, of waits fp] Cons.prems(4) by (auto simp: all)
    have "room_for (length ?rest) (view (chans w1)) h"
      using room_for_deliver_all [of "change_packets fp ctx seq paths"] Cons.prems(3) w1(2)
      by (simp add: all change_packets_def)
    moreover have "length ?rest \<le> length (drop (length paths) waits)" using Cons.prems(4) by (simp add: all)
    ultimately obtain w' where
      "drain_fs_events ops fp ctx outs (PortId ''changes'') d (burst es) (Some now) (seq + length paths)
         (drop (length paths) waits) w1 =
       (Some (Ok (FsContinue (last_window (Some now) (windows d (Some now) es)) (seq + length paths + length ?rest))),
        drop (length ?rest) (drop (length paths) waits), w')"
      "view (chans w') = deliver_all (senders h) (change_packets fp ctx (seq + length paths) ?rest) (view (chans w1))"
      "signals w' = signals w1"
      using Cons.IH [OF _ n1(2), of w1 "drop (length paths) waits"] Cons.prems(1) w1(3) by metis
    then show ?thesis
      using w1 False
      by (simp add: all [unfolded e] e last_window_Cons [of "(now, paths)", simplified] change_packets_def enumerate_append_eq
          add.assoc add.commute)
  qed
qed

end

section \<open>Properties\<close>

text \<open>
  C38: a burst of events is debounced.  Of the events that are read one after the other, the first opens a window, unless
  there was an emission, and each further one does when it comes at least \<open>d\<close> after the last opening; so two openings
  lie at least \<open>d\<close> apart, and, by a clock that does not go back, every other event comes less than \<open>d\<close> after an opening or
  the last emission, and is suppressed for good.  With room on the edges of \<open>changes\<close>, each opening event emits one
  packet per path, in order, with consecutive numbers, and the loop goes on from the instant of the last opening and the
  next number.
\<close>

theorem fs_burst_emits_windows:
  assumes "bounded_channels ops view"
    and "find_output outs (PortId ''changes'') = Some h" and "out_validator outs = None"
    and "\<not> is_cancelled (signals w) (context_token ctx)" and "numbers_valid ctx seq (length (burst_paths d t es))"
    and "room_for (length (burst_paths d t es)) (view (chans w)) h" and "length (burst_paths d t es) \<le> length waits"
    and "sorted (map fst es)" and "\<And>u. t = Some u \<Longrightarrow> list_all (\<lambda>e. u \<le> fst e) es"
  shows "sorted_wrt (\<lambda>e f. d \<le> fst f - fst e) (windows d t es) \<and>
    (\<forall>e \<in> set es. e \<in> set (windows d t es) \<or>
      (\<exists>u. (t = Some u \<or> u \<in> fst ` set (windows d t es)) \<and> u \<le> fst e \<and> fst e < u + d)) \<and>
    (\<exists>w'. drain_fs_events ops fp ctx outs (PortId ''changes'') d (burst es) t seq waits w =
      (Some (Ok (FsContinue (last_window t (windows d t es)) (seq + length (burst_paths d t es)))),
       drop (length (burst_paths d t es)) waits, w') \<and>
     view (chans w') = deliver_all (senders h) (change_packets fp ctx seq (burst_paths d t es)) (view (chans w)))"
proof -
  have "e \<in> set (windows d t es) \<or> (\<exists>u. (t = Some u \<or> u \<in> fst ` set (windows d t es)) \<and> u \<le> fst e \<and> fst e < u + d)"
    if "e \<in> set es" for e
    using windows_cover [OF assms(8,9) that] by blast
  moreover obtain w' where "drain_fs_events ops fp ctx outs (PortId ''changes'') d (burst es) t seq waits w =
      (Some (Ok (FsContinue (last_window t (windows d t es)) (seq + length (burst_paths d t es)))),
       drop (length (burst_paths d t es)) waits, w')"
    "view (chans w') = deliver_all (senders h) (change_packets fp ctx seq (burst_paths d t es)) (view (chans w))"
    using bounded_channels.drain_burst [OF assms(1-7), of fp] by blast
  ultimately show ?thesis using windows_apart [of d t es] by (intro conjI ballI exI [of _ w']) simp_all
qed

definition plain_paths :: "string fs_platform" where
  "plain_paths = \<lparr>watcher_init = Ok (), watch_start = (\<lambda>p. Ok ()), path_text = (\<lambda>p. p)\<rparr>"

definition fs_out :: "(unit, unit) ports_out" where
  "fs_out = ports_out_from_handles [PortId ''changes''] [output_connected (PortId ''changes'') 0]"

definition fs_world :: "(unit fifo, unit) world" where
  "fs_world = \<lparr>chans = \<lparr>fifo_next = 1, fifo_chan = (\<lambda>_. empty_view 8)\<rparr>, sink_state = (), signals = [None]\<rparr>"

definition saves :: "(nat \<times> string list) list" where
  "saves = [(0, [''a'']), (30, [''b'']), (50, [''a'', ''c''])]"

lemma saves_windows: "windows 50 None saves = [(0, [''a'']), (50, [''a'', ''c''])]"
  by (simp add: saves_def)

lemma fs_numbers_valid: "numbers_valid router_context 0 (Suc (Suc (Suc 0)))"
proof -
  have "valid_identifier (change_id router_context 0)" "valid_identifier (change_id router_context (Suc 0))"
    "valid_identifier (change_id router_context (Suc (Suc 0)))"
    by (intro valid_identifier_ascii;
        simp add: change_id_def router_context_def ascii_graphic_def byte_def show_nat.simps [of 0]
          show_nat.simps [of "Suc 0"] show_nat.simps [of "Suc (Suc 0)"] digit_def)+
  then show ?thesis by (auto simp: numbers_valid_def less_Suc_eq)
qed

text \<open>The change of \<open>b\<close>, 30 units after that of \<open>a\<close>, is lost.\<close>

theorem fs_burst_emits_windows_witness:
  "\<exists>w'. drain_fs_events fifo_ops plain_paths router_context fs_out (PortId ''changes'') 50 (burst saves) None 0
         [[], [], []] fs_world = (Some (Ok (FsContinue (Some 50) 3)), [], w')
       \<and> map envelope_payload (cv_queue (fifo_chan (chans w') 0)) = [Bytes ''a'', Bytes ''a'', Bytes ''c'']"
proof -
  let ?h = "\<lparr>out_port_id = PortId ''changes'', senders = [0]\<rparr>"
  have paths: "burst_paths 50 None saves = [''a'', ''a'', ''c'']" by (simp add: burst_paths_def saves_windows)
  have h: "find_output fs_out (PortId ''changes'') = Some ?h"
    by (simp add: fs_out_def find_output_from_handles out_links_def output_connected_def)
  have "out_validator fs_out = None" "\<not> is_cancelled (signals fs_world) (context_token router_context)"
    "room_for (length (burst_paths 50 None saves)) (fifo_chan (chans fs_world)) ?h"
    by (simp_all add: fs_out_def ports_out_from_handles_def fs_world_def is_cancelled_def router_context_def room_for_def
        cv_room_def empty_view_def paths token_request_def)
  moreover have "sorted (map fst saves)" by (simp add: saves_def)
  ultimately have "\<exists>w'. drain_fs_events fifo_ops plain_paths router_context fs_out (PortId ''changes'') 50 (burst saves) None 0
         [[], [], []] fs_world = (Some (Ok (FsContinue (Some 50) 3)), [], w') \<and>
    fifo_chan (chans w') = deliver_all [0] (change_packets plain_paths router_context 0 [''a'', ''a'', ''c''])
       (fifo_chan (chans fs_world))"
    using fs_burst_emits_windows [OF fifo.bounded_channels_axioms h, of fs_world router_context 0 50 None saves "[[], [], []]"
        plain_paths] fs_numbers_valid
    by (simp add: paths saves_windows last_window_def numeral_3_eq_3)
  then
  obtain w' where "drain_fs_events fifo_ops plain_paths router_context fs_out (PortId ''changes'') 50 (burst saves) None 0
         [[], [], []] fs_world = (Some (Ok (FsContinue (Some 50) 3)), [], w')"
    "fifo_chan (chans w') = deliver_all [0] (change_packets plain_paths router_context 0 [''a'', ''a'', ''c''])
       (fifo_chan (chans fs_world))"
    by blast
  then show ?thesis
    by (auto simp: change_packets_def change_packet_def deliver_def plain_paths_def fs_world_def empty_view_def)
qed

section \<open>A watcher at work\<close>

text \<open>
  One tick that leaves the watcher running: no cancellation, nothing on \<open>control\<close>, and all pending events dealt with.  The
  state is the instant of the last emission, the next number, the waits and the world.
\<close>

type_synonym ('c, 's) watch_state = "nat option \<times> nat \<times> ('c, 's) resume list list \<times> ('c, 's) world"

inductive fs_tick ::
  "('n, 'c) channel_ops \<Rightarrow> 'p fs_platform \<Rightarrow> node_context \<Rightarrow> ('n, 's) ports_in \<Rightarrow> ('n, 's) ports_out \<Rightarrow> nat
   \<Rightarrow> 'p fs_poll list \<times> ('c, 's) resume \<Rightarrow> ('c, 's) watch_state \<Rightarrow> ('c, 's) watch_state \<Rightarrow> bool"
  for ops fp ctx ins outs d where
  Busy: "\<not> is_cancelled (signals w) (context_token ctx) \<Longrightarrow> try_recv ops ins (PortId ''control'') w = (Ok None, w1) \<Longrightarrow>
    polls \<noteq> [] \<Longrightarrow>
    drain_fs_events ops fp ctx outs (PortId ''changes'') d polls t seq waits w1 = (Some (Ok (FsContinue t' seq')), waits', w') \<Longrightarrow>
    fs_tick ops fp ctx ins outs d (polls, resume) (t, seq, waits, w) (t', seq', waits', w')"
| Idle: "\<not> is_cancelled (signals w) (context_token ctx) \<Longrightarrow> try_recv ops ins (PortId ''control'') w = (Ok None, w1) \<Longrightarrow>
    fs_tick ops fp ctx ins outs d ([], resume) (t, seq, waits, w) (t, seq, waits, resume w1)"

inductive fs_ticks ::
  "('n, 'c) channel_ops \<Rightarrow> 'p fs_platform \<Rightarrow> node_context \<Rightarrow> ('n, 's) ports_in \<Rightarrow> ('n, 's) ports_out \<Rightarrow> nat
   \<Rightarrow> ('p fs_poll list \<times> ('c, 's) resume) list \<Rightarrow> ('c, 's) watch_state \<Rightarrow> ('c, 's) watch_state \<Rightarrow> bool"
  for ops fp ctx ins outs d where
  NoTick: "fs_ticks ops fp ctx ins outs d [] s s"
| Tick: "fs_tick ops fp ctx ins outs d tick s s1 \<Longrightarrow> fs_ticks ops fp ctx ins outs d ticks s1 s' \<Longrightarrow>
    fs_ticks ops fp ctx ins outs d (tick # ticks) s s'"

inductive_cases fs_tickE: "fs_tick ops fp ctx ins outs d tick s s'"

abbreviation loop_from ::
  "('n, 'c) channel_ops \<Rightarrow> 'p fs_platform \<Rightarrow> node_context \<Rightarrow> ('n, 's) ports_in \<Rightarrow> ('n, 's) ports_out \<Rightarrow> nat
   \<Rightarrow> ('p fs_poll list \<times> ('c, 's) resume) list \<Rightarrow> ('c, 's) watch_state \<Rightarrow> (unit, pureflow_error) result option \<times> ('c, 's) world" where
  "loop_from ops fp ctx ins outs d ticks s \<equiv>
     (case s of (t, seq, waits, w) \<Rightarrow>
        fs_watch_loop ops fp ctx ins outs (PortId ''changes'') (PortId ''control'') d ticks t seq waits w)"

lemma fs_tick_loop:
  "fs_tick ops fp ctx ins outs d tick s s' \<Longrightarrow>
    loop_from ops fp ctx ins outs d (tick # ticks) s = loop_from ops fp ctx ins outs d ticks s'"
  by (erule fs_tickE) auto

lemma fs_ticks_loop:
  "fs_ticks ops fp ctx ins outs d before s s' \<Longrightarrow>
    loop_from ops fp ctx ins outs d (before @ ticks) s = loop_from ops fp ctx ins outs d ticks s'"
  by (induction rule: fs_ticks.induct) (simp_all only: append_Nil append_Cons fs_tick_loop)

lemma fs_watcher_run_loop:
  assumes "watcher_init fp = Ok ()" "watch_start fp (watch_path node) = Ok ()"
  shows "fs_watcher_run ops fp node ctx ins outs ticks waits w =
    loop_from ops fp ctx ins outs (debounce_ms node * 1000000) ticks (None, 0, waits, w)"
proof -
  have "new_port_id ''changes'' = Ok (PortId ''changes'')" "new_port_id ''control'' = Ok (PortId ''control'')"
    by (rule new_port_id_ascii; simp add: ascii_graphic_def byte_def)+
  with assms show ?thesis by (simp add: fs_watcher_run_def)
qed

lemma control_recv:
  assumes "bounded_channels ops view" "find_input ins (PortId ''control'') = Some h"
    and "try_recv ops ins (PortId ''control'') w = (r, w1)"
  shows "(\<exists>x. r = Ok (Some x)) \<longleftrightarrow> (\<exists>i \<in> set (receivers h). cv_queue (view (chans w) i) \<noteq> [])"
    and "r = Err (RecvPortDisconnected (PortId ''control'')) \<longleftrightarrow>
      \<not> (\<exists>i \<in> set (receivers h). cv_queue (view (chans w) i) \<noteq> []) \<and> receivers h \<noteq> [] \<and>
      (\<forall>i \<in> set (receivers h). \<not> cv_tx_open (view (chans w) i))"
proof -
  have "r = fst (recv_spec (view (chans w)) h)"
    using bounded_channels.try_recv_refines [OF assms(1), of ins "PortId ''control''" w] assms(2,3)
    by (simp add: recv_port_spec_def prod_eq_iff)
  then show "(\<exists>x. r = Ok (Some x)) \<longleftrightarrow> (\<exists>i \<in> set (receivers h). cv_queue (view (chans w) i) \<noteq> [])"
    "r = Err (RecvPortDisconnected (PortId ''control'')) \<longleftrightarrow>
      \<not> (\<exists>i \<in> set (receivers h). cv_queue (view (chans w) i) \<noteq> []) \<and> receivers h \<noteq> [] \<and>
      (\<forall>i \<in> set (receivers h). \<not> cv_tx_open (view (chans w) i))"
    using find_input_id [OF assms(2)]
    by (auto simp: recv_spec_def list_all_iff find_None_iff find_Some_iff split: option.splits)
qed

text \<open>
  C39: how a watcher at work ends.  After any number of ticks, idle or with events, that have left it running, and as
  long as there is no further tick, it has not returned.  At the next tick, before it looks at the file system: a
  cancellation of the run ends it with a cancellation; otherwise a packet on \<open>control\<close>, whenever it arrived, ends it with
  success; and when every sender of \<open>control\<close> is gone without having left a packet, the node fails with an execution
  error instead.
\<close>

theorem fs_control_ends_watcher:
  assumes "bounded_channels ops view"
    and "watcher_init fp = Ok ()" and "watch_start fp (watch_path node) = Ok ()"
    and "find_input ins (PortId ''control'') = Some h"
    and "fs_ticks ops fp ctx ins outs (debounce_ms node * 1000000) before (None, 0, waits, w) (t, seq, waits', w')"
  shows "fs_watcher_run ops fp node ctx ins outs before waits w = (None, w') \<and>
    (is_cancelled (signals w') (context_token ctx) \<longrightarrow>
      fst (fs_watcher_run ops fp node ctx ins outs (before @ tick # rest) waits w) =
        Some (Err (Cancellation ''fs watcher cancelled''))) \<and>
    (\<not> is_cancelled (signals w') (context_token ctx) \<and> (\<exists>i \<in> set (receivers h). cv_queue (view (chans w') i) \<noteq> []) \<longrightarrow>
      fst (fs_watcher_run ops fp node ctx ins outs (before @ tick # rest) waits w) = Some (Ok ())) \<and>
    (\<not> is_cancelled (signals w') (context_token ctx) \<and> receivers h \<noteq> [] \<and>
      (\<forall>i \<in> set (receivers h). cv_queue (view (chans w') i) = [] \<and> \<not> cv_tx_open (view (chans w') i)) \<longrightarrow>
      fst (fs_watcher_run ops fp node ctx ins outs (before @ tick # rest) waits w) =
        Some (Err (Execution ''input port `control` is disconnected'')))"
proof -
  note run = fs_watcher_run_loop [OF assms(2,3)] and loop = fs_ticks_loop [OF assms(5)]
  obtain polls resume where tick: "tick = (polls, resume)" by fastforce
  obtain r w1 where r: "try_recv ops ins (PortId ''control'') w' = (r, w1)" by fastforce
  note recv = control_recv [OF assms(1,4) r]
  have "fs_watcher_run ops fp node ctx ins outs before waits w = (None, w')"
    using loop [of "[]"] by (simp add: run)
  moreover have next_tick: "fs_watcher_run ops fp node ctx ins outs (before @ tick # rest) waits w =
      fs_watch_loop ops fp ctx ins outs (PortId ''changes'') (PortId ''control'') (debounce_ms node * 1000000)
        (tick # rest) t seq waits' w'"
    using loop [of "tick # rest"] by (simp only: run prod.case)
  moreover have "fst (fs_watcher_run ops fp node ctx ins outs (before @ tick # rest) waits w) =
      (if is_cancelled (signals w') (context_token ctx) then Some (Err (Cancellation ''fs watcher cancelled''))
       else if \<exists>x. r = Ok (Some x) then Some (Ok ())
       else Some (Err (Execution ''input port `control` is disconnected'')))"
    if "is_cancelled (signals w') (context_token ctx) \<or> (\<exists>x. r = Ok (Some x)) \<or> r = Err (RecvPortDisconnected (PortId ''control''))"
    unfolding next_tick using that r by (auto simp: tick quoted_def)
  ultimately show ?thesis using recv by auto
qed

definition fs_in :: "(unit, unit) ports_in" where
  "fs_in = ports_in_from_handles [PortId ''control''] [input_connected (PortId ''control'') 1]"

definition control_world :: "unit port_packet list \<Rightarrow> bool \<Rightarrow> (unit fifo, unit) world" where
  "control_world xs tx =
     fs_world\<lparr>chans := \<lparr>fifo_next = 2, fifo_chan = (\<lambda>_. (empty_view 8)\<lparr>cv_queue := xs, cv_tx_open := tx\<rparr>)\<rparr>\<rparr>"

text \<open>
  The watcher is idle for a tick, during which a packet arrives on \<open>control\<close>, or the last sender of \<open>control\<close> goes away.
\<close>

theorem fs_control_ends_watcher_witness:
  "fst (fs_watcher_run fifo_ops plain_paths (new_fs_watcher_node ''/etc'') router_context fs_in fs_out
     [([], \<lambda>_. control_world [sample_packet ''stop''] True), ([], id)] [] (control_world [] True)) = Some (Ok ())
   \<and> fst (fs_watcher_run fifo_ops plain_paths (new_fs_watcher_node ''/etc'') router_context fs_in fs_out
     [([], \<lambda>_. control_world [] False), ([], id)] [] (control_world [] True)) =
       Some (Err (Execution ''input port `control` is disconnected''))"
proof -
  let ?h = "\<lparr>in_port_id = PortId ''control'', receivers = [1]\<rparr>"
  let ?node = "new_fs_watcher_node ''/etc''"
  have h: "find_input fs_in (PortId ''control'') = Some ?h"
    by (simp add: fs_in_def find_input_from_handles in_links_def input_connected_def)
  have up: "watcher_init plain_paths = Ok ()" "watch_start plain_paths (watch_path ?node) = Ok ()"
    by (simp_all add: plain_paths_def)
  have quiet: "\<not> is_cancelled (signals (control_world xs tx)) (context_token router_context)" for xs tx
    by (simp add: control_world_def fs_world_def is_cancelled_def router_context_def token_request_def)
  obtain r w1 where recv: "try_recv fifo_ops fs_in (PortId ''control'') (control_world [] True) = (r, w1)" by fastforce
  have "r = fst (recv_spec (fifo_chan (chans (control_world [] True))) ?h)"
    using fifo.try_recv_refines [of fs_in "PortId ''control''" "control_world [] True"] recv h
    by (simp add: recv_port_spec_def prod_eq_iff)
  then have "r = Ok None" by (simp add: recv_spec_def control_world_def)
  with recv have none: "try_recv fifo_ops fs_in (PortId ''control'') (control_world [] True) = (Ok None, w1)" by simp
  have idle: "fs_ticks fifo_ops plain_paths router_context fs_in fs_out (debounce_ms ?node * 1000000)
      [([], \<lambda>_. w')] (None, 0, [], control_world [] True) (None, 0, [], w')" for w'
    by (rule Tick [OF Idle [OF quiet none] NoTick])
  note run = fs_control_ends_watcher [OF fifo.bounded_channels_axioms up h idle, of _ "([], id)" "[]"]
  show ?thesis
    using run [of "control_world [sample_packet ''stop''] True"] run [of "control_world [] False"] quiet
    by (simp add: control_world_def)
qed

end
