(* ===== verification/LiveChannels.thy ===== *)
theory LiveChannels
  imports RuleNode
begin

text \<open>
  Channels whose senders have ended: what is still queued can be received, in order, and then the end of the
  channel is reported.  This is what an executor that drains its inputs meets once its predecessors are done.
\<close>

section \<open>Channels whose senders are gone\<close>

text \<open>
  While the runtime does not cancel the task, a poll answers from the queue: a packet, nothing yet, or the end of the
  channel once its senders are gone.
\<close>

locale live_channels = bounded_channels +
  assumes poll_answer:
    "fst (ch_poll_recv ops i c) =
       (case cv_queue (view c i) of
          x # xs \<Rightarrow> PollPacket x
        | [] \<Rightarrow> if cv_tx_open (view c i) then PollPending else PollFailed RecvDisconnected)"

interpretation fifo_live: live_channels fifo_ops fifo_chan
  by unfold_locales (simp add: fifo_ops_def split: list.split)

definition queued :: "(nat \<Rightarrow> 'n chan_view) \<Rightarrow> nat list \<Rightarrow> 'n port_packet list" where
  "queued v rs = concat (map (\<lambda>i. cv_queue (v i)) rs)"

definition finished :: "(nat \<Rightarrow> 'n chan_view) \<Rightarrow> nat list \<Rightarrow> bool" where
  "finished v rs \<longleftrightarrow> (\<forall>i \<in> set rs. \<not> cv_tx_open (v i))"

text \<open>The view after the oldest packet of the first channel with one has been taken, and after all have been.\<close>

fun taken :: "nat list \<Rightarrow> (nat \<Rightarrow> 'n chan_view) \<Rightarrow> nat \<Rightarrow> 'n chan_view" where
  "taken [] v = v"
| "taken (i # rs) v = (if cv_queue (v i) = [] then taken rs v else v(i := (v i)\<lparr>cv_queue := tl (cv_queue (v i))\<rparr>))"

definition emptied :: "nat list \<Rightarrow> (nat \<Rightarrow> 'n chan_view) \<Rightarrow> nat \<Rightarrow> 'n chan_view" where
  "emptied rs v = (\<lambda>i. if i \<in> set rs then (v i)\<lparr>cv_queue := []\<rparr> else v i)"

lemma queued_taken: "distinct rs \<Longrightarrow> queued (taken rs v) rs = tl (queued v rs)"
proof (induction rs)
  case (Cons i rs)
  have "queued (v(i := x)) rs = queued v rs" for x
    using Cons.prems by (auto simp: queued_def intro: arg_cong [where f = concat])
  moreover have "cv_queue (taken rs v i) = cv_queue (v i)"
    using Cons.prems by (induction rs) auto
  ultimately show ?case
    using Cons by (cases "cv_queue (v i)") (auto simp: queued_def)
qed (simp add: queued_def)

lemma taken_frame:
  "cv_tx_open (taken rs v i) = cv_tx_open (v i)" "i \<notin> set rs \<Longrightarrow> taken rs v i = v i"
  "(taken rs v i)\<lparr>cv_queue := []\<rparr> = (v i)\<lparr>cv_queue := []\<rparr>"
  by (induction rs) auto

lemma emptied_taken: "emptied rs (taken rs v) = emptied rs v"
  by (auto simp: emptied_def fun_eq_iff taken_frame)

lemma finished_taken [simp]: "finished (taken qs v) rs = finished v rs"
  by (simp add: finished_def taken_frame)

lemma queued_Nil: "queued v rs = [] \<Longrightarrow> emptied rs v = v"
  by (auto simp: queued_def emptied_def fun_eq_iff)

definition links :: "('n, 's) ports_in \<Rightarrow> port_id \<Rightarrow> nat list" where
  "links q p = (case find_input q p of None \<Rightarrow> [] | Some h \<Rightarrow> receivers h)"

lemma queued_append: "queued v (rs @ qs) = queued v rs @ queued v qs"
  by (simp add: queued_def)

lemma emptied_frame:
  assumes "set rs \<inter> set qs = {}"
  shows "queued (emptied rs v) qs = queued v qs" "finished (emptied rs v) qs = finished v qs"
proof -
  have "emptied rs v i = v i" if "i \<in> set qs" for i using that assms by (auto simp: emptied_def)
  then show "queued (emptied rs v) qs = queued v qs" "finished (emptied rs v) qs = finished v qs"
    by (auto simp: queued_def finished_def intro!: arg_cong [where f = concat])
qed

context live_channels
begin

lemma poll_scan_finished:
  assumes "finished (view c) rs" "gone + length rs = n"
  shows "\<exists>c'. poll_scan ops rs gone n c =
      ((case queued (view c) rs of x # xs \<Rightarrow> InputPacket x | [] \<Rightarrow> InputClosed), c') \<and> view c' = taken rs (view c)"
  using assms
proof (induction rs arbitrary: gone c)
  case Nil
  then show ?case by (simp add: queued_def)
next
  case step: (Cons i rs)
  obtain r c1 where r: "ch_poll_recv ops i c = (r, c1)" by fastforce
  show ?case
  proof (cases "cv_queue (view c i)")
    case Nil
    then have "r = PollFailed RecvDisconnected" using r poll_answer [of i c] step.prems(1) by (simp add: finished_def)
    with r poll_fail_view [of i c RecvDisconnected c1] have "view c1 = view c" by simp
    then show ?thesis
      using step.IH [of c1 "Suc gone"] step.prems r \<open>r = _\<close> Nil by (simp add: finished_def queued_def)
  next
    case (Cons x xs)
    then have "r = PollPacket x" using r poll_answer [of i c] by simp
    with r poll_view [of i c x c1] Cons show ?thesis by (simp add: queued_def fun_eq_iff)
  qed
qed

lemma recv_finished:
  assumes "find_input q pid = Some h" "finished (view (chans w)) (receivers h)" "\<not> is_cancelled (signals w) tok"
  shows "\<exists>w'. recv ops q pid tok resumes w =
      (Some (case queued (view (chans w)) (receivers h) of
          x # xs \<Rightarrow> Ok (Some x)
        | [] \<Rightarrow> if receivers h = [] then Ok None else Err (RecvPortDisconnected pid)), w') \<and>
    view (chans w') = taken (receivers h) (view (chans w)) \<and> signals w' = signals w"
proof -
  let ?w = "record_input_queue_pressure ops (in_sink q) (in_context q) h ReceiveAttempted w"
  obtain c where c: "poll_scan ops (receivers h) 0 (length (receivers h)) (chans w) =
      ((case queued (view (chans w)) (receivers h) of x # xs \<Rightarrow> InputPacket x | [] \<Rightarrow> InputClosed), c)"
    "view c = taken (receivers h) (view (chans w))"
    using poll_scan_finished [OF assms(2), of 0] by auto
  show ?thesis
  proof (cases "receivers h = []")
    case True
    then show ?thesis
      using assms(1) by (simp add: recv_def input_recv.simps [of _ _ _ _ ?w] queued_def observe_recv_def Let_def)
  next
    case False
    then show ?thesis
      using assms(1,3) c find_input_id [OF assms(1)]
      by (cases "queued (view (chans w)) (receivers h)")
        (simp_all add: recv_def input_recv.simps [of _ _ _ _ ?w] observe_recv_def Let_def)
  qed
qed

end

end
