(* ===== verification/TestKit.thy ===== *)
theory TestKit
  imports LiveChannels Topology
begin

text \<open>
  The crate \<open>pureflow-test-kit\<close>: builders of workflows and the test doubles of executors.  The helpers of the kit are
  meant for tests, so an invalid argument panics instead of returning an error.

  The locks of the kit guard lists that the doubles append to; the lists are the state of the doubles.  The generator of
  identifiers is the set of the strings it can produce.
\<close>

section \<open>Identifiers\<close>

definition IDENTIFIER_ALPHABET :: "char list" where
  "IDENTIFIER_ALPHABET =
     ''abcdefghijklmnopqrstuvwxyzABCDEFGHIJKLMNOPQRSTUVWXYZ0123456789-_./''"

text \<open>\<open>expect\<close>: an error becomes a panic.\<close>

fun expect :: "('a, 'e) result \<Rightarrow> ('a, 'f) result" where
  "expect (Ok a) = Ok a"
| "expect _ = Panic"

definition kit_workflow_id :: "string \<Rightarrow> (workflow_id, 'e) result" where
  "kit_workflow_id s = expect (new_workflow_id s)"

definition kit_node_id :: "string \<Rightarrow> (node_id, 'e) result" where
  "kit_node_id s = expect (new_node_id s)"

definition kit_port_id :: "string \<Rightarrow> (port_id, 'e) result" where
  "kit_port_id s = expect (new_port_id s)"

definition kit_execution_metadata :: "string \<Rightarrow> (execution_metadata, 'e) result" where
  "kit_execution_metadata s = and_then (expect (new_execution_id s)) (\<lambda>i. Ok (first_attempt i))"

definition valid_identifier_strategy :: "string set" where
  "valid_identifier_strategy = {s. 1 \<le> length s \<and> length s < 16 \<and> set s \<subseteq> set IDENTIFIER_ALPHABET}"

section \<open>Builders\<close>

record node_builder =
  nb_id :: node_id
  nb_inputs :: "port_id list"
  nb_outputs :: "port_id list"

definition new_node_builder :: "string \<Rightarrow> (node_builder, 'e) result" where
  "new_node_builder s = and_then (kit_node_id s) (\<lambda>i. Ok \<lparr>nb_id = i, nb_inputs = [], nb_outputs = []\<rparr>)"

definition nb_input :: "string \<Rightarrow> node_builder \<Rightarrow> (node_builder, 'e) result" where
  "nb_input s b = and_then (kit_port_id s) (\<lambda>p. Ok (b\<lparr>nb_inputs := nb_inputs b @ [p]\<rparr>))"

definition nb_output :: "string \<Rightarrow> node_builder \<Rightarrow> (node_builder, 'e) result" where
  "nb_output s b = and_then (kit_port_id s) (\<lambda>p. Ok (b\<lparr>nb_outputs := nb_outputs b @ [p]\<rparr>))"

definition nb_build :: "node_builder \<Rightarrow> (node_definition, 'e) result" where
  "nb_build b = expect (new_node (nb_id b) (nb_inputs b) (nb_outputs b))"

record workflow_builder =
  wb_id :: workflow_id
  wb_nodes :: "node_definition list"
  wb_edges :: "edge_definition list"

definition new_workflow_builder :: "string \<Rightarrow> (workflow_builder, 'e) result" where
  "new_workflow_builder s = and_then (kit_workflow_id s) (\<lambda>i. Ok \<lparr>wb_id = i, wb_nodes = [], wb_edges = []\<rparr>)"

definition wb_node :: "node_definition \<Rightarrow> workflow_builder \<Rightarrow> workflow_builder" where
  "wb_node n b = b\<lparr>wb_nodes := wb_nodes b @ [n]\<rparr>"

definition kit_endpoint :: "string \<Rightarrow> string \<Rightarrow> (edge_endpoint, 'e) result" where
  "kit_endpoint n p = and_then (kit_node_id n) (\<lambda>i. and_then (kit_port_id p) (\<lambda>q. Ok \<lparr>endpoint_node_id = i, endpoint_port_id = q\<rparr>))"

definition wb_edge :: "string \<Rightarrow> string \<Rightarrow> string \<Rightarrow> string \<Rightarrow> workflow_builder \<Rightarrow> (workflow_builder, 'e) result" where
  "wb_edge source_node source_port target_node target_port b =
     and_then (kit_endpoint source_node source_port) (\<lambda>s.
     and_then (kit_endpoint target_node target_port) (\<lambda>t.
     Ok (b\<lparr>wb_edges := wb_edges b @ [new_edge s t]\<rparr>)))"

definition wb_edge_with_capacity ::
  "string \<Rightarrow> string \<Rightarrow> string \<Rightarrow> string \<Rightarrow> nat \<Rightarrow> workflow_builder \<Rightarrow> (workflow_builder, 'e) result" where
  "wb_edge_with_capacity source_node source_port target_node target_port c b =
     and_then (kit_endpoint source_node source_port) (\<lambda>s.
     and_then (kit_endpoint target_node target_port) (\<lambda>t.
     Ok (b\<lparr>wb_edges := wb_edges b @ [edge_with_capacity s t c]\<rparr>)))"

definition wb_build :: "workflow_builder \<Rightarrow> (workflow_definition, 'e) result" where
  "wb_build b = expect (workflow_from_parts (wb_id b) (wb_nodes b) (wb_edges b))"

section \<open>Executors that record or fail\<close>

record ('n, 's) recording_executor =
  rec_contexts :: "node_context list"
  rec_inputs :: "('n, 's) ports_in list"
  rec_outputs :: "('n, 's) ports_out list"

definition new_recording_executor :: "('n, 's) recording_executor" where
  "new_recording_executor = \<lparr>rec_contexts = [], rec_inputs = [], rec_outputs = []\<rparr>"

definition visited_contexts :: "('n, 's) recording_executor \<Rightarrow> node_context list" where
  "visited_contexts e = rec_contexts e"

definition visited_nodes :: "('n, 's) recording_executor \<Rightarrow> node_id list" where
  "visited_nodes e = map context_node (visited_contexts e)"

definition visited_node_names :: "('n, 's) recording_executor \<Rightarrow> string list" where
  "visited_node_names e = map node_id_str (visited_nodes e)"

definition visited_input_port_names :: "('n, 's) recording_executor \<Rightarrow> string list list" where
  "visited_input_port_names e = map (\<lambda>q. map port_id_str (in_port_ids q)) (rec_inputs e)"

definition visited_output_port_names :: "('n, 's) recording_executor \<Rightarrow> string list list" where
  "visited_output_port_names e = map (\<lambda>p. map port_id_str (out_port_ids p)) (rec_outputs e)"

definition recording_run ::
  "node_context \<Rightarrow> ('n, 's) ports_in \<Rightarrow> ('n, 's) ports_out \<Rightarrow> ('n, 's) recording_executor
   \<Rightarrow> (unit, pureflow_error) result \<times> ('n, 's) recording_executor" where
  "recording_run ctx ins outs e =
     (Ok (), e\<lparr>rec_contexts := rec_contexts e @ [ctx], rec_inputs := rec_inputs e @ [ins], rec_outputs := rec_outputs e @ [outs]\<rparr>)"

record failing_executor =
  fail_error :: pureflow_error

definition new_failing_executor :: "pureflow_error \<Rightarrow> failing_executor" where
  "new_failing_executor e = \<lparr>fail_error = e\<rparr>"

definition failing_execution :: "string \<Rightarrow> failing_executor" where
  "failing_execution m = new_failing_executor (Execution m)"

definition failing_run ::
  "failing_executor \<Rightarrow> node_context \<Rightarrow> ('n, 's) ports_in \<Rightarrow> ('n, 's) ports_out \<Rightarrow> (unit, pureflow_error) result" where
  "failing_run e ctx ins outs = Err (fail_error e)"

section \<open>Executors that move packets\<close>

type_synonym ('c, 's) wait_list = "(('c, 's) world \<Rightarrow> ('c, 's) world) list list"

text \<open>Each \<open>recv\<close> and each \<open>send\<close> takes the next entry of \<open>waits\<close>.\<close>

fun drain_port ::
  "('n, 'c) channel_ops \<Rightarrow> ('n, 's) ports_in \<Rightarrow> port_id \<Rightarrow> cancellation_token \<Rightarrow> 'n port_packet list \<Rightarrow> ('c, 's) wait_list
   \<Rightarrow> ('c, 's) world \<Rightarrow> ('n port_packet list, pureflow_error) result option \<times> ('c, 's) wait_list \<times> ('c, 's) world" where
  "drain_port ops ins port tok packets [] w = (None, [], w)"
| "drain_port ops ins port tok packets (resumes # waits) w =
     (case recv ops ins port tok resumes w of
        (None, w1) \<Rightarrow> (None, waits, w1)
      | (Some (Ok (Some x)), w1) \<Rightarrow> drain_port ops ins port tok (packets @ [x]) waits w1
      | (Some (Ok None), w1) \<Rightarrow> (Some (Ok packets), waits, w1)
      | (Some (Err (RecvPortDisconnected p)), w1) \<Rightarrow> (Some (Ok packets), waits, w1)
      | (Some (Err e), w1) \<Rightarrow> (Some (Err (port_recv_error_to_error e)), waits, w1)
      | (Some Panic, w1) \<Rightarrow> (Some Panic, waits, w1))"

definition test_packet :: "char list \<Rightarrow> ('n port_packet, 'e) result" where
  "test_packet payload =
     and_then (kit_node_id ''source'') (\<lambda>sn. and_then (kit_port_id ''out'') (\<lambda>sp.
     and_then (kit_node_id ''sink'') (\<lambda>tn. and_then (kit_port_id ''in'') (\<lambda>tp.
     and_then (kit_execution_metadata ''test-run'') (\<lambda>x.
     and_then (expect (new_message_id ''test-msg-1'')) (\<lambda>m.
     and_then (kit_workflow_id ''test-flow'') (\<lambda>w.
     Ok \<lparr>envelope_metadata =
           \<lparr>message_id = m, message_workflow = w, message_execution = x,
            message_route = \<lparr>route_source = Some \<lparr>message_node = sn, message_port = sp\<rparr>,
                             route_target = \<lparr>message_node = tn, message_port = tp\<rparr>\<rparr>\<rparr>,
         envelope_payload = Bytes payload\<rparr>)))))))"

record 'n sink_executor =
  received :: "'n port_packet list"

definition new_sink_executor :: "'n sink_executor" where
  "new_sink_executor = \<lparr>received = []\<rparr>"

definition packet_count :: "'n sink_executor \<Rightarrow> nat" where
  "packet_count e = length (received e)"

definition drain_received :: "'n sink_executor \<Rightarrow> 'n port_packet list \<times> 'n sink_executor" where
  "drain_received e = (received e, e\<lparr>received := []\<rparr>)"

fun sink_ports ::
  "('n, 'c) channel_ops \<Rightarrow> ('n, 's) ports_in \<Rightarrow> cancellation_token \<Rightarrow> port_id list \<Rightarrow> 'n sink_executor \<Rightarrow> ('c, 's) wait_list
   \<Rightarrow> ('c, 's) world \<Rightarrow> (unit, pureflow_error) result option \<times> 'n sink_executor \<times> ('c, 's) world" where
  "sink_ports ops ins tok [] e waits w = (Some (Ok ()), e, w)"
| "sink_ports ops ins tok (port # ports) e waits w =
     (case drain_port ops ins port tok [] waits w of
        (Some (Ok packets), waits1, w1) \<Rightarrow>
          sink_ports ops ins tok ports (e\<lparr>received := received e @ packets\<rparr>) waits1 w1
      | (Some (Err f), waits1, w1) \<Rightarrow> (Some (Err f), e, w1)
      | (Some Panic, waits1, w1) \<Rightarrow> (Some Panic, e, w1)
      | (None, waits1, w1) \<Rightarrow> (None, e, w1))"

definition sink_run ::
  "('n, 'c) channel_ops \<Rightarrow> node_context \<Rightarrow> ('n, 's) ports_in \<Rightarrow> 'n sink_executor \<Rightarrow> ('c, 's) wait_list
   \<Rightarrow> ('c, 's) world \<Rightarrow> (unit, pureflow_error) result option \<times> 'n sink_executor \<times> ('c, 's) world" where
  "sink_run ops ctx ins e waits w = sink_ports ops ins (context_token ctx) (in_port_ids ins) e waits w"

record source_executor =
  payloads_by_port :: "(port_id, char list list) btree_map"

definition new_source_executor :: source_executor where
  "new_source_executor = \<lparr>payloads_by_port = []\<rparr>"

definition with_port_payloads :: "string \<Rightarrow> char list list \<Rightarrow> source_executor \<Rightarrow> (source_executor, 'e) result" where
  "with_port_payloads port payloads e =
     and_then (kit_port_id port) (\<lambda>p. Ok (e\<lparr>payloads_by_port := bt_insert p payloads (payloads_by_port e)\<rparr>))"

fun drain_all_ports ::
  "('n, 'c) channel_ops \<Rightarrow> ('n, 's) ports_in \<Rightarrow> cancellation_token \<Rightarrow> port_id list \<Rightarrow> ('c, 's) wait_list \<Rightarrow> ('c, 's) world
   \<Rightarrow> (unit, pureflow_error) result option \<times> ('c, 's) wait_list \<times> ('c, 's) world" where
  "drain_all_ports ops ins tok [] waits w = (Some (Ok ()), waits, w)"
| "drain_all_ports ops ins tok (port # ports) waits w =
     (case drain_port ops ins port tok [] waits w of
        (Some (Ok packets), waits1, w1) \<Rightarrow> drain_all_ports ops ins tok ports waits1 w1
      | (Some (Err f), waits1, w1) \<Rightarrow> (Some (Err f), waits1, w1)
      | (Some Panic, waits1, w1) \<Rightarrow> (Some Panic, waits1, w1)
      | (None, waits1, w1) \<Rightarrow> (None, waits1, w1))"

definition source_packet ::
  "node_context \<Rightarrow> port_id \<Rightarrow> nat \<Rightarrow> char list \<Rightarrow> ('n port_packet, pureflow_error) result" where
  "source_packet ctx out_port index payload =
     (let source = \<lparr>message_node = context_node ctx, message_port = out_port\<rparr>;
          target = \<lparr>message_node = context_node ctx, message_port = out_port\<rparr>
      in and_then
        (map_err (\<lambda>e. Execution (''failed to build test message id: '' @ show_identifier_error e))
          (new_message_id (''test-'' @ node_id_str (context_node ctx) @ ''-'' @ port_id_str out_port @ ''-'' @ show_nat index)))
        (\<lambda>m. Ok
          \<lparr>envelope_metadata =
             \<lparr>message_id = m, message_workflow = context_workflow ctx, message_execution = context_execution ctx,
              message_route = \<lparr>route_source = Some source, route_target = target\<rparr>\<rparr>,
           envelope_payload = Bytes payload\<rparr>))"

text \<open>The two loops over the ports and their payloads, as one list of sends.\<close>

fun send_payloads ::
  "('n, 'c) channel_ops \<Rightarrow> node_context \<Rightarrow> ('n, 's) ports_out \<Rightarrow> (port_id \<times> nat \<times> char list) list \<Rightarrow> ('c, 's) wait_list
   \<Rightarrow> ('c, 's) world \<Rightarrow> (unit, pureflow_error) result option \<times> ('c, 's) world" where
  "send_payloads ops ctx outs [] waits w = (Some (Ok ()), w)"
| "send_payloads ops ctx outs ((port, index, payload) # rest) waits w =
     (case source_packet ctx port index payload of
        Ok x \<Rightarrow>
          (case waits of
             [] \<Rightarrow> (None, w)
           | resumes # waits1 \<Rightarrow>
               (case send ops outs port x (context_token ctx) resumes w of
                  (None, w1) \<Rightarrow> (None, w1)
                | (Some (Ok _), w1) \<Rightarrow> send_payloads ops ctx outs rest waits1 w1
                | (Some (Err e), w1) \<Rightarrow> (Some (Err (port_send_error_to_error e)), w1)
                | (Some Panic, w1) \<Rightarrow> (Some Panic, w1)))
      | Err e \<Rightarrow> (Some (Err e), w)
      | Panic \<Rightarrow> (Some Panic, w))"

definition source_run ::
  "('n, 'c) channel_ops \<Rightarrow> source_executor \<Rightarrow> node_context \<Rightarrow> ('n, 's) ports_in \<Rightarrow> ('n, 's) ports_out \<Rightarrow> ('c, 's) wait_list
   \<Rightarrow> ('c, 's) world \<Rightarrow> (unit, pureflow_error) result option \<times> ('c, 's) world" where
  "source_run ops e ctx ins outs waits w =
     (case drain_all_ports ops ins (context_token ctx) (in_port_ids ins) waits w of
        (Some (Ok _), waits1, w1) \<Rightarrow>
          send_payloads ops ctx outs
            (concat (map (\<lambda>(port, payloads). map (\<lambda>(i, b). (port, i, b)) (enumerate 0 payloads)) (payloads_by_port e)))
            waits1 w1
      | (r, waits1, w1) \<Rightarrow> (r, w1))"

section \<open>Draining\<close>

definition source_id :: "node_context \<Rightarrow> port_id \<Rightarrow> nat \<Rightarrow> string" where
  "source_id ctx p i = ''test-'' @ node_id_str (context_node ctx) @ ''-'' @ port_id_str p @ ''-'' @ show_nat i"

definition source_message :: "node_context \<Rightarrow> port_id \<Rightarrow> nat \<Rightarrow> char list \<Rightarrow> 'n port_packet" where
  "source_message ctx p i b =
     \<lparr>envelope_metadata =
        \<lparr>message_id = MessageId (source_id ctx p i), message_workflow = context_workflow ctx,
         message_execution = context_execution ctx,
         message_route = \<lparr>route_source = Some \<lparr>message_node = context_node ctx, message_port = p\<rparr>,
                          route_target = \<lparr>message_node = context_node ctx, message_port = p\<rparr>\<rparr>\<rparr>,
      envelope_payload = Bytes b\<rparr>"

lemma source_packet_Ok:
  "valid_identifier (source_id ctx p i) \<Longrightarrow> source_packet ctx p i b = Ok (source_message ctx p i b)"
  by (simp add: source_packet_def source_message_def source_id_def new_message_id_def new_id_def id_simps Let_def)

context live_channels
begin

lemma drain_port_finished:
  assumes "find_input q pid = Some h" "distinct (receivers h)" "finished (view (chans w)) (receivers h)"
    and "\<not> is_cancelled (signals w) tok" "length (queued (view (chans w)) (receivers h)) < length waits"
  shows "\<exists>w'. drain_port ops q pid tok acc waits w =
      (Some (Ok (acc @ queued (view (chans w)) (receivers h))),
       drop (Suc (length (queued (view (chans w)) (receivers h)))) waits, w') \<and>
    view (chans w') = emptied (receivers h) (view (chans w)) \<and> signals w' = signals w"
  using assms(3-5)
proof (induction waits arbitrary: acc w)
  case Nil
  then show ?case by simp
next
  case step: (Cons resumes waits)
  obtain w1 where w1: "recv ops q pid tok resumes w =
      (Some (case queued (view (chans w)) (receivers h) of
          x # xs \<Rightarrow> Ok (Some x)
        | [] \<Rightarrow> if receivers h = [] then Ok None else Err (RecvPortDisconnected pid)), w1)"
    "view (chans w1) = taken (receivers h) (view (chans w))" "signals w1 = signals w"
    using recv_finished [OF assms(1) step.prems(1,2)] by blast
  show ?case
  proof (cases "queued (view (chans w)) (receivers h)")
    case Nil
    moreover have "view (chans w1) = emptied (receivers h) (view (chans w))"
      using w1(2) emptied_taken [of "receivers h" "view (chans w)"] queued_Nil [of "view (chans w1)" "receivers h"]
        queued_taken [OF assms(2), of "view (chans w)"] Nil by simp
    ultimately show ?thesis using w1 by simp
  next
    case (Cons x xs)
    then have q: "queued (view (chans w1)) (receivers h) = xs"
      using queued_taken [OF assms(2), of "view (chans w)"] w1(2) by simp
    obtain w' where "drain_port ops q pid tok (acc @ [x]) waits w1 =
        (Some (Ok ((acc @ [x]) @ xs)), drop (Suc (length xs)) waits, w')"
      "view (chans w') = emptied (receivers h) (view (chans w1))" "signals w' = signals w1"
      using step.IH [of w1 "acc @ [x]"] step.prems w1(2,3) q Cons by auto
    then show ?thesis using w1 Cons by (simp add: emptied_taken)
  qed
qed

lemma sink_ports_finished:
  assumes "\<forall>p \<in> set ports. find_input q p \<noteq> None" "distinct (concat (map (links q) ports))"
    and "finished (view (chans w)) (concat (map (links q) ports))" "\<not> is_cancelled (signals w) tok"
    and "length (queued (view (chans w)) (concat (map (links q) ports))) + length ports \<le> length waits"
  shows "\<exists>w'. sink_ports ops q tok ports e waits w =
    (Some (Ok ()), e\<lparr>received := received e @ queued (view (chans w)) (concat (map (links q) ports))\<rparr>, w')"
  using assms
proof (induction ports arbitrary: e waits w)
  case Nil
  then show ?case by (simp add: queued_def)
next
  case (Cons p ports)
  let ?rest = "concat (map (links q) ports)"
  obtain h where h: "find_input q p = Some h" "links q p = receivers h" using Cons.prems(1) by (auto simp: links_def)
  have d: "distinct (receivers h)" "distinct ?rest" "set (receivers h) \<inter> set ?rest = {}"
    using Cons.prems(2) h(2) by auto
  have f: "finished (view (chans w)) (receivers h)" "finished (view (chans w)) ?rest"
    using Cons.prems(3) h(2) by (auto simp: finished_def)
  have n: "length (queued (view (chans w)) (receivers h)) + length (queued (view (chans w)) ?rest) + Suc (length ports) \<le> length waits"
    using Cons.prems(5) h(2) by (simp add: queued_append)
  then have "length (queued (view (chans w)) (receivers h)) < length waits" by simp
  from drain_port_finished [OF h(1) d(1) f(1) Cons.prems(4) this, of "[]"] obtain w1 where
    w1: "drain_port ops q p tok [] waits w = (Some (Ok (queued (view (chans w)) (receivers h))),
       drop (Suc (length (queued (view (chans w)) (receivers h)))) waits, w1)"
    "view (chans w1) = emptied (receivers h) (view (chans w))" "signals w1 = signals w"
    by auto
  have same: "queued (view (chans w1)) ?rest = queued (view (chans w)) ?rest"
    "finished (view (chans w1)) ?rest = finished (view (chans w)) ?rest"
    using emptied_frame [OF d(3)] w1(2) by simp_all
  show ?case
    using Cons.IH [of w1 "drop (Suc (length (queued (view (chans w)) (receivers h)))) waits"
        "e\<lparr>received := received e @ queued (view (chans w)) (receivers h)\<rparr>"]
      Cons.prems(1,4) d(2) f(2) n w1 same h(2)
    by (auto simp: queued_append)
qed

end

context bounded_channels
begin

lemma send_payloads_now:
  assumes "find_output outs p = Some h" "out_validator outs = None"
    and "\<not> is_cancelled (signals w) (context_token ctx)"
    and "list_all (\<lambda>(i, b). valid_identifier (source_id ctx p i)) xs"
    and "room_for (length xs) (view (chans w)) h" "length xs \<le> length waits"
  shows "\<exists>w'. send_payloads ops ctx outs (map (Pair p) xs) waits w = (Some (Ok ()), w') \<and>
    view (chans w') = deliver_all (senders h) (map (\<lambda>(i, b). source_message ctx p i b) xs) (view (chans w)) \<and>
    signals w' = signals w"
  using assms(3-6)
proof (induction xs arbitrary: waits w)
  case Nil
  then show ?case by simp
next
  case (Cons ib xs)
  obtain i b where ib: "ib = (i, b)" by fastforce
  let ?x = "source_message ctx p i b :: 'n port_packet"
  obtain resumes rest where waits: "waits = resumes # rest" using Cons.prems(4) by (cases waits) auto
  have x: "source_packet ctx p i b = Ok ?x"
    using Cons.prems(2) by (auto simp: ib intro: source_packet_Ok)
  have room: "has_room (view (chans w)) h" "room_for (length xs) (deliver (senders h) ?x (view (chans w))) h"
    using room_for_deliver Cons.prems(3) by auto
  have acc: "packet_accepted outs p ?x" using assms(2) by (simp add: packet_accepted_def)
  obtain w1 where w1: "send ops outs p ?x (context_token ctx) resumes w = (Some (Ok ()), w1)"
    "view (chans w1) = deliver (senders h) ?x (view (chans w))" "signals w1 = signals w"
    using send_now [OF assms(1) Cons.prems(1) room(1) acc, of resumes] by (metis prod.collapse)
  from Cons.IH [of w1 rest] Cons.prems w1 room(2) obtain w' where
    "send_payloads ops ctx outs (map (Pair p) xs) rest w1 = (Some (Ok ()), w')"
    "view (chans w') = deliver_all (senders h) (map (\<lambda>(i, b). source_message ctx p i b) xs) (view (chans w1))"
    "signals w' = signals w1"
    by (auto simp: waits)
  then show ?case using x w1 by (simp add: waits ib)
qed

end

section \<open>Properties\<close>

lemma deliver_all_queue: "cv_queue (deliver_all [i] xs v i) = cv_queue (v i) @ xs"
  by (induction xs arbitrary: v) (simp_all add: deliver_def)

text \<open>
  what the source double sends reaches the sink double.  The source has payloads for one port, joined by one edge with
  enough room to an input port of the sink; the source runs, its senders are dropped, the sink runs.  Both end with
  success, and the sink has received exactly the payloads of the source, in order, each marked with the node and port it
  came from.
\<close>

theorem source_reaches_sink:
  assumes "live_channels ops view"
    and "payloads_by_port src = [(p, payloads)]" and "in_port_ids no_inputs = []"
    and "find_output outs p = Some h" and "senders h = [i]" and "out_validator outs = None"
    and "in_port_ids ins = [r]" and "find_input ins r = Some g" and "receivers g = [i]"
    and "cv_queue (view (chans w) i) = []" and "cv_room (view (chans w) i) (length payloads)"
    and "\<forall>k < length payloads. valid_identifier (source_id ctx p k)"
    and "\<not> is_cancelled (signals w) (context_token ctx)" and "length payloads \<le> length waits"
    and "source_run ops src ctx no_inputs outs waits w = (result, w1)"
    and "view (chans w2) i = (view (chans w1) i)\<lparr>cv_tx_open := False\<rparr>"
    and "\<not> is_cancelled (signals w2) (context_token ctx')" and "length payloads < length waits'"
  shows "result = Some (Ok ()) \<and>
    (\<exists>e w3. sink_run ops ctx' ins new_sink_executor waits' w2 = (Some (Ok ()), e, w3) \<and>
       map envelope_payload (received e) = map Bytes payloads \<and>
       list_all (\<lambda>x. route_source (message_route (envelope_metadata x)) =
         Some \<lparr>message_node = context_node ctx, message_port = p\<rparr>) (received e))"
proof -
  have b: "bounded_channels ops view" using assms(1) by (rule live_channels.axioms(1))
  let ?xs = "map (\<lambda>(k, b). source_message ctx p k b) (enumerate 0 payloads)"
  have "room_for (length (enumerate 0 payloads)) (view (chans w)) h" using assms(5,11) by (simp add: room_for_def)
  moreover have "list_all (\<lambda>(k, b). valid_identifier (source_id ctx p k)) (enumerate 0 payloads)"
    using assms(12) by (auto simp: list_all_iff in_set_enumerate_eq)
  ultimately obtain v where v: "send_payloads ops ctx outs (map (Pair p) (enumerate 0 payloads)) waits w = (Some (Ok ()), v)"
    "view (chans v) = deliver_all [i] ?xs (view (chans w))"
    using bounded_channels.send_payloads_now [OF b assms(4,6,13)] assms(5,14) by (metis length_enumerate)
  have "map (\<lambda>(k, b). (p, k, b)) (enumerate 0 payloads) = map (Pair p) (enumerate 0 payloads)" by auto
  with v(1) assms(2,3,15) have r: "result = Some (Ok ())" "w1 = v" by (simp_all add: source_run_def)
  have "queued (view (chans w2)) [i] = ?xs"
    using assms(10,16) v(2) r(2) by (simp add: queued_def deliver_all_queue)
  moreover have "finished (view (chans w2)) [i]" using assms(16) by (simp add: finished_def)
  ultimately obtain w3 where "sink_run ops ctx' ins new_sink_executor waits' w2 = (Some (Ok ()), \<lparr>received = ?xs\<rparr>, w3)"
    using live_channels.sink_ports_finished [OF assms(1), of "[r]" ins w2 "context_token ctx'" waits' new_sink_executor]
      assms(7-9,17,18)
    by (auto simp: sink_run_def links_def new_sink_executor_def)
  moreover have "map envelope_payload ?xs = map Bytes payloads"
    by (rule nth_equalityI) (simp_all add: nth_enumerate_eq source_message_def)
  ultimately show ?thesis
    using r(1) by (auto simp: source_message_def list_all_iff)
qed

definition kit_source :: source_executor where
  "kit_source = \<lparr>payloads_by_port = [(PortId ''out'', [''one'', ''two''])]\<rparr>"

definition kit_in :: "(unit, unit) ports_in" where
  "kit_in = ports_in_from_handles [PortId ''in''] [input_connected (PortId ''in'') 0]"

definition kit_out :: "(unit, unit) ports_out" where
  "kit_out = ports_out_from_handles [PortId ''out''] [output_connected (PortId ''out'') 0]"

definition kit_world :: "unit fifo \<Rightarrow> (unit fifo, unit) world" where
  "kit_world c = \<lparr>chans = c, sink_state = (), signals = [None]\<rparr>"

definition kit_sent :: "(unit, pureflow_error) result option \<times> (unit fifo, unit) world" where
  "kit_sent = source_run fifo_ops kit_source router_context (new_ports_in []) kit_out [[], []]
     (kit_world \<lparr>fifo_next = 1, fifo_chan = (\<lambda>_. empty_view 2)\<rparr>)"

text \<open>Between the two runs the sender of the edge is dropped.\<close>

theorem source_reaches_sink_witness:
  "\<exists>e w3. sink_run fifo_ops router_context kit_in new_sink_executor [[], [], []]
      (kit_world (fifo_upd 0 (\<lambda>v. v\<lparr>cv_tx_open := False\<rparr>) (chans (snd kit_sent)))) = (Some (Ok ()), e, w3)
    \<and> map envelope_payload (received e) = [Bytes ''one'', Bytes ''two'']"
proof -
  let ?w = "kit_world \<lparr>fifo_next = 1, fifo_chan = (\<lambda>_. empty_view 2)\<rparr>"
    and ?w2 = "kit_world (fifo_upd 0 (\<lambda>v. v\<lparr>cv_tx_open := False\<rparr>) (chans (snd kit_sent)))"
    and ?h = "\<lparr>out_port_id = PortId ''out'', senders = [0]\<rparr>" and ?g = "\<lparr>in_port_id = PortId ''in'', receivers = [0]\<rparr>"
  have ports: "payloads_by_port kit_source = [(PortId ''out'', [''one'', ''two''])]"
    "in_port_ids (new_ports_in [] :: (unit, unit) ports_in) = []" "find_output kit_out (PortId ''out'') = Some ?h" "senders ?h = [0]"
    "out_validator kit_out = None" "in_port_ids kit_in = [PortId ''in'']" "find_input kit_in (PortId ''in'') = Some ?g"
    "receivers ?g = [0]"
    by (simp_all add: kit_source_def new_ports_in_def kit_out_def kit_in_def find_output_from_handles find_input_from_handles
        out_links_def in_links_def output_connected_def input_connected_def)
      (simp_all add: ports_in_from_handles_def ports_out_from_handles_def)
  have room: "cv_queue (fifo_chan (chans ?w) 0) = []" "cv_room (fifo_chan (chans ?w) 0) (length [''one'', ''two''])"
    by (simp_all add: kit_world_def empty_view_def cv_room_def)
  have ids: "\<forall>k < length [''one'', ''two'']. valid_identifier (source_id router_context (PortId ''out'') k)"
    by (auto simp: less_Suc_eq source_id_def router_context_def ascii_graphic_def byte_def show_nat.simps [of 0]
        show_nat.simps [of "Suc 0"] digit_def intro!: valid_identifier_ascii)
  have quiet: "\<not> is_cancelled (signals (kit_world c)) (context_token router_context)" for c
    by (simp add: kit_world_def is_cancelled_def router_context_def token_request_def)
  have run: "source_run fifo_ops kit_source router_context (new_ports_in []) kit_out [[], []] ?w = (fst kit_sent, snd kit_sent)"
    by (simp add: kit_sent_def)
  have closed: "fifo_chan (chans ?w2) 0 = (fifo_chan (chans (snd kit_sent)) 0)\<lparr>cv_tx_open := False\<rparr>"
    by (simp add: kit_world_def fifo_upd_def)
  show ?thesis
    using source_reaches_sink [OF fifo_live.live_channels_axioms ports room ids quiet _ run closed quiet, of "[[], [], []]"]
    by auto
qed

section \<open>Generated identifiers\<close>

lemma alphabet_graphic: "set s \<subseteq> set IDENTIFIER_ALPHABET \<Longrightarrow> s \<noteq> [] \<Longrightarrow> length s \<le> 256 \<Longrightarrow> ascii_graphic s"
  unfolding ascii_graphic_def IDENTIFIER_ALPHABET_def by (auto simp: list_all_iff byte_def)

text \<open>No helper panics on an identifier of the generator.\<close>

lemma generated_identifiers_accepted:
  assumes "s \<in> valid_identifier_strategy"
  shows "kit_workflow_id s = Ok (WorkflowId s)" "kit_node_id s = Ok (NodeId s)" "kit_port_id s = Ok (PortId s)"
    "kit_execution_metadata s = Ok (first_attempt (ExecutionId s))"
proof -
  have "ascii_graphic s"
    using assms by (intro alphabet_graphic) (auto simp: valid_identifier_strategy_def)
  then have "valid_identifier s" by (rule valid_identifier_ascii)
  then show "kit_workflow_id s = Ok (WorkflowId s)" "kit_node_id s = Ok (NodeId s)" "kit_port_id s = Ok (PortId s)"
    "kit_execution_metadata s = Ok (first_attempt (ExecutionId s))"
    using workflow_ident.round_trip [of "WorkflowId s"] node_ident.round_trip [of "NodeId s"]
      port_ident.round_trip [of "PortId s"] execution_ident.round_trip [of "ExecutionId s"]
    by (simp_all add: kit_workflow_id_def kit_node_id_def kit_port_id_def kit_execution_metadata_def)
qed

end
