(* ===== verification/JsonlLog.thy ===== *)
theory JsonlLog
  imports CliRun
begin

text \<open>
  The rest of \<open>error.rs\<close>, of the JSONL sink in \<open>metadata.rs\<close> and of \<open>pureflow-runtime\<close>: the causes of an error and the conversions into the
  shared error, the construction and flush of the sink, and what its log holds.  A lock is poisoned only after a panic
  of another thread; that state is the flag of the functions that take the lock.
\<close>

section \<open>Constructors, conversions and causes of errors\<close>

definition execution_error :: "string \<Rightarrow> pureflow_error" where
  "execution_error m = Execution m"

definition cancelled_error :: "string \<Rightarrow> pureflow_error" where
  "cancelled_error m = Cancellation m"

definition lifecycle_error :: "string \<Rightarrow> pureflow_error" where
  "lifecycle_error m = Lifecycle m"

definition metadata_error :: "string \<Rightarrow> pureflow_error" where
  "metadata_error m = Metadata m"

definition from_identifier_error :: "identifier_error \<Rightarrow> pureflow_error" where
  "from_identifier_error e = Validation (IdentifierInvalid e)"

definition from_capability_error :: "capability_validation_error \<Rightarrow> pureflow_error" where
  "from_capability_error e = Validation (CapabilityInvalid e)"

datatype join_error = JoinCancelled string | JoinPanicked string | JoinPolledAfterCompletion

fun from_join_error :: "join_error \<Rightarrow> pureflow_error" where
  "from_join_error (JoinCancelled r) = cancelled_error r"
| "from_join_error (JoinPanicked p) = execution_error (''asupersync task panicked: '' @ p)"
| "from_join_error JoinPolledAfterCompletion = execution_error ''asupersync task join polled after completion''"

text \<open>An error behind \<open>dyn Error\<close>, and its cause.\<close>

datatype dyn_error =
  DynPureflow pureflow_error
| DynValidation validation_error
| DynIdentifier identifier_error
| DynCapability capability_validation_error
| DynExecution string
| DynCancellation string
| DynLifecycle string
| DynMetadata string

fun error_source :: "dyn_error \<Rightarrow> dyn_error option" where
  "error_source (DynPureflow (Validation e)) = Some (DynValidation e)"
| "error_source (DynPureflow (Execution m)) = Some (DynExecution m)"
| "error_source (DynPureflow (Cancellation r)) = Some (DynCancellation r)"
| "error_source (DynPureflow (Lifecycle m)) = Some (DynLifecycle m)"
| "error_source (DynPureflow (Metadata m)) = Some (DynMetadata m)"
| "error_source (DynValidation (IdentifierInvalid e)) = Some (DynIdentifier e)"
| "error_source (DynValidation (CapabilityInvalid e)) = Some (DynCapability e)"
| "error_source _ = None"

fun show_dyn_error :: "dyn_error \<Rightarrow> string" where
  "show_dyn_error (DynPureflow e) = show_pureflow_error e"
| "show_dyn_error (DynValidation e) = show_validation_error e"
| "show_dyn_error (DynIdentifier e) = show_identifier_error e"
| "show_dyn_error (DynCapability e) = show_capability_error e"
| "show_dyn_error (DynExecution m) = ''node execution failed: '' @ m"
| "show_dyn_error (DynCancellation r) = ''execution cancelled: '' @ r"
| "show_dyn_error (DynLifecycle m) = ''lifecycle observation failed: '' @ m"
| "show_dyn_error (DynMetadata m) = ''metadata collection failed: '' @ m"

text \<open>The text of an error ends with the text of its cause, so a report that prints only the outermost error loses nothing.\<close>

lemma cause_in_text:
  assumes "error_source e = Some c"
  shows "\<exists>prefix. show_dyn_error e = prefix @ show_dyn_error c"
  using assms by (cases e rule: error_source.cases) (auto simp: show_pureflow_error_def)

lemma validation_only_cause_of_cause:
  "Option.bind (error_source (DynPureflow e)) error_source \<noteq> None \<longleftrightarrow> retry_disposition_of e = RetryNever"
proof (cases e)
  case (Validation v)
  then show ?thesis by (cases v) simp_all
qed simp_all

section \<open>The runtime wrapper\<close>

text \<open>\<open>AsupersyncRuntime::new\<close>: the builder of \<open>asupersync\<close> is a parameter, its result the runtime or the text of its error.\<close>

definition runtime_from_builder :: "('r, string) result \<Rightarrow> ('r, pureflow_error) result" where
  "runtime_from_builder built = map_err (\<lambda>m. execution_error (''failed to build asupersync runtime: '' @ m)) built"

section \<open>The JSONL sink\<close>

definition jsonl_lock_error :: pureflow_error where
  "jsonl_lock_error = metadata_error ''metadata JSONL writer lock poisoned''"

definition tiered_lock_error :: pureflow_error where
  "tiered_lock_error = metadata_error ''tiered metadata policy lock poisoned''"

definition lock_writer :: "bool \<Rightarrow> 'w \<Rightarrow> ('w, pureflow_error) result" where
  "lock_writer poisoned w = (if poisoned then Err jsonl_lock_error else Ok w)"

definition jsonl_into_inner :: "bool \<Rightarrow> 'w \<Rightarrow> ('w, pureflow_error) result" where
  "jsonl_into_inner poisoned w = (if poisoned then Err jsonl_lock_error else Ok w)"

definition jsonl_flush :: "('w \<Rightarrow> (unit, string) result \<times> 'w) \<Rightarrow> bool \<Rightarrow> 'w \<Rightarrow> (unit, pureflow_error) result \<times> 'w" where
  "jsonl_flush flush poisoned w =
     (case lock_writer poisoned w of
        Ok v \<Rightarrow> (let (r, v1) = flush v in (map_err (\<lambda>m. metadata_error (''failed to flush metadata JSONL: '' @ m)) r, v1))
      | Err e \<Rightarrow> (Err e, w)
      | Panic \<Rightarrow> (Panic, w))"

definition jsonl_create :: "('p \<Rightarrow> ('w, string) result) \<Rightarrow> 'p \<Rightarrow> ('w, pureflow_error) result" where
  "jsonl_create create path =
     map_err (\<lambda>m. metadata_error (''failed to create metadata JSONL file: '' @ m)) (create path)"

definition tiered_new :: "'s \<Rightarrow> 's tiered_sink" where
  "tiered_new s = tiered_with_policy s control_only"

definition tiered_into_inner :: "'s tiered_sink \<Rightarrow> 's" where
  "tiered_into_inner t = inner_state t"

text \<open>A writer to memory (\<open>Vec<u8>\<close>, as the command line uses it) never fails.\<close>

definition vec_write :: "string \<Rightarrow> string \<Rightarrow> (unit, string) result \<times> string" where
  "vec_write s w = (Ok (), w @ s)"

fun record_log :: "(nat \<Rightarrow> 'n) \<Rightarrow> ('n json \<Rightarrow> string) \<Rightarrow> (signal_store \<times> 'n metadata_record) list \<Rightarrow> string \<Rightarrow> string" where
  "record_log mk encode [] w = w"
| "record_log mk encode ((st, r) # rs) w = record_log mk encode rs (snd (jsonl_record mk encode vec_write st r w))"

text \<open>The lines of a text whose last line is ended.\<close>

fun log_lines :: "string \<Rightarrow> string \<Rightarrow> string list" where
  "log_lines line [] = []"
| "log_lines line (c # cs) = (if c = CHR 0x0A then line # log_lines [] cs else log_lines (line @ [c]) cs)"

abbreviation log_line :: "(nat \<Rightarrow> 'n) \<Rightarrow> ('n json \<Rightarrow> string) \<Rightarrow> signal_store \<times> 'n metadata_record \<Rightarrow> string" where
  "log_line mk encode \<equiv> (\<lambda>(st, r). encode (metadata_record_to_json_value mk st r))"

lemma newline_char: "char_of (10 :: nat) = CHR 0x0A"
  by (simp add: char_of_eq_iff)

lemma record_log_eq: "record_log mk encode rs w = w @ concat (map (\<lambda>x. log_line mk encode x @ [CHR 0x0A]) rs)"
  by (induction rs arbitrary: w) (auto simp: jsonl_record_def vec_write_def newline_char)

lemma log_lines_line: "CHR 0x0A \<notin> set s \<Longrightarrow> log_lines line (s @ CHR 0x0A # cs) = (line @ s) # log_lines [] cs"
  by (induction s arbitrary: line) auto

lemma log_lines_concat:
  "\<forall>s \<in> set ss. CHR 0x0A \<notin> set s \<Longrightarrow> log_lines [] (concat (map (\<lambda>s. s @ [CHR 0x0A]) ss)) = ss"
  by (induction ss) (auto simp: log_lines_line)

lemma line_count_concat:
  "\<forall>s \<in> set ss. CHR 0x0A \<notin> set s \<Longrightarrow> line_count (concat (map (\<lambda>s. s @ [CHR 0x0A]) ss)) = length ss"
proof (induction ss rule: rev_induct)
  case Nil
  then show ?case by (simp add: line_count_def)
next
  case (snoc s ss)
  have "filter (\<lambda>c. c = CHR 0x0A) s = []" using snoc.prems by (auto simp: filter_empty_conv)
  moreover have "length (filter (\<lambda>c. c = CHR 0x0A) (concat (map (\<lambda>s. s @ [CHR 0x0A]) ss))) = length ss"
    using snoc.prems by (induction ss) (auto simp: filter_empty_conv)
  ultimately show ?case by (simp add: line_count_def)
qed

text \<open>
  C40: the JSONL log can be read back.  The encoder writes each record on one line and can be inverted there.  Then the log of a
  sequence of records has one line for each record, in order, which decodes to the projection of that record, and the
  count of lines that \<open>run\<close> reports is the number of records.
\<close>

theorem jsonl_log_readable:
  assumes "\<forall>x \<in> set rs. CHR 0x0A \<notin> set (log_line mk encode x)"
    and "\<forall>(st, r) \<in> set rs. decode (encode (metadata_record_to_json_value mk st r)) = metadata_record_to_json_value mk st r"
  shows "map decode (log_lines [] (record_log mk encode rs [])) = map (\<lambda>(st, r). metadata_record_to_json_value mk st r) rs
    \<and> line_count (record_log mk encode rs []) = length rs"
proof -
  have eq: "record_log mk encode rs [] = concat (map (\<lambda>s. s @ [CHR 0x0A]) (map (log_line mk encode) rs))"
    by (simp add: record_log_eq comp_def)
  have one: "\<forall>s \<in> set (map (log_line mk encode) rs). CHR 0x0A \<notin> set s" using assms(1) by auto
  have "log_lines [] (record_log mk encode rs []) = map (log_line mk encode) rs"
    unfolding eq by (rule log_lines_concat [OF one])
  moreover have "line_count (record_log mk encode rs []) = length rs"
    unfolding eq using line_count_concat [OF one] by simp
  ultimately show ?thesis using assms(2) by (auto simp: case_prod_beta)
qed

definition logged_context :: node_context where
  "logged_context = \<lparr>context_workflow = WorkflowId ''flow'', context_node = NodeId ''a'',
     context_execution = first_attempt (ExecutionId ''run''), context_token = CancellationToken 0\<rparr>"

definition logged :: "(signal_store \<times> unit metadata_record) list" where
  "logged = [([None], LifecycleRecord \<lparr>event_kind = NodeStarted, event_context = logged_context\<rparr>),
     ([None], LifecycleRecord \<lparr>event_kind = NodeCompleted, event_context = logged_context\<rparr>)]"

abbreviation logged_json :: "nat \<Rightarrow> unit json" where
  "logged_json i \<equiv> (\<lambda>(st, r). metadata_record_to_json_value (\<lambda>_. ()) st r) (logged ! i)"

definition logged_encode :: "unit json \<Rightarrow> string" where
  "logged_encode v = (if v = logged_json 0 then ''{0}'' else ''{1}'')"

definition logged_decode :: "string \<Rightarrow> unit json" where
  "logged_decode s = (if s = ''{0}'' then logged_json 0 else logged_json 1)"

theorem jsonl_log_readable_witness:
  "map logged_decode (log_lines [] (record_log (\<lambda>_. ()) logged_encode logged [])) = [logged_json 0, logged_json 1]
   \<and> line_count (record_log (\<lambda>_. ()) logged_encode logged []) = 2"
proof -
  have "\<forall>x \<in> set logged. CHR 0x0A \<notin> set (log_line (\<lambda>_. ()) logged_encode x)"
    by (auto simp: logged_encode_def split: prod.split)
  moreover have "\<forall>(st, r) \<in> set logged.
      logged_decode (logged_encode (metadata_record_to_json_value (\<lambda>_. ()) st r)) = metadata_record_to_json_value (\<lambda>_. ()) st r"
    by (simp add: logged_def logged_decode_def logged_encode_def)
  ultimately show ?thesis
    using jsonl_log_readable [where mk = "\<lambda>_. ()" and encode = logged_encode and decode = logged_decode and rs = logged] by (simp add: logged_def)
qed

end
