(* ===== verification/BatchNode.thy ===== *)
theory BatchNode
  imports LiveChannels EngineRunProps UppercaseGuest
begin

text \<open>
  Batch nodes of the engine on inputs whose senders have ended: the whole input is drained into one batch, the batch is
  handed to the executor, and its output is sent.
\<close>

section \<open>Draining all ports\<close>

definition available :: "(nat \<Rightarrow> 'n chan_view) \<Rightarrow> input_port_handle list \<Rightarrow> (port_id \<times> 'n port_packet) list" where
  "available v hs = concat (map (\<lambda>h. map (Pair (in_port_id h)) (queued v (receivers h))) hs)"

fun taken_ports :: "input_port_handle list \<Rightarrow> (nat \<Rightarrow> 'n chan_view) \<Rightarrow> nat \<Rightarrow> 'n chan_view" where
  "taken_ports [] v = v"
| "taken_ports (h # hs) v = (if queued v (receivers h) = [] then taken_ports hs v else taken (receivers h) v)"

abbreviation all_receivers :: "input_port_handle list \<Rightarrow> nat list" where
  "all_receivers hs \<equiv> concat (map receivers hs)"

lemma taken_nothing: "queued v rs = [] \<Longrightarrow> taken rs v = v"
  by (induction rs) (auto simp: queued_def fun_eq_iff)

lemma taken_ports_frame: "i \<notin> set (all_receivers hs) \<Longrightarrow> taken_ports hs v i = v i"
  by (induction hs) (auto simp: taken_frame(2))

lemma finished_taken_ports: "finished (taken_ports hs v) rs = finished v rs"
  by (induction hs) auto

lemma queued_cong: "(\<And>i. i \<in> set rs \<Longrightarrow> v i = u i) \<Longrightarrow> queued v rs = queued u rs"
  by (auto simp: queued_def intro!: arg_cong [where f = concat])

lemma available_taken: "distinct (all_receivers hs) \<Longrightarrow> available (taken_ports hs v) hs = tl (available v hs)"
proof (induction hs)
  case (Cons h hs)
  have apart: "set (receivers h) \<inter> set (all_receivers hs) = {}" using Cons.prems by auto
  show ?case
  proof (cases "queued v (receivers h)")
    case Nil
    have "taken_ports hs v i = v i" if "i \<in> set (receivers h)" for i
      using that apart by (intro taken_ports_frame) blast
    then have "queued (taken_ports hs v) (receivers h) = queued v (receivers h)" by (rule queued_cong)
    with Nil Cons show ?thesis by (simp add: available_def)
  next
    case (Cons x xs)
    have "queued (taken (receivers h) v) (receivers g) = queued v (receivers g)" if "g \<in> set hs" for g
      using apart that by (intro queued_cong taken_frame(2)) auto
    then have "available (taken (receivers h) v) hs = available v hs"
      by (auto simp: available_def intro!: arg_cong [where f = concat])
    moreover have "queued (taken (receivers h) v) (receivers h) = xs"
      using queued_taken [of "receivers h" v] \<open>distinct (all_receivers (h # hs))\<close> Cons by simp
    ultimately show ?thesis using Cons by (simp add: available_def)
  qed
qed (simp add: available_def)

context live_channels
begin

lemma poll_ports_finished:
  assumes "finished (view (chans w)) (all_receivers hs)" "gone + length hs = n"
  shows "\<exists>w'. poll_ports ops q hs gone n w =
      (Some (Ok (case available (view (chans w)) hs of [] \<Rightarrow> None | px # _ \<Rightarrow> Some px)), w') \<and>
    view (chans w') = taken_ports hs (view (chans w)) \<and> signals w' = signals w"
  using assms
proof (induction hs arbitrary: gone w)
  case Nil
  then show ?case by (simp add: available_def)
next
  case (Cons h hs)
  have f: "finished (view (chans w)) (receivers h)" "finished (view (chans w)) (all_receivers hs)"
    using Cons.prems(1) by (auto simp: finished_def)
  obtain c where c: "poll_any ops h (chans w) =
      ((case queued (view (chans w)) (receivers h) of x # xs \<Rightarrow> InputPacket x | [] \<Rightarrow> InputClosed), c)"
    "view c = taken (receivers h) (view (chans w))"
    using poll_scan_finished [OF f(1), of 0 "length (receivers h)"]
    by (cases "receivers h = []") (auto simp: poll_any_def queued_def)
  show ?case
  proof (cases "queued (view (chans w)) (receivers h)")
    case Nil
    let ?w = "record_input_queue_pressure ops (in_sink q) (in_context q) h ReceiveClosed (w\<lparr>chans := c\<rparr>)"
    have same: "view (chans ?w) = view (chans w)" "signals ?w = signals w" using c(2) Nil by (simp_all add: taken_nothing)
    from Cons.IH [of ?w "gone + 1"] Cons.prems(2) f(2) same obtain w' where
      "poll_ports ops q hs (gone + 1) n ?w =
         (Some (Ok (case available (view (chans w)) hs of [] \<Rightarrow> None | px # _ \<Rightarrow> Some px)), w')"
      "view (chans w') = taken_ports hs (view (chans w))" "signals w' = signals w"
      by auto
    then show ?thesis using c Nil by (simp add: available_def Let_def)
  next
    case (Cons x xs)
    then show ?thesis using c by (simp add: available_def Let_def)
  qed
qed

lemma fold_pressure [simp]:
  "chans (fold (\<lambda>port. record_input_queue_pressure ops sink ctx port k) hs w) = chans w"
  "signals (fold (\<lambda>port. record_input_queue_pressure ops sink ctx port k) hs w) = signals w"
  by (induction hs arbitrary: w) simp_all

lemma recv_any_finished:
  assumes "finished (view (chans w)) (all_receivers (in_ports q))" "\<not> is_cancelled (signals w) tok"
  shows "\<exists>w'. recv_any ops q tok resumes w =
      (Some (Ok (case available (view (chans w)) (in_ports q) of [] \<Rightarrow> None | px # _ \<Rightarrow> Some px)), w') \<and>
    view (chans w') = taken_ports (in_ports q) (view (chans w)) \<and> signals w' = signals w"
proof (cases "in_ports q = []")
  case True
  then show ?thesis by (simp add: recv_any_def available_def)
next
  case False
  let ?w = "fold (\<lambda>port. record_input_queue_pressure ops (in_sink q) (in_context q) port ReceiveAttempted) (in_ports q) w"
  obtain w' where "poll_ports ops q (in_ports q) 0 (length (in_ports q)) ?w =
      (Some (Ok (case available (view (chans w)) (in_ports q) of [] \<Rightarrow> None | px # _ \<Rightarrow> Some px)), w')"
    "view (chans w') = taken_ports (in_ports q) (view (chans w))" "signals w' = signals w"
    using poll_ports_finished [of ?w "in_ports q" 0] assms(1) by auto
  then show ?thesis
    using False assms(2) by (simp add: recv_any_def recv_any_wait.simps [of _ _ _ _ ?w])
qed

lemma drain_inputs_finished:
  assumes "distinct (all_receivers (in_ports q))" "finished (view (chans w)) (all_receivers (in_ports q))"
    and "\<not> is_cancelled (signals w) tok" "length (available (view (chans w)) (in_ports q)) < length waits"
  shows "\<exists>w'. drain_inputs ops q tok waits b w =
      (Some (Ok (foldl (\<lambda>b (p, x). batch_push p x b) b (available (view (chans w)) (in_ports q)))), w') \<and>
    signals w' = signals w \<and> (\<forall>i. i \<notin> set (all_receivers (in_ports q)) \<longrightarrow> view (chans w') i = view (chans w) i)"
  using assms(2-4)
proof (induction waits arbitrary: b w)
  case Nil
  then show ?case by simp
next
  case step: (Cons resumes waits)
  obtain w1 where w1: "recv_any ops q tok resumes w =
      (Some (Ok (case available (view (chans w)) (in_ports q) of [] \<Rightarrow> None | px # _ \<Rightarrow> Some px)), w1)"
    "view (chans w1) = taken_ports (in_ports q) (view (chans w))" "signals w1 = signals w"
    using recv_any_finished [OF step.prems(1,2)] by blast
  have frame: "view (chans w1) i = view (chans w) i" if "i \<notin> set (all_receivers (in_ports q))" for i
    using that w1(2) by (simp add: taken_ports_frame)
  show ?case
  proof (cases "available (view (chans w)) (in_ports q)")
    case Nil
    then show ?thesis using w1 frame by simp
  next
    case (Cons px xs)
    have "available (view (chans w1)) (in_ports q) = xs"
      using available_taken [OF assms(1), of "view (chans w)"] w1(2) Cons by simp
    with step.IH [of w1 "batch_push (fst px) (snd px) b"] step.prems w1 Cons frame
    show ?thesis by (cases px) (auto simp: finished_taken_ports)
  qed
qed

end

section \<open>Sending a batch\<close>

context bounded_channels
begin

lemma send_batch_output_port_now:
  assumes "find_output outs p = Some h" "out_validator outs = None" "\<not> is_cancelled (signals w) tok"
    and "room_for (length xs) (view (chans w)) h" "length xs \<le> length waits"
  shows "\<exists>w'. send_batch_output_port ops outs tok p xs waits w = (Some (Ok ()), drop (length xs) waits, w') \<and>
    view (chans w') = deliver_all (senders h) xs (view (chans w)) \<and> signals w' = signals w"
  using assms(3-5)
proof (induction xs arbitrary: waits w)
  case Nil
  then show ?case by simp
next
  case (Cons x xs)
  obtain resumes rest where waits: "waits = resumes # rest" using Cons.prems(3) by (cases waits) auto
  have room: "has_room (view (chans w)) h" "room_for (length xs) (deliver (senders h) x (view (chans w))) h"
    using room_for_deliver Cons.prems(2) by auto
  have acc: "packet_accepted outs p x" using assms(2) by (simp add: packet_accepted_def)
  obtain w1 where w1: "send ops outs p x tok resumes w = (Some (Ok ()), w1)"
    "view (chans w1) = deliver (senders h) x (view (chans w))" "signals w1 = signals w"
    using send_now [OF assms(1) Cons.prems(1) room(1) acc, of resumes] by (metis prod.collapse)
  from Cons.IH [of w1 rest] Cons.prems w1 room(2) show ?case by (auto simp: waits)
qed

end

section \<open>The drained batch\<close>

definition drained_batch :: "(nat \<Rightarrow> 'n chan_view) \<Rightarrow> input_port_handle list \<Rightarrow> 'n batch" where
  "drained_batch v hs = foldl (\<lambda>b (p, x). batch_push p x b) new_batch (available v hs)"

lemma mset_bt_insert:
  "bt_ok m \<Longrightarrow> mset (concat (map snd (bt_insert p (xs @ [x]) m))) + mset (case map_of m p of None \<Rightarrow> [] | Some ys \<Rightarrow> ys) =
     add_mset x (mset (concat (map snd m)) + mset xs)"
proof (induction m)
  case (Cons e m)
  obtain q ys where e: "e = (q, ys)" by fastforce
  have q: "bt_ok m" "\<forall>r \<in> fst ` set m. q < r" using Cons.prems by (auto simp: bt_ok_def e)
  then have "map_of m p = None" if "p < q" using that by (force simp: map_of_eq_None_iff)
  with Cons.IH [OF q(1)] show ?case by (auto simp: e)
qed simp

lemma mset_batch_push:
  "bt_ok (packets_by_port b) \<Longrightarrow> mset (all_packets (batch_push p x b)) = add_mset x (mset (all_packets b))"
  using mset_bt_insert [of "packets_by_port b" p "batch_packets b p" x]
  by (simp add: all_packets_def batch_push_def batch_packets_def)

lemma foldl_push:
  assumes "wire_batch jt b" "\<forall>(p, x) \<in> set pxs. valid_identifier (port_id_str p) \<and> wire_packet jt x"
  shows "wire_batch jt (foldl (\<lambda>b (p, x). batch_push p x b) b pxs) \<and>
    mset (all_packets (foldl (\<lambda>b (p, x). batch_push p x b) b pxs)) = mset (all_packets b) + mset (map snd pxs)"
  using assms
proof (induction pxs arbitrary: b)
  case (Cons px pxs)
  obtain p x where px: "px = (p, x)" by fastforce
  have "wire_batch jt (batch_push p x b)" using Cons.prems by (intro wire_batch_push) (auto simp: px)
  moreover have "mset (all_packets (batch_push p x b)) = add_mset x (mset (all_packets b))"
    using Cons.prems(1) by (intro mset_batch_push) (simp add: wire_batch_def)
  ultimately show ?case using Cons.IH [of "batch_push p x b"] Cons.prems(2) by (simp add: px)
qed simp

lemma drained_batch_facts:
  assumes "\<forall>(p, x) \<in> set (available v hs). valid_identifier (port_id_str p) \<and> wire_packet jt x"
  shows "wire_batch jt (drained_batch v hs)"
    and "mset (all_packets (drained_batch v hs)) = mset (map snd (available v hs))"
    and "length (all_packets (drained_batch v hs)) = length (available v hs)"
    and "set (all_packets (drained_batch v hs)) = snd ` set (available v hs)"
proof -
  have "all_packets new_batch = []" by (simp add: all_packets_def new_batch_def)
  then show m: "wire_batch jt (drained_batch v hs)"
    "mset (all_packets (drained_batch v hs)) = mset (map snd (available v hs))"
    using foldl_push [OF wire_batch_new assms] by (simp_all add: drained_batch_def)
  show "length (all_packets (drained_batch v hs)) = length (available v hs)"
    using arg_cong [OF m(2), of size] by simp
  show "set (all_packets (drained_batch v hs)) = snd ` set (available v hs)"
    using arg_cong [OF m(2), of set_mset] by simp
qed

lemma uppercase_batch_ports:
  "packets_by_port (uppercase_batch b) =
     (if all_packets b = [] then [] else [(PortId ''out'', map uppercase_packet (all_packets b))])"
proof -
  have "packets_by_port (foldl (\<lambda>c x. batch_push p x c) c xs) =
      (if xs = [] then packets_by_port c else [(p, ys @ xs)])"
    if "packets_by_port c = (if ys = [] then [] else [(p, ys)])" for p :: port_id and c :: "'a batch" and ys xs
    using that
  proof (induction xs arbitrary: c ys)
    case (Cons x xs)
    have "packets_by_port (batch_push p x c) = (if ys @ [x] = [] then [] else [(p, ys @ [x])])"
      using Cons.prems by (auto simp: batch_push_def batch_packets_def)
    from Cons.IH [OF this] show ?case using Cons.prems by (auto simp: batch_push_def batch_packets_def)
  qed simp
  from this [of new_batch "[]" "PortId ''out''"] show ?thesis
    by (simp add: uppercase_batch_def new_batch_def del: uppercase_packet.simps)
qed

lemma invoke_uppercase:
  assumes "callable wt bc" "runs_uppercase wt bc (to_wit_port_batches jt b)" "wire_batch jt b"
    and "list_all is_bytes (all_packets b)"
  shows "invoke wt jt bc b polls = Ok (uppercase_batch b)"
  using uppercase_invoked [OF assms(1-3), of "[None]" "CancellationToken 0" "replicate polls [None]" "[None]"] assms(4)
  by (simp add: invoke_def token_active_def token_request_def is_cancelled_def)

end
