(* ===== verification/Interleave.thy ===== *)
theory Interleave
  imports PortProps
begin

text \<open>
  Nodes of a run share their edges and take turns.  This theory interleaves the phases of their sends and receives:
  \<open>port_step\<close> is one call of one node, in any order, with permits that stay reserved while others act;
  \<open>pipe_step\<close> is a producer and a consumer on one edge.  Invariants of the reachable states are shown by induction over
  the steps.
\<close>

section \<open>Interleaved phases\<close>

text \<open>
  The permits that are held, and for each channel the packets that have entered and left it.
\<close>

record ('n, 'c, 's) port_state =
  port_world :: "('c, 's) world"
  held :: "('n, 's) send_permit list"
  entered :: "nat \<Rightarrow> 'n port_packet list"
  departed :: "nat \<Rightarrow> 'n port_packet list"

inductive port_step ::
  "('n, 'c) channel_ops \<Rightarrow> ('c \<Rightarrow> nat \<Rightarrow> 'n chan_view) \<Rightarrow> ('n, 'c, 's) port_state \<Rightarrow> ('n, 'c, 's) port_state \<Rightarrow> bool"
  for ops view where
  Reserve: "try_reserve ops p pid (port_world s) = (Ok permit, w) \<Longrightarrow>
    port_step ops view s (s\<lparr>port_world := w, held := permit # held s\<rparr>)"
| Refuse: "try_reserve ops p pid (port_world s) = (Err e, w) \<Longrightarrow> port_step ops view s (s\<lparr>port_world := w\<rparr>)"
| Send: "held s = before @ permit # after \<Longrightarrow> permit_send ops permit x (port_world s) = (r, w) \<Longrightarrow>
    port_step ops view s
      (s\<lparr>port_world := w, held := before @ after,
         entered := (if r = Ok () then \<lambda>i. entered s i @ replicate (count_list (permits permit) i) x else entered s)\<rparr>)"
| Abort: "held s = before @ permit # after \<Longrightarrow>
    port_step ops view s (s\<lparr>port_world := permit_abort ops permit (port_world s), held := before @ after\<rparr>)"
| Receive: "try_recv ops q pid (port_world s) = (r, w) \<Longrightarrow>
    port_step ops view s
      (s\<lparr>port_world := w, departed := \<lambda>i. departed s i @ op_taken (view (chans (port_world s))) i (OpRecv q pid)\<rparr>)"
| Elsewhere: "chans w = chans (port_world s) \<Longrightarrow> port_step ops view s (s\<lparr>port_world := w\<rparr>)"

inductive_cases port_stepE: "port_step ops view s t"

abbreviation state_view :: "('c \<Rightarrow> nat \<Rightarrow> 'n chan_view) \<Rightarrow> ('n, 'c, 's) port_state \<Rightarrow> nat \<Rightarrow> 'n chan_view" where
  "state_view view s \<equiv> view (chans (port_world s))"

text \<open>The slots that the permits in a list hold on a channel.\<close>

definition claims :: "('n, 's) send_permit list \<Rightarrow> nat \<Rightarrow> nat" where
  "claims ps i = (\<Sum>p \<leftarrow> ps. count_list (permits p) i)"

lemma claims_simps [simp]:
  "claims [] i = 0" "claims (p # ps) i = count_list (permits p) i + claims ps i"
  "claims (ps @ qs) i = claims ps i + claims qs i"
  by (simp_all add: claims_def)

definition port_inv :: "('c \<Rightarrow> nat \<Rightarrow> 'n chan_view) \<Rightarrow> ('n, 'c, 's) port_state \<Rightarrow> bool" where
  "port_inv view s \<longleftrightarrow>
     (\<forall>i. cv_reserved (state_view view s i) = claims (held s) i
        \<and> within_capacity (state_view view s i)
        \<and> (0 < claims (held s) i \<longrightarrow> cv_rx_open (state_view view s i))
        \<and> entered s i = departed s i @ cv_queue (state_view view s i))"

definition fresh_state :: "('c \<Rightarrow> nat \<Rightarrow> 'n chan_view) \<Rightarrow> ('n, 'c, 's) port_state \<Rightarrow> bool" where
  "fresh_state view s \<longleftrightarrow>
     held s = [] \<and> (\<forall>i. cv_reserved (state_view view s i) = 0 \<and> within_capacity (state_view view s i)
       \<and> entered s i = cv_queue (state_view view s i) \<and> departed s i = [])"

lemma port_invD:
  assumes "port_inv view s"
  shows "cv_reserved (state_view view s i) = claims (held s) i" "within_capacity (state_view view s i)"
    "0 < claims (held s) i \<Longrightarrow> cv_rx_open (state_view view s i)"
    "entered s i = departed s i @ cv_queue (state_view view s i)"
  using assms by (simp_all add: port_inv_def)

lemma port_invI:
  assumes "\<And>i. cv_reserved (state_view view s i) = claims (held s) i" "\<And>i. within_capacity (state_view view s i)"
    and "\<And>i. 0 < claims (held s) i \<Longrightarrow> cv_rx_open (state_view view s i)"
    and "\<And>i. entered s i = departed s i @ cv_queue (state_view view s i)"
  shows "port_inv view s"
  using assms by (simp add: port_inv_def)

lemma fresh_inv: "fresh_state view s \<Longrightarrow> port_inv view s"
  by (simp add: fresh_state_def port_inv_def)

context bounded_channels
begin

text \<open>A permit of the invariant holds its slots over some view, which is what a commit or an abort gives back.\<close>

lemma held_view:
  assumes "port_inv view s" "permit \<in> set (held s)"
  obtains v where "state_view view s = hold (permits permit) v" "\<And>i. i \<in> set (permits permit) \<Longrightarrow> cv_rx_open (v i)"
    "\<And>i. v i = (state_view view s i)\<lparr>cv_reserved := claims (held s) i - count_list (permits permit) i\<rparr>"
proof
  let ?v = "\<lambda>i. (state_view view s i)\<lparr>cv_reserved := claims (held s) i - count_list (permits permit) i\<rparr>"
  obtain a b where "held s = a @ permit # b" using assms(2) by (auto simp: in_set_conv_decomp)
  then have le: "count_list (permits permit) i \<le> claims (held s) i" for i by simp
  then show "state_view view s = hold (permits permit) ?v"
    using assms(1) by (simp add: hold_def port_inv_def fun_eq_iff)
  fix i
  assume "i \<in> set (permits permit)"
  then have "0 < count_list (permits permit) i" by (metis count_list_0_iff gr0I)
  with le [of i] show "cv_rx_open (?v i)" using assms(1) by (simp add: port_inv_def)
qed simp

lemma permit_send_inv:
  assumes inv: "port_inv view s" and held: "permit \<in> set (held s)"
  shows "state_view view (s\<lparr>port_world := snd (permit_send ops permit x (port_world s))\<rparr>) i =
    (state_view view s i)\<lparr>cv_queue := cv_queue (state_view view s i) @
        (if fst (permit_send ops permit x (port_world s)) = Ok () then replicate (count_list (permits permit) i) x else []),
      cv_reserved := claims (held s) i - count_list (permits permit) i\<rparr>"
proof -
  obtain v where v: "state_view view s = hold (permits permit) v" "\<And>i. i \<in> set (permits permit) \<Longrightarrow> cv_rx_open (v i)"
    "\<And>i. v i = (state_view view s i)\<lparr>cv_reserved := claims (held s) i - count_list (permits permit) i\<rparr>"
    using held_view [OF assms] by blast
  show ?thesis
    using permit_send_view [OF refl v(1,2), of x] by (simp add: deliver_def v(3))
qed

lemma permit_abort_inv:
  assumes "port_inv view s" "permit \<in> set (held s)"
  shows "view (chans (permit_abort ops permit (port_world s))) i =
    (state_view view s i)\<lparr>cv_reserved := claims (held s) i - count_list (permits permit) i\<rparr>"
proof -
  obtain v where v: "state_view view s = hold (permits permit) v" "\<And>i. i \<in> set (permits permit) \<Longrightarrow> cv_rx_open (v i)"
    "\<And>i. v i = (state_view view s i)\<lparr>cv_reserved := claims (held s) i - count_list (permits permit) i\<rparr>"
    using held_view [OF assms] by blast
  have "view (chans (permit_abort ops permit (port_world s))) = v"
    using abort_hold [OF v(1)] by (simp add: permit_abort_def)
  then show ?thesis by (simp only: v(3))
qed

lemma port_step_inv:
  assumes "port_step ops view s t" and inv: "port_inv view s"
  shows "port_inv view t"
  using assms(1)
proof cases
  case (Reserve p pid permit w)
  then obtain h where h: "output_try_reserve ops (out_sink p) (out_validator p) (out_context p) h (port_world s) = (Ok permit, w)"
    by (auto simp: try_reserve_def split: option.splits)
  note ok = output_try_reserve_Ok [OF h]
  have "within_capacity (hold (senders h) (state_view view s) i)
      \<and> (0 < count_list (senders h) i + claims (held s) i \<longrightarrow> cv_rx_open (state_view view s i))" for i
  proof -
    have "count_list (senders h) i = 0 \<or> cv_room (state_view view s i) (count_list (senders h) i)"
      using ok(7) by (auto simp: has_room_def count_list_0_iff)
    then show ?thesis using port_invD(1-3) [OF inv, of i] by (auto simp: hold_def within_capacity_def cv_room_def)
  qed
  then show ?thesis
    using inv ok(1,6) Reserve(1) by (simp add: port_inv_def hold_def)
next
  case (Refuse p pid e w)
  then have "view (chans w) = state_view view s"
    by (auto simp: try_reserve_def split: option.splits dest: output_try_reserve_Err(1))
  with inv Refuse(1) show ?thesis by (simp add: port_inv_def)
next
  case (Send before permit after x r w)
  then have "permit \<in> set (held s)" by simp
  note after_send = permit_send_inv [OF inv this, of x]
  show ?thesis
  proof (rule port_invI)
    fix i
    note D = port_invD [OF inv, of i]
    show "cv_reserved (state_view view t i) = claims (held t) i" "within_capacity (state_view view t i)"
      "0 < claims (held t) i \<Longrightarrow> cv_rx_open (state_view view t i)"
      "entered t i = departed t i @ cv_queue (state_view view t i)"
      using D after_send [of i] Send by (auto simp: within_capacity_def)
  qed
next
  case (Abort before permit after)
  then have "permit \<in> set (held s)" by simp
  note after_abort = permit_abort_inv [OF inv this]
  show ?thesis
  proof (rule port_invI)
    fix i
    note D = port_invD [OF inv, of i]
    show "cv_reserved (state_view view t i) = claims (held t) i" "within_capacity (state_view view t i)"
      "0 < claims (held t) i \<Longrightarrow> cv_rx_open (state_view view t i)"
      "entered t i = departed t i @ cv_queue (state_view view t i)"
      using D after_abort [of i] Abort by (auto simp: within_capacity_def)
  qed
next
  case (Receive q pid r w)
  have w: "w = run_op ops (OpRecv q pid) (port_world s)" using Receive(2) by simp
  have cons: "cv_queue (state_view view s i) = op_taken (state_view view s) i (OpRecv q pid) @ cv_queue (view (chans w) i)" for i
    using op_conservation [of "port_world s" i "OpRecv q pid"] w by simp
  have cap: "within_capacity (view (chans w) i)" for i
    using inv w op_capacity [of "port_world s" i "OpRecv q pid"] by (simp add: port_inv_def)
  have "view (chans w) = snd (recv_port_spec (state_view view s) q pid)"
    using try_recv_refines [of q pid "port_world s"] Receive(2) by (metis snd_conv)
  then have "cv_reserved (view (chans w) i) = cv_reserved (state_view view s i)"
    "cv_rx_open (view (chans w) i) = cv_rx_open (state_view view s i)" for i
    by (auto simp: recv_port_spec_def recv_spec_def split: option.splits)
  with cons cap inv Receive(1) show ?thesis by (auto simp: port_inv_def)
next
  case (Elsewhere w)
  with inv show ?thesis by (simp add: port_inv_def)
qed

lemma reachable_inv:
  assumes "(port_step ops view)\<^sup>*\<^sup>* s t" "fresh_state view s"
  shows "port_inv view t"
  using assms(1)
proof (induction rule: rtranclp_induct)
  case base
  show ?case by (rule fresh_inv [OF assms(2)])
next
  case (step t u)
  then show ?case using port_step_inv by blast
qed

end

section \<open>What holds at every moment\<close>

definition permit_accepts :: "('n, 's) send_permit \<Rightarrow> 'n port_packet \<Rightarrow> bool" where
  "permit_accepts permit x \<longleftrightarrow>
     (case permit_validator permit of None \<Rightarrow> True | Some f \<Rightarrow> f (permit_port permit) x = Ok ())"

text \<open>
  C11: reservations, commits, aborts and receives of different nodes may follow one another in any order.  In every state
  that is reached from one without reservations, the reserved slots of a channel are exactly those of the permits that
  are still held, the queue and the reservations together stay within the capacity, and the packets that entered the
  channel are those that left it followed by those in the queue, so that none is lost, duplicated or reordered.  Whatever
  others did since it was reserved, a permit can still be committed: sending an accepted packet succeeds, appends the
  packet to each of its edges and gives back its reservations and no others.
\<close>

theorem two_phase_interleaving:
  assumes "bounded_channels ops view" and "fresh_state view s" and "(port_step ops view)\<^sup>*\<^sup>* s t"
  shows "cv_reserved (state_view view t i) = claims (held t) i \<and>
    length (cv_queue (state_view view t i)) + cv_reserved (state_view view t i) \<le> cv_capacity (state_view view t i) \<and>
    entered t i = departed t i @ cv_queue (state_view view t i) \<and>
    (permit \<in> set (held t) \<and> permit_accepts permit x \<longrightarrow>
      fst (permit_send ops permit x (port_world t)) = Ok () \<and>
      view (chans (snd (permit_send ops permit x (port_world t)))) i =
        (state_view view t i)\<lparr>cv_queue := cv_queue (state_view view t i) @ replicate (count_list (permits permit) i) x,
          cv_reserved := claims (held t) i - count_list (permits permit) i\<rparr>)"
proof -
  have inv: "port_inv view t" by (rule bounded_channels.reachable_inv [OF assms(1,3,2)])
  have "fst (permit_send ops permit x (port_world t)) = Ok ()" if "permit_accepts permit x"
    using that by (simp add: bounded_channels.permit_send_result [OF assms(1)] permit_accepts_def split: option.splits)
  then show ?thesis
    using port_invD [OF inv, of i] bounded_channels.permit_send_inv [OF assms(1) inv, of permit x i]
    by (simp add: within_capacity_def)
qed

definition sample_state :: "(unit, unit fifo, unit) port_state" where
  "sample_state = \<lparr>port_world = sample_world, held = [], entered = (\<lambda>_. []), departed = (\<lambda>_. [])\<rparr>"

theorem two_phase_interleaving_witness:
  "\<exists>t permit. (port_step fifo_ops fifo_chan)\<^sup>*\<^sup>* sample_state t \<and> held t = [permit] \<and> permits permit = [0, 1] \<and>
     cv_reserved (state_view fifo_chan t 1) = 1 \<and>
     cv_queue (fifo_chan (chans (snd (permit_send fifo_ops permit (sample_packet ''a'') (port_world t)))) 1) =
       cv_queue (state_view fifo_chan t 1) @ [sample_packet ''a'']"
proof -
  have f: "find_output sample_out (PortId ''out'') = Some \<lparr>out_port_id = PortId ''out'', senders = [0, 1]\<rparr>"
    by (simp add: find_output_def sample_out_def ports_out_from_handles_def output_connected_def
        output_append_def bt_modify_def)
  have val: "out_validator sample_out = None" by (simp add: sample_out_def ports_out_from_handles_def)
  obtain permit w where r: "try_reserve fifo_ops sample_out (PortId ''out'') sample_world = (Ok permit, w)"
    by (simp add: try_reserve_def f output_try_reserve_def Let_def sample_world_def fifo_ops_def fifo_upd_def
        cv_room_def empty_view_def)
  let ?t = "sample_state\<lparr>port_world := w, held := permit # held sample_state\<rparr>"
  have "port_step fifo_ops fifo_chan sample_state ?t"
    by (rule Reserve [where p = sample_out and pid = "PortId ''out''"]) (simp add: sample_state_def r)
  then have reach: "(port_step fifo_ops fifo_chan)\<^sup>*\<^sup>* sample_state ?t" by blast
  have ps: "permits permit = [0, 1]" "permit_accepts permit (sample_packet ''a'')"
    using fifo.output_try_reserve_Ok(1,3) [OF r [unfolded try_reserve_def f option.case val]]
    by (simp_all add: permit_accepts_def)
  have fresh: "fresh_state fifo_chan sample_state"
    by (simp add: fresh_state_def sample_state_def sample_world_def empty_view_def within_capacity_def)
  from two_phase_interleaving [OF fifo.bounded_channels_axioms fresh reach, of 1 permit "sample_packet ''a''"]
  have "cv_reserved (fifo_chan (chans w) 1) = 1 \<and>
      cv_queue (fifo_chan (chans (snd (permit_send fifo_ops permit (sample_packet ''a'') w))) 1) =
        cv_queue (fifo_chan (chans w) 1) @ [sample_packet ''a'']"
    using ps by (simp add: sample_state_def)
  then show ?thesis using reach ps by (intro exI [of _ ?t] exI [of _ permit]) (simp add: sample_state_def)
qed

section \<open>A producer and a consumer\<close>

text \<open>
  One node sends the packets of a list, in order, and another receives them, each as soon as it can; a call that is
  refused is made again later and is not a step.
\<close>

inductive pipe_step ::
  "('n, 'c) channel_ops \<Rightarrow> ('n, 's) ports_out \<Rightarrow> port_id \<Rightarrow> ('n, 's) ports_in \<Rightarrow> port_id
   \<Rightarrow> ('c, 's) world \<times> 'n port_packet list \<times> 'n port_packet list
   \<Rightarrow> ('c, 's) world \<times> 'n port_packet list \<times> 'n port_packet list \<Rightarrow> bool"
  for ops p pid q qid where
  Produce: "try_send ops p pid x w = (Ok (), w') \<Longrightarrow> pipe_step ops p pid q qid (w, x # todo, got) (w', todo, got)"
| Consume: "try_recv ops q qid w = (Ok (Some x), w') \<Longrightarrow>
    pipe_step ops p pid q qid (w, todo, got) (w', todo, got @ [x])"

inductive_cases pipe_stepE: "pipe_step ops p pid q qid (w, todo, got) u"

text \<open>The two ports are joined by the edge \<open>i\<close> only, and what is sent is accepted.\<close>

definition joined :: "('n, 's) ports_out \<Rightarrow> port_id \<Rightarrow> ('n, 's) ports_in \<Rightarrow> port_id \<Rightarrow> nat \<Rightarrow> 'n port_packet set \<Rightarrow> bool" where
  "joined p pid q qid i X \<longleftrightarrow>
     find_output p pid = Some \<lparr>out_port_id = pid, senders = [i]\<rparr> \<and>
     find_input q qid = Some \<lparr>in_port_id = qid, receivers = [i]\<rparr> \<and> (\<forall>x \<in> X. packet_accepted p pid x)"

definition open_edge :: "'n chan_view \<Rightarrow> bool" where
  "open_edge v \<longleftrightarrow> cv_rx_open v \<and> cv_reserved v = 0 \<and> 0 < cv_capacity v"

definition pipe_inv ::
  "('c \<Rightarrow> nat \<Rightarrow> 'n chan_view) \<Rightarrow> nat \<Rightarrow> 'n port_packet list
   \<Rightarrow> ('c, 's) world \<times> 'n port_packet list \<times> 'n port_packet list \<Rightarrow> nat \<Rightarrow> bool" where
  "pipe_inv view i xs u k \<longleftrightarrow>
     (case u of (w, todo, got) \<Rightarrow>
        open_edge (view (chans w) i) \<and>
        got @ cv_queue (view (chans w) i) @ todo = xs \<and>
        k + 2 * length todo + length (cv_queue (view (chans w) i)) = 2 * length xs)"

context bounded_channels
begin

lemma pipe_send:
  assumes "joined p pid q qid i X" "x \<in> X" "open_edge (view (chans w) i)"
  shows "fst (try_send ops p pid x w) = Ok () \<longleftrightarrow>
      length (cv_queue (view (chans w) i)) < cv_capacity (view (chans w) i)"
    and "fst (try_send ops p pid x w) = Ok () \<Longrightarrow> view (chans (snd (try_send ops p pid x w))) i =
      (view (chans w) i)\<lparr>cv_queue := cv_queue (view (chans w) i) @ [x]\<rparr>"
  using assms
  by (auto simp: try_send_refines send_ok_def send_spec_def joined_def open_edge_def has_room_def cv_room_def deliver_def)

lemma pipe_recv:
  assumes "joined p pid q qid i X"
  shows "fst (try_recv ops q qid w) = Ok (Some x) \<longleftrightarrow> (\<exists>ys. cv_queue (view (chans w) i) = x # ys)"
    and "cv_queue (view (chans w) i) = x # ys \<Longrightarrow>
      view (chans (snd (try_recv ops q qid w))) i = (view (chans w) i)\<lparr>cv_queue := ys\<rparr>"
  using assms try_recv_refines [of q qid w]
  by (cases "cv_queue (view (chans w) i)"; auto simp: joined_def recv_port_spec_def recv_spec_def split: if_splits)+

lemma pipe_step_inv:
  assumes "pipe_step ops p pid q qid u u'" "joined p pid q qid i (set xs)" "pipe_inv view i xs u k"
  shows "pipe_inv view i xs u' (Suc k)"
  using assms(1)
proof cases
  case (Produce x w w' todo got)
  then have "x \<in> set xs" "open_edge (view (chans w) i)" using assms(3) by (auto simp: pipe_inv_def)
  with pipe_send [OF assms(2) this] Produce assms(3) show ?thesis by (auto simp: pipe_inv_def open_edge_def)
next
  case (Consume w x w' todo got)
  then obtain ys where "cv_queue (view (chans w) i) = x # ys" using pipe_recv(1) [OF assms(2), of w x] by auto
  with pipe_recv(2) [OF assms(2) this] Consume assms(3) show ?thesis by (auto simp: pipe_inv_def open_edge_def)
qed

lemma pipe_run_inv:
  assumes "(pipe_step ops p pid q qid ^^ k) (w, xs, []) u" "joined p pid q qid i (set xs)"
    and "open_edge (view (chans w) i)" "cv_queue (view (chans w) i) = []"
  shows "pipe_inv view i xs u k"
  using assms(1)
proof (induction k arbitrary: u)
  case 0
  then show ?case using assms(3,4) by (auto simp: pipe_inv_def)
next
  case (Suc k)
  then obtain v where "(pipe_step ops p pid q qid ^^ k) (w, xs, []) v" "pipe_step ops p pid q qid v u" by auto
  then show ?case using Suc.IH pipe_step_inv [OF _ assms(2)] by blast
qed

text \<open>A state with a packet to send or to receive has a next step.\<close>

lemma pipe_progress:
  assumes "pipe_inv view i xs (w, todo, got) k" "joined p pid q qid i (set xs)"
  shows "(\<exists>u. pipe_step ops p pid q qid (w, todo, got) u) \<longleftrightarrow> got \<noteq> xs"
proof (cases "cv_queue (view (chans w) i)")
  case Nil
  show ?thesis
  proof (cases todo)
    case Nil
    moreover have "fst (try_recv ops q qid w) \<noteq> Ok (Some x)" for x
      using \<open>cv_queue _ = []\<close> pipe_recv(1) [OF assms(2), of w x] by simp
    ultimately show ?thesis
      using \<open>cv_queue _ = []\<close> assms(1) by (auto simp: pipe_inv_def elim!: pipe_stepE) (metis fst_conv)
  next
    case (Cons x rest)
    then have "x \<in> set xs" "open_edge (view (chans w) i)" using assms(1) by (auto simp: pipe_inv_def)
    from pipe_send(1) [OF assms(2) this] have "fst (try_send ops p pid x w) = Ok ()"
      using \<open>open_edge _\<close> Nil by (simp add: open_edge_def)
    then have "\<exists>u. pipe_step ops p pid q qid (w, todo, got) u"
      using Cons by (metis Produce prod.collapse)
    then show ?thesis using assms(1) Cons by (auto simp: pipe_inv_def)
  qed
next
  case (Cons x ys)
  then have "fst (try_recv ops q qid w) = Ok (Some x)" using pipe_recv(1) [OF assms(2)] by blast
  then have "\<exists>u. pipe_step ops p pid q qid (w, todo, got) u" by (metis Consume prod.collapse)
  then show ?thesis using assms(1) Cons by (auto simp: pipe_inv_def)
qed

end

text \<open>
  C13: a bounded edge between two nodes is live.  A producer sends a list of packets on an edge that starts empty and
  holds at least one packet, and a consumer receives from it, in any interleaving.  After \<open>k\<close> successful calls the
  packets received, those in the queue and those still to be sent are the list, in order; each packet has cost one send
  and one receive, so no run is longer than twice the number of packets; and a state without a next step is exactly one
  in which the consumer has received the whole list.  Hence neither the producer nor the consumer can wait for ever.
\<close>

theorem pipeline_delivers:
  assumes "bounded_channels ops view" and "joined p pid q qid i (set xs)"
    and "open_edge (view (chans w) i)" and "cv_queue (view (chans w) i) = []"
    and "(pipe_step ops p pid q qid ^^ k) (w, xs, []) (w', todo, got)"
  shows "got @ cv_queue (view (chans w') i) @ todo = xs \<and>
    k + 2 * length todo + length (cv_queue (view (chans w') i)) = 2 * length xs \<and>
    ((\<exists>u. pipe_step ops p pid q qid (w', todo, got) u) \<longleftrightarrow> got \<noteq> xs)"
proof -
  have inv: "pipe_inv view i xs (w', todo, got) k"
    by (rule bounded_channels.pipe_run_inv [OF assms(1,5,2,3,4)])
  then show ?thesis using bounded_channels.pipe_progress [OF assms(1) inv assms(2)] by (simp add: pipe_inv_def)
qed

definition pipe_out :: "(unit, unit) ports_out" where
  "pipe_out = ports_out_from_handles [PortId ''out''] [output_connected (PortId ''out'') 0]"

theorem pipeline_delivers_witness:
  "\<exists>u u'. pipe_step fifo_ops pipe_out (PortId ''out'') sample_in (PortId ''in'')
       (sample_world, [sample_packet ''a'', sample_packet ''b''], []) u \<and>
     pipe_step fifo_ops pipe_out (PortId ''out'') sample_in (PortId ''in'') u u'"
proof -
  let ?xs = "[sample_packet ''a'', sample_packet ''b'']"
  let ?step = "pipe_step fifo_ops pipe_out (PortId ''out'') sample_in (PortId ''in'')"
  have "joined pipe_out (PortId ''out'') sample_in (PortId ''in'') 0 UNIV"
    by (simp add: joined_def pipe_out_def sample_in_def find_output_from_handles find_input_from_handles out_links_def
        in_links_def output_connected_def input_connected_def packet_accepted_def)
      (simp add: ports_out_from_handles_def)
  then have "joined pipe_out (PortId ''out'') sample_in (PortId ''in'') 0 (set ?xs)"
    by (auto simp: joined_def)
  moreover have "open_edge (fifo_chan (chans sample_world) 0)" "cv_queue (fifo_chan (chans sample_world) 0) = []"
    by (simp_all add: sample_world_def empty_view_def open_edge_def)
  ultimately have run: "(?step ^^ k) (sample_world, ?xs, []) (w', todo, got) \<Longrightarrow>
      got @ cv_queue (fifo_chan (chans w') 0) @ todo = ?xs \<and>
      k + 2 * length todo + length (cv_queue (fifo_chan (chans w') 0)) = 2 * length ?xs \<and>
      ((\<exists>u. ?step (w', todo, got) u) \<longleftrightarrow> got \<noteq> ?xs)" for k w' todo got
    using pipeline_delivers [OF fifo.bounded_channels_axioms] by blast
  obtain w1 todo1 got1 where u: "?step (sample_world, ?xs, []) (w1, todo1, got1)"
    using run [of 0 sample_world ?xs "[]"] by auto
  then have "(?step ^^ 1) (sample_world, ?xs, []) (w1, todo1, got1)" by (simp add: eq_OO)
  from run [OF this] have "\<exists>u. ?step (w1, todo1, got1) u" by auto
  with u show ?thesis by blast
qed

end
