(* ===== verification/RuleLoading.thy ===== *)
theory RuleLoading
  imports FormatProps RuleProps
begin

text \<open>
  Rule sets that come from a document.  The decoder fills the fields of a \<open>RuleSet\<close> directly, so that a loaded rule set
  has not gone through \<open>RuleSet::new\<close>, which sorts the rules by priority; the evaluator scans them in the order it finds.
\<close>

definition decision_basis ::
  "'n number_ops \<Rightarrow> (f64 \<Rightarrow> string) \<Rightarrow> rule_set \<Rightarrow> 'n packet_payload \<Rightarrow> eval_context \<Rightarrow> (rule_action \<times> string option) option" where
  "decision_basis ops fmt s payload ctx =
     (case evaluate ops fmt s payload ctx of Ok d \<Rightarrow> Some (decision_action d, matched_rule d) | _ \<Rightarrow> None)"

definition basis_of :: "rule option \<Rightarrow> rule_action \<Rightarrow> rule_action \<times> string option" where
  "basis_of r d = (case r of Some r \<Rightarrow> rule_action r | None \<Rightarrow> d, map_option rule_id r)"

lemma first_match_basis:
  assumes "strategy s = FirstMatch"
  shows "decision_basis ops fmt s payload ctx =
    Some (basis_of (List.find (hit (verdict ops payload ctx)) (rules s)) (default_action s))"
  using assms
  by (simp add: decision_basis_def basis_of_def evaluate_def first_match_loop_eq decision_of_def Let_def)

lemma load_workflow_lookup:
  assumes "load_workflow cd fs reg raw = Ok lw" "i < length (raw_nodes raw)"
  shows "resolve_node_rule_set cd fs reg (i, raw_nodes raw ! i) =
    Ok (map_of (loaded_rule_sets lw) (NodeId (raw_node_id (raw_nodes raw ! i))))"
proof -
  have w: "to_workflow raw = Ok (loaded_definition lw)"
    "try_fold (load_node_rule_set cd fs reg) [] (enumerate 0 (raw_nodes raw)) = Ok (loaded_rule_sets lw)"
    using assms(1) by (auto simp: load_workflow_def)
  then show ?thesis using load_fold_lookup [OF w(2) to_workflow_distinct [OF w(1)]] assms(2) by blast
qed

text \<open>
  C14: priorities of a loaded rule set have no effect.  A node of a document that loads and declares a first-match rule set
  gets the rule set with its rules in the order of the document; a packet is decided by the first matching terminal rule
  of the document, whatever the priorities.  The same rules given to \<open>RuleSet::new\<close> decide by the matching terminal rule of
  least priority.
\<close>

theorem loaded_rules_keep_document_order:
  assumes "load_workflow cd fs reg raw = Ok lw" and "i < length (raw_nodes raw)"
    and "raw_rule_set (raw_nodes raw ! i) = Some j" and "rule_set_from_json cd j = Ok s" and "strategy s = FirstMatch"
    and "new_rule_set (rule_set_id s) FirstMatch (rules s) (default_action s) (trace_conditions s) = Ok built"
  shows "map_of (loaded_rule_sets lw) (NodeId (raw_node_id (raw_nodes raw ! i))) = Some s \<and>
    decision_basis ops fmt s payload ctx =
      Some (basis_of (List.find (hit (verdict ops payload ctx)) (rules s)) (default_action s)) \<and>
    decision_basis ops fmt built payload ctx =
      Some (basis_of (best_rule (hit (verdict ops payload ctx)) (rules s)) (default_action s))"
proof -
  have "raw_rule_set_ref (raw_nodes raw ! i) = None"
    using load_workflow_lookup [OF assms(1,2)] assms(3) by (auto split: option.splits)
  then have "map_of (loaded_rule_sets lw) (NodeId (raw_node_id (raw_nodes raw ! i))) = Some s"
    using load_workflow_lookup [OF assms(1,2)] assms(3,4) by simp
  moreover have "strategy built = FirstMatch" "rules built = sort_key rule_priority (rules s)"
    "default_action built = default_action s" using assms(6) by (simp_all add: new_rule_set_Ok_iff)
  ultimately show ?thesis using assms(5) by (simp add: first_match_basis find_sort_key)
qed

text \<open>A document whose second rule has the smaller priority.\<close>

definition unsorted_rules :: rule_set where
  "unsorted_rules = \<lparr>rule_set_id = ''rs'', strategy = FirstMatch,
     rules = [sample_rule ''b'' Always (Halt ''stop'') 2, sample_rule ''a'' Always Drop 1],
     default_action = DeadLetter ''none'', trace_conditions = False\<rparr>"

definition unsorted_codec :: "int codec" where
  "unsorted_codec =
     \<lparr>rule_set_from_json = (\<lambda>j. if j = JBool True then Ok unsorted_rules else Err ''no rule set''),
      rule_set_from_str = (\<lambda>_. Err ''no rule set''), rule_set_to_json = (\<lambda>_. Err ''unknown''),
      document_from_json = (\<lambda>_. Err ''no document''), document_from_toml = (\<lambda>_. Err ''no document''),
      document_from_yaml = (\<lambda>_. Err ''no document''), document_to_json = (\<lambda>_. Err ''no text'')\<rparr>"

definition unsorted_document :: "int raw_workflow_definition" where
  "unsorted_document =
     \<lparr>pureflow_version = Some ''1'', raw_id = ''w'',
      raw_nodes = [\<lparr>raw_node_id = ''a'', raw_inputs = [], raw_outputs = [], raw_rule_set = Some (JBool True),
                    raw_rule_set_ref = None\<rparr>],
      raw_edges = []\<rparr>"

lemma unsorted_document_loads: "\<exists>lw. load_workflow unsorted_codec doc_fs new_source_registry unsorted_document = Ok lw"
proof -
  have "valid_identifier ''w''" "valid_identifier ''a''"
    by (rule valid_identifier_ascii, simp add: ascii_graphic_def byte_def)+
  then have "to_workflow unsorted_document = Ok \<lparr>workflow_def_id = WorkflowId ''w'', workflow_graph =
     \<lparr>graph_nodes = [\<lparr>node_def_id = NodeId ''a'', input_ports = [], output_ports = []\<rparr>], graph_edges = []\<rparr>\<rparr>"
    by (simp add: to_workflow_Ok workflow_ok_def node_ok_def structurally_valid_def edge_relation_def no_parallel_edges_def
        erase_rule_sets_def erase_node_def raw_of_def raw_node_of_def unsorted_document_def CURRENT_PUREFLOW_VERSION_def
        acyclic_def)
  then show ?thesis
    using doc_node_id by (simp add: load_workflow_def load_node_rule_set_def unsorted_document_def unsorted_codec_def)
qed

theorem loaded_rules_keep_document_order_witness:
  "\<exists>lw built. load_workflow unsorted_codec doc_fs new_source_registry unsorted_document = Ok lw \<and>
     map_of (loaded_rule_sets lw) (NodeId ''a'') = Some unsorted_rules \<and>
     new_rule_set ''rs'' FirstMatch (rules unsorted_rules) (DeadLetter ''none'') False = Ok built \<and>
     decision_basis int_ops (\<lambda>_. '''') unsorted_rules sample_payload RuleProps.sample_context = Some (Halt ''stop'', Some ''b'') \<and>
     decision_basis int_ops (\<lambda>_. '''') built sample_payload RuleProps.sample_context = Some (Drop, Some ''a'')"
proof -
  let ?s = unsorted_rules
  obtain lw where lw: "load_workflow unsorted_codec doc_fs new_source_registry unsorted_document = Ok lw"
    using unsorted_document_loads by blast
  obtain built where b: "new_rule_set (rule_set_id ?s) FirstMatch (rules ?s) (default_action ?s) (trace_conditions ?s) = Ok built"
    using sample_not_blank by (auto simp: new_rule_set_Ok_iff unsorted_rules_def)
  have doc: "0 < length (raw_nodes unsorted_document)" "raw_rule_set (raw_nodes unsorted_document ! 0) = Some (JBool True)"
    "rule_set_from_json unsorted_codec (JBool True) = Ok ?s" "strategy ?s = FirstMatch"
    by (simp_all add: unsorted_document_def unsorted_codec_def unsorted_rules_def)
  have "List.find (hit (verdict int_ops sample_payload RuleProps.sample_context)) (rules ?s) =
      Some (sample_rule ''b'' Always (Halt ''stop'') 2)"
    "best_rule (hit (verdict int_ops sample_payload RuleProps.sample_context)) (rules ?s) = Some (sample_rule ''a'' Always Drop 1)"
    by (simp_all add: unsorted_rules_def best_rule_def sample_rule_def)
  with loaded_rules_keep_document_order [OF lw doc b, of int_ops "\<lambda>_. ''''" sample_payload RuleProps.sample_context]
  show ?thesis
    using lw b by (auto simp: basis_of_def sample_rule_def unsorted_document_def unsorted_rules_def)
qed

end
