(* ===== verification/Spec2Isabelle.thy ===== *)
theory Spec2Isabelle
  imports WorkflowProps Contract RuleIntrospect RuleNode FormatProps WasmRuleNode CliRunProps GuestAlloc WitTypes
    UppercaseGuest FsWatcher TestKit JsonlLog BatchNode Interleave RuleLoading
begin

text \<open>
  Verification of Pureflow, a flow-based programming engine in Rust (the crates under \<^verbatim>\<open>src/crates\<close>): nodes with
  named ports are joined by bounded edges into a workflow, each node runs as an asynchronous task, and packets travel
  along the edges.  This theory imports the whole development and holds the property that spans most of it.

  \<^bold>\<open>The program.\<close>  \<^verbatim>\<open>pureflow-types\<close> validates identifiers; \<^verbatim>\<open>pureflow-workflow\<close> builds graphs of
  nodes and edges and refuses broken or cyclic ones; \<^verbatim>\<open>pureflow-workflow-format\<close> reads them, with rule sets bound
  to nodes, from documents.  \<^verbatim>\<open>pureflow-core\<close> has what runs share: contexts, cancellation, packets, errors,
  metadata records and the ports.  \<^verbatim>\<open>pureflow-contract\<close> and \<^verbatim>\<open>pureflow-introspection\<close> compare a
  workflow with the contracts and capabilities of its nodes and describe it.  \<^verbatim>\<open>pureflow-engine\<close> wires the ports
  of a workflow to channels, starts one run of \<^verbatim>\<open>pureflow-runtime\<close> per node, collects the results, and cancels
  the rest after the first error or when its watchdog fires.  Nodes are native executors, the rule nodes of
  \<^verbatim>\<open>pureflow-rules\<close>, the file watcher of \<^verbatim>\<open>pureflow-nodes-fs\<close>, or WebAssembly components behind the
  boundary of \<^verbatim>\<open>pureflow-wasm\<close>, of which the repository has two sample guests.  \<^verbatim>\<open>pureflow-cli\<close> puts the
  parts together, and \<^verbatim>\<open>pureflow-test-kit\<close> has builders and doubles for tests.

  \<^bold>\<open>Shared theories.\<close>
  \<^item> \<open>Prelude\<close>: the type \<open>result\<close> (\<open>Ok\<close>, \<open>Err\<close>, \<open>Panic\<close>) with its combinators, loops that stop at the first error,
    facts on lists; the collections \<open>result_simps\<close> and \<open>id_simps\<close> used by \<open>simp\<close> in the components.
  \<^item> \<open>BTree\<close>: \<^verbatim>\<open>BTreeMap\<close> and \<^verbatim>\<open>BTreeSet\<close> as sorted association lists.  The locale \<open>ordered_map\<close> is their contract,
    interpreted for maps (\<open>btmap\<close>) and sets (\<open>btset\<close>); the locale \<open>dup_checker\<close> is the contract of a scan that
    reports the first repeated key, interpreted for node and port declarations (\<open>dup_nodes\<close>, \<open>dup_ports\<close>), capabilities
    (\<open>dup_effects\<close>, \<open>dup_claims\<close>), contracts (\<open>dup_contract_ports\<close>) and manifests (\<open>dup_components\<close>).
  \<^item> \<open>Digraph\<close>: topological orders, walks and cycles of finite relations, the specification of the graph algorithms.
  \<^item> \<open>Values\<close>: JSON values, 64-bit floats and the text of integers.

  \<^bold>\<open>Workflows.\<close>
  \<^item> \<open>Identifiers\<close> (\<^verbatim>\<open>pureflow-types/src/lib.rs\<close>): the validating constructors of the five identifier types, one
    interpretation of the locale \<open>identifier_type\<close> each.
  \<^item> \<open>Workflow\<close>, \<open>Topology\<close>, \<open>WorkflowProps\<close> (\<^verbatim>\<open>pureflow-workflow/src/lib.rs\<close>): nodes, edges, structural
    validation, Kahn's algorithm with an ordered ready set and the depth-first search for a cycle.  The constructor accepts
    exactly the valid acyclic graphs without parallel edges; the order it finds is the least one; an acyclic graph with
    parallel edges is reported as a cycle.
  \<^item> \<open>Capability\<close> (\<^verbatim>\<open>capability.rs\<close>), \<open>Contract\<close> (\<^verbatim>\<open>pureflow-contract/src/lib.rs\<close>), \<open>Introspect\<close>
    (\<^verbatim>\<open>pureflow-introspection/src/lib.rs\<close>): what the validations accept, exactly, and what a view shows.
  \<^item> \<open>Format\<close>, \<open>FormatProps\<close> (\<^verbatim>\<open>pureflow-workflow-format\<close>): documents, references to rule sets and their sources;
    round trip of workflows, binding of rule sets.

  \<^bold>\<open>Rules.\<close>
  \<^item> \<open>Rules\<close>, \<open>RuleProps\<close> (\<^verbatim>\<open>condition.rs\<close>, \<^verbatim>\<open>action.rs\<close>, \<^verbatim>\<open>rule.rs\<close>, \<^verbatim>\<open>eval.rs\<close>): conditions, rule sets and the three
    strategies, each against a declarative reading; the glob matcher against the meaning of patterns.
  \<^item> \<open>RuleContract\<close> (\<^verbatim>\<open>pureflow-contract/src/rules.rs\<close>): validation of a rule set against its host node, with the
    breadth-first path search; decisions of a validated set fit the ports of the host.
  \<^item> \<open>RuleLoading\<close>: a rule set that is loaded from a document has not gone through the constructor, so that its rules
    are tried in the order of the document.
  \<^item> \<open>RuleIntrospect\<close> (\<^verbatim>\<open>pureflow-introspection/src/rules.rs\<close>): the projection and the analysis of unreachable
    rules, where it is sound and where it is not.

  \<^bold>\<open>Runs.\<close>
  \<^item> \<open>Errors\<close> (\<^verbatim>\<open>error.rs\<close>), \<open>Core\<close> (\<^verbatim>\<open>context.rs\<close>, \<^verbatim>\<open>message.rs\<close>, \<^verbatim>\<open>lifecycle.rs\<close>, \<^verbatim>\<open>batch.rs\<close>), \<open>Metadata\<close> and
    \<open>JsonlLog\<close> (\<^verbatim>\<open>metadata.rs\<close>): shared cancellation flags are an explicit store, so that the sharing of tokens is
    visible; sinks and hooks pass their state; JSON projections and the log can be read back.
  \<^item> \<open>Ports\<close>, \<open>PortProps\<close> (\<^verbatim>\<open>ports.rs\<close>): handles, two-phase sends, receives.  The state is the record \<open>world\<close>:
    channels, sink, cancellation flags.  The locale \<open>bounded_channels\<close> is the documented contract of the channels and
    \<open>chan_view\<close> the abstract edge; sends and receives refine \<open>send_spec\<close> and \<open>recv_spec\<close> over it.  \<open>fifo_ops\<close> is the
    interpretation.  The locale \<open>port_handle\<close> groups the handles of a port, once for outputs and once for inputs.
  \<^item> \<open>Interleave\<close>: step relations over the operations of the ports, for any interleaving of the nodes of a run, with
    invariants of the reachable states and progress of a producer with a consumer.
  \<^item> \<open>LiveChannels\<close>: the locale \<open>live_channels\<close> extends the contract to channels whose senders have ended.
  \<^item> \<open>Runtime\<close> (\<^verbatim>\<open>pureflow-runtime/src/lib.rs\<close>): one node, its lifecycle events and error records.
  \<^item> \<open>Engine\<close>, \<open>EngineProps\<close>, \<open>EngineRun\<close>, \<open>EngineRunProps\<close>, \<open>EngineContracts\<close>, \<open>BatchNode\<close>
    (\<^verbatim>\<open>pureflow-engine/src/lib.rs\<close>): policies, wiring, registries, output contracts, batch nodes, collection of
    results with and without watchdog, and the entry points.  The locale \<open>channel_factory\<close> adds to \<open>bounded_channels\<close>
    that a new channel is fresh; it is interpreted as \<open>fifo_factory\<close>.  Shown: the wiring mirrors the graph, the summary is exact,
    the first error and nothing else cancels the run, and a node with contracts cannot forge packets.

  \<^bold>\<open>Executors.\<close>
  \<^item> \<open>RuleNode\<close> (\<^verbatim>\<open>pureflow-rules/src/node.rs\<close>): every packet goes to the port of its decision and is recorded,
    and how a cancellation while it waits for room loses it although it was recorded as routed.
  \<^item> \<open>FsWatcher\<close> (\<^verbatim>\<open>pureflow-nodes-fs/src/lib.rs\<close>): debouncing, and a step relation for the ticks of a watcher
    at work with the ways it ends.
  \<^item> \<open>WasmBatch\<close>, \<open>WasmBatchProps\<close> (\<^verbatim>\<open>pureflow-wasm/src/lib.rs\<close>), \<open>WasmRules\<close> (\<^verbatim>\<open>rules.rs\<close>), \<open>WasmRuleNode\<close>
    (\<^verbatim>\<open>rules_node.rs\<close>), \<open>WitTypes\<close> (\<^verbatim>\<open>wit/\<close>): values that cross the boundary, their types and round trips.
  \<^item> \<open>RulesGuest\<close>, \<open>RulesGuestProps\<close>, \<open>GuestAlloc\<close>, \<open>UppercaseGuest\<close> (\<^verbatim>\<open>fixtures/\<close>): the sample guests and their
    allocator.  The rule guest agrees with the native evaluator, so that a WebAssembly rule node does with a packet what
    the native one does; the allocator hands out disjoint aligned blocks.
  \<^item> \<open>TestKit\<close> (\<^verbatim>\<open>pureflow-test-kit/src/lib.rs\<close>): what a source double sends arrives at a sink double.
  \<^item> \<open>CliText\<close>, \<open>CliSchema\<close>, \<open>CliInspect\<close>, \<open>CliInspectProps\<close>, \<open>CliRun\<close>, \<open>CliRunProps\<close>
    (\<^verbatim>\<open>pureflow-cli/src/main.rs\<close>): the commands.  A manifest validates exactly when a run can build its registry, and
    a run reports the outcome of its nodes.

  \<^bold>\<open>Parameters.\<close>  Code that is not in the repository is an argument of the definitions that use it: \<open>channel_ops\<close> (the
  channels of asupersync), \<open>wasmtime\<close> and \<open>wasm_host\<close>, \<open>codec\<close>, \<open>json_text\<close> and \<open>json_ops\<close> (serde and its formats),
  \<open>number_ops\<close> (numbers of serde_json), \<open>rule_platform\<close> (printing of floats), \<open>file_system\<close>, \<open>cli_env\<close>, \<open>cli_files\<close>, \<open>run_env\<close>,
  \<open>fs_platform\<close> (notify, paths and the clock).  Properties that rely on such code have its documented behaviour as hypotheses,
  and their witnesses give an instance.

  \<^bold>\<open>Waiting, fuel and bounds.\<close>  What the rest of a run does while a task waits is a list, one entry per resumption; an
  operation that still waits at the end of the list has the value \<open>None\<close>, and the properties that an operation returns say
  which lists are long enough.  In the same way the order in which nodes end, and the timer of the watchdog, are a list of
  observations, over which all properties of runs are quantified.  The evaluator of the rule guest follows indices that
  come from outside and may run for ever, so it is a \<open>partial_function\<close>; it returns on every arena that the host builds.
  Counters saturate at \<open>USIZE_MAX\<close> or wrap at \<open>2 ^ 64\<close> where the code says so, indices of an arena are limited by \<open>2 ^ 32\<close>,
  and the allocator computes on 32-bit words.  The other loops are total functions with their measures.

  \<^bold>\<open>Not modelled.\<close>  The facade crate (re-exports), examples, benchmarks and tests, which only call the modelled crates;
  argument parsing by clap, shell completions and the trace output of the feature \<open>tracing\<close>, which only hand values to
  other packages; Arrow payloads, absent from the default build; the insides of asupersync, Wasmtime, notify and serde;
  \<open>Debug\<close> output, accessors that are selectors of the records here, and the panic handlers of the guests, which trap.
  Memory ordering of the atomics and the locks is not modelled: an operation on a shared flag, a sink or a channel is one
  atomic step, as the code uses them.
\<close>

section \<open>A component in a run\<close>

text \<open>
  C12: the sample component as a node of a run.  The executor that the command line builds for a component is given input
  ports whose senders have ended, with valid packets of bytes, and a port \<open>out\<close> joined by an edge with room for them.
  Then the node ends with success, and the edge holds, after what it held before, every packet that was waiting, in upper
  case and otherwise unchanged, ordered by the identifiers of the ports and then by arrival.  The statement runs through
  the executors of the command line, the batch nodes of the engine, the ports, the encoding of batches, the invocation
  by the host and the guest.
\<close>

theorem wasm_node_uppercases:
  assumes "live_channels ops view" and "callable wt bc"
    and "runs_uppercase wt bc (to_wit_port_batches jt (drained_batch (view (chans w)) (in_ports ins)))"
    and "distinct (all_receivers (in_ports ins))" and "finished (view (chans w)) (all_receivers (in_ports ins))"
    and "\<forall>(p, x) \<in> set (available (view (chans w)) (in_ports ins)). valid_identifier (port_id_str p) \<and> wire_packet jt x \<and> is_bytes x"
    and "find_output outs (PortId ''out'') = Some h" and "senders h = [i]" and "out_validator outs = None"
    and "i \<notin> set (all_receivers (in_ports ins))"
    and "cv_room (view (chans w) i) (length (available (view (chans w)) (in_ports ins)))"
    and "\<not> is_cancelled (signals w) (context_token ctx)"
    and "length (available (view (chans w)) (in_ports ins)) < length waits"
    and "length (available (view (chans w)) (in_ports ins)) \<le> length send_waits"
  shows "\<exists>w'. run_cli_node_executor ops wt jt polls (CliWasm bc) ctx ins outs waits send_waits w = (Some (Ok ()), w') \<and>
    cv_queue (view (chans w') i) =
      cv_queue (view (chans w) i) @ map uppercase_packet (all_packets (drained_batch (view (chans w)) (in_ports ins))) \<and>
    mset (all_packets (drained_batch (view (chans w)) (in_ports ins))) = mset (map snd (available (view (chans w)) (in_ports ins)))"
proof -
  let ?b = "drained_batch (view (chans w)) (in_ports ins)"
  let ?xs = "map uppercase_packet (all_packets ?b)"
  have wire: "\<forall>(p, x) \<in> set (available (view (chans w)) (in_ports ins)). valid_identifier (port_id_str p) \<and> wire_packet jt x"
    using assms(6) by auto
  note b = drained_batch_facts [OF wire]
  obtain w1 where w1: "drain_inputs ops ins (context_token ctx) waits new_batch w = (Some (Ok ?b), w1)"
    "signals w1 = signals w" "view (chans w1) i = view (chans w) i"
    using live_channels.drain_inputs_finished [OF assms(1,4,5,12,13), of new_batch] assms(10)
    by (auto simp: drained_batch_def)
  have "list_all is_bytes (all_packets ?b)" using b(4) assms(6) by (auto simp: list_all_iff simp del: is_bytes.simps)
  then have inv: "invoke wt jt bc ?b polls = Ok (uppercase_batch ?b)" by (rule invoke_uppercase [OF assms(2,3) b(1)])
  have "bounded_channels ops view" using assms(1) by (rule live_channels.axioms(1))
  moreover have "room_for (length ?xs) (view (chans w1)) h" using assms(8,11) w1(3) b(3) by (simp add: room_for_def)
  moreover have "\<not> is_cancelled (signals w1) (context_token ctx)" "length ?xs \<le> length send_waits"
    using assms(12,14) w1(2) b(3) by simp_all
  ultimately obtain w' where "send_batch_output_port ops outs (context_token ctx) (PortId ''out'') ?xs send_waits w1 =
      (Some (Ok ()), drop (length ?xs) send_waits, w')" "view (chans w') = deliver_all [i] ?xs (view (chans w1))"
    using bounded_channels.send_batch_output_port_now [OF _ assms(7,9)] assms(8) by metis
  then have "\<exists>w'. send_batch_outputs ops outs (context_token ctx) (packets_by_port (uppercase_batch ?b)) send_waits w1 =
      (Some (Ok ()), w') \<and> cv_queue (view (chans w') i) = cv_queue (view (chans w) i) @ ?xs"
    using w1(3) by (auto simp: uppercase_batch_ports deliver_all_queue simp del: uppercase_packet.simps)
  then show ?thesis using w1(1) inv b(2) by (auto simp: run_batch_node_executor_def simp del: uppercase_packet.simps)
qed

definition node_in :: "(unit, unit) ports_in" where
  "node_in = ports_in_from_handles [PortId ''in''] [input_connected (PortId ''in'') 0]"

definition node_out :: "(unit, unit) ports_out" where
  "node_out = ports_out_from_handles [PortId ''out''] [output_connected (PortId ''out'') 1]"

definition node_channels :: "nat \<Rightarrow> unit chan_view" where
  "node_channels i =
     (if i = 0 then (empty_view 8)\<lparr>cv_queue := [echo_packet (Bytes ''go!''), echo_packet (Bytes ''x'')], cv_tx_open := False\<rparr>
      else empty_view 8)"

definition node_world :: "(unit fifo, unit) world" where
  "node_world = \<lparr>chans = \<lparr>fifo_next = 2, fifo_chan = node_channels\<rparr>, sink_state = (), signals = [None]\<rparr>"

definition node_runtime :: "unit wasmtime" where
  "node_runtime = uppercase_runtime (to_wit_port_batches null_text (drained_batch node_channels (in_ports node_in)))"

lemma node_ports:
  "in_ports node_in = [\<lparr>in_port_id = PortId ''in'', receivers = [0]\<rparr>]"
  "find_output node_out (PortId ''out'') = Some \<lparr>out_port_id = PortId ''out'', senders = [1]\<rparr>" "out_validator node_out = None"
  by (simp_all add: node_in_def node_out_def find_output_from_handles out_links_def output_connected_def)
    (simp_all add: ports_in_from_handles_def ports_out_from_handles_def input_connected_def)

lemma node_available:
  "available node_channels (in_ports node_in) =
     [(PortId ''in'', echo_packet (Bytes ''go!'')), (PortId ''in'', echo_packet (Bytes ''x''))]"
  by (simp add: available_def node_ports queued_def node_channels_def)

lemma node_batch: "all_packets (drained_batch node_channels (in_ports node_in)) = [echo_packet (Bytes ''go!''), echo_packet (Bytes ''x'')]"
  by (simp add: drained_batch_def node_available batch_push_def batch_packets_def new_batch_def all_packets_def)

lemma echo_packet_wire: "wire_packet null_text (echo_packet (Bytes b))"
  by (simp add: wire_packet_def wire_metadata_def wire_endpoint_def echo_packet_def echo_metadata_def valid_identifier_ascii
      ascii_graphic_def byte_def)

theorem wasm_node_uppercases_witness:
  "\<exists>w'. run_cli_node_executor fifo_ops node_runtime null_text 1 (CliWasm echo_component) router_context node_in node_out
         [[], [], []] [[], []] node_world = (Some (Ok ()), w')
       \<and> cv_queue (fifo_chan (chans w') 1) = [echo_packet (Bytes ''GO!''), echo_packet (Bytes ''X'')]"
proof -
  have world: "fifo_chan (chans node_world) = node_channels" by (simp add: node_world_def)
  have guest: "callable node_runtime echo_component"
    "runs_uppercase node_runtime echo_component
       (to_wit_port_batches null_text (drained_batch (fifo_chan (chans node_world)) (in_ports node_in)))"
    unfolding world node_runtime_def by (rule uppercase_runtime_runs)+
  have inputs: "distinct (all_receivers (in_ports node_in))" "finished (fifo_chan (chans node_world)) (all_receivers (in_ports node_in))"
    "\<forall>(p, x) \<in> set (available (fifo_chan (chans node_world)) (in_ports node_in)).
       valid_identifier (port_id_str p) \<and> wire_packet null_text x \<and> is_bytes x"
    using echo_packet_wire
    by (simp_all add: world node_ports finished_def node_channels_def node_available [unfolded node_ports] valid_identifier_ascii
        ascii_graphic_def byte_def) (simp_all add: echo_packet_def)
  have outputs: "senders \<lparr>out_port_id = PortId ''out'', senders = [1]\<rparr> = [1]" "1 \<notin> set (all_receivers (in_ports node_in))"
    "cv_room (fifo_chan (chans node_world) 1) (length (available (fifo_chan (chans node_world)) (in_ports node_in)))"
    by (simp_all add: world node_ports node_available [unfolded node_ports] node_channels_def cv_room_def empty_view_def)
  have quiet: "\<not> is_cancelled (signals node_world) (context_token router_context)"
    by (simp add: node_world_def is_cancelled_def router_context_def token_request_def)
  have upper: "map uppercase_packet (all_packets (drained_batch node_channels (in_ports node_in))) =
      [echo_packet (Bytes ''GO!''), echo_packet (Bytes ''X'')]"
    by (simp add: node_batch echo_packet_def to_ascii_uppercase_def char_of_eq_iff)
  have "cv_queue (node_channels 1) = []" by (simp add: node_channels_def empty_view_def)
  then show ?thesis
    using wasm_node_uppercases [OF fifo_live.live_channels_axioms guest inputs node_ports(2) outputs(1) node_ports(3)
        outputs(2,3) quiet, of "[[], [], []]" "[[], []]" 1]
    unfolding world upper by (auto simp: node_available)
qed

end
